(* ===== verification/Exo_Prelude.thy ===== *)
theory Exo_Prelude
  imports Main "HOL-Library.Word"
begin

text \<open>
  Shared vocabulary of the development: bytes, the three-valued outcome of a
  Rust call (a value, an error value, or a panic), slices that panic out of
  range, and the little-endian \<open>u32\<close> encoding that every frame uses.
\<close>

section \<open>Collections of rewrite rules\<close>

named_theorems frame_simps \<open>evaluation of frame readers and builders\<close>
named_theorems result_simps \<open>evaluation of outcomes\<close>

section \<open>Bytes\<close>

type_synonym byte = "8 word"
type_synonym bytes = "byte list"

section \<open>Outcomes\<close>

text \<open>
  \<open>Ok\<close> and \<open>Err\<close> are the two cases of Rust's \<open>Result\<close>; \<open>Panic\<close> is a call that
  does not return because a slice index, an \<open>expect\<close> or a checked subtraction failed.
\<close>

datatype ('e, 'a) result = Ok 'a | Err 'e | Panic

fun and_then :: "('e, 'a) result \<Rightarrow> ('a \<Rightarrow> ('e, 'b) result) \<Rightarrow> ('e, 'b) result" where
  "and_then (Ok x) f = f x"
| "and_then (Err e) f = Err e"
| "and_then Panic f = Panic"

fun map_err :: "('e \<Rightarrow> 'f) \<Rightarrow> ('e, 'a) result \<Rightarrow> ('f, 'a) result" where
  "map_err g (Ok x) = Ok x"
| "map_err g (Err e) = Err (g e)"
| "map_err g Panic = Panic"

fun ok_or :: "'e \<Rightarrow> 'a option \<Rightarrow> ('e, 'a) result" where
  "ok_or e None = Err e"
| "ok_or e (Some x) = Ok x"

fun expect :: "'a option \<Rightarrow> ('e, 'a) result" where
  "expect None = Panic"
| "expect (Some x) = Ok x"

fun is_ok :: "('e, 'a) result \<Rightarrow> bool" where
  "is_ok (Ok x) = True"
| "is_ok (Err e) = False"
| "is_ok Panic = False"

lemma and_then_cong [fundef_cong]:
  "m = m' \<Longrightarrow> (\<And>x. m' = Ok x \<Longrightarrow> f x = f' x) \<Longrightarrow> and_then m f = and_then m' f'"
  by (cases m) auto

lemma and_then_eq_Ok [result_simps]:
  "and_then m f = Ok y \<longleftrightarrow> (\<exists>x. m = Ok x \<and> f x = Ok y)"
  by (cases m) auto

lemma and_then_assoc:
  "and_then (and_then m f) g = and_then m (\<lambda>x. and_then (f x) g)"
  by (cases m) auto

lemma and_then_eq_Err [result_simps]:
  "and_then m f = Err e \<longleftrightarrow> m = Err e \<or> (\<exists>x. m = Ok x \<and> f x = Err e)"
  by (cases m) auto

lemma map_err_eq_Ok [result_simps]: "map_err g m = Ok x \<longleftrightarrow> m = Ok x"
  by (cases m) auto

lemma ok_or_eq_Ok [result_simps]: "ok_or e m = Ok x \<longleftrightarrow> m = Some x"
  by (cases m) auto

lemma expect_eq_Ok [result_simps]: "expect m = Ok x \<longleftrightarrow> m = Some x"
  by (cases m) auto

lemma is_ok_iff [result_simps]: "is_ok m \<longleftrightarrow> (\<exists>x. m = Ok x)"
  by (cases m) auto

section \<open>Slices\<close>

text \<open>\<open>&d[a..b]\<close>: panics unless \<open>a \<le> b \<le> d.len()\<close>.\<close>

definition slice :: "'a list \<Rightarrow> nat \<Rightarrow> nat \<Rightarrow> ('e, 'a list) result" where
  "slice d a b = (if a \<le> b \<and> b \<le> length d then Ok (take (b - a) (drop a d)) else Panic)"

lemma slice_Ok_iff [result_simps]:
  "slice d a b = Ok s \<longleftrightarrow> a \<le> b \<and> b \<le> length d \<and> s = take (b - a) (drop a d)"
  by (auto simp: slice_def)

lemma slice_prefix [simp]: "b = length p \<Longrightarrow> slice (p @ r) 0 b = Ok p"
  by (simp add: slice_def)

lemma slice_infix [simp]:
  "a = length p \<Longrightarrow> b = length p + length q \<Longrightarrow> slice (p @ q @ r) a b = Ok q"
  by (simp add: slice_def)

lemma slice_suffix [simp]:
  "a = length p \<Longrightarrow> b = length p + length q \<Longrightarrow> slice (p @ q) a b = Ok q"
  by (simp add: slice_def)

text \<open>An end of a range of indices or keys (\<open>std::ops::Bound\<close>).\<close>

datatype 'k bound = Included 'k | Excluded 'k | Unbounded

section \<open>Little-endian integers\<close>

text \<open>
  \<open>write_u32::<LittleEndian>(n as u32)\<close>: the cast drops the bits above \<open>2 ^ 32\<close>,
  which the four byte casts below do digit by digit.
\<close>

definition write_u32 :: "nat \<Rightarrow> bytes" where
  "write_u32 n =
     [word_of_nat n, word_of_nat (n div 256), word_of_nat (n div 65536),
      word_of_nat (n div 16777216)]"

text \<open>\<open>read_u32\<close> on a slice; \<open>None\<close> is the \<open>UnexpectedEof\<close> error.\<close>

fun read_u32 :: "bytes \<Rightarrow> nat option" where
  "read_u32 (a # b # c # d # r) =
     Some (unat a + 256 * unat b + 65536 * unat c + 16777216 * unat d)"
| "read_u32 _ = None"

lemma length_write_u32 [simp]: "length (write_u32 n) = 4"
  by (simp add: write_u32_def)

lemma unat_byte_of_nat [simp]: "unat (word_of_nat n :: byte) = n mod 256"
  by (simp add: unat_of_nat)

lemma digits_u32:
  "n mod 256 + 256 * (n div 256 mod 256) + 65536 * (n div 65536 mod 256)
     + 16777216 * (n div 16777216 mod 256) = n mod (2 ^ 32 :: nat)"
proof -
  have a: "n mod (256 * 256) = 256 * (n div 256 mod 256) + n mod 256"
    by (rule mod_mult2_eq)
  have b: "n mod (65536 * 256) = 65536 * (n div 65536 mod 256) + n mod 65536"
    by (rule mod_mult2_eq)
  have c: "n mod (16777216 * 256) = 16777216 * (n div 16777216 mod 256) + n mod 16777216"
    by (rule mod_mult2_eq)
  from a b c show ?thesis by simp
qed

lemma read_write_u32: "read_u32 (write_u32 n @ r) = Some (n mod 2 ^ 32)"
  using digits_u32 [of n] by (simp add: write_u32_def)

lemma read_write_u32_small [frame_simps]:
  "n < 2 ^ 32 \<Longrightarrow> read_u32 (write_u32 n @ r) = Some n"
  by (simp add: read_write_u32)

lemma read_write_u32_small_Nil [frame_simps]:
  "n < 2 ^ 32 \<Longrightarrow> read_u32 (write_u32 n) = Some n"
  using read_write_u32_small [of n "[]"] by simp

lemma read_u32_None_iff: "read_u32 d = None \<longleftrightarrow> length d < 4"
  by (cases d rule: read_u32.cases) auto

lemma read_u32_bound: "read_u32 d = Some n \<Longrightarrow> n < 2 ^ 32"
proof (cases d rule: read_u32.cases)
  case (1 a b c d' r)
  assume "read_u32 d = Some n"
  with 1 have n: "n = unat a + 256 * unat b + 65536 * unat c + 16777216 * unat d'" by simp
  have "unat a < 256" "unat b < 256" "unat c < 256" "unat d' < 256"
    using unsigned_less [of a] unsigned_less [of b] unsigned_less [of c] unsigned_less [of d'] by auto
  with n show ?thesis by simp
qed auto

text \<open>A slice of a longer buffer, replaced in place.\<close>

definition overwrite :: "'a list \<Rightarrow> nat \<Rightarrow> 'a list \<Rightarrow> 'a list" where
  "overwrite d i s = take i d @ s @ drop (i + length s) d"

lemma length_overwrite [simp]:
  "i + length s \<le> length d \<Longrightarrow> length (overwrite d i s) = length d"
  by (simp add: overwrite_def)

section \<open>Operations on a state\<close>

text \<open>
  A call that may change the state it is given and may fail: the state after the call is
  kept on an error too, since a failed call may already have changed it.
\<close>

type_synonym ('s, 'e, 'a) sop = "'s \<Rightarrow> ('e, 'a) result \<times> 's"

definition sreturn :: "'a \<Rightarrow> ('s, 'e, 'a) sop" where
  "sreturn x s = (Ok x, s)"

definition slift :: "('e, 'a) result \<Rightarrow> ('s, 'e, 'a) sop" where
  "slift r s = (r, s)"

definition sbind :: "('s, 'e, 'a) sop \<Rightarrow> ('a \<Rightarrow> ('s, 'e, 'b) sop) \<Rightarrow> ('s, 'e, 'b) sop" where
  "sbind m f s =
     (case m s of
        (Ok x, s') \<Rightarrow> f x s'
      | (Err e, s') \<Rightarrow> (Err e, s')
      | (Panic, s') \<Rightarrow> (Panic, s'))"

lemma sbind_simps [simp]:
  "m s = (Ok x, s') \<Longrightarrow> sbind m f s = f x s'"
  "m s = (Err e, s') \<Longrightarrow> sbind m f s = (Err e, s')"
  "m s = (Panic, s') \<Longrightarrow> sbind m f s = (Panic, s')"
  by (simp_all add: sbind_def)

lemma sreturn_apply [simp]: "sreturn x s = (Ok x, s)"
  by (simp add: sreturn_def)

lemma slift_apply [simp]: "slift r s = (r, s)"
  by (simp add: slift_def)

lemma sbind_cong [fundef_cong]:
  "m s = m' s' \<Longrightarrow> (\<And>x s''. m' s' = (Ok x, s'') \<Longrightarrow> f x s'' = f' x s'') \<Longrightarrow> sbind m f s = sbind m' f' s'"
  by (auto simp: sbind_def split: prod.split result.split)

section \<open>Decimal numerals\<close>

text \<open>\<open>format!("{}", n)\<close>.\<close>

fun show_nat :: "nat \<Rightarrow> string" where
  "show_nat n = (if n < 10 then [char_of (48 + n)] else show_nat (n div 10) @ [char_of (48 + n mod 10)])"

declare show_nat.simps [simp del]

definition read_nat :: "string \<Rightarrow> nat" where
  "read_nat s = foldl (\<lambda>a c. 10 * a + (of_char c - 48)) 0 s"

lemma of_char_digit [simp]:
  assumes "d < 10"
  shows "of_char (char_of (48 + d)) - 48 = (d :: nat)"
proof -
  have "(48 + d) mod 256 = 48 + d" using assms by simp
  then show ?thesis unfolding of_char_of by simp
qed

lemma read_show_nat: "read_nat (show_nat n) = n"
proof (induction n rule: show_nat.induct)
  case (1 n)
  then show ?case
    by (subst show_nat.simps) (simp add: read_nat_def)
qed

lemma show_nat_inject [simp]: "show_nat m = show_nat n \<longleftrightarrow> m = n"
  by (metis read_show_nat)

end
