(* ===== verification/Exo_Framing.thy ===== *)
theory Exo_Framing
  imports Exo_Prelude
begin

text \<open>
  The frame layer, \<open>core/src/framing\<close>. A frame reader wraps another reader and
  narrows the bytes it exposes; a frame builder wraps another builder and adds bytes
  around what it writes. Readers and builders are trees with one constructor per
  Rust type, so the trait methods are recursive functions on them.
  Third-party code is a parameter: the SHA3-256 multihash of a byte string, and the
  decoding of a multihash.
\<close>

section \<open>Errors and size checks\<close>

datatype framing_error =
    Io
  | DestinationTooSmall nat nat
  | SourceTooSmall nat nat
  | OffsetSubtract nat nat
  | CapnpError
  | MultihashError

definition check_into_size :: "nat \<Rightarrow> bytes \<Rightarrow> (framing_error, unit) result" where
  "check_into_size needed into =
     (if length into < needed then Err (DestinationTooSmall needed (length into)) else Ok ())"

definition check_from_size :: "nat \<Rightarrow> bytes \<Rightarrow> (framing_error, unit) result" where
  "check_from_size needed from =
     (if length from < needed then Err (SourceTooSmall needed (length from)) else Ok ())"

definition check_offset_subtract :: "nat \<Rightarrow> nat \<Rightarrow> (framing_error, unit) result" where
  "check_offset_subtract offset sub_offset =
     (if sub_offset > offset then Err (OffsetSubtract offset sub_offset) else Ok ())"

section \<open>The multihash of a byte string\<close>

text \<open>
  \<open>Sha3_256\<close> and \<open>Multihash\<close> come from other crates: \<open>digest\<close> stands for feeding the
  bytes to a fresh hasher and writing the resulting multihash, \<open>mh_decode\<close> for
  \<open>Multihash::from_bytes\<close> (a multihash is represented by its encoding), \<open>mh_default\<close>
  for \<open>Multihash::default()\<close>. The code relies on the encoding of a SHA3-256 multihash
  taking \<open>multihash_size\<close> bytes and on decoding what was encoded.
\<close>

record hash_lib =
  digest :: "bytes \<Rightarrow> bytes"
  mh_decode :: "bytes \<Rightarrow> bytes option"
  mh_default :: bytes

definition multihash_size :: nat where
  "multihash_size = 2 + 32"

definition hash_lib_ok :: "('h) hash_lib_scheme \<Rightarrow> bool" where
  "hash_lib_ok H \<longleftrightarrow>
     (\<forall>d. length (digest H d) = multihash_size) \<and>
     (\<forall>d. mh_decode H (digest H d) = Some (digest H d))"

section \<open>Frame readers\<close>

datatype frame =
    RawFrame bytes
  | SizedFrame frame nat nat
  | PaddedFrame frame nat
  | MultihashFrame frame
  | CompoundSide frame nat bool
  | CapnpFrame frame

text \<open>What each frame exposes of the data \<open>d\<close> its inner frame exposes.\<close>

definition exposed_data_sized :: "nat \<Rightarrow> nat \<Rightarrow> bytes \<Rightarrow> (framing_error, bytes) result" where
  [simp]: "exposed_data_sized offset inner_size d = slice d (offset + 4) (offset + 4 + inner_size)"

definition exposed_data_padded :: "nat \<Rightarrow> bytes \<Rightarrow> (framing_error, bytes) result" where
  [simp]: "exposed_data_padded padding_size d =
     (if length d < 4 + padding_size then Panic
      else slice d 0 (length d - 4 - padding_size))"

definition exposed_data_multihash :: "bytes \<Rightarrow> (framing_error, bytes) result" where
  [simp]: "exposed_data_multihash d =
     (if length d < multihash_size then Panic
      else slice d 0 (length d - multihash_size))"

definition exposed_data_compound :: "nat \<Rightarrow> bool \<Rightarrow> bytes \<Rightarrow> (framing_error, bytes) result" where
  [simp]: "exposed_data_compound offset_right left d =
     (if left then slice d 0 offset_right
      else if length d < 4 then Panic
      else slice d offset_right (length d - 4))"

fun exposed_data :: "frame \<Rightarrow> (framing_error, bytes) result" where
  "exposed_data (RawFrame d) = Ok d"
| "exposed_data (SizedFrame inner offset inner_size) =
     and_then (exposed_data inner) (exposed_data_sized offset inner_size)"
| "exposed_data (PaddedFrame inner padding_size) =
     and_then (exposed_data inner) (exposed_data_padded padding_size)"
| "exposed_data (MultihashFrame inner) = and_then (exposed_data inner) exposed_data_multihash"
| "exposed_data (CompoundSide inner offset_right left) =
     and_then (exposed_data inner) (exposed_data_compound offset_right left)"
| "exposed_data (CapnpFrame inner) = exposed_data inner"

definition whole_data_sized :: "nat \<Rightarrow> nat \<Rightarrow> bytes \<Rightarrow> (framing_error, bytes) result" where
  [simp]: "whole_data_sized offset inner_size d = slice d offset (offset + inner_size + 8)"

fun whole_data :: "frame \<Rightarrow> (framing_error, bytes) result" where
  "whole_data (RawFrame d) = Ok d"
| "whole_data (SizedFrame inner offset inner_size) =
     and_then (whole_data inner) (whole_data_sized offset inner_size)"
| "whole_data (PaddedFrame inner padding_size) = whole_data inner"
| "whole_data (MultihashFrame inner) = whole_data inner"
| "whole_data (CompoundSide inner offset_right left) = whole_data inner"
| "whole_data (CapnpFrame inner) = whole_data inner"

definition whole_data_size :: "frame \<Rightarrow> (framing_error, nat) result" where
  "whole_data_size f = and_then (whole_data f) (\<lambda>d. Ok (length d))"

definition copy_into :: "frame \<Rightarrow> bytes \<Rightarrow> (framing_error, bytes \<times> nat) result" where
  "copy_into f into =
     and_then (whole_data f) (\<lambda>w.
     and_then (check_into_size (length w) into) (\<lambda>_.
       Ok (overwrite into 0 w, length w)))"

text \<open>
  \<open>to_owned_frame\<close> of a sized frame copies the bytes of the whole frame and keeps the
  offset the frame had in its source.
\<close>

fun to_owned_frame :: "frame \<Rightarrow> (framing_error, frame) result" where
  "to_owned_frame (RawFrame d) = Ok (RawFrame d)"
| "to_owned_frame (SizedFrame inner offset inner_size) =
     and_then (whole_data (SizedFrame inner offset inner_size)) (\<lambda>d.
       Ok (SizedFrame (RawFrame d) offset inner_size))"
| "to_owned_frame (PaddedFrame inner padding_size) =
     and_then (to_owned_frame inner) (\<lambda>i. Ok (PaddedFrame i padding_size))"
| "to_owned_frame (MultihashFrame inner) =
     and_then (to_owned_frame inner) (\<lambda>i. Ok (MultihashFrame i))"
| "to_owned_frame (CompoundSide inner offset_right left) =
     and_then (exposed_data (CompoundSide inner offset_right left)) (\<lambda>d. Ok (RawFrame d))"
| "to_owned_frame (CapnpFrame inner) =
     and_then (to_owned_frame inner) (\<lambda>i. Ok (CapnpFrame i))"

subsection \<open>Reading a frame\<close>

definition sized_new :: "frame \<Rightarrow> (framing_error, frame) result" where
  "sized_new inner =
     and_then (exposed_data inner) (\<lambda>inner_data.
     and_then (check_from_size 4 inner_data) (\<lambda>_.
     and_then (ok_or Io (read_u32 inner_data)) (\<lambda>inner_size.
     and_then (check_from_size (4 + inner_size) (drop 4 inner_data)) (\<lambda>_.
       Ok (SizedFrame inner 0 inner_size)))))"

definition sized_new_from_next_offset :: "frame \<Rightarrow> nat \<Rightarrow> (framing_error, frame) result" where
  "sized_new_from_next_offset inner next_offset =
     and_then (exposed_data inner) (\<lambda>inner_data.
     and_then (check_offset_subtract next_offset 4) (\<lambda>_.
     and_then (check_from_size (next_offset - 4) inner_data) (\<lambda>_.
     and_then (ok_or Io (read_u32 (drop (next_offset - 4) inner_data))) (\<lambda>inner_size.
     and_then (check_offset_subtract next_offset (4 + inner_size + 4)) (\<lambda>_.
       Ok (SizedFrame inner (next_offset - (4 + inner_size + 4)) inner_size))))))"

text \<open>\<open>SizedFrame::size\<close>, defined on sized frames only.\<close>

fun sized_size :: "frame \<Rightarrow> nat" where
  "sized_size (SizedFrame inner offset inner_size) = inner_size + 4 + 4"
| "sized_size _ = 0"

definition sized_new_from_reader :: "bytes \<Rightarrow> (framing_error, frame \<times> bytes) result" where
  "sized_new_from_reader reader =
     and_then (ok_or Io (read_u32 reader)) (\<lambda>inner_size.
       let rest = drop 4 reader in
       if length rest < inner_size + 4 then Err Io
       else Ok (SizedFrame (RawFrame (write_u32 inner_size @ take (inner_size + 4) rest)) 0 inner_size,
                drop (inner_size + 4) rest))"

definition padded_new :: "frame \<Rightarrow> (framing_error, frame) result" where
  "padded_new inner =
     and_then (exposed_data inner) (\<lambda>d.
     and_then (check_from_size 4 d) (\<lambda>_.
     and_then (ok_or Io (read_u32 (drop (length d - 4) d))) (\<lambda>padding_size.
     and_then (check_from_size (4 + padding_size) d) (\<lambda>_.
       Ok (PaddedFrame inner padding_size)))))"

definition multihash_new :: "frame \<Rightarrow> (framing_error, frame) result" where
  "multihash_new inner =
     and_then (exposed_data inner) (\<lambda>d.
     and_then (check_from_size multihash_size d) (\<lambda>_. Ok (MultihashFrame inner)))"

fun multihash_bytes :: "frame \<Rightarrow> (framing_error, bytes) result" where
  "multihash_bytes (MultihashFrame inner) =
     and_then (exposed_data inner) (\<lambda>d.
       if length d < multihash_size then Panic
       else slice d (length d - multihash_size) (length d))"
| "multihash_bytes _ = Panic"

definition multihash_verify :: "('h) hash_lib_scheme \<Rightarrow> frame \<Rightarrow> (framing_error, bool) result" where
  "multihash_verify H f =
     and_then (exposed_data f) (\<lambda>d.
     and_then (multihash_bytes f) (\<lambda>m.
     and_then (ok_or MultihashError (mh_decode H m)) (\<lambda>frame_multihash.
       Ok (digest H d = frame_multihash))))"

text \<open>\<open>CompoundFrame::new\<close>: the frame is represented by its inner reader and \<open>offset_right\<close>.\<close>

definition compound_new :: "frame \<Rightarrow> (framing_error, frame \<times> nat) result" where
  "compound_new inner =
     and_then (exposed_data inner) (\<lambda>d.
     and_then (check_from_size 4 d) (\<lambda>_.
     and_then (ok_or Io (read_u32 (drop (length d - 4) d))) (\<lambda>offset_right.
       Ok (inner, offset_right))))"

definition reader_left :: "frame \<times> nat \<Rightarrow> frame" where
  "reader_left c = CompoundSide (fst c) (snd c) True"

definition reader_right :: "frame \<times> nat \<Rightarrow> frame" where
  "reader_right c = CompoundSide (fst c) (snd c) False"

section \<open>Frame builders\<close>

text \<open>
  \<open>CapnpBuilder m\<close> is a Cap'n Proto builder whose serialised message is \<open>m\<close>; like the
  Rust one it does not know its size before it is written.
\<close>

datatype builder =
    BytesBuilder bytes
  | CapnpBuilder bytes
  | SizedBuilder builder
  | PaddedBuilder builder nat
  | MultihashBuilder builder
  | CompoundBuilder builder builder

fun expected_size :: "builder \<Rightarrow> nat option" where
  "expected_size (BytesBuilder d) = Some (length d)"
| "expected_size (CapnpBuilder m) = None"
| "expected_size (SizedBuilder inner) = map_option (\<lambda>n. n + 8) (expected_size inner)"
| "expected_size (PaddedBuilder inner minimum_size) =
     map_option (\<lambda>n. if n < minimum_size then minimum_size + 4 else n + 4) (expected_size inner)"
| "expected_size (MultihashBuilder inner) =
     map_option (\<lambda>n. n + multihash_size) (expected_size inner)"
| "expected_size (CompoundBuilder left right) =
     (case expected_size left of None \<Rightarrow> None
      | Some l \<Rightarrow> map_option (\<lambda>r. l + r + 4) (expected_size right))"

text \<open>
  The bytes appended to the writer, and the size that is returned; one definition per
  builder, over the outcome \<open>w\<close> of its inner builder.
\<close>

definition write_to_sized :: "nat option \<Rightarrow> bytes \<times> nat \<Rightarrow> bytes \<times> nat" where
  [simp]: "write_to_sized inner_expected w =
     (case inner_expected of
        Some inner_size \<Rightarrow>
          (write_u32 inner_size @ fst w @ write_u32 inner_size, 4 + inner_size + 4)
      | None \<Rightarrow>
          (let buffer = fst w in
           (write_u32 (length buffer) @ buffer @ write_u32 (length buffer), 4 + length buffer + 4)))"

definition write_to_padded :: "nat \<Rightarrow> bytes \<times> nat \<Rightarrow> bytes \<times> nat" where
  [simp]: "write_to_padded minimum_size w =
     (let (w, inner_size) = w;
          padding_size = (if inner_size < minimum_size then minimum_size - inner_size else 0)
      in (w @ replicate padding_size 0 @ write_u32 padding_size, inner_size + padding_size + 4))"

definition write_to_multihash :: "('h) hash_lib_scheme \<Rightarrow> bytes \<times> nat \<Rightarrow> bytes \<times> nat" where
  [simp]: "write_to_multihash H w =
     (let buffer = fst w in (buffer @ digest H buffer, length buffer + multihash_size))"

definition write_to_compound :: "bytes \<times> nat \<Rightarrow> bytes \<times> nat \<Rightarrow> bytes \<times> nat" where
  [simp]: "write_to_compound left right =
     (let (l, left_size) = left; (r, right_size) = right in
      (l @ r @ write_u32 left_size, left_size + right_size + 4))"

fun write_to :: "('h) hash_lib_scheme \<Rightarrow> builder \<Rightarrow> bytes \<times> nat" where
  "write_to H (BytesBuilder d) = (d, length d)"
| "write_to H (CapnpBuilder m) = (m, length m)"
| "write_to H (SizedBuilder inner) = write_to_sized (expected_size inner) (write_to H inner)"
| "write_to H (PaddedBuilder inner minimum_size) = write_to_padded minimum_size (write_to H inner)"
| "write_to H (MultihashBuilder inner) = write_to_multihash H (write_to H inner)"
| "write_to H (CompoundBuilder left right) = write_to_compound (write_to H left) (write_to H right)"

definition as_bytes :: "('h) hash_lib_scheme \<Rightarrow> builder \<Rightarrow> bytes" where
  "as_bytes H b = fst (write_to H b)"

text \<open>\<open>write_u32\<close> into a slice: an error when fewer than four bytes are left.\<close>

definition put_u32 :: "bytes \<Rightarrow> nat \<Rightarrow> nat \<Rightarrow> (framing_error, bytes) result" where
  "put_u32 into i n =
     (if length into < i then Panic
      else if length into < i + 4 then Err Io
      else Ok (overwrite into i (write_u32 n)))"

text \<open>
  \<open>write_into\<close>: the buffer after the call, and the size that is returned; \<open>w\<close> is
  \<open>write_into\<close> of the inner builder.
\<close>

type_synonym into_writer = "bytes \<Rightarrow> (framing_error, bytes \<times> nat) result"

definition write_into_bytes :: "bytes \<Rightarrow> into_writer" where
  [simp]: "write_into_bytes d into =
     and_then (check_into_size (length d) into) (\<lambda>_. Ok (overwrite into 0 d, length d))"

definition write_into_capnp :: "bytes \<Rightarrow> into_writer" where
  [simp]: "write_into_capnp m into =
     and_then (check_into_size (length m) into) (\<lambda>_. Ok (overwrite into 0 m, length m))"

definition write_into_sized :: "into_writer \<Rightarrow> into_writer" where
  [simp]: "write_into_sized w into =
     and_then (check_into_size 8 into) (\<lambda>_.
     and_then (w (drop 4 into)) (\<lambda>(sub, inner_size).
     and_then (put_u32 (take 4 into @ sub) 0 inner_size) (\<lambda>into1.
     and_then (check_into_size (inner_size + 8) into1) (\<lambda>_.
     and_then (put_u32 into1 (4 + inner_size) inner_size) (\<lambda>into2.
       Ok (into2, inner_size + 8))))))"

definition write_into_padded :: "nat \<Rightarrow> into_writer \<Rightarrow> into_writer" where
  [simp]: "write_into_padded minimum_size w into =
     and_then (w into) (\<lambda>(into1, inner_size).
     and_then
       (if inner_size < minimum_size
        then and_then (check_into_size (inner_size + (minimum_size - inner_size)) into1) (\<lambda>_.
               Ok (overwrite into1 inner_size (replicate (minimum_size - inner_size) 0),
                   minimum_size - inner_size))
        else Ok (into1, 0)) (\<lambda>(into2, padding_size).
     and_then (check_into_size padding_size into2) (\<lambda>_.
     and_then (put_u32 into2 (inner_size + padding_size) padding_size) (\<lambda>into3.
       Ok (into3, inner_size + padding_size + 4)))))"

definition write_into_multihash :: "('h) hash_lib_scheme \<Rightarrow> into_writer \<Rightarrow> into_writer" where
  [simp]: "write_into_multihash H w into =
     and_then (w into) (\<lambda>(into1, inner_size).
       let digest_multihash = digest H (take inner_size into1);
           total_size = inner_size + multihash_size in
       and_then (check_into_size total_size into1) (\<lambda>_.
         Ok (overwrite into1 inner_size digest_multihash, total_size)))"

definition write_into_compound :: "into_writer \<Rightarrow> into_writer \<Rightarrow> into_writer" where
  [simp]: "write_into_compound wl wr into =
     and_then (wl into) (\<lambda>(into1, left_size).
     and_then (wr (drop left_size into1)) (\<lambda>(sub, right_size).
       let into2 = take left_size into1 @ sub in
       and_then (check_into_size (left_size + right_size + 4) into2) (\<lambda>_.
       and_then (put_u32 into2 (left_size + right_size) left_size) (\<lambda>into3.
         Ok (into3, left_size + right_size + 4)))))"

fun write_into :: "('h) hash_lib_scheme \<Rightarrow> builder \<Rightarrow> into_writer" where
  "write_into H (BytesBuilder d) into = write_into_bytes d into"
| "write_into H (CapnpBuilder m) into = write_into_capnp m into"
| "write_into H (SizedBuilder inner) into = write_into_sized (\<lambda>i. write_into H inner i) into"
| "write_into H (PaddedBuilder inner minimum_size) into =
     write_into_padded minimum_size (\<lambda>i. write_into H inner i) into"
| "write_into H (MultihashBuilder inner) into = write_into_multihash H (\<lambda>i. write_into H inner i) into"
| "write_into H (CompoundBuilder left right) into =
     write_into_compound (\<lambda>i. write_into H left i) (\<lambda>i. write_into H right i) into"

section \<open>Iterating over a series of sized frames\<close>

record frame_iter =
  fi_buffer :: bytes
  fi_current_offset :: nat
  fi_last_error :: "framing_error option"

definition frame_iter_new :: "bytes \<Rightarrow> frame_iter" where
  "frame_iter_new buffer = \<lparr>fi_buffer = buffer, fi_current_offset = 0, fi_last_error = None\<rparr>"

text \<open>One call of \<open>next\<close>: the iterator after it and the item, if any.\<close>

definition frame_iter_next ::
  "frame_iter \<Rightarrow> (framing_error, frame_iter \<times> (nat \<times> frame) option) result" where
  "frame_iter_next it =
     (let offset = fi_current_offset it in
      and_then (slice (fi_buffer it) offset (length (fi_buffer it))) (\<lambda>s.
        case sized_new (RawFrame s) of
          Ok frame \<Rightarrow>
            Ok (it\<lparr>fi_current_offset := offset + sized_size frame\<rparr>, Some (offset, frame))
        | Err err \<Rightarrow> Ok (it\<lparr>fi_last_error := Some err\<rparr>, None)
        | Panic \<Rightarrow> Panic))"

section \<open>Sizes\<close>

lemma digest_length: "hash_lib_ok H \<Longrightarrow> length (digest H d) = multihash_size"
  by (simp add: hash_lib_ok_def)

lemma digest_decodes: "hash_lib_ok H \<Longrightarrow> mh_decode H (digest H d) = Some (digest H d)"
  by (simp add: hash_lib_ok_def)

lemma expected_size_as_bytes:
  assumes "hash_lib_ok H"
  shows "expected_size b = Some n \<Longrightarrow> length (fst (write_to H b)) = n"
    and "snd (write_to H b) = length (fst (write_to H b))"
  using assms
  by (induction b arbitrary: n)
    (auto simp: digest_length Let_def split: option.splits prod.splits if_splits)

lemmas write_to_returns = expected_size_as_bytes(2)

lemma as_bytes_Bytes [frame_simps]: "as_bytes H (BytesBuilder d) = d"
  by (simp add: as_bytes_def)

lemma as_bytes_Capnp [frame_simps]: "as_bytes H (CapnpBuilder m) = m"
  by (simp add: as_bytes_def)

lemma as_bytes_Sized [frame_simps]:
  assumes "hash_lib_ok H"
  shows "as_bytes H (SizedBuilder b) =
    write_u32 (length (as_bytes H b)) @ as_bytes H b @ write_u32 (length (as_bytes H b))"
  using expected_size_as_bytes [OF assms, of b]
  by (auto simp: as_bytes_def Let_def split: option.splits)

lemma as_bytes_Multihash [frame_simps]:
  "as_bytes H (MultihashBuilder b) = as_bytes H b @ digest H (as_bytes H b)"
  by (simp add: as_bytes_def Let_def)

lemma as_bytes_Padded [frame_simps]:
  assumes "hash_lib_ok H"
  shows "as_bytes H (PaddedBuilder b m) =
    as_bytes H b @ replicate (m - length (as_bytes H b)) 0
      @ write_u32 (m - length (as_bytes H b))"
  using write_to_returns [OF assms, of b]
  by (auto simp: as_bytes_def Let_def split: prod.splits)

lemma as_bytes_Compound [frame_simps]:
  assumes "hash_lib_ok H"
  shows "as_bytes H (CompoundBuilder a b) =
    as_bytes H a @ as_bytes H b @ write_u32 (length (as_bytes H a))"
  using write_to_returns [OF assms, of a] write_to_returns [OF assms, of b]
  by (auto simp: as_bytes_def Let_def split: prod.splits)

section \<open>Writing into a buffer\<close>

lemma put_u32_append [simp]:
  "i = length p \<Longrightarrow> 4 \<le> length q \<Longrightarrow>
    put_u32 (p @ q) i n = Ok (p @ write_u32 n @ drop 4 q)"
  by (simp add: put_u32_def overwrite_def)

lemma put_u32_append3:
  "i = length p + length q \<Longrightarrow>
    put_u32 (p @ q @ r) i n =
      (if length r < 4 then Err Io else Ok (p @ q @ write_u32 n @ drop 4 r))"
  by (auto simp: put_u32_def overwrite_def)

definition writes_into :: "('h) hash_lib_scheme \<Rightarrow> builder \<Rightarrow> bytes \<Rightarrow> bool" where
  "writes_into H b into \<longleftrightarrow>
     (let w = as_bytes H b in
      if length w \<le> length into
      then write_into H b into = Ok (w @ drop (length w) into, length w)
      else (\<exists>e. write_into H b into = Err e))"

lemma writes_intoD:
  assumes "writes_into H b into"
  shows "length (as_bytes H b) \<le> length into \<Longrightarrow>
      write_into H b into = Ok (as_bytes H b @ drop (length (as_bytes H b)) into, length (as_bytes H b))"
    and "length into < length (as_bytes H b) \<Longrightarrow> \<exists>e. write_into H b into = Err e"
  using assms by (auto simp: writes_into_def Let_def)

lemma writes_into_sized:
  assumes H: "hash_lib_ok H" and IH: "\<And>into. writes_into H b into"
  shows "writes_into H (SizedBuilder b) into"
proof -
  let ?w = "as_bytes H b"
  have eq: "as_bytes H (SizedBuilder b) = write_u32 (length ?w) @ ?w @ write_u32 (length ?w)"
    using H by (simp add: frame_simps)
  show ?thesis
  proof (cases "length into < 8 \<or> length into - 4 < length ?w")
    case True
    then show ?thesis
      using writes_intoD(2) [OF IH, of "drop 4 into"] eq
      by (auto simp: writes_into_def check_into_size_def Let_def)
  next
    case False
    then obtain p q where into: "into = p @ q" "length p = 4" "length ?w \<le> length q" "4 \<le> length q"
      by (intro that [of "take 4 into" "drop 4 into"]) auto
    have inner: "write_into H b (drop 4 into) = Ok (?w @ drop (length ?w) q, length ?w)"
      using writes_intoD(1) [OF IH, of q] into by simp
    have hd: "put_u32 (p @ ?w @ drop (length ?w) q) 0 n = Ok (write_u32 n @ ?w @ drop (length ?w) q)" for n
      using into by (simp add: put_u32_def overwrite_def)
    show ?thesis
    proof (cases "length q < length ?w + 4")
      case True
      then show ?thesis
        using inner into eq hd
        by (auto simp: writes_into_def check_into_size_def Let_def)
    next
      case False
      have "put_u32 (write_u32 (length ?w) @ ?w @ drop (length ?w) q) (4 + length ?w) (length ?w)
          = Ok (write_u32 (length ?w) @ ?w @ write_u32 (length ?w) @ drop 4 (drop (length ?w) q))"
        using False by (simp add: put_u32_append3)
      then show ?thesis
        using inner into eq hd False
        by (auto simp: writes_into_def check_into_size_def Let_def add.commute)
    qed
  qed
qed

lemma writes_into_padded:
  assumes H: "hash_lib_ok H" and IH: "\<And>into. writes_into H b into"
  shows "writes_into H (PaddedBuilder b m) into"
proof -
  let ?w = "as_bytes H b" and ?p = "m - length (as_bytes H b)"
  have eq: "as_bytes H (PaddedBuilder b m) = ?w @ replicate ?p 0 @ write_u32 ?p"
    using H by (simp add: frame_simps)
  show ?thesis
  proof (cases "length into < length ?w")
    case True
    then show ?thesis
      using writes_intoD(2) [OF IH, of into] eq by (auto simp: writes_into_def Let_def)
  next
    case False
    then obtain q where inner: "write_into H b into = Ok (?w @ q, length ?w)"
      and q: "q = drop (length ?w) into"
      using writes_intoD(1) [OF IH, of into] by simp
    show ?thesis
    proof (cases "length q < ?p")
      case True
      then show ?thesis
        using inner q eq False by (auto simp: writes_into_def check_into_size_def Let_def)
    next
      case pad: False
      have over: "overwrite (?w @ q) (length ?w) (replicate ?p 0) = ?w @ replicate ?p 0 @ drop ?p q"
        using pad by (simp add: overwrite_def)
      have "put_u32 (?w @ replicate ?p 0 @ drop ?p q) (length ?w + ?p) ?p =
          (if length (drop ?p q) < 4 then Err Io
           else Ok (?w @ replicate ?p 0 @ write_u32 ?p @ drop 4 (drop ?p q)))"
        by (rule put_u32_append3) simp
      then show ?thesis
        using inner q eq False pad over
        by (auto simp: writes_into_def check_into_size_def Let_def add.commute split: if_splits)
    qed
  qed
qed

lemma writes_into_multihash:
  assumes H: "hash_lib_ok H" and IH: "\<And>into. writes_into H b into"
  shows "writes_into H (MultihashBuilder b) into"
proof (cases "length into < length (as_bytes H b)")
  case True
  then show ?thesis
    using writes_intoD(2) [OF IH, of into]
    by (auto simp: writes_into_def Let_def frame_simps)
next
  case False
  then have "write_into H b into =
      Ok (as_bytes H b @ drop (length (as_bytes H b)) into, length (as_bytes H b))"
    using writes_intoD(1) [OF IH, of into] by simp
  then show ?thesis
    using False digest_length [OF H]
    by (auto simp: writes_into_def Let_def frame_simps check_into_size_def overwrite_def add.commute)
qed

lemma writes_into_compound:
  assumes H: "hash_lib_ok H"
    and IHa: "\<And>into. writes_into H a into" and IHb: "\<And>into. writes_into H b into"
  shows "writes_into H (CompoundBuilder a b) into"
proof -
  let ?l = "as_bytes H a" and ?r = "as_bytes H b"
  have eq: "as_bytes H (CompoundBuilder a b) = ?l @ ?r @ write_u32 (length ?l)"
    using H by (simp add: frame_simps)
  show ?thesis
  proof (cases "length into < length ?l")
    case True
    then show ?thesis
      using writes_intoD(2) [OF IHa, of into] eq by (auto simp: writes_into_def Let_def)
  next
    case False
    define q where "q = drop (length ?l) into"
    have left: "write_into H a into = Ok (?l @ q, length ?l)"
      using writes_intoD(1) [OF IHa, of into] False by (simp add: q_def)
    show ?thesis
    proof (cases "length q < length ?r")
      case True
      then show ?thesis
        using writes_intoD(2) [OF IHb, of q] left eq False
        by (auto simp: writes_into_def Let_def q_def)
    next
      case right: False
      have "write_into H b q = Ok (?r @ drop (length ?r) q, length ?r)"
        using writes_intoD(1) [OF IHb, of q] right by simp
      moreover have "put_u32 (?l @ ?r @ drop (length ?r) q) (length ?l + length ?r) (length ?l) =
          (if length (drop (length ?r) q) < 4 then Err Io
           else Ok (?l @ ?r @ write_u32 (length ?l) @ drop 4 (drop (length ?r) q)))"
        by (rule put_u32_append3) simp
      ultimately show ?thesis
        using left eq False right
        by (auto simp: writes_into_def Let_def check_into_size_def q_def add.commute add.left_commute)
    qed
  qed
qed

lemma write_into_as_bytes: "hash_lib_ok H \<Longrightarrow> writes_into H b into"
proof (induction b arbitrary: into)
  case (BytesBuilder d)
  then show ?case
    by (auto simp: writes_into_def Let_def frame_simps check_into_size_def overwrite_def)
next
  case (CapnpBuilder m)
  then show ?case
    by (auto simp: writes_into_def Let_def frame_simps check_into_size_def overwrite_def)
qed (simp_all add: writes_into_sized writes_into_padded writes_into_multihash writes_into_compound)

section \<open>Reading back what was written\<close>

text \<open>The bytes of a sized frame around \<open>d\<close>.\<close>

definition sized_bytes :: "bytes \<Rightarrow> bytes" where
  "sized_bytes d = write_u32 (length d) @ d @ write_u32 (length d)"

lemma length_sized_bytes [simp]: "length (sized_bytes d) = length d + 8"
  by (simp add: sized_bytes_def)

lemma as_bytes_sized_bytes:
  "hash_lib_ok H \<Longrightarrow> as_bytes H (SizedBuilder b) = sized_bytes (as_bytes H b)"
  by (simp add: sized_bytes_def frame_simps)

lemma sized_new_reads:
  assumes "exposed_data f = Ok (sized_bytes d @ r)" and "length d < 2 ^ 32"
  shows "sized_new f = Ok (SizedFrame f 0 (length d))"
  using assms
  by (simp add: sized_new_def sized_bytes_def check_from_size_def read_write_u32)

lemma sized_next_reads:
  assumes "exposed_data f = Ok (p @ sized_bytes d @ r)" and "length d < 2 ^ 32"
  shows "sized_new_from_next_offset f (length p + (length d + 8)) = Ok (SizedFrame f (length p) (length d))"
proof -
  have "drop (length p + (length d + 8) - 4) (p @ sized_bytes d @ r) = write_u32 (length d) @ r"
    by (simp add: sized_bytes_def)
  with assms show ?thesis
    by (simp add: sized_new_from_next_offset_def check_offset_subtract_def check_from_size_def
        read_write_u32)
qed

lemma sized_exposed:
  assumes "exposed_data f = Ok (p @ sized_bytes d @ r)"
  shows "exposed_data (SizedFrame f (length p) (length d)) = Ok d"
  using assms by (simp add: slice_def sized_bytes_def)

lemma sized_whole:
  assumes "whole_data f = Ok (p @ sized_bytes d @ r)"
  shows "whole_data (SizedFrame f (length p) (length d)) = Ok (sized_bytes d)"
  using assms by (simp add: slice_def)

lemma multihash_reads:
  assumes "exposed_data f = Ok (d @ m)" and "length m = multihash_size"
  shows "multihash_new f = Ok (MultihashFrame f)"
    and "exposed_data (MultihashFrame f) = Ok d"
    and "multihash_bytes (MultihashFrame f) = Ok m"
  using assms by (simp_all add: multihash_new_def check_from_size_def slice_def)

lemma padded_reads:
  assumes "exposed_data f = Ok (d @ replicate n 0 @ write_u32 n)" and "n < 2 ^ 32"
  shows "padded_new f = Ok (PaddedFrame f n)" and "exposed_data (PaddedFrame f n) = Ok d"
  using assms
  by (simp_all add: padded_new_def check_from_size_def slice_def read_write_u32_small_Nil)

lemma compound_reads:
  assumes "exposed_data f = Ok (l @ r @ write_u32 (length l))" and "length l < 2 ^ 32"
  shows "compound_new f = Ok (f, length l)"
    and "exposed_data (reader_left (f, length l)) = Ok l"
    and "exposed_data (reader_right (f, length l)) = Ok r"
  using assms
  by (simp_all add: compound_new_def reader_left_def reader_right_def check_from_size_def slice_def
      read_write_u32_small_Nil)

section \<open>Reading untrusted bytes\<close>

text \<open>A reader is sound when both of its views are defined.\<close>

definition frame_sound :: "frame \<Rightarrow> bool" where
  "frame_sound f \<longleftrightarrow> is_ok (exposed_data f) \<and> is_ok (whole_data f)"

lemma frame_sound_Raw [simp]: "frame_sound (RawFrame d)"
  by (simp add: frame_sound_def)

lemma sized_new_sound:
  assumes "exposed_data f = Ok d" and "whole_data f = Ok d"
  shows "sized_new f \<noteq> Panic" and "sized_new f = Ok g \<Longrightarrow> frame_sound g"
proof -
  show "sized_new f \<noteq> Panic"
    using assms(1) by (cases "read_u32 d") (auto simp: sized_new_def check_from_size_def)
  assume "sized_new f = Ok g"
  then obtain n where "read_u32 d = Some n" "4 \<le> length d" "4 + n \<le> length d - 4" "g = SizedFrame f 0 n"
    using assms(1) by (auto simp: sized_new_def check_from_size_def result_simps split: if_splits)
  with assms show "frame_sound g"
    by (simp add: frame_sound_def slice_def)
qed

lemma sized_next_sound:
  assumes "exposed_data f = Ok d" and "whole_data f = Ok d"
  shows "sized_new_from_next_offset f i \<noteq> Panic"
    and "sized_new_from_next_offset f i = Ok g \<Longrightarrow> frame_sound g"
proof -
  show "sized_new_from_next_offset f i \<noteq> Panic"
    using assms
    by (cases "read_u32 (drop (i - 4) d)")
      (auto simp: sized_new_from_next_offset_def check_from_size_def check_offset_subtract_def
        split: if_splits)
  assume ok: "sized_new_from_next_offset f i = Ok g"
  then obtain n where n: "read_u32 (drop (i - 4) d) = Some n" and le: "4 + n + 4 \<le> i" "4 \<le> i"
    and g: "g = SizedFrame f (i - (4 + n + 4)) n"
    using assms
    by (auto simp: sized_new_from_next_offset_def check_offset_subtract_def result_simps
        split: if_splits)
  have "\<not> length (drop (i - 4) d) < 4"
    using n read_u32_None_iff [of "drop (i - 4) d"] by auto
  with le g assms show "frame_sound g"
    by (auto simp: frame_sound_def slice_def result_simps)
qed

lemma multihash_new_sound:
  assumes "frame_sound f"
  shows "multihash_new f \<noteq> Panic"
    and "multihash_new f = Ok g \<Longrightarrow> frame_sound g \<and> is_ok (multihash_bytes g)"
  using assms
  by (auto simp: multihash_new_def frame_sound_def check_from_size_def slice_def result_simps
      split: if_splits)

lemma padded_new_sound:
  assumes "frame_sound f"
  shows "padded_new f \<noteq> Panic" and "padded_new f = Ok g \<Longrightarrow> frame_sound g"
proof -
  from assms obtain d w where d: "exposed_data f = Ok d" "whole_data f = Ok w"
    by (auto simp: frame_sound_def result_simps)
  then show "padded_new f \<noteq> Panic"
    by (cases "read_u32 (drop (length d - 4) d)")
      (auto simp: padded_new_def check_from_size_def split: if_splits)
  assume "padded_new f = Ok g"
  with d show "frame_sound g"
    by (auto simp: padded_new_def frame_sound_def check_from_size_def slice_def result_simps
        split: if_splits)
qed

section \<open>Driving the iterator\<close>

lemma frame_iter_next_progress:
  assumes "frame_iter_next it = Ok (it', Some x)"
  shows "fi_buffer it' = fi_buffer it \<and> fi_current_offset it < fi_current_offset it'
    \<and> fi_current_offset it' \<le> length (fi_buffer it)"
  using assms
  by (auto simp: frame_iter_next_def Let_def sized_new_def check_from_size_def result_simps
      split: result.splits if_splits)

text \<open>A \<open>for\<close> loop over the iterator: every item, and the iterator at the end.\<close>

function iter_frames ::
  "frame_iter \<Rightarrow> (framing_error, (nat \<times> frame) list \<times> frame_iter) result" where
  "iter_frames it =
     and_then (frame_iter_next it) (\<lambda>(it', item).
       case item of None \<Rightarrow> Ok ([], it')
       | Some x \<Rightarrow> and_then (iter_frames it') (\<lambda>(xs, itf). Ok (x # xs, itf)))"
  by pat_completeness auto
termination
  by (relation "measure (\<lambda>it. length (fi_buffer it) - fi_current_offset it)")
    (auto dest!: frame_iter_next_progress)

declare iter_frames.simps [simp del]

lemma iter_frames_end:
  assumes "fi_current_offset it = length (fi_buffer it)"
  shows "iter_frames it = Ok ([], it\<lparr>fi_last_error := Some (SourceTooSmall 4 0)\<rparr>)"
  using assms
  by (simp add: iter_frames.simps [of it] frame_iter_next_def slice_def sized_new_def
      check_from_size_def)

lemma frame_iter_next_sized:
  assumes "fi_buffer it = p @ sized_bytes d @ r" and "fi_current_offset it = length p"
    and "length d < 2 ^ 32"
  shows "frame_iter_next it =
    Ok (it\<lparr>fi_current_offset := length p + (length d + 8)\<rparr>,
        Some (length p, SizedFrame (RawFrame (sized_bytes d @ r)) 0 (length d)))"
proof -
  have s: "(slice (fi_buffer it) (length p) (length (fi_buffer it)) :: (framing_error, bytes) result)
      = Ok (sized_bytes d @ r)"
    using assms(1) by (simp add: slice_def)
  have "sized_new (RawFrame (sized_bytes d @ r)) =
      Ok (SizedFrame (RawFrame (sized_bytes d @ r)) 0 (length d))"
    by (rule sized_new_reads) (use assms(3) in simp_all)
  with s assms(2) show ?thesis
    by (simp add: frame_iter_next_def Let_def)
qed

text \<open>The items of the iteration over the sized frames around \<open>ds\<close>, from offset \<open>i\<close>.\<close>

fun sized_items :: "nat \<Rightarrow> bytes list \<Rightarrow> (nat \<times> frame) list" where
  "sized_items i [] = []"
| "sized_items i (d # ds) =
     (i, SizedFrame (RawFrame (sized_bytes d @ concat (map sized_bytes ds))) 0 (length d))
       # sized_items (i + (length d + 8)) ds"

lemma iter_frames_sized:
  assumes "fi_buffer it = p @ concat (map sized_bytes ds)" and "fi_current_offset it = length p"
    and "\<forall>d \<in> set ds. length d < 2 ^ 32"
  shows "iter_frames it = Ok (sized_items (length p) ds,
    it\<lparr>fi_current_offset := length (fi_buffer it), fi_last_error := Some (SourceTooSmall 4 0)\<rparr>)"
  using assms
proof (induction ds arbitrary: p it)
  case Nil
  then show ?case by (simp add: iter_frames_end)
next
  case (Cons d ds)
  let ?it' = "it\<lparr>fi_current_offset := length p + (length d + 8)\<rparr>"
  have step: "frame_iter_next it = Ok (?it',
      Some (length p, SizedFrame (RawFrame (sized_bytes d @ concat (map sized_bytes ds))) 0 (length d)))"
    by (rule frame_iter_next_sized) (use Cons.prems in simp_all)
  have "iter_frames ?it' = Ok (sized_items (length (p @ sized_bytes d)) ds,
      ?it'\<lparr>fi_current_offset := length (fi_buffer ?it'), fi_last_error := Some (SourceTooSmall 4 0)\<rparr>)"
    by (rule Cons.IH) (use Cons.prems in simp_all)
  then show ?case
    using step by (simp add: iter_frames.simps [of it])
qed

lemma sized_items_exposed:
  "map (\<lambda>x. exposed_data (snd x)) (sized_items i ds) = map Ok ds"
  by (induction i ds rule: sized_items.induct) (simp_all add: slice_def sized_bytes_def)

lemma sized_items_offset:
  "k < length ds \<Longrightarrow>
    fst (sized_items i ds ! k) = i + length (concat (map sized_bytes (take k ds)))"
proof (induction i ds arbitrary: k rule: sized_items.induct)
  case (2 i d ds)
  then show ?case by (cases k) auto
qed simp

lemma length_sized_items [simp]: "length (sized_items i ds) = length ds"
  by (induction i ds rule: sized_items.induct) simp_all

section \<open>A concrete hash for evaluation\<close>

text \<open>
  Any function with 34-byte results serves as the multihash when a definition is
  evaluated on concrete input; this one writes the SHA3-256 code, the length and a
  32-byte block built from the sum of the bytes.
\<close>

definition example_hash :: hash_lib where
  "example_hash =
     \<lparr>digest = (\<lambda>d. [22, 32] @ replicate 32 (sum_list d)),
      mh_decode = (\<lambda>m. if length m = 34 then Some m else None),
      mh_default = [0, 0]\<rparr>"

lemma example_hash_ok [simp]: "hash_lib_ok example_hash"
  by (simp add: hash_lib_ok_def example_hash_def multihash_size_def)

section \<open>Properties of the frame layer\<close>

text \<open>
  Every builder announces and returns its true size: when \<open>expected_size\<close> is known it
  is the number of bytes \<open>write_to\<close> appends (the \<open>debug_assert\<close> of the sized builder never
  fires), and the size \<open>write_to\<close> returns is the number of bytes it appended.
\<close>

lemma builder_sizes:
  assumes "hash_lib_ok H"
  shows "(case expected_size b of None \<Rightarrow> True | Some n \<Rightarrow> n = length (as_bytes H b))
    \<and> snd (write_to H b) = length (as_bytes H b)"
  using expected_size_as_bytes [OF assms, of b]
  by (auto simp: as_bytes_def split: option.splits)

text \<open>
  (C23) \<open>write_into\<close> agrees with \<open>write_to\<close> for every nesting of builders: if the buffer is
  large enough it holds exactly the bytes of \<open>write_to\<close> followed by its old contents, and the
  size is returned; if it is too small the call returns an error and never panics.
\<close>

theorem write_into_agrees:
  assumes "hash_lib_ok H"
  shows "if length (as_bytes H b) \<le> length into
    then write_into H b into =
      Ok (as_bytes H b @ drop (length (as_bytes H b)) into, length (as_bytes H b))
    else (\<exists>e. write_into H b into = Err e)"
  using write_into_as_bytes [OF assms, of b into] by (simp add: writes_into_def Let_def)

theorem write_into_agrees_witness:
  "write_into example_hash (SizedBuilder (BytesBuilder [7])) (replicate 10 9) =
     Ok ([1, 0, 0, 0, 7, 1, 0, 0, 0, 9], 9)"
  using write_into_agrees [OF example_hash_ok, of "SizedBuilder (BytesBuilder [7])" "replicate 10 9"]
  by (simp add: frame_simps write_u32_def)

text \<open>
  A series of sized frames written one after the other is iterated back in order: the
  iterator yields one frame per builder, at the offset where it was written and exposing
  the bytes it wrapped, and ends at the end of the buffer with the error of reading past it.
\<close>

lemma sized_frames_iterate:
  assumes "hash_lib_ok H" and "\<forall>b \<in> set bs. length (as_bytes H b) < 2 ^ 32"
  shows "\<exists>items it.
    iter_frames (frame_iter_new (concat (map (\<lambda>b. as_bytes H (SizedBuilder b)) bs))) = Ok (items, it)
    \<and> map (\<lambda>x. exposed_data (snd x)) items = map (\<lambda>b. Ok (as_bytes H b)) bs
    \<and> (\<forall>k < length bs. fst (items ! k) =
         length (concat (map (\<lambda>b. as_bytes H (SizedBuilder b)) (take k bs))))
    \<and> fi_last_error it = Some (SourceTooSmall 4 0)"
proof -
  let ?ds = "map (as_bytes H) bs"
  have eq: "map (\<lambda>b. as_bytes H (SizedBuilder b)) xs = map sized_bytes (map (as_bytes H) xs)" for xs
    using assms(1) by (simp add: as_bytes_sized_bytes)
  have "iter_frames (frame_iter_new (concat (map sized_bytes ?ds))) =
      Ok (sized_items (length ([] :: bytes)) ?ds,
        (frame_iter_new (concat (map sized_bytes ?ds)))
          \<lparr>fi_current_offset := length (fi_buffer (frame_iter_new (concat (map sized_bytes ?ds)))),
           fi_last_error := Some (SourceTooSmall 4 0)\<rparr>)"
    by (rule iter_frames_sized) (use assms(2) in \<open>auto simp: frame_iter_new_def\<close>)
  then show ?thesis
    by (intro exI conjI, unfold eq)
      (auto simp: sized_items_exposed sized_items_offset take_map)
qed

text \<open>
  An owned copy of a sized frame exposes the same data only when the frame was read at
  the start of its source. A frame read backwards with \<open>new_from_next_offset\<close> keeps its
  offset in the copy, which holds the frame's bytes alone: reading the copy panics.
\<close>

lemma sized_to_owned_offset:
  assumes "exposed_data f = Ok (p @ sized_bytes d @ r)" and "whole_data f = Ok (p @ sized_bytes d @ r)"
    and "length d < 2 ^ 32"
  shows "\<exists>g h. sized_new_from_next_offset f (length p + (length d + 8)) = Ok g
    \<and> exposed_data g = Ok d \<and> to_owned_frame g = Ok h
    \<and> (length p = 0 \<longrightarrow> exposed_data h = Ok d)
    \<and> (4 < length p \<longrightarrow> exposed_data h = Panic)"
proof -
  let ?g = "SizedFrame f (length p) (length d)"
  have "to_owned_frame ?g = Ok (SizedFrame (RawFrame (sized_bytes d)) (length p) (length d))"
    using sized_whole [OF assms(2)] by simp
  moreover have "exposed_data (SizedFrame (RawFrame (sized_bytes d)) 0 (length d)) = Ok d"
    by (simp add: slice_def sized_bytes_def)
  ultimately show ?thesis
    using sized_next_reads [OF assms(1,3)] sized_exposed [OF assms(1)]
    by (intro exI [of _ ?g] exI [of _ "SizedFrame (RawFrame (sized_bytes d)) (length p) (length d)"])
      (simp add: slice_def)
qed

end
