(* ===== verification/Exo_Data.thy ===== *)
theory Exo_Data
  imports Exo_Framing
begin

text \<open>
  Sources of bytes, \<open>chain/src/data.rs\<close> and \<open>chain/src/chain/data.rs\<close>: owned bytes, a
  referenced slice and a memory-mapped file, each seen through a range of it; and the
  binary search of the standard library, which the block reader and the segment lookup use.
\<close>

section \<open>Binary search\<close>

datatype ordering = Less | Equal | Greater

definition cmp_nat :: "nat \<Rightarrow> nat \<Rightarrow> ordering" where
  "cmp_nat a b = (if a < b then Less else if a = b then Equal else Greater)"

text \<open>
  \<open>binary_search_by\<close> on \<open>xs[lo..hi]\<close>: \<open>Inr i\<close> is \<open>Ok(i)\<close>, \<open>Inl i\<close> is \<open>Err(i)\<close>.
\<close>

function bsearch :: "('a \<Rightarrow> ordering) \<Rightarrow> 'a list \<Rightarrow> nat \<Rightarrow> nat \<Rightarrow> nat + nat" where
  "bsearch f xs lo hi =
     (if hi \<le> lo then Inl lo
      else let mid = (lo + hi) div 2 in
        case f (xs ! mid) of
          Less \<Rightarrow> bsearch f xs (Suc mid) hi
        | Greater \<Rightarrow> bsearch f xs lo mid
        | Equal \<Rightarrow> Inr mid)"
  by pat_completeness auto
termination
  by (relation "measure (\<lambda>(f, xs, lo, hi). hi - lo)") auto

declare bsearch.simps [simp del]

definition binary_search_by :: "('a \<Rightarrow> ordering) \<Rightarrow> 'a list \<Rightarrow> nat + nat" where
  "binary_search_by f xs = bsearch f xs 0 (length xs)"

text \<open>The order the comparison must follow: \<open>Less\<close>, then \<open>Equal\<close>, then \<open>Greater\<close>.\<close>

definition search_ordered :: "('a \<Rightarrow> ordering) \<Rightarrow> 'a list \<Rightarrow> bool" where
  "search_ordered f xs \<longleftrightarrow>
     (\<forall>i j. i \<le> j \<longrightarrow> j < length xs \<longrightarrow>
        (f (xs ! j) = Less \<longrightarrow> f (xs ! i) = Less) \<and>
        (f (xs ! i) = Greater \<longrightarrow> f (xs ! j) = Greater))"

lemma bsearch_sound: "hi \<le> length xs \<Longrightarrow> bsearch f xs lo hi = Inr i \<Longrightarrow> lo \<le> i \<and> i < hi \<and> f (xs ! i) = Equal"
proof (induction f xs lo hi rule: bsearch.induct)
  case (1 f xs lo hi)
  show ?case
  proof (cases "hi \<le> lo")
    case True
    with 1 show ?thesis by (simp add: bsearch.simps [of f xs lo hi])
  next
    case False
    let ?mid = "(lo + hi) div 2"
    have mid: "lo \<le> ?mid" "?mid < hi" using False by auto
    show ?thesis
    proof (cases "f (xs ! ?mid)")
      case Less
      with "1.prems" False have "bsearch f xs (Suc ?mid) hi = Inr i"
        by (simp add: bsearch.simps [of f xs lo hi] Let_def)
      with "1.IH"(1) False Less "1.prems"(1) mid show ?thesis by auto
    next
      case Equal
      with "1.prems" False mid show ?thesis by (auto simp: bsearch.simps [of f xs lo hi] Let_def)
    next
      case Greater
      with "1.prems" False have "bsearch f xs lo ?mid = Inr i"
        by (simp add: bsearch.simps [of f xs lo hi] Let_def)
      with "1.IH"(2) False Greater "1.prems"(1) mid show ?thesis by auto
    qed
  qed
qed

lemma bsearch_complete:
  "search_ordered f xs \<Longrightarrow> hi \<le> length xs \<Longrightarrow> lo \<le> k \<Longrightarrow> k < hi \<Longrightarrow> f (xs ! k) = Equal \<Longrightarrow>
    \<exists>i. bsearch f xs lo hi = Inr i"
proof (induction f xs lo hi rule: bsearch.induct)
  case (1 f xs lo hi)
  let ?mid = "(lo + hi) div 2"
  have lt: "lo < hi" using "1.prems" by simp
  have mid: "?mid < length xs" using lt "1.prems"(2) by simp
  show ?case
  proof (cases "f (xs ! ?mid)")
    case Less
    then have "?mid < k"
      using "1.prems" mid unfolding search_ordered_def by (metis not_less ordering.distinct(1))
    with "1.IH"(1) Less lt "1.prems" show ?thesis
      by (auto simp: bsearch.simps [of f xs lo hi] Let_def)
  next
    case Equal
    with lt show ?thesis by (auto simp: bsearch.simps [of f xs lo hi] Let_def)
  next
    case Greater
    then have "k < ?mid"
      using "1.prems" mid unfolding search_ordered_def by (metis not_less ordering.distinct(5) order.strict_trans2)
    with "1.IH"(2) Greater lt "1.prems" show ?thesis
      by (auto simp: bsearch.simps [of f xs lo hi] Let_def)
  qed
qed

lemma binary_search_Inr:
  "binary_search_by f xs = Inr i \<Longrightarrow> i < length xs \<and> f (xs ! i) = Equal"
  using bsearch_sound [of "length xs" xs f 0 i] by (auto simp: binary_search_by_def)

lemma binary_search_finds:
  assumes "search_ordered f xs" and "k < length xs" and "f (xs ! k) = Equal"
  shows "\<exists>i. binary_search_by f xs = Inr i"
  using bsearch_complete [OF assms(1), of "length xs" 0 k] assms(2,3)
  by (simp add: binary_search_by_def)

lemma search_ordered_sorted:
  assumes "sorted (map g xs)"
  shows "search_ordered (\<lambda>x. cmp_nat (g x) k) xs"
proof -
  have mono: "g (xs ! i) \<le> g (xs ! j)" if "i \<le> j" "j < length xs" for i j
    using sorted_nth_mono [OF assms, of i j] that by simp
  show ?thesis
    unfolding search_ordered_def cmp_nat_def
  proof (intro allI impI conjI)
    fix i j assume "i \<le> j" "j < length xs"
    with mono have "g (xs ! i) \<le> g (xs ! j)" by blast
    then show "(if g (xs ! i) < k then Less else if g (xs ! i) = k then Equal else Greater) = Less"
      if "(if g (xs ! j) < k then Less else if g (xs ! j) = k then Equal else Greater) = Less"
      using that by (simp split: if_splits)
    show "(if g (xs ! j) < k then Less else if g (xs ! j) = k then Equal else Greater) = Greater"
      if "(if g (xs ! i) < k then Less else if g (xs ! i) = k then Equal else Greater) = Greater"
      using that \<open>g (xs ! i) \<le> g (xs ! j)\<close> by (simp split: if_splits)
  qed
qed

section \<open>Ranges of a source\<close>

definition translate_range :: "nat \<Rightarrow> nat \<Rightarrow> nat bound \<Rightarrow> nat bound \<Rightarrow> nat \<times> nat" where
  "translate_range start fin lower upper =
     (case lower of Included s \<Rightarrow> start + s | Excluded s \<Rightarrow> start + s + 1 | Unbounded \<Rightarrow> start,
      case upper of Included s \<Rightarrow> min (start + s + 1) fin | Excluded s \<Rightarrow> min (start + s) fin
      | Unbounded \<Rightarrow> fin)"

datatype data_src =
    BytesData bytes
  | RefData bytes nat nat
  | MmapData bytes nat nat

definition ref_data_new :: "bytes \<Rightarrow> data_src" where
  "ref_data_new d = RefData d 0 (length d)"

definition mmap_data_from_mmap :: "bytes \<Rightarrow> nat \<Rightarrow> data_src" where
  "mmap_data_from_mmap d len = MmapData d 0 len"

definition slice_range :: "bytes \<Rightarrow> nat \<times> nat \<Rightarrow> ('e, bytes) result" where
  "slice_range d r = slice d (fst r) (snd r)"

fun data_slice :: "data_src \<Rightarrow> nat bound \<Rightarrow> nat bound \<Rightarrow> ('e, bytes) result" where
  "data_slice (BytesData d) l u = slice_range d (translate_range 0 (length d) l u)"
| "data_slice (RefData d s e) l u = slice_range d (translate_range s e l u)"
| "data_slice (MmapData d s e) l u = slice_range d (translate_range s e l u)"

text \<open>
  \<open>Bytes::slice\<close>, which \<open>view\<close> of owned bytes calls, does not clamp the upper bound:
  it panics beyond the end.
\<close>

definition bytes_range :: "nat \<Rightarrow> nat bound \<Rightarrow> nat bound \<Rightarrow> nat \<times> nat" where
  "bytes_range len l u =
     (case l of Included s \<Rightarrow> s | Excluded s \<Rightarrow> s + 1 | Unbounded \<Rightarrow> 0,
      case u of Included s \<Rightarrow> s + 1 | Excluded s \<Rightarrow> s | Unbounded \<Rightarrow> len)"

fun data_view :: "data_src \<Rightarrow> nat bound \<Rightarrow> nat bound \<Rightarrow> ('e, data_src) result" where
  "data_view (BytesData d) l u =
     and_then (slice_range d (bytes_range (length d) l u)) (\<lambda>s. Ok (BytesData s))"
| "data_view (RefData d s e) l u =
     (let r = translate_range s e l u in Ok (RefData d (fst r) (snd r)))"
| "data_view (MmapData d s e) l u =
     (let r = translate_range s e l u in Ok (MmapData d (fst r) (snd r)))"

fun data_len :: "data_src \<Rightarrow> ('e, nat) result" where
  "data_len (BytesData d) = Ok (length d)"
| "data_len (RefData d s e) = (if s \<le> e then Ok (e - s) else Panic)"
| "data_len (MmapData d s e) = (if s \<le> e then Ok (e - s) else Panic)"

text \<open>\<open>exposed_data\<close> and \<open>whole_data\<close> of a source, as the frame that wraps its bytes.\<close>

definition data_frame :: "data_src \<Rightarrow> ('e, frame) result" where
  "data_frame d = and_then (data_slice d Unbounded Unbounded) (\<lambda>b. Ok (RawFrame b))"

section \<open>The bytes a source stands for\<close>

text \<open>A source holds \<open>b\<close> when its whole range is the byte string \<open>b\<close>.\<close>

fun src_holds :: "data_src \<Rightarrow> bytes \<Rightarrow> bool" where
  "src_holds (BytesData d) b \<longleftrightarrow> d = b"
| "src_holds (RefData d s e) b \<longleftrightarrow> s \<le> e \<and> e \<le> length d \<and> b = take (e - s) (drop s d)"
| "src_holds (MmapData d s e) b \<longleftrightarrow> s \<le> e \<and> e \<le> length d \<and> b = take (e - s) (drop s d)"

lemma src_holds_data_frame [simp]: "src_holds d b \<Longrightarrow> data_frame d = Ok (RawFrame b)"
  by (cases d) (auto simp: data_frame_def slice_range_def translate_range_def slice_def)

lemma src_holds_slice [simp]: "src_holds d b \<Longrightarrow> data_slice d Unbounded Unbounded = Ok b"
  by (cases d) (auto simp: slice_range_def translate_range_def slice_def)

lemma src_holds_len [simp]: "src_holds d b \<Longrightarrow> data_len d = Ok (length b)"
  by (cases d) auto

lemma src_holds_view:
  assumes "src_holds d b" and "i \<le> j" and "j \<le> length b"
  shows "\<exists>v. data_view d (Included i) (Excluded j) = Ok v \<and> src_holds v (take (j - i) (drop i b))"
  using assms
  by (cases d) (auto simp: bytes_range_def slice_range_def translate_range_def slice_def Let_def
      drop_take add.commute min_def split: if_splits)

lemma src_holds_view_from:
  assumes "src_holds d b" and "i \<le> length b"
  shows "\<exists>v. data_view d (Included i) Unbounded = Ok v \<and> src_holds v (drop i b)"
  using assms
  by (cases d) (auto simp: bytes_range_def slice_range_def translate_range_def slice_def Let_def
      drop_take add.commute)

lemma ref_data_new_holds [simp]: "src_holds (ref_data_new b) b"
  by (simp add: ref_data_new_def)

lemma mmap_data_holds [simp]: "src_holds (mmap_data_from_mmap b (length b)) b"
  by (simp add: mmap_data_from_mmap_def)

end
