(* ===== verification/Exo_Cell.thy ===== *)
theory Exo_Cell
  imports Exo_Prelude
begin

text \<open>
  The nodes of a cell and their roles, \<open>core/src/cell/cell_nodes.rs\<close>. The hash map of
  nodes is the list of its values, in the order an iteration would visit them: what is
  proved holds for every such order. A node id is its textual form.
\<close>

type_synonym node_id = string

datatype cell_node_role = ChainRole | StoreRole | AppHostRole

record cell_node =
  cn_id :: node_id
  cn_roles :: "cell_node_role list"

record cell =
  local_node_id :: node_id
  local_clock_id :: nat
  cell_nodes :: "cell_node list"

definition has_role :: "cell_node \<Rightarrow> cell_node_role \<Rightarrow> bool" where
  "has_role cn role \<longleftrightarrow> role \<in> set (cn_roles cn)"

definition add_role :: "cell_node \<Rightarrow> cell_node_role \<Rightarrow> cell_node" where
  "add_role cn role = cn\<lparr>cn_roles := List.insert role (cn_roles cn)\<rparr>"

definition remove_role :: "cell_node \<Rightarrow> cell_node_role \<Rightarrow> cell_node" where
  "remove_role cn role = cn\<lparr>cn_roles := filter (\<lambda>r. r \<noteq> role) (cn_roles cn)\<rparr>"

definition nodes_count :: "cell \<Rightarrow> nat" where
  "nodes_count c = length (cell_nodes c)"

definition count_with_role :: "cell \<Rightarrow> cell_node_role \<Rightarrow> nat" where
  "count_with_role c role = length (filter (\<lambda>cn. has_role cn role) (cell_nodes c))"

definition get_node :: "cell \<Rightarrow> node_id \<Rightarrow> cell_node option" where
  "get_node c n = find (\<lambda>cn. cn_id cn = n) (cell_nodes c)"

definition has_quorum :: "cell \<Rightarrow> nat \<Rightarrow> cell_node_role option \<Rightarrow> bool" where
  "has_quorum c count role =
     (let nb_nodes = (case role of Some r \<Rightarrow> count_with_role c r | None \<Rightarrow> nodes_count c) in
      if nb_nodes = 0 then False else count > nb_nodes div 2)"

definition all_except :: "cell \<Rightarrow> node_id \<Rightarrow> cell_node list" where
  "all_except c n = filter (\<lambda>cn. cn_id cn \<noteq> n) (cell_nodes c)"

definition all_except_local :: "cell \<Rightarrow> cell_node list" where
  "all_except_local c = all_except c (local_node_id c)"

definition with_role :: "cell \<Rightarrow> cell_node_role \<Rightarrow> cell_node list" where
  "with_role c role = filter (\<lambda>cn. has_role cn role) (cell_nodes c)"

text \<open>\<open>HashMap::insert\<close> under the node's id: the old entry of that id is replaced.\<close>

definition add_cell_node :: "cell \<Rightarrow> cell_node \<Rightarrow> cell" where
  "add_cell_node c cn =
     c\<lparr>cell_nodes := filter (\<lambda>m. cn_id m \<noteq> cn_id cn) (cell_nodes c) @ [cn]\<rparr>"

definition local_node_has_role :: "cell \<Rightarrow> cell_node_role \<Rightarrow> bool" where
  "local_node_has_role c role =
     (case get_node c (local_node_id c) of None \<Rightarrow> False | Some cn \<Rightarrow> has_role cn role)"

text \<open>The ids are the keys of a map, so no two nodes share one.\<close>

definition cell_wf :: "cell \<Rightarrow> bool" where
  "cell_wf c \<longleftrightarrow> distinct (map cn_id (cell_nodes c))"

lemma cell_wf_add: "cell_wf c \<Longrightarrow> cell_wf (add_cell_node c cn)"
  by (auto simp: cell_wf_def add_cell_node_def distinct_map inj_on_def)

lemma get_node_Some: "get_node c n = Some cn \<Longrightarrow> cn \<in> set (cell_nodes c) \<and> cn_id cn = n"
  by (auto simp: get_node_def find_Some_iff)

lemma find_filter_append:
  "find P (filter (\<lambda>x. \<not> P x) xs @ [y]) = (if P y then Some y else None)"
  by (induction xs) auto

lemma get_node_add: "get_node (add_cell_node c cn) (cn_id cn) = Some cn"
  by (simp add: get_node_def add_cell_node_def find_filter_append)

definition role_ids :: "cell \<Rightarrow> cell_node_role \<Rightarrow> node_id set" where
  "role_ids c role = cn_id ` set (with_role c role)"

lemma card_role_ids:
  assumes "cell_wf c"
  shows "card (role_ids c role) = count_with_role c role"
proof -
  have "distinct (map cn_id (with_role c role))"
    using assms by (simp add: with_role_def cell_wf_def distinct_map_filter)
  then have "card (set (map cn_id (with_role c role))) = length (map cn_id (with_role c role))"
    by (rule distinct_card)
  then show ?thesis by (simp add: role_ids_def count_with_role_def with_role_def)
qed

lemma finite_role_ids [simp]: "finite (role_ids c role)"
  by (simp add: role_ids_def)

lemma has_quorum_Some:
  "has_quorum c k (Some role) \<longleftrightarrow> count_with_role c role > 0 \<and> k > count_with_role c role div 2"
  by (auto simp: has_quorum_def Let_def)

text \<open>
  (C26) Two quorums of nodes of a role always share a node: this is what makes a block that
  a quorum signed exclude another block that a quorum signed, as long as a node signs one.
\<close>

theorem quorum_intersection:
  assumes "cell_wf c" and "A \<subseteq> role_ids c role" and "B \<subseteq> role_ids c role"
    and "has_quorum c (card A) (Some role)" and "has_quorum c (card B) (Some role)"
  shows "A \<inter> B \<noteq> {}"
proof
  assume disjoint: "A \<inter> B = {}"
  have fin: "finite A" "finite B"
    using assms(2,3) finite_subset finite_role_ids by blast+
  have "card A + card B = card (A \<union> B)"
    using card_Un_disjoint [OF fin disjoint] by simp
  also have "\<dots> \<le> card (role_ids c role)"
    by (rule card_mono) (use assms(2,3) in auto)
  finally have "card A + card B \<le> count_with_role c role"
    using assms(1) by (simp add: card_role_ids)
  with assms(4,5) show False by (simp add: has_quorum_Some)
qed

definition example_cell :: cell where
  "example_cell =
     \<lparr>local_node_id = ''a'', local_clock_id = 1,
      cell_nodes = [\<lparr>cn_id = ''a'', cn_roles = [ChainRole]\<rparr>, \<lparr>cn_id = ''b'', cn_roles = [ChainRole]\<rparr>,
                    \<lparr>cn_id = ''c'', cn_roles = [ChainRole, StoreRole]\<rparr>]\<rparr>"

lemma role_ids_example: "role_ids example_cell ChainRole = {''a'', ''b'', ''c''}"
  by (simp add: role_ids_def with_role_def example_cell_def has_role_def)

theorem quorum_intersection_witness:
  "{''a'', ''b''} \<inter> {''b'', ''c''} \<noteq> {} \<and> has_quorum example_cell 2 (Some ChainRole)"
proof -
  have wf: "cell_wf example_cell" by (simp add: cell_wf_def example_cell_def)
  have q: "has_quorum example_cell 2 (Some ChainRole)"
    by (simp add: has_quorum_Some count_with_role_def example_cell_def has_role_def)
  have "{''a'', ''b''} \<inter> {''b'', ''c''} \<noteq> ({} :: node_id set)"
    by (rule quorum_intersection [OF wf, of _ ChainRole]) (use q in \<open>auto simp: role_ids_example numeral_2_eq_2\<close>)
  with q show ?thesis by blast
qed

end
