(* ===== verification/Exo_Block.thy ===== *)
theory Exo_Block
  imports Exo_Data Exo_Cell
begin

text \<open>
  Operations and blocks, \<open>chain/src/operation.rs\<close> and \<open>chain/src/block.rs\<close>: the messages a
  frame carries, the typed frames around them, the operations and signatures of a block,
  building, reading (forwards and backwards) and validating a block.
  The Cap'n Proto serialisation is a parameter: an encoding and a decoding per message.
\<close>

section \<open>Messages\<close>

record op_header =
  oh_operation_id :: nat
  oh_data_offset :: nat
  oh_data_size :: nat

record block_header =
  bh_offset :: nat
  bh_height :: nat
  bh_previous_offset :: nat
  bh_previous_hash :: bytes
  bh_proposed_operation_id :: nat
  bh_proposed_node_id :: node_id
  bh_operations_size :: nat
  bh_operations_hash :: bytes
  bh_operations_header :: "op_header list"
  bh_signatures_size :: nat

record block_sigs =
  bs_operations_size :: nat
  bs_signatures :: "(node_id \<times> bytes) list"

datatype op_body =
    OpEntry bytes
  | OpBlockPropose bytes
  | OpBlockSign node_id bytes
  | OpBlockRefuse

record chain_operation =
  co_operation_id :: nat
  co_group_id :: nat
  co_node_id :: node_id
  co_operation :: op_body

text \<open>
  Serialisation of the messages. \<open>dec\<close> is reading the message and its fields at once;
  \<open>None\<close> stands for any of the errors these calls give.
\<close>

record codec = hash_lib +
  enc_header :: "block_header \<Rightarrow> bytes"
  dec_header :: "bytes \<Rightarrow> block_header option"
  enc_sigs :: "block_sigs \<Rightarrow> bytes"
  dec_sigs :: "bytes \<Rightarrow> block_sigs option"
  enc_op :: "chain_operation \<Rightarrow> bytes"
  dec_op :: "bytes \<Rightarrow> chain_operation option"
  parse_node_id :: "string \<Rightarrow> node_id option"

record 'm typed_frame =
  tf_frame :: frame
  tf_reader :: 'm

datatype capnp_error = CapnpReadError

definition typed_capnp_new ::
  "(bytes \<Rightarrow> 'm option) \<Rightarrow> frame \<Rightarrow> (capnp_error, 'm typed_frame) result" where
  "typed_capnp_new dec f =
     (case exposed_data f of
        Ok d \<Rightarrow> and_then (ok_or CapnpReadError (dec d)) (\<lambda>m.
          Ok \<lparr>tf_frame = CapnpFrame f, tf_reader = m\<rparr>)
      | _ \<Rightarrow> Panic)"

text \<open>\<open>frame.inner().inner()\<close>: the multihash frame inside a typed Cap'n Proto frame.\<close>

fun capnp_inner :: "frame \<Rightarrow> frame" where
  "capnp_inner (CapnpFrame f) = f"
| "capnp_inner f = f"

definition typed_multihash :: "'m typed_frame \<Rightarrow> (framing_error, bytes) result" where
  "typed_multihash t = multihash_bytes (capnp_inner (tf_frame t))"

section \<open>Operations\<close>

datatype op_error = NotAnEntry | OpFraming framing_error | OpSerialization

type_synonym operation_frame = "chain_operation typed_frame"

datatype operation_type = TEntry | TBlockPropose | TBlockSign | TBlockRefuse

definition as_entry_data :: "operation_frame \<Rightarrow> (op_error, bytes) result" where
  "as_entry_data f =
     (case co_operation (tf_reader f) of OpEntry d \<Rightarrow> Ok d | _ \<Rightarrow> Err NotAnEntry)"

definition op_get_type :: "operation_frame \<Rightarrow> operation_type" where
  "op_get_type f =
     (case co_operation (tf_reader f) of
        OpBlockSign _ _ \<Rightarrow> TBlockSign
      | OpBlockPropose _ \<Rightarrow> TBlockPropose
      | OpBlockRefuse \<Rightarrow> TBlockRefuse
      | OpEntry _ \<Rightarrow> TEntry)"

definition op_get_id :: "operation_frame \<Rightarrow> nat" where
  "op_get_id f = co_operation_id (tf_reader f)"

definition op_get_group_id :: "operation_frame \<Rightarrow> nat" where
  "op_get_group_id f = co_group_id (tf_reader f)"

definition read_operation_frame ::
  "('c) codec_scheme \<Rightarrow> frame \<Rightarrow> (op_error, operation_frame) result" where
  "read_operation_frame C inner =
     and_then (map_err OpFraming (sized_new inner)) (\<lambda>sized_frame.
     and_then (map_err OpFraming (multihash_new sized_frame)) (\<lambda>multihash_frame.
       map_err (\<lambda>_. OpSerialization) (typed_capnp_new (dec_op C) multihash_frame)))"

record operation_builder =
  ob_operation_id :: nat
  ob_message :: chain_operation

record new_operation =
  no_operation_id :: nat
  no_frame :: operation_frame

definition new_entry :: "nat \<Rightarrow> node_id \<Rightarrow> bytes \<Rightarrow> operation_builder" where
  "new_entry operation_id node data =
     \<lparr>ob_operation_id = operation_id,
      ob_message = \<lparr>co_operation_id = operation_id, co_group_id = operation_id, co_node_id = node,
        co_operation = OpEntry data\<rparr>\<rparr>"

definition new_block_proposal_from_data :: "nat \<Rightarrow> node_id \<Rightarrow> bytes \<Rightarrow> operation_builder" where
  "new_block_proposal_from_data operation_id node data =
     \<lparr>ob_operation_id = operation_id,
      ob_message = \<lparr>co_operation_id = operation_id, co_group_id = operation_id, co_node_id = node,
        co_operation = OpBlockPropose data\<rparr>\<rparr>"

definition signature_empty :: bytes where
  "signature_empty = replicate 64 0"

definition new_signature_for_block :: "nat \<Rightarrow> nat \<Rightarrow> node_id \<Rightarrow> operation_builder" where
  "new_signature_for_block group_id operation_id node =
     \<lparr>ob_operation_id = operation_id,
      ob_message = \<lparr>co_operation_id = operation_id, co_group_id = group_id, co_node_id = node,
        co_operation = OpBlockSign node signature_empty\<rparr>\<rparr>"

definition new_refusal :: "nat \<Rightarrow> nat \<Rightarrow> node_id \<Rightarrow> operation_builder" where
  "new_refusal group_id operation_id node =
     \<lparr>ob_operation_id = operation_id,
      ob_message = \<lparr>co_operation_id = operation_id, co_group_id = group_id, co_node_id = node,
        co_operation = OpBlockRefuse\<rparr>\<rparr>"

definition sign_and_build ::
  "('c) codec_scheme \<Rightarrow> operation_builder \<Rightarrow> (op_error, new_operation) result" where
  "sign_and_build C b =
     and_then (read_operation_frame C (RawFrame (as_bytes C
         (SizedBuilder (MultihashBuilder (BytesBuilder (enc_op C (ob_message b)))))))) (\<lambda>final_frame.
       Ok \<lparr>no_operation_id = ob_operation_id b, no_frame = final_frame\<rparr>)"

section \<open>The operations of a block\<close>

datatype block_error =
    BlockIntegrity
  | BlockOutOfBound
  | BlockOperation op_error
  | BlockFraming framing_error
  | BlockSerialization

record block_operations =
  bo_hash :: bytes
  bo_headers :: "op_header list"
  bo_data :: bytes

definition block_operations_empty :: "('c) codec_scheme \<Rightarrow> block_operations" where
  "block_operations_empty C = \<lparr>bo_hash = mh_default C, bo_headers = [], bo_data = []\<rparr>"

text \<open>
  The loop of \<open>from_operations\<close>: \<open>hashed\<close> is what the hasher was fed so far, \<open>headers\<close>
  and \<open>data\<close> the accumulators, \<open>last_id\<close> the last operation id. Unsorted operations panic.
\<close>

fun from_operations_loop ::
  "('c) codec_scheme \<Rightarrow> operation_frame list \<Rightarrow> bytes \<Rightarrow> op_header list \<Rightarrow> bytes \<Rightarrow> nat
     \<Rightarrow> (block_error, block_operations) result" where
  "from_operations_loop C [] hashed headers data last_id =
     Ok \<lparr>bo_hash = digest C hashed, bo_headers = headers, bo_data = data\<rparr>"
| "from_operations_loop C (operation # ops) hashed headers data last_id =
     and_then (map_err BlockFraming (whole_data (tf_frame operation))) (\<lambda>entry_data.
     and_then (map_err BlockFraming (typed_multihash operation)) (\<lambda>mh.
       let operation_id = op_get_id operation in
       if operation_id < last_id then Panic
       else from_operations_loop C ops (hashed @ mh)
              (headers @ [\<lparr>oh_operation_id = operation_id,
                           oh_data_offset = length data mod 2 ^ 32,
                           oh_data_size = length entry_data mod 2 ^ 32\<rparr>])
              (data @ entry_data) operation_id))"

definition from_operations ::
  "('c) codec_scheme \<Rightarrow> operation_frame list \<Rightarrow> (block_error, block_operations) result" where
  "from_operations C ops = from_operations_loop C ops [] [] [] 0"

fun hash_operations_loop ::
  "('c) codec_scheme \<Rightarrow> operation_frame list \<Rightarrow> bytes \<Rightarrow> (block_error, bytes) result" where
  "hash_operations_loop C [] hashed = Ok (digest C hashed)"
| "hash_operations_loop C (operation # ops) hashed =
     and_then (map_err BlockFraming (typed_multihash operation)) (\<lambda>mh.
       hash_operations_loop C ops (hashed @ mh))"

definition hash_operations ::
  "('c) codec_scheme \<Rightarrow> operation_frame list \<Rightarrow> (block_error, bytes) result" where
  "hash_operations C ops = hash_operations_loop C ops []"

definition operations_count :: "block_operations \<Rightarrow> nat" where
  "operations_count bo = length (bo_headers bo)"

definition operations_id :: "block_operations \<Rightarrow> nat list" where
  "operations_id bo = map oh_operation_id (bo_headers bo)"

text \<open>\<open>BlockOperationHeader::read_frame\<close>: the slice panics out of range.\<close>

definition read_frame ::
  "('c) codec_scheme \<Rightarrow> op_header \<Rightarrow> bytes \<Rightarrow> (block_error, operation_frame) result" where
  "read_frame C h operations_data =
     and_then (slice operations_data (oh_data_offset h) (oh_data_offset h + oh_data_size h)) (\<lambda>d.
       map_err BlockOperation (read_operation_frame C (RawFrame d)))"

section \<open>Signatures\<close>

type_synonym sigs_frame = "block_sigs typed_frame"

definition empty_signatures_for_nodes :: "cell \<Rightarrow> (node_id \<times> bytes) list" where
  "empty_signatures_for_nodes c =
     map (\<lambda>cn. (cn_id cn, signature_empty)) (filter (\<lambda>cn. has_role cn ChainRole) (cell_nodes c))"

definition sigs_read_frame ::
  "('c) codec_scheme \<Rightarrow> frame \<Rightarrow> (block_error, sigs_frame) result" where
  "sigs_read_frame C inner =
     and_then (map_err BlockFraming (sized_new inner)) (\<lambda>sized_frame.
     and_then (map_err BlockFraming (padded_new sized_frame)) (\<lambda>padded_frame.
       map_err (\<lambda>_. BlockSerialization) (typed_capnp_new (dec_sigs C) padded_frame)))"

definition sigs_read_frame_from_next_offset ::
  "('c) codec_scheme \<Rightarrow> frame \<Rightarrow> nat \<Rightarrow> (block_error, sigs_frame) result" where
  "sigs_read_frame_from_next_offset C inner next_offset =
     and_then (map_err BlockFraming (sized_new_from_next_offset inner next_offset)) (\<lambda>sized_frame.
     and_then (map_err BlockFraming (padded_new sized_frame)) (\<lambda>padded_frame.
       map_err (\<lambda>_. BlockSerialization) (typed_capnp_new (dec_sigs C) padded_frame)))"

definition to_frame_for_new_block ::
  "('c) codec_scheme \<Rightarrow> (node_id \<times> bytes) list \<Rightarrow> nat \<Rightarrow> (block_error, sigs_frame) result" where
  "to_frame_for_new_block C sigs operations_size =
     sigs_read_frame C (RawFrame (as_bytes C (SizedBuilder (PaddedBuilder
       (CapnpBuilder (enc_sigs C \<lparr>bs_operations_size = operations_size, bs_signatures = sigs\<rparr>)) 0))))"

definition to_frame_for_existing_block ::
  "('c) codec_scheme \<Rightarrow> (node_id \<times> bytes) list \<Rightarrow> block_header \<Rightarrow> (block_error, sigs_frame) result" where
  "to_frame_for_existing_block C sigs header =
     (let expected_signatures_size = bh_signatures_size header;
          data = enc_sigs C \<lparr>bs_operations_size = bh_operations_size header, bs_signatures = sigs\<rparr>
      in and_then (expect (expected_size (SizedBuilder (PaddedBuilder (BytesBuilder data) 0))))
        (\<lambda>frame_expected_size.
          let minimum_size =
            (if frame_expected_size < expected_signatures_size
             then length data + (expected_signatures_size - frame_expected_size) else 0)
          in and_then (sigs_read_frame C (RawFrame (as_bytes C
                (SizedBuilder (PaddedBuilder (BytesBuilder data) minimum_size))))) (\<lambda>f.
             and_then (map_err BlockFraming (whole_data_size (tf_frame f))) (\<lambda>n.
               if n \<noteq> expected_signatures_size then Err BlockIntegrity else Ok f))))"

section \<open>Blocks\<close>

type_synonym header_frame = "block_header typed_frame"

record data_block =
  db_offset :: nat
  db_header :: header_frame
  db_operations_data :: data_src
  db_signatures :: sigs_frame

definition read_header_frame ::
  "('c) codec_scheme \<Rightarrow> frame \<Rightarrow> (block_error, header_frame) result" where
  "read_header_frame C inner =
     and_then (map_err BlockFraming (sized_new inner)) (\<lambda>sized_frame.
     and_then (map_err BlockFraming (multihash_new sized_frame)) (\<lambda>multihash_frame.
       map_err (\<lambda>_. BlockSerialization) (typed_capnp_new (dec_header C) multihash_frame)))"

definition read_header_frame_from_next_offset ::
  "('c) codec_scheme \<Rightarrow> frame \<Rightarrow> nat \<Rightarrow> (block_error, header_frame) result" where
  "read_header_frame_from_next_offset C inner next_offset =
     and_then (map_err BlockFraming (sized_new_from_next_offset inner next_offset)) (\<lambda>sized_frame.
     and_then (map_err BlockFraming (multihash_new sized_frame)) (\<lambda>multihash_frame.
       map_err (\<lambda>_. BlockSerialization) (typed_capnp_new (dec_header C) multihash_frame)))"

definition build_header_frame :: "('c) codec_scheme \<Rightarrow> block_header \<Rightarrow> builder" where
  "build_header_frame C h = SizedBuilder (MultihashBuilder (CapnpBuilder (enc_header C h)))"

definition operations_data :: "data_block \<Rightarrow> (block_error, bytes) result" where
  "operations_data b = data_slice (db_operations_data b) Unbounded Unbounded"

definition total_size :: "data_block \<Rightarrow> (block_error, nat) result" where
  "total_size b =
     and_then (map_err BlockFraming (whole_data_size (tf_frame (db_header b)))) (\<lambda>h.
     and_then (operations_data b) (\<lambda>ops.
     and_then (map_err BlockFraming (whole_data_size (tf_frame (db_signatures b)))) (\<lambda>s.
       Ok (h + length ops + s))))"

definition next_offset :: "data_block \<Rightarrow> (block_error, nat) result" where
  "next_offset b = and_then (total_size b) (\<lambda>n. Ok (db_offset b + n))"

fun expect_ok :: "('e, 'a) result \<Rightarrow> ('f, 'a) result" where
  "expect_ok (Ok x) = Ok x"
| "expect_ok (Err e) = Panic"
| "expect_ok Panic = Panic"

text \<open>The destination slice after the copy.\<close>

definition copy_data_into :: "data_block \<Rightarrow> bytes \<Rightarrow> (block_error, bytes) result" where
  "copy_data_into b data =
     and_then (operations_data b) (\<lambda>ops.
     and_then (map_err BlockFraming (whole_data_size (tf_frame (db_header b)))) (\<lambda>operations_offset.
       let signatures_offset = operations_offset + length ops in
       and_then (expect_ok (copy_into (tf_frame (db_header b)) data)) (\<lambda>(data1, _).
       if length data1 < signatures_offset then Panic
       else let data2 = overwrite data1 operations_offset ops in
         and_then (expect_ok (copy_into (tf_frame (db_signatures b)) (drop signatures_offset data2)))
           (\<lambda>(tl, _). Ok (take signatures_offset data2 @ tl)))))"

definition as_data_vec :: "data_block \<Rightarrow> (block_error, bytes) result" where
  "as_data_vec b =
     and_then (map_err BlockFraming (whole_data (tf_frame (db_header b)))) (\<lambda>h.
     and_then (operations_data b) (\<lambda>ops.
     and_then (map_err BlockFraming (whole_data (tf_frame (db_signatures b)))) (\<lambda>s.
       Ok (h @ ops @ s))))"

definition get_height :: "data_block \<Rightarrow> nat" where
  "get_height b = bh_height (tf_reader (db_header b))"

definition get_proposed_operation_id :: "data_block \<Rightarrow> nat" where
  "get_proposed_operation_id b = bh_proposed_operation_id (tf_reader (db_header b))"

definition data_block_new ::
  "('c) codec_scheme \<Rightarrow> data_src \<Rightarrow> (block_error, data_block) result" where
  "data_block_new C data =
     and_then (data_frame data) (\<lambda>f.
     and_then (read_header_frame C f) (\<lambda>header.
     and_then (map_err BlockFraming (whole_data_size (tf_frame header))) (\<lambda>operations_offset.
       let operations_size = bh_operations_size (tf_reader header);
           signatures_offset = operations_offset + operations_size;
           signatures_size = bh_signatures_size (tf_reader header) in
       and_then (data_len data) (\<lambda>len.
       if signatures_offset \<ge> len then Err BlockOutOfBound
       else
         and_then (data_view data (Included signatures_offset)
             (Excluded (signatures_offset + signatures_size))) (\<lambda>signatures_data.
         and_then (data_frame signatures_data) (\<lambda>sf.
         and_then (sigs_read_frame C sf) (\<lambda>signatures.
         and_then (data_view data (Included operations_offset) (Excluded signatures_offset)) (\<lambda>ops.
           Ok \<lparr>db_offset = bh_offset (tf_reader header), db_header = header,
               db_operations_data = ops, db_signatures = signatures\<rparr>))))))))"

definition data_block_new_from_next_offset ::
  "('c) codec_scheme \<Rightarrow> data_src \<Rightarrow> nat \<Rightarrow> (block_error, data_block) result" where
  "data_block_new_from_next_offset C data next_off =
     and_then (data_frame data) (\<lambda>f.
     and_then (sigs_read_frame_from_next_offset C f next_off) (\<lambda>signatures.
     and_then (map_err BlockFraming (whole_data_size (tf_frame signatures))) (\<lambda>sigs_size.
       if next_off < sigs_size then Panic
       else let signatures_offset = next_off - sigs_size;
                operations_size = bs_operations_size (tf_reader signatures) in
         if operations_size > signatures_offset then Err BlockOutOfBound
         else let operations_offset = signatures_offset - operations_size in
           and_then (data_view data (Included operations_offset) (Excluded signatures_offset)) (\<lambda>ops.
           and_then (read_header_frame_from_next_offset C f operations_offset) (\<lambda>header.
             Ok \<lparr>db_offset = bh_offset (tf_reader header), db_header = header,
                 db_operations_data = ops, db_signatures = signatures\<rparr>)))))"

section \<open>Building a block\<close>

definition build_with_prev_info ::
  "('c) codec_scheme \<Rightarrow> cell \<Rightarrow> nat \<Rightarrow> nat \<Rightarrow> nat \<Rightarrow> bytes \<Rightarrow> nat \<Rightarrow> block_operations
     \<Rightarrow> (block_error, data_block) result" where
  "build_with_prev_info C c offset height previous_offset previous_hash proposed_operation_id operations =
     (let operations_data_size = length (bo_data operations) mod 2 ^ 32 in
      and_then (to_frame_for_new_block C (empty_signatures_for_nodes c) operations_data_size)
        (\<lambda>signature_frame.
      and_then (map_err BlockFraming (whole_data_size (tf_frame signature_frame))) (\<lambda>sig_size.
        let header =
          \<lparr>bh_offset = offset, bh_height = height + 1, bh_previous_offset = previous_offset,
           bh_previous_hash = previous_hash, bh_proposed_operation_id = proposed_operation_id,
           bh_proposed_node_id = local_node_id c, bh_operations_size = operations_data_size,
           bh_operations_hash = bo_hash operations, bh_operations_header = bo_headers operations,
           bh_signatures_size = sig_size mod 2 ^ 16\<rparr>
        in and_then (read_header_frame C (RawFrame (as_bytes C (build_header_frame C header))))
          (\<lambda>block_header.
            Ok \<lparr>db_offset = offset, db_header = block_header,
                db_operations_data = BytesData (bo_data operations),
                db_signatures = signature_frame\<rparr>))))"

definition build_genesis :: "('c) codec_scheme \<Rightarrow> cell \<Rightarrow> (block_error, data_block) result" where
  "build_genesis C c = build_with_prev_info C c 0 0 0 [] 0 (block_operations_empty C)"

definition build_with_prev_block ::
  "('c) codec_scheme \<Rightarrow> cell \<Rightarrow> data_block \<Rightarrow> nat \<Rightarrow> block_operations
     \<Rightarrow> (block_error, data_block) result" where
  "build_with_prev_block C c previous_block proposed_operation_id operations =
     and_then (map_err BlockFraming (typed_multihash (db_header previous_block))) (\<lambda>previous_hash.
     and_then (next_offset previous_block) (\<lambda>offset.
       build_with_prev_info C c offset (get_height previous_block) (db_offset previous_block)
         previous_hash proposed_operation_id operations))"

section \<open>Reading the operations of a block\<close>

record block_operations_iter =
  bi_index :: nat
  bi_headers :: "op_header list"
  bi_data :: bytes
  bi_last_error :: "block_error option"

definition operations_iter :: "data_block \<Rightarrow> (block_error, block_operations_iter) result" where
  "operations_iter b =
     and_then (operations_data b) (\<lambda>d.
       Ok \<lparr>bi_index = 0, bi_headers = bh_operations_header (tf_reader (db_header b)),
           bi_data = d, bi_last_error = None\<rparr>)"

definition operations_iter_next ::
  "('c) codec_scheme \<Rightarrow> block_operations_iter
     \<Rightarrow> (block_error, block_operations_iter \<times> operation_frame option) result" where
  "operations_iter_next C it =
     (if bi_index it \<ge> length (bi_headers it) then Ok (it, None)
      else let header = bi_headers it ! bi_index it;
               it1 = it\<lparr>bi_index := bi_index it + 1\<rparr> in
        case read_frame C header (bi_data it) of
          Ok frame \<Rightarrow> Ok (it1, Some frame)
        | Err err \<Rightarrow> Ok (it1\<lparr>bi_last_error := Some err\<rparr>, None)
        | Panic \<Rightarrow> Panic)"

text \<open>A \<open>for\<close> loop over the operations: the frames up to the first \<open>None\<close>.\<close>

function iter_operations ::
  "('c) codec_scheme \<Rightarrow> block_operations_iter \<Rightarrow> (block_error, operation_frame list) result" where
  "iter_operations C it =
     and_then (operations_iter_next C it) (\<lambda>(it', item).
       case item of None \<Rightarrow> Ok []
       | Some f \<Rightarrow> and_then (iter_operations C it') (\<lambda>fs. Ok (f # fs)))"
  by pat_completeness auto
termination
  by (relation "measure (\<lambda>(C, it). length (bi_headers it) - bi_index it)")
    (auto simp: operations_iter_next_def Let_def split: if_splits result.splits)

declare iter_operations.simps [simp del]

definition block_operation_frames ::
  "('c) codec_scheme \<Rightarrow> data_block \<Rightarrow> (block_error, operation_frame list) result" where
  "block_operation_frames C b = and_then (operations_iter b) (iter_operations C)"

definition get_operation ::
  "('c) codec_scheme \<Rightarrow> data_block \<Rightarrow> nat \<Rightarrow> (block_error, operation_frame option) result" where
  "get_operation C b operation_id =
     (let headers = bh_operations_header (tf_reader (db_header b)) in
      case binary_search_by (\<lambda>h. cmp_nat (oh_operation_id h) operation_id) headers of
        Inr i \<Rightarrow>
          (if i > length headers then Err BlockOutOfBound
           else and_then (operations_data b) (\<lambda>d.
             if i \<ge> length headers then Panic
             else and_then (read_frame C (headers ! i) d) (\<lambda>f. Ok (Some f))))
      | Inl _ \<Rightarrow> Ok None)"

section \<open>Validating a block\<close>

text \<open>The boolean that \<open>verify\<close> returns is not looked at: only its error is.\<close>

definition validate ::
  "('c) codec_scheme \<Rightarrow> data_block \<Rightarrow> data_block option \<Rightarrow> (block_error, unit) result" where
  "validate C b previous_block =
     (let header_reader = tf_reader (db_header b) in
      and_then (map_err BlockFraming (multihash_verify C (capnp_inner (tf_frame (db_header b))))) (\<lambda>_.
      and_then
        (case previous_block of None \<Rightarrow> Ok ()
         | Some p \<Rightarrow> and_then (map_err BlockFraming (typed_multihash (db_header p))) (\<lambda>previous_hash.
             if previous_hash \<noteq> bh_previous_hash header_reader then Err BlockIntegrity else Ok ())) (\<lambda>_.
      and_then (map_err BlockFraming (whole_data_size (tf_frame (db_signatures b)))) (\<lambda>sig_size_stored.
      if bh_signatures_size header_reader \<noteq> sig_size_stored then Err BlockIntegrity
      else and_then (operations_data b) (\<lambda>ops.
        if bh_operations_size header_reader \<noteq> length ops then Err BlockIntegrity
        else if bh_operations_size header_reader > 0 then
          and_then (block_operation_frames C b) (\<lambda>operations.
          and_then (hash_operations C operations) (\<lambda>ops_hash_stored.
          and_then (ok_or BlockIntegrity (mh_decode C (bh_operations_hash header_reader)))
            (\<lambda>ops_hash_header.
              if ops_hash_stored \<noteq> ops_hash_header then Err BlockIntegrity else Ok ())))
        else Ok ())))))"

end
