(* ===== verification/Exo_Block_Facts.thy ===== *)
theory Exo_Block_Facts
  imports Exo_Block
begin

text \<open>
  What a block is on the wire, and that the readers and builders of \<open>Exo_Block\<close> agree with
  it: an abstract block (header, operation bytes, signatures, padding) has one byte
  representation, which both readers recover from any source that contains it.
\<close>

section \<open>Abstract blocks\<close>

record ablock =
  ab_header :: block_header
  ab_ops :: bytes
  ab_sigs :: block_sigs
  ab_pad :: nat

definition header_bytes :: "('c) codec_scheme \<Rightarrow> block_header \<Rightarrow> bytes" where
  "header_bytes C h = sized_bytes (enc_header C h @ digest C (enc_header C h))"

definition sigs_bytes :: "('c) codec_scheme \<Rightarrow> block_sigs \<Rightarrow> nat \<Rightarrow> bytes" where
  "sigs_bytes C s pad = sized_bytes (enc_sigs C s @ replicate pad 0 @ write_u32 pad)"

definition block_bytes :: "('c) codec_scheme \<Rightarrow> ablock \<Rightarrow> bytes" where
  "block_bytes C a = header_bytes C (ab_header a) @ ab_ops a @ sigs_bytes C (ab_sigs a) (ab_pad a)"

text \<open>
  The hypotheses on the serialisation, for one message: it is read back as it was written,
  and its frame does not exceed the 32-bit size a sized frame can hold.
\<close>

definition header_codec_ok :: "('c) codec_scheme \<Rightarrow> block_header \<Rightarrow> bool" where
  "header_codec_ok C h \<longleftrightarrow>
     hash_lib_ok C \<and> dec_header C (enc_header C h) = Some h \<and> length (enc_header C h) + multihash_size < 2 ^ 32"

definition sigs_codec_ok :: "('c) codec_scheme \<Rightarrow> block_sigs \<Rightarrow> nat \<Rightarrow> bool" where
  "sigs_codec_ok C s pad \<longleftrightarrow>
     hash_lib_ok C \<and> dec_sigs C (enc_sigs C s) = Some s \<and> length (enc_sigs C s) + pad + 4 < 2 ^ 32"

text \<open>The sizes a header announces are those of the parts that follow it.\<close>

definition ablock_wf :: "('c) codec_scheme \<Rightarrow> ablock \<Rightarrow> bool" where
  "ablock_wf C a \<longleftrightarrow>
     header_codec_ok C (ab_header a) \<and> sigs_codec_ok C (ab_sigs a) (ab_pad a) \<and>
     bh_operations_size (ab_header a) = length (ab_ops a) \<and>
     bs_operations_size (ab_sigs a) = length (ab_ops a) \<and>
     bh_signatures_size (ab_header a) = length (sigs_bytes C (ab_sigs a) (ab_pad a))"

definition header_is :: "('c) codec_scheme \<Rightarrow> header_frame \<Rightarrow> block_header \<Rightarrow> bool" where
  "header_is C f h \<longleftrightarrow>
     tf_reader f = h \<and> whole_data (tf_frame f) = Ok (header_bytes C h) \<and>
     exposed_data (capnp_inner (tf_frame f)) = Ok (enc_header C h) \<and>
     typed_multihash f = Ok (digest C (enc_header C h))"

definition sigs_is :: "('c) codec_scheme \<Rightarrow> sigs_frame \<Rightarrow> block_sigs \<Rightarrow> nat \<Rightarrow> bool" where
  "sigs_is C f s pad \<longleftrightarrow> tf_reader f = s \<and> whole_data (tf_frame f) = Ok (sigs_bytes C s pad)"

text \<open>A block read or built by the code represents an abstract block.\<close>

definition block_is :: "('c) codec_scheme \<Rightarrow> data_block \<Rightarrow> ablock \<Rightarrow> bool" where
  "block_is C b a \<longleftrightarrow>
     db_offset b = bh_offset (ab_header a) \<and> header_is C (db_header b) (ab_header a) \<and>
     src_holds (db_operations_data b) (ab_ops a) \<and> sigs_is C (db_signatures b) (ab_sigs a) (ab_pad a)"

named_theorems block_simps \<open>what a represented block answers\<close>

lemma length_header_bytes [simp]:
  "hash_lib_ok C \<Longrightarrow> length (header_bytes C h) = length (enc_header C h) + multihash_size + 8"
  by (simp add: header_bytes_def digest_length)

lemma length_sigs_bytes [simp]:
  "length (sigs_bytes C s pad) = length (enc_sigs C s) + pad + 4 + 8"
  by (simp add: sigs_bytes_def)

section \<open>Reading the parts\<close>

lemma typed_header_is:
  assumes ok: "header_codec_ok C h" and d: "exposed_data g = Ok (enc_header C h @ digest C (enc_header C h))"
    and w: "whole_data g = Ok (header_bytes C h)"
  shows "\<exists>hf. and_then (map_err BlockFraming (multihash_new g)) (\<lambda>m.
      map_err (\<lambda>_. BlockSerialization) (typed_capnp_new (dec_header C) m)) = Ok hf \<and> header_is C hf h"
proof -
  note m = multihash_reads [OF d digest_length]
  have H: "hash_lib_ok C" using ok by (simp add: header_codec_ok_def)
  from m [OF H] ok w show ?thesis
    by (auto simp: typed_capnp_new_def header_codec_ok_def header_is_def typed_multihash_def)
qed

lemma read_header_at:
  assumes ok: "header_codec_ok C h"
    and e: "exposed_data f = Ok (header_bytes C h @ r)" and w: "whole_data f = Ok (header_bytes C h @ r)"
  shows "\<exists>hf. read_header_frame C f = Ok hf \<and> header_is C hf h"
proof -
  let ?d = "enc_header C h @ digest C (enc_header C h)"
  let ?g = "SizedFrame f 0 (length ?d)"
  have len: "length ?d < 2 ^ 32"
    using ok by (simp add: header_codec_ok_def digest_length)
  have g: "sized_new f = Ok ?g"
    by (rule sized_new_reads) (use e len in \<open>simp_all add: header_bytes_def\<close>)
  have "exposed_data ?g = Ok ?d" "whole_data ?g = Ok (header_bytes C h)"
    using sized_exposed [of f "[]" ?d r] sized_whole [of f "[]" ?d r] e w
    by (simp_all add: header_bytes_def del: exposed_data.simps whole_data.simps)
  from typed_header_is [OF ok this] show ?thesis
    by (simp add: read_header_frame_def g)
qed

lemma read_header_before:
  assumes ok: "header_codec_ok C h"
    and e: "exposed_data f = Ok (p @ header_bytes C h @ r)"
    and w: "whole_data f = Ok (p @ header_bytes C h @ r)"
    and n: "n = length p + length (header_bytes C h)"
  shows "\<exists>hf. read_header_frame_from_next_offset C f n = Ok hf \<and> header_is C hf h"
proof -
  let ?d = "enc_header C h @ digest C (enc_header C h)"
  let ?g = "SizedFrame f (length p) (length ?d)"
  have H: "hash_lib_ok C" and len: "length ?d < 2 ^ 32"
    using ok by (simp_all add: header_codec_ok_def digest_length)
  have "sized_new_from_next_offset f (length p + (length ?d + 8)) = Ok ?g"
    by (rule sized_next_reads) (use e len in \<open>simp_all add: header_bytes_def\<close>)
  then have g: "sized_new_from_next_offset f n = Ok ?g"
    by (simp add: n H digest_length)
  have "exposed_data ?g = Ok ?d" "whole_data ?g = Ok (header_bytes C h)"
    using sized_exposed [of f p ?d r] sized_whole [of f p ?d r] e w
    by (simp_all add: header_bytes_def del: exposed_data.simps whole_data.simps)
  from typed_header_is [OF ok this] show ?thesis
    by (simp add: read_header_frame_from_next_offset_def g)
qed

lemma typed_sigs_is:
  assumes ok: "sigs_codec_ok C s pad"
    and d: "exposed_data g = Ok (enc_sigs C s @ replicate pad 0 @ write_u32 pad)"
    and w: "whole_data g = Ok (sigs_bytes C s pad)"
  shows "\<exists>sf. and_then (map_err BlockFraming (padded_new g)) (\<lambda>m.
      map_err (\<lambda>_. BlockSerialization) (typed_capnp_new (dec_sigs C) m)) = Ok sf \<and> sigs_is C sf s pad"
proof -
  have "pad < 2 ^ 32" using ok by (simp add: sigs_codec_ok_def)
  note p = padded_reads [OF d this]
  from p ok w show ?thesis
    by (auto simp: typed_capnp_new_def sigs_codec_ok_def sigs_is_def)
qed

lemma read_sigs_at:
  assumes ok: "sigs_codec_ok C s pad"
    and e: "exposed_data f = Ok (sigs_bytes C s pad @ r)" and w: "whole_data f = Ok (sigs_bytes C s pad @ r)"
  shows "\<exists>sf. sigs_read_frame C f = Ok sf \<and> sigs_is C sf s pad"
proof -
  let ?d = "enc_sigs C s @ replicate pad 0 @ write_u32 pad"
  let ?g = "SizedFrame f 0 (length ?d)"
  have len: "length ?d < 2 ^ 32" using ok by (simp add: sigs_codec_ok_def)
  have g: "sized_new f = Ok ?g"
    by (rule sized_new_reads) (use e len in \<open>simp_all add: sigs_bytes_def\<close>)
  have "exposed_data ?g = Ok ?d" "whole_data ?g = Ok (sigs_bytes C s pad)"
    using sized_exposed [of f "[]" ?d r] sized_whole [of f "[]" ?d r] e w
    by (simp_all add: sigs_bytes_def del: exposed_data.simps whole_data.simps)
  from typed_sigs_is [OF ok this] show ?thesis by (simp add: sigs_read_frame_def g)
qed

lemma read_sigs_before:
  assumes ok: "sigs_codec_ok C s pad"
    and e: "exposed_data f = Ok (p @ sigs_bytes C s pad @ r)"
    and w: "whole_data f = Ok (p @ sigs_bytes C s pad @ r)"
    and n: "n = length p + length (sigs_bytes C s pad)"
  shows "\<exists>sf. sigs_read_frame_from_next_offset C f n = Ok sf \<and> sigs_is C sf s pad"
proof -
  let ?d = "enc_sigs C s @ replicate pad 0 @ write_u32 pad"
  let ?g = "SizedFrame f (length p) (length ?d)"
  have len: "length ?d < 2 ^ 32" using ok by (simp add: sigs_codec_ok_def)
  have "sized_new_from_next_offset f (length p + (length ?d + 8)) = Ok ?g"
    by (rule sized_next_reads) (use e len in \<open>simp_all add: sigs_bytes_def\<close>)
  then have g: "sized_new_from_next_offset f n = Ok ?g" by (simp add: n)
  have "exposed_data ?g = Ok ?d" "whole_data ?g = Ok (sigs_bytes C s pad)"
    using sized_exposed [of f p ?d r] sized_whole [of f p ?d r] e w
    by (simp_all add: sigs_bytes_def del: exposed_data.simps whole_data.simps)
  from typed_sigs_is [OF ok this] show ?thesis
    by (simp add: sigs_read_frame_from_next_offset_def g)
qed

section \<open>Reading a block, forwards and backwards\<close>

lemma ablock_wf_hash [simp]: "ablock_wf C a \<Longrightarrow> hash_lib_ok C"
  by (simp add: ablock_wf_def header_codec_ok_def)

lemma header_is_size: "header_is C f h \<Longrightarrow> whole_data_size (tf_frame f) = Ok (length (header_bytes C h))"
  by (simp add: header_is_def whole_data_size_def)

lemma sigs_is_size: "sigs_is C f s pad \<Longrightarrow> whole_data_size (tf_frame f) = Ok (length (sigs_bytes C s pad))"
  by (simp add: sigs_is_def whole_data_size_def)

lemma data_block_new_reads:
  assumes wf: "ablock_wf C a" and src: "src_holds d (block_bytes C a @ r)"
  shows "\<exists>b. data_block_new C d = Ok b \<and> block_is C b a"
proof -
  let ?h = "ab_header a" and ?s = "ab_sigs a" and ?ops = "ab_ops a"
  let ?hb = "header_bytes C ?h" and ?sb = "sigs_bytes C ?s (ab_pad a)"
  have src': "src_holds d (?hb @ ?ops @ ?sb @ r)"
    using src by (simp add: block_bytes_def)
  have sizes: "bh_operations_size ?h = length ?ops" "bh_signatures_size ?h = length ?sb"
    using wf by (simp_all add: ablock_wf_def)
  obtain hf where hf: "read_header_frame C (RawFrame (?hb @ ?ops @ ?sb @ r)) = Ok hf" "header_is C hf ?h"
    using read_header_at [of C ?h "RawFrame (?hb @ ?ops @ ?sb @ r)" "?ops @ ?sb @ r"] wf
    by (auto simp: ablock_wf_def)
  obtain sv where sv: "data_view d (Included (length ?hb + length ?ops))
        (Excluded (length ?hb + length ?ops + length ?sb)) = (Ok sv :: (block_error, data_src) result)"
      "src_holds sv ?sb"
    using src_holds_view [OF src', of "length ?hb + length ?ops" "length ?hb + length ?ops + length ?sb"]
    by auto
  obtain sf where sf: "sigs_read_frame C (RawFrame ?sb) = Ok sf" "sigs_is C sf ?s (ab_pad a)"
    using read_sigs_at [of C ?s "ab_pad a" "RawFrame ?sb" "[]"] wf by (auto simp: ablock_wf_def)
  obtain ov where ov: "data_view d (Included (length ?hb)) (Excluded (length ?hb + length ?ops))
        = (Ok ov :: (block_error, data_src) result)" "src_holds ov ?ops"
    using src_holds_view [OF src', of "length ?hb" "length ?hb + length ?ops"] by auto
  have r: "tf_reader hf = ?h" using hf(2) by (simp add: header_is_def)
  have ne: "?sb \<noteq> []" using length_sigs_bytes [of C ?s "ab_pad a"] by fastforce
  show ?thesis
    using src' hf sv sf ov r sizes ne header_is_size [OF hf(2)]
    by (simp add: data_block_new_def block_is_def Let_def del: length_header_bytes length_sigs_bytes)
qed

lemma data_block_before_reads:
  assumes wf: "ablock_wf C a" and src: "src_holds d (p @ block_bytes C a @ r)"
    and n: "n = length p + length (block_bytes C a)"
  shows "\<exists>b. data_block_new_from_next_offset C d n = Ok b \<and> block_is C b a"
proof -
  let ?h = "ab_header a" and ?s = "ab_sigs a" and ?ops = "ab_ops a"
  let ?hb = "header_bytes C ?h" and ?sb = "sigs_bytes C ?s (ab_pad a)"
  let ?all = "p @ ?hb @ ?ops @ ?sb @ r"
  have src': "src_holds d ?all" using src by (simp add: block_bytes_def)
  have n': "n = length p + length ?hb + length ?ops + length ?sb"
    by (simp add: n block_bytes_def del: length_header_bytes length_sigs_bytes)
  obtain sf where sf: "sigs_read_frame_from_next_offset C (RawFrame ?all) n = Ok sf"
      "sigs_is C sf ?s (ab_pad a)"
    using read_sigs_before [of C ?s "ab_pad a" "RawFrame ?all" "p @ ?hb @ ?ops" r n] wf n'
    by (auto simp: ablock_wf_def)
  have size: "bs_operations_size (tf_reader sf) = length ?ops"
    using sf(2) wf by (simp add: sigs_is_def ablock_wf_def)
  obtain ov where ov: "data_view d (Included (length p + length ?hb))
      (Excluded (length p + length ?hb + length ?ops)) = (Ok ov :: (block_error, data_src) result)"
      "src_holds ov ?ops"
    using src_holds_view [OF src', of "length p + length ?hb" "length p + length ?hb + length ?ops"] by auto
  obtain hf where hf: "read_header_frame_from_next_offset C (RawFrame ?all) (length p + length ?hb) = Ok hf"
      "header_is C hf ?h"
    using read_header_before [of C ?h "RawFrame ?all" p "?ops @ ?sb @ r"] wf by (auto simp: ablock_wf_def)
  have r: "tf_reader hf = ?h" using hf(2) by (simp add: header_is_def)
  show ?thesis
    using src' sf ov hf r size n' sigs_is_size [OF sf(2)]
    by (simp add: data_block_new_from_next_offset_def block_is_def Let_def
        del: length_header_bytes length_sigs_bytes)
qed

section \<open>What a represented block answers\<close>

lemma block_is_as_data_vec [block_simps]: "block_is C b a \<Longrightarrow> as_data_vec b = Ok (block_bytes C a)"
  by (auto simp: block_is_def header_is_def sigs_is_def as_data_vec_def operations_data_def block_bytes_def)

lemma block_is_total_size [block_simps]:
  "block_is C b a \<Longrightarrow> total_size b = Ok (length (block_bytes C a))"
  by (auto simp: block_is_def header_is_def sigs_is_def total_size_def operations_data_def
      block_bytes_def whole_data_size_def)

lemma block_is_offset [block_simps]: "block_is C b a \<Longrightarrow> db_offset b = bh_offset (ab_header a)"
  by (simp add: block_is_def)

lemma block_is_next_offset [block_simps]:
  "block_is C b a \<Longrightarrow> next_offset b = Ok (bh_offset (ab_header a) + length (block_bytes C a))"
  by (simp add: next_offset_def block_simps)

lemma block_is_height [block_simps]: "block_is C b a \<Longrightarrow> get_height b = bh_height (ab_header a)"
  by (simp add: block_is_def header_is_def get_height_def)

lemma block_is_reader [block_simps]: "block_is C b a \<Longrightarrow> tf_reader (db_header b) = ab_header a"
  by (simp add: block_is_def header_is_def)

lemma block_is_multihash [block_simps]:
  "block_is C b a \<Longrightarrow> typed_multihash (db_header b) = Ok (digest C (enc_header C (ab_header a)))"
  by (simp add: block_is_def header_is_def)

lemma block_is_operations_data [block_simps]: "block_is C b a \<Longrightarrow> operations_data b = Ok (ab_ops a)"
  by (simp add: block_is_def operations_data_def)

lemma block_bytes_nonempty: "0 < length (block_bytes C a)"
  using length_sigs_bytes [of C "ab_sigs a" "ab_pad a"] by (simp add: block_bytes_def)

lemma copy_data_into_writes:
  assumes b: "block_is C b a" and len: "length (block_bytes C a) \<le> length data"
  shows "copy_data_into b data = Ok (block_bytes C a @ drop (length (block_bytes C a)) data)"
proof -
  let ?h = "header_bytes C (ab_header a)" and ?o = "ab_ops a" and ?s = "sigs_bytes C (ab_sigs a) (ab_pad a)"
  note [simp del] = length_header_bytes length_sigs_bytes
  have w: "whole_data (tf_frame (db_header b)) = Ok ?h" "whole_data (tf_frame (db_signatures b)) = Ok ?s"
    using b by (simp_all add: block_is_def header_is_def sigs_is_def)
  have len': "length ?h + length ?o + length ?s \<le> length data"
    using len by (simp add: block_bytes_def)
  have over: "overwrite (?h @ drop (length ?h) data) (length ?h) ?o
      = ?h @ ?o @ drop (length ?h + length ?o) data"
    by (simp add: overwrite_def add.commute)
  have c1: "copy_into (tf_frame (db_header b)) data = Ok (?h @ drop (length ?h) data, length ?h)"
    using len' by (simp add: copy_into_def w check_into_size_def overwrite_def)
  have c2: "copy_into (tf_frame (db_signatures b)) (drop (length ?h + length ?o) data)
      = Ok (?s @ drop (length ?h + length ?o + length ?s) data, length ?s)"
    using len' by (simp add: copy_into_def w check_into_size_def overwrite_def add.commute add.left_commute)
  show ?thesis
    using len' by (simp add: copy_data_into_def block_is_operations_data [OF b] w whole_data_size_def
        c1 Let_def over c2 block_bytes_def add.assoc)
qed

section \<open>Operations on the wire\<close>

definition op_bytes :: "('c) codec_scheme \<Rightarrow> chain_operation \<Rightarrow> bytes" where
  "op_bytes C m = sized_bytes (enc_op C m @ digest C (enc_op C m))"

definition op_hash :: "('c) codec_scheme \<Rightarrow> chain_operation \<Rightarrow> bytes" where
  "op_hash C m = digest C (enc_op C m)"

definition op_codec_ok :: "('c) codec_scheme \<Rightarrow> chain_operation \<Rightarrow> bool" where
  "op_codec_ok C m \<longleftrightarrow>
     hash_lib_ok C \<and> dec_op C (enc_op C m) = Some m \<and> length (enc_op C m) + multihash_size < 2 ^ 32"

text \<open>An operation frame carries the operation \<open>m\<close>.\<close>

definition op_is :: "('c) codec_scheme \<Rightarrow> operation_frame \<Rightarrow> chain_operation \<Rightarrow> bool" where
  "op_is C f m \<longleftrightarrow>
     tf_reader f = m \<and> whole_data (tf_frame f) = Ok (op_bytes C m) \<and> typed_multihash f = Ok (op_hash C m)"

lemma read_operation_reads:
  assumes ok: "op_codec_ok C m"
  shows "\<exists>f. read_operation_frame C (RawFrame (op_bytes C m)) = Ok f \<and> op_is C f m"
proof -
  let ?d = "enc_op C m @ digest C (enc_op C m)"
  let ?g = "SizedFrame (RawFrame (op_bytes C m)) 0 (length ?d)"
  have H: "hash_lib_ok C" and len: "length ?d < 2 ^ 32"
    using ok by (simp_all add: op_codec_ok_def digest_length)
  have g: "sized_new (RawFrame (op_bytes C m)) = Ok ?g"
    by (rule sized_new_reads [where r = "[]"]) (use len in \<open>simp_all add: op_bytes_def\<close>)
  have d: "exposed_data ?g = Ok ?d" and w: "whole_data ?g = Ok (op_bytes C m)"
    using sized_exposed [of "RawFrame (op_bytes C m)" "[]" ?d "[]"]
      sized_whole [of "RawFrame (op_bytes C m)" "[]" ?d "[]"]
    by (simp_all add: op_bytes_def del: exposed_data.simps(2) whole_data.simps(2))
  note m = multihash_reads [OF d digest_length [OF H]]
  from m ok w g show ?thesis
    by (auto simp: read_operation_frame_def typed_capnp_new_def op_codec_ok_def op_is_def
        typed_multihash_def op_hash_def)
qed

lemma sign_and_build_is:
  assumes ok: "op_codec_ok C (ob_message b)"
  shows "\<exists>n. sign_and_build C b = Ok n \<and> no_operation_id n = ob_operation_id b
    \<and> op_is C (no_frame n) (ob_message b)"
proof -
  have H: "hash_lib_ok C" using ok by (simp add: op_codec_ok_def)
  have "as_bytes C (SizedBuilder (MultihashBuilder (BytesBuilder (enc_op C (ob_message b)))))
      = op_bytes C (ob_message b)"
    using H by (simp add: as_bytes_sized_bytes frame_simps op_bytes_def)
  with read_operation_reads [OF ok] show ?thesis
    by (auto simp: sign_and_build_def)
qed

text \<open>The headers of the operations \<open>ms\<close> stored from offset \<open>i\<close> on.\<close>

fun op_headers :: "('c) codec_scheme \<Rightarrow> nat \<Rightarrow> chain_operation list \<Rightarrow> op_header list" where
  "op_headers C i [] = []"
| "op_headers C i (m # ms) =
     \<lparr>oh_operation_id = co_operation_id m, oh_data_offset = i, oh_data_size = length (op_bytes C m)\<rparr>
       # op_headers C (i + length (op_bytes C m)) ms"

lemma op_headers_ids: "map oh_operation_id (op_headers C i ms) = map co_operation_id ms"
  by (induction C i ms rule: op_headers.induct) simp_all

lemma length_op_headers [simp]: "length (op_headers C i ms) = length ms"
  by (induction C i ms rule: op_headers.induct) simp_all

definition ops_bytes :: "('c) codec_scheme \<Rightarrow> chain_operation list \<Rightarrow> bytes" where
  "ops_bytes C ms = concat (map (op_bytes C) ms)"

definition ops_hash :: "('c) codec_scheme \<Rightarrow> chain_operation list \<Rightarrow> bytes" where
  "ops_hash C ms = digest C (concat (map (op_hash C) ms))"

definition ops_of :: "('c) codec_scheme \<Rightarrow> chain_operation list \<Rightarrow> block_operations" where
  "ops_of C ms = \<lparr>bo_hash = ops_hash C ms, bo_headers = op_headers C 0 ms, bo_data = ops_bytes C ms\<rparr>"

lemma from_operations_loop_is:
  assumes "list_all2 (op_is C) fs ms" and "sorted (last_id # map co_operation_id ms)"
    and "length data + length (ops_bytes C ms) < 2 ^ 32"
  shows "from_operations_loop C fs hashed headers data last_id =
    Ok \<lparr>bo_hash = digest C (hashed @ concat (map (op_hash C) ms)),
        bo_headers = headers @ op_headers C (length data) ms, bo_data = data @ ops_bytes C ms\<rparr>"
  using assms
proof (induction fs ms arbitrary: hashed headers data last_id rule: list_all2_induct)
  case Nil
  then show ?case by (simp add: ops_bytes_def)
next
  case (Cons f fs m ms)
  have f: "whole_data (tf_frame f) = Ok (op_bytes C m)" "typed_multihash f = Ok (op_hash C m)"
      "op_get_id f = co_operation_id m"
    using Cons.hyps(1) by (simp_all add: op_is_def op_get_id_def)
  have small: "length (op_bytes C m) mod 2 ^ 32 = length (op_bytes C m)" "length data mod 2 ^ 32 = length data"
    using Cons.prems(2) by (simp_all add: ops_bytes_def)
  show ?case
    using Cons.prems f small by (simp add: Let_def Cons.IH ops_bytes_def)
qed

lemma from_operations_is:
  assumes "list_all2 (op_is C) fs ms" and "sorted (map co_operation_id ms)"
    and "length (ops_bytes C ms) < 2 ^ 32"
  shows "from_operations C fs = Ok (ops_of C ms)"
  using from_operations_loop_is [of C fs ms 0 "[]" "[]" "[]"] assms
  by (simp add: from_operations_def ops_of_def ops_hash_def)

lemma hash_operations_is:
  assumes "list_all2 (op_is C) fs ms"
  shows "hash_operations C fs = Ok (ops_hash C ms)"
proof -
  have "hash_operations_loop C fs hashed = Ok (digest C (hashed @ concat (map (op_hash C) ms)))" for hashed
    using assms
    by (induction fs ms arbitrary: hashed rule: list_all2_induct) (simp_all add: op_is_def)
  then show ?thesis by (simp add: hash_operations_def ops_hash_def)
qed

lemma read_frame_at:
  assumes "op_codec_ok C m" and "d = p @ op_bytes C m @ r"
  shows "\<exists>f. read_frame C \<lparr>oh_operation_id = k, oh_data_offset = length p, oh_data_size = length (op_bytes C m)\<rparr> d
      = Ok f \<and> op_is C f m"
proof -
  obtain f where "read_operation_frame C (RawFrame (op_bytes C m)) = Ok f" "op_is C f m"
    using read_operation_reads [OF assms(1)] by blast
  then show ?thesis using assms(2) by (simp add: read_frame_def slice_def)
qed

lemma read_frame_nth:
  assumes "\<forall>m \<in> set ms. op_codec_ok C m" and "k < length ms" and "d = p @ ops_bytes C ms @ r"
  shows "\<exists>f. read_frame C (op_headers C (length p) ms ! k) d = Ok f \<and> op_is C f (ms ! k)"
  using assms
proof (induction ms arbitrary: p k)
  case (Cons m ms)
  show ?case
  proof (cases k)
    case 0
    with Cons.prems show ?thesis
      using read_frame_at [of C m d p "ops_bytes C ms @ r"] by (simp add: ops_bytes_def)
  next
    case (Suc j)
    have "\<exists>f. read_frame C (op_headers C (length (p @ op_bytes C m)) ms ! j) d = Ok f \<and> op_is C f (ms ! j)"
      by (rule Cons.IH) (use Cons.prems Suc in \<open>auto simp: ops_bytes_def\<close>)
    with Suc show ?thesis by simp
  qed
qed simp

lemma iter_operations_is:
  assumes ok: "\<forall>m \<in> set ms. op_codec_ok C m" and "k \<le> length ms"
    and it: "bi_index it = k" "bi_headers it = op_headers C 0 ms" "bi_data it = ops_bytes C ms"
  shows "\<exists>fs. iter_operations C it = Ok fs \<and> list_all2 (op_is C) fs (drop k ms)"
  using assms(2-)
proof (induction "length ms - k" arbitrary: k it)
  case 0
  have "operations_iter_next C it = Ok (it, None)"
    using 0 by (simp add: operations_iter_next_def)
  then have "iter_operations C it = Ok []"
    by (subst iter_operations.simps) simp
  with 0 show ?case by simp
next
  case (Suc n)
  then have k: "k < length ms" by simp
  obtain f where f: "read_frame C (op_headers C 0 ms ! k) (ops_bytes C ms) = Ok f" "op_is C f (ms ! k)"
    using read_frame_nth [OF ok k, of "ops_bytes C ms" "[]" "[]"] by auto
  have step: "operations_iter_next C it = Ok (it\<lparr>bi_index := k + 1\<rparr>, Some f)"
    using f k Suc.prems by (simp add: operations_iter_next_def Let_def)
  have "\<exists>fs. iter_operations C (it\<lparr>bi_index := k + 1\<rparr>) = Ok fs \<and> list_all2 (op_is C) fs (drop (k + 1) ms)"
    by (rule Suc.hyps(1)) (use Suc.hyps(2) Suc.prems k in simp_all)
  then obtain fs where fs: "iter_operations C (it\<lparr>bi_index := k + 1\<rparr>) = Ok fs"
      "list_all2 (op_is C) fs (drop (k + 1) ms)" by blast
  have "drop k ms = ms ! k # drop (k + 1) ms"
    using k by (simp add: Cons_nth_drop_Suc)
  with step fs f show ?case by (simp add: iter_operations.simps [of C it])
qed

end
