(* ===== verification/Exo_Example.thy ===== *)
theory Exo_Example
  imports Exo_Block_Facts
begin

text \<open>
  A concrete serialisation, so that the statements about blocks can be applied to concrete
  data: numbers in unary, lists and byte strings with their length first, records field by
  field. It meets the round-trip hypotheses for every message.
\<close>

type_synonym 'a parser = "bytes \<Rightarrow> ('a \<times> bytes) option"

definition parses :: "('a \<Rightarrow> bytes) \<Rightarrow> 'a parser \<Rightarrow> bool" where
  "parses e d \<longleftrightarrow> (\<forall>x r. d (e x @ r) = Some (x, r))"

lemma parsesD [simp]: "parses e d \<Longrightarrow> d (e x @ r) = Some (x, r)"
  by (simp add: parses_def)

definition put_nat :: "nat \<Rightarrow> bytes" where
  "put_nat n = replicate n 1 @ [0]"

fun get_nat :: "nat parser" where
  "get_nat [] = None"
| "get_nat (b # r) =
     (if b = 0 then Some (0, r)
      else case get_nat r of None \<Rightarrow> None | Some (n, r') \<Rightarrow> Some (Suc n, r'))"

lemma parses_nat: "parses put_nat get_nat"
proof -
  have "get_nat (put_nat n @ r) = Some (n, r)" for n r
    by (induction n) (simp_all add: put_nat_def)
  then show ?thesis by (simp add: parses_def)
qed

fun put_list :: "('a \<Rightarrow> bytes) \<Rightarrow> 'a list \<Rightarrow> bytes" where
  "put_list e xs = put_nat (length xs) @ concat (map e xs)"

fun get_many :: "'a parser \<Rightarrow> nat \<Rightarrow> 'a list parser" where
  "get_many d 0 bs = Some ([], bs)"
| "get_many d (Suc n) bs =
     (case d bs of None \<Rightarrow> None
      | Some (x, r) \<Rightarrow> (case get_many d n r of None \<Rightarrow> None | Some (xs, r') \<Rightarrow> Some (x # xs, r')))"

definition get_list :: "'a parser \<Rightarrow> 'a list parser" where
  "get_list d bs = (case get_nat bs of None \<Rightarrow> None | Some (n, r) \<Rightarrow> get_many d n r)"

lemma parses_list:
  assumes "parses e d"
  shows "parses (put_list e) (get_list d)"
proof -
  have "get_many d (length xs) (concat (map e xs) @ r) = Some (xs, r)" for xs r
    using assms by (induction xs) simp_all
  then show ?thesis
    using parses_nat by (simp add: parses_def get_list_def)
qed

fun put_byte :: "byte \<Rightarrow> bytes" where "put_byte b = [b]"

fun get_byte :: "byte parser" where
  "get_byte [] = None"
| "get_byte (b # r) = Some (b, r)"

lemma parses_byte: "parses put_byte get_byte"
  by (simp add: parses_def)

fun put_char :: "char \<Rightarrow> bytes" where "put_char c = put_nat (of_char c)"

definition get_char :: "char parser" where
  "get_char bs = (case get_nat bs of None \<Rightarrow> None | Some (n, r) \<Rightarrow> Some (char_of n, r))"

lemma parses_char: "parses put_char get_char"
  using parses_nat by (simp add: parses_def get_char_def)

fun put_pair :: "('a \<Rightarrow> bytes) \<Rightarrow> ('b \<Rightarrow> bytes) \<Rightarrow> 'a \<times> 'b \<Rightarrow> bytes" where
  "put_pair e f (x, y) = e x @ f y"

definition get_pair :: "'a parser \<Rightarrow> 'b parser \<Rightarrow> ('a \<times> 'b) parser" where
  "get_pair d g bs =
     (case d bs of None \<Rightarrow> None
      | Some (x, r) \<Rightarrow> (case g r of None \<Rightarrow> None | Some (y, r') \<Rightarrow> Some ((x, y), r')))"

lemma parses_pair: "parses e d \<Longrightarrow> parses f g \<Longrightarrow> parses (put_pair e f) (get_pair d g)"
  by (auto simp: parses_def get_pair_def)

definition put_via :: "('b \<Rightarrow> 'a) \<Rightarrow> ('a \<Rightarrow> bytes) \<Rightarrow> 'b \<Rightarrow> bytes" where
  "put_via f e x = e (f x)"

definition get_via :: "('a \<Rightarrow> 'b) \<Rightarrow> 'a parser \<Rightarrow> 'b parser" where
  "get_via g d bs = (case d bs of None \<Rightarrow> None | Some (x, r) \<Rightarrow> Some (g x, r))"

lemma parses_via: "parses e d \<Longrightarrow> (\<And>x. g (f x) = x) \<Longrightarrow> parses (put_via f e) (get_via g d)"
  by (simp add: parses_def put_via_def get_via_def)

abbreviation "put_bytes \<equiv> put_list put_byte"
abbreviation "get_bytes \<equiv> get_list get_byte"
abbreviation "put_string \<equiv> put_list put_char"
abbreviation "get_string \<equiv> get_list get_char"

section \<open>Messages\<close>

definition put_op_header :: "op_header \<Rightarrow> bytes" where
  "put_op_header =
     put_via (\<lambda>h. (oh_operation_id h, oh_data_offset h, oh_data_size h))
       (put_pair put_nat (put_pair put_nat put_nat))"

definition get_op_header :: "op_header parser" where
  "get_op_header =
     get_via (\<lambda>(a, b, c). \<lparr>oh_operation_id = a, oh_data_offset = b, oh_data_size = c\<rparr>)
       (get_pair get_nat (get_pair get_nat get_nat))"

definition put_header :: "block_header \<Rightarrow> bytes" where
  "put_header =
     put_via (\<lambda>h. ((bh_offset h, bh_height h, bh_previous_offset h, bh_previous_hash h,
         bh_proposed_operation_id h), bh_proposed_node_id h, bh_operations_size h,
         bh_operations_hash h, bh_operations_header h, bh_signatures_size h))
       (put_pair
         (put_pair put_nat (put_pair put_nat (put_pair put_nat (put_pair put_bytes put_nat))))
         (put_pair put_string (put_pair put_nat (put_pair put_bytes
           (put_pair (put_list put_op_header) put_nat)))))"

definition get_header :: "block_header parser" where
  "get_header =
     get_via (\<lambda>((a, b, c, d, e), f, g, h, i, j).
         \<lparr>bh_offset = a, bh_height = b, bh_previous_offset = c, bh_previous_hash = d,
          bh_proposed_operation_id = e, bh_proposed_node_id = f, bh_operations_size = g,
          bh_operations_hash = h, bh_operations_header = i, bh_signatures_size = j\<rparr>)
       (get_pair
         (get_pair get_nat (get_pair get_nat (get_pair get_nat (get_pair get_bytes get_nat))))
         (get_pair get_string (get_pair get_nat (get_pair get_bytes
           (get_pair (get_list get_op_header) get_nat)))))"

definition put_sigs :: "block_sigs \<Rightarrow> bytes" where
  "put_sigs =
     put_via (\<lambda>s. (bs_operations_size s, bs_signatures s))
       (put_pair put_nat (put_list (put_pair put_string put_bytes)))"

definition get_sigs :: "block_sigs parser" where
  "get_sigs =
     get_via (\<lambda>(a, b). \<lparr>bs_operations_size = a, bs_signatures = b\<rparr>)
       (get_pair get_nat (get_list (get_pair get_string get_bytes)))"

fun body_tuple :: "op_body \<Rightarrow> nat \<times> string \<times> bytes" where
  "body_tuple (OpEntry d) = (0, [], d)"
| "body_tuple (OpBlockPropose d) = (1, [], d)"
| "body_tuple (OpBlockSign n s) = (2, n, s)"
| "body_tuple OpBlockRefuse = (3, [], [])"

fun tuple_body :: "nat \<times> string \<times> bytes \<Rightarrow> op_body" where
  "tuple_body (k, n, d) =
     (if k = 0 then OpEntry d else if k = 1 then OpBlockPropose d
      else if k = 2 then OpBlockSign n d else OpBlockRefuse)"

lemma tuple_body_inverse: "tuple_body (body_tuple b) = b"
  by (cases b) simp_all

definition put_op :: "chain_operation \<Rightarrow> bytes" where
  "put_op =
     put_via (\<lambda>m. (co_operation_id m, co_group_id m, co_node_id m, body_tuple (co_operation m)))
       (put_pair put_nat (put_pair put_nat (put_pair put_string
         (put_pair put_nat (put_pair put_string put_bytes)))))"

definition get_op :: "chain_operation parser" where
  "get_op =
     get_via (\<lambda>(a, b, c, d). \<lparr>co_operation_id = a, co_group_id = b, co_node_id = c,
         co_operation = tuple_body d\<rparr>)
       (get_pair get_nat (get_pair get_nat (get_pair get_string
         (get_pair get_nat (get_pair get_string get_bytes)))))"

lemmas parses_basic = parses_nat parses_byte parses_char parses_list parses_pair

lemma parses_op_header: "parses put_op_header get_op_header"
  unfolding put_op_header_def get_op_header_def by (intro parses_via parses_basic) simp

lemma parses_header: "parses put_header get_header"
  unfolding put_header_def get_header_def by (intro parses_via parses_basic parses_op_header) simp

lemma parses_sigs: "parses put_sigs get_sigs"
  unfolding put_sigs_def get_sigs_def by (intro parses_via parses_basic) simp

lemma parses_op: "parses put_op get_op"
  unfolding put_op_def get_op_def
  by (intro parses_via parses_basic) (simp add: tuple_body_inverse del: tuple_body.simps)

definition run_parser :: "'a parser \<Rightarrow> bytes \<Rightarrow> 'a option" where
  "run_parser d bs = map_option fst (d bs)"

lemma run_parser_put: "parses e d \<Longrightarrow> run_parser d (e x) = Some x"
  using parsesD [of e d x "[]"] by (simp add: run_parser_def del: parsesD)

section \<open>The codec\<close>

definition example_codec :: codec where
  "example_codec = hash_lib.extend example_hash
     (codec.fields put_header (run_parser get_header) put_sigs (run_parser get_sigs)
       put_op (run_parser get_op) Some)"

lemma example_codec_fields [simp]:
  "digest example_codec = digest example_hash" "mh_decode example_codec = mh_decode example_hash"
  "enc_header example_codec = put_header" "dec_header example_codec = run_parser get_header"
  "enc_sigs example_codec = put_sigs" "dec_sigs example_codec = run_parser get_sigs"
  "enc_op example_codec = put_op" "dec_op example_codec = run_parser get_op"
  "parse_node_id example_codec = Some"
  by (simp_all add: example_codec_def hash_lib.defs codec.defs)

lemma example_codec_hash [simp]: "hash_lib_ok example_codec"
  using example_hash_ok by (simp add: hash_lib_ok_def)

lemma header_codec_example:
  "length (put_header h) + multihash_size < 2 ^ 32 \<Longrightarrow> header_codec_ok example_codec h"
  by (simp add: header_codec_ok_def run_parser_put [OF parses_header])

lemma sigs_codec_example:
  "length (put_sigs s) + pad + 4 < 2 ^ 32 \<Longrightarrow> sigs_codec_ok example_codec s pad"
  by (simp add: sigs_codec_ok_def run_parser_put [OF parses_sigs])

lemma op_codec_example:
  "length (put_op m) + multihash_size < 2 ^ 32 \<Longrightarrow> op_codec_ok example_codec m"
  by (simp add: op_codec_ok_def run_parser_put [OF parses_op])

lemmas example_lengths = put_header_def put_sigs_def put_op_def put_op_header_def put_via_def
  put_nat_def multihash_size_def

end
