(* ===== verification/Exo_Block_Props.thy ===== *)
theory Exo_Block_Props
  imports Exo_Example
begin

text \<open>
  Properties of blocks: reading back in both directions, blocks built on a previous block,
  finding an operation in a block, what \<open>validate\<close> accepts and refuses, and reading
  untrusted bytes.
\<close>

section \<open>Built blocks\<close>

definition built_sigs :: "cell \<Rightarrow> nat \<Rightarrow> block_sigs" where
  "built_sigs c n = \<lparr>bs_operations_size = n, bs_signatures = empty_signatures_for_nodes c\<rparr>"

definition built_header ::
  "('c) codec_scheme \<Rightarrow> cell \<Rightarrow> nat \<Rightarrow> nat \<Rightarrow> nat \<Rightarrow> bytes \<Rightarrow> nat \<Rightarrow> block_operations \<Rightarrow> block_header" where
  "built_header C c offset height prev_offset prev_hash op_id ops =
     \<lparr>bh_offset = offset, bh_height = height + 1, bh_previous_offset = prev_offset,
      bh_previous_hash = prev_hash, bh_proposed_operation_id = op_id,
      bh_proposed_node_id = local_node_id c, bh_operations_size = length (bo_data ops),
      bh_operations_hash = bo_hash ops, bh_operations_header = bo_headers ops,
      bh_signatures_size = length (sigs_bytes C (built_sigs c (length (bo_data ops))) 0)\<rparr>"

definition built_ablock ::
  "('c) codec_scheme \<Rightarrow> cell \<Rightarrow> nat \<Rightarrow> nat \<Rightarrow> nat \<Rightarrow> bytes \<Rightarrow> nat \<Rightarrow> block_operations \<Rightarrow> ablock" where
  "built_ablock C c offset height prev_offset prev_hash op_id ops =
     \<lparr>ab_header = built_header C c offset height prev_offset prev_hash op_id ops,
      ab_ops = bo_data ops, ab_sigs = built_sigs c (length (bo_data ops)), ab_pad = 0\<rparr>"

text \<open>The serialisation handles the messages of the block, and its parts fit their size fields.\<close>

definition buildable :: "('c) codec_scheme \<Rightarrow> ablock \<Rightarrow> bool" where
  "buildable C a \<longleftrightarrow>
     header_codec_ok C (ab_header a) \<and> sigs_codec_ok C (ab_sigs a) 0 \<and>
     length (ab_ops a) < 2 ^ 32 \<and> length (sigs_bytes C (ab_sigs a) 0) < 2 ^ 16"

lemma sigs_new_block_is:
  assumes "sigs_codec_ok C (built_sigs c n) 0"
  shows "\<exists>sf. to_frame_for_new_block C (empty_signatures_for_nodes c) n = Ok sf
    \<and> sigs_is C sf (built_sigs c n) 0"
proof -
  have H: "hash_lib_ok C" using assms by (simp add: sigs_codec_ok_def)
  have "as_bytes C (SizedBuilder (PaddedBuilder (CapnpBuilder (enc_sigs C (built_sigs c n))) 0))
      = sigs_bytes C (built_sigs c n) 0"
    using H by (simp add: as_bytes_sized_bytes frame_simps sigs_bytes_def)
  with read_sigs_at [OF assms, of "RawFrame (sigs_bytes C (built_sigs c n) 0)" "[]"]
  show ?thesis by (simp add: to_frame_for_new_block_def flip: built_sigs_def)
qed

lemma build_with_prev_info_is:
  assumes "buildable C (built_ablock C c offset height po ph k ops)" (is "buildable C ?a")
  shows "\<exists>b. build_with_prev_info C c offset height po ph k ops = Ok b \<and> block_is C b ?a \<and> ablock_wf C ?a"
proof -
  have H: "hash_lib_ok C" and len: "length (bo_data ops) mod 2 ^ 32 = length (bo_data ops)"
    and hok: "header_codec_ok C (built_header C c offset height po ph k ops)"
    and sok: "sigs_codec_ok C (built_sigs c (length (bo_data ops))) 0"
    and slen: "length (sigs_bytes C (built_sigs c (length (bo_data ops))) 0) < 2 ^ 16"
    using assms by (simp_all add: buildable_def built_ablock_def header_codec_ok_def)
  obtain sf where sf: "to_frame_for_new_block C (empty_signatures_for_nodes c) (length (bo_data ops)) = Ok sf"
      "sigs_is C sf (built_sigs c (length (bo_data ops))) 0"
    using sigs_new_block_is [OF sok] by blast
  let ?h = "built_header C c offset height po ph k ops"
  have "as_bytes C (build_header_frame C ?h) = header_bytes C ?h"
    using H by (simp add: build_header_frame_def as_bytes_sized_bytes frame_simps header_bytes_def)
  then obtain hf where hf: "read_header_frame C (RawFrame (as_bytes C (build_header_frame C ?h))) = Ok hf"
      "header_is C hf ?h"
    using read_header_at [OF hok, of "RawFrame (header_bytes C ?h)" "[]"] by auto
  have heq: "?h = \<lparr>bh_offset = offset, bh_height = height + 1, bh_previous_offset = po,
      bh_previous_hash = ph, bh_proposed_operation_id = k, bh_proposed_node_id = local_node_id c,
      bh_operations_size = length (bo_data ops), bh_operations_hash = bo_hash ops,
      bh_operations_header = bo_headers ops,
      bh_signatures_size = length (sigs_bytes C (built_sigs c (length (bo_data ops))) 0) mod 2 ^ 16\<rparr>"
    unfolding built_header_def mod_less [OF slen] ..
  have "build_with_prev_info C c offset height po ph k ops =
      Ok \<lparr>db_offset = offset, db_header = hf, db_operations_data = BytesData (bo_data ops), db_signatures = sf\<rparr>"
    unfolding build_with_prev_info_def len Let_def sf(1) and_then.simps sigs_is_size [OF sf(2)]
      map_err.simps heq [symmetric] hf(1) by simp
  then show ?thesis
    using sf hf hok sok
    by (auto simp: block_is_def ablock_wf_def built_ablock_def built_header_def built_sigs_def)
qed

section \<open>The operations in a block\<close>

text \<open>The block holds the operations \<open>ms\<close>, in the order of their ids.\<close>

definition block_holds :: "('c) codec_scheme \<Rightarrow> ablock \<Rightarrow> chain_operation list \<Rightarrow> bool" where
  "block_holds C a ms \<longleftrightarrow>
     ab_ops a = ops_bytes C ms \<and> bh_operations_header (ab_header a) = op_headers C 0 ms \<and>
     (\<forall>m \<in> set ms. op_codec_ok C m) \<and> sorted (map co_operation_id ms)"

lemma block_operation_frames_is:
  assumes "tf_reader (db_header b) = ab_header a" and "operations_data b = Ok (ab_ops a)"
    and "block_holds C a ms"
  shows "\<exists>fs. block_operation_frames C b = Ok fs \<and> list_all2 (op_is C) fs ms"
proof -
  let ?it = "\<lparr>bi_index = 0, bi_headers = op_headers C 0 ms, bi_data = ops_bytes C ms,
    bi_last_error = None\<rparr> :: block_operations_iter"
  have "operations_iter b = Ok ?it"
    using assms by (simp add: operations_iter_def block_holds_def)
  moreover have "\<exists>fs. iter_operations C ?it = Ok fs \<and> list_all2 (op_is C) fs (drop 0 ms)"
    by (rule iter_operations_is) (use assms(3) in \<open>simp_all add: block_holds_def\<close>)
  ultimately show ?thesis by (auto simp: block_operation_frames_def)
qed

lemma get_operation_Some:
  assumes b: "block_is C b a" and h: "block_holds C a ms" and m: "m \<in> set ms" "co_operation_id m = k"
  shows "\<exists>f m'. get_operation C b k = Ok (Some f) \<and> m' \<in> set ms \<and> co_operation_id m' = k \<and> op_is C f m'"
proof -
  let ?hs = "op_headers C 0 ms" and ?c = "\<lambda>h. cmp_nat (oh_operation_id h) k"
  have hs: "bh_operations_header (tf_reader (db_header b)) = ?hs"
    using b h by (simp add: block_simps block_holds_def)
  have ids: "oh_operation_id (?hs ! i) = co_operation_id (ms ! i)" if "i < length ms" for i
    using that arg_cong [OF op_headers_ids [of C 0 ms], of "\<lambda>l. l ! i"] by simp
  obtain j where j: "j < length ms" "ms ! j = m" using m(1) by (auto simp: in_set_conv_nth)
  have "search_ordered ?c ?hs"
    using h by (intro search_ordered_sorted) (simp add: op_headers_ids block_holds_def)
  then obtain i where i: "binary_search_by ?c ?hs = Inr i"
    using binary_search_finds [of ?c ?hs j] j ids m(2) by (auto simp: cmp_nat_def)
  have il: "i < length ms" and ik: "co_operation_id (ms ! i) = k"
    using binary_search_Inr [OF i] ids by (auto simp: cmp_nat_def split: if_splits)
  obtain f where f: "read_frame C (?hs ! i) (ops_bytes C ms) = Ok f" "op_is C f (ms ! i)"
    using read_frame_nth [of ms C i "ops_bytes C ms" "[]" "[]"] il h by (auto simp: block_holds_def)
  have "get_operation C b k = Ok (Some f)"
    using hs i il f b h by (simp add: get_operation_def block_simps block_holds_def)
  with f il ik show ?thesis by (metis nth_mem)
qed

lemma get_operation_None:
  assumes b: "block_is C b a" and h: "block_holds C a ms" and k: "k \<notin> co_operation_id ` set ms"
  shows "get_operation C b k = Ok None"
proof -
  let ?hs = "op_headers C 0 ms" and ?c = "\<lambda>h. cmp_nat (oh_operation_id h) k"
  have hs: "bh_operations_header (tf_reader (db_header b)) = ?hs"
    using b h by (simp add: block_simps block_holds_def)
  have "\<not> (\<exists>i. binary_search_by ?c ?hs = Inr i)"
  proof
    assume "\<exists>i. binary_search_by ?c ?hs = Inr i"
    then obtain i where "i < length ?hs" "oh_operation_id (?hs ! i) = k"
      using binary_search_Inr by (fastforce simp: cmp_nat_def split: if_splits)
    then have "k \<in> set (map oh_operation_id ?hs)" by (metis length_map nth_map nth_mem)
    with k show False by (simp add: op_headers_ids)
  qed
  then show ?thesis
    using hs by (cases "binary_search_by ?c ?hs") (auto simp: get_operation_def)
qed

section \<open>Validation\<close>

definition ops_match :: "('c) codec_scheme \<Rightarrow> ablock \<Rightarrow> chain_operation list \<Rightarrow> bool" where
  "ops_match C a ms \<longleftrightarrow>
     bh_signatures_size (ab_header a) = length (sigs_bytes C (ab_sigs a) (ab_pad a)) \<and>
     bh_operations_size (ab_header a) = length (ab_ops a) \<and>
     (ab_ops a = [] \<or> mh_decode C (bh_operations_hash (ab_header a)) = Some (ops_hash C ms))"

lemma validate_facts:
  assumes v: "multihash_verify C (capnp_inner (tf_frame (db_header b))) = Ok t"
    and r: "tf_reader (db_header b) = ab_header a" and o: "operations_data b = Ok (ab_ops a)"
    and s: "sigs_is C (db_signatures b) (ab_sigs a) (ab_pad a)" and h: "block_holds C a ms"
  shows "validate C b None = (if ops_match C a ms then Ok () else Err BlockIntegrity)"
    and "block_is C p pa \<Longrightarrow> validate C b (Some p) =
      (if bh_previous_hash (ab_header a) = digest C (enc_header C (ab_header pa)) \<and> ops_match C a ms
       then Ok () else Err BlockIntegrity)"
proof -
  obtain fs where fs: "block_operation_frames C b = Ok fs" "list_all2 (op_is C) fs ms"
    using block_operation_frames_is [OF r o h] by blast
  note facts = v r o fs(1) hash_operations_is [OF fs(2)] sigs_is_size [OF s]
  note [simp del] = length_sigs_bytes
  show "validate C b None = (if ops_match C a ms then Ok () else Err BlockIntegrity)"
    by (cases "mh_decode C (bh_operations_hash (ab_header a))")
      (auto simp: validate_def Let_def facts ops_match_def)
  show "validate C b (Some p) =
      (if bh_previous_hash (ab_header a) = digest C (enc_header C (ab_header pa)) \<and> ops_match C a ms
       then Ok () else Err BlockIntegrity)" if "block_is C p pa"
    using block_is_multihash [OF that]
    by (cases "mh_decode C (bh_operations_hash (ab_header a))")
      (auto simp: validate_def Let_def facts ops_match_def)
qed

lemma validate_represented:
  assumes b: "block_is C b a" and H: "hash_lib_ok C" and h: "block_holds C a ms"
  shows "validate C b None = (if ops_match C a ms then Ok () else Err BlockIntegrity)"
    and "block_is C p pa \<Longrightarrow> validate C b (Some p) =
      (if bh_previous_hash (ab_header a) = digest C (enc_header C (ab_header pa)) \<and> ops_match C a ms
       then Ok () else Err BlockIntegrity)"
proof -
  have v: "multihash_verify C (capnp_inner (tf_frame (db_header b))) = Ok True"
    using b H by (simp add: block_is_def header_is_def multihash_verify_def typed_multihash_def digest_decodes)
  have s: "sigs_is C (db_signatures b) (ab_sigs a) (ab_pad a)" using b by (simp add: block_is_def)
  note f = validate_facts [OF v block_is_reader [OF b] block_is_operations_data [OF b] s h]
  show "validate C b None = (if ops_match C a ms then Ok () else Err BlockIntegrity)" by (rule f(1))
  show "block_is C p pa \<Longrightarrow> validate C b (Some p) =
      (if bh_previous_hash (ab_header a) = digest C (enc_header C (ab_header pa)) \<and> ops_match C a ms
       then Ok () else Err BlockIntegrity)" by (rule f(2))
qed

section \<open>Example data\<close>

definition example_op :: "nat \<Rightarrow> chain_operation" where
  "example_op k = \<lparr>co_operation_id = k, co_group_id = k, co_node_id = ''a'', co_operation = OpEntry [1, 2]\<rparr>"

definition example_ops :: "chain_operation list" where
  "example_ops = [example_op 3, example_op 5]"

definition example_genesis :: ablock where
  "example_genesis =
     built_ablock example_codec example_cell 0 0 0 [] 0 (ops_of example_codec example_ops)"

lemma length_put_bytes [simp]: "length (concat (map put_byte d)) = length d"
  by (induction d) simp_all

lemma digest_example_length [simp]: "length (digest example_hash d) = 34"
  using digest_length [OF example_hash_ok] by (simp add: multihash_size_def)

lemmas example_block_simps = buildable_def built_ablock_def built_header_def built_sigs_def
  example_lengths ops_of_def ops_hash_def op_hash_def ops_bytes_def op_bytes_def
  example_op_def example_ops_def empty_signatures_for_nodes_def example_cell_def has_role_def
  signature_empty_def

lemma example_op_ok [simp]: "op_codec_ok example_codec (example_op 3)" "op_codec_ok example_codec (example_op 5)"
  by (rule op_codec_example; simp add: example_block_simps)+

lemma example_genesis_buildable: "buildable example_codec example_genesis"
  unfolding example_genesis_def buildable_def
  by (intro conjI header_codec_example sigs_codec_example) (simp_all add: example_block_simps)

lemma example_genesis_wf: "ablock_wf example_codec example_genesis"
  using build_with_prev_info_is [OF example_genesis_buildable [unfolded example_genesis_def]]
  by (auto simp: example_genesis_def)

lemma example_genesis_holds: "block_holds example_codec example_genesis example_ops"
  by (simp add: block_holds_def example_genesis_def built_ablock_def built_header_def ops_of_def
      example_ops_def) (simp add: example_op_def)

text \<open>A previous block and the block built on it, for the examples.\<close>

lemma example_genesis_built:
  obtains p where "build_with_prev_info example_codec example_cell 0 0 0 [] 0 (ops_of example_codec example_ops) = Ok p"
    "block_is example_codec p example_genesis"
  using build_with_prev_info_is [OF example_genesis_buildable [unfolded example_genesis_def]]
  by (auto simp: example_genesis_def)

lemma example_genesis_match: "ops_match example_codec example_genesis example_ops"
  using example_genesis_wf
  by (simp add: ops_match_def ablock_wf_def example_genesis_def built_ablock_def built_header_def ops_of_def
      ops_hash_def) (simp add: digest_decodes)

lemma example_frames: "\<exists>fs. list_all2 (op_is example_codec) fs example_ops"
proof -
  have "\<exists>f. op_is example_codec f m" if "op_codec_ok example_codec m" for m
    using read_operation_reads [OF that] by blast
  then obtain f g where "op_is example_codec f (example_op 3)" "op_is example_codec g (example_op 5)"
    by (meson example_op_ok)
  then have "list_all2 (op_is example_codec) [f, g] example_ops" by (simp add: example_ops_def)
  then show ?thesis by blast
qed

definition example_second :: ablock where
  "example_second = built_ablock example_codec example_cell
     (bh_offset (ab_header example_genesis) + length (block_bytes example_codec example_genesis))
     (bh_height (ab_header example_genesis)) (bh_offset (ab_header example_genesis))
     (digest example_codec (enc_header example_codec (ab_header example_genesis))) 9 (ops_of example_codec example_ops)"

lemma example_second_buildable: "buildable example_codec example_second"
  unfolding example_second_def buildable_def
  by (intro conjI header_codec_example sigs_codec_example)
    (simp_all add: example_block_simps example_genesis_def block_bytes_def header_bytes_def sigs_bytes_def)

section \<open>Reading a block back\<close>

text \<open>
  (C13) A block stored anywhere in a source is read back whole by both readers: forwards by
  \<open>DataBlock::new\<close> on the view from its offset, backwards by \<open>new_from_next_offset\<close> from the
  offset that follows it. Both give a block with the stored header, operations and
  signatures, whose bytes are the stored bytes and whose next offset is the end of the block.
\<close>

theorem block_reads_both_ways:
  assumes wf: "ablock_wf C a" and src: "src_holds d (p @ block_bytes C a @ r)"
  shows "\<exists>v b b'. data_view d (Included (length p)) Unbounded = (Ok v :: (block_error, data_src) result)
    \<and> data_block_new C v = Ok b
    \<and> data_block_new_from_next_offset C d (length p + length (block_bytes C a)) = Ok b'
    \<and> (\<forall>x \<in> {b, b'}. tf_reader (db_header x) = ab_header a \<and> operations_data x = Ok (ab_ops a)
        \<and> tf_reader (db_signatures x) = ab_sigs a \<and> as_data_vec x = Ok (block_bytes C a)
        \<and> next_offset x = Ok (bh_offset (ab_header a) + length (block_bytes C a)))"
proof -
  obtain v where v: "data_view d (Included (length p)) Unbounded = (Ok v :: (block_error, data_src) result)"
      "src_holds v (block_bytes C a @ r)"
    using src_holds_view_from [OF src, of "length p"] by auto
  obtain b where b: "data_block_new C v = Ok b" "block_is C b a"
    using data_block_new_reads [OF wf v(2)] by blast
  obtain b' where b': "data_block_new_from_next_offset C d (length p + length (block_bytes C a)) = Ok b'"
      "block_is C b' a"
    using data_block_before_reads [OF wf src refl] by blast
  have "tf_reader (db_header x) = ab_header a \<and> operations_data x = Ok (ab_ops a)
      \<and> tf_reader (db_signatures x) = ab_sigs a \<and> as_data_vec x = Ok (block_bytes C a)
      \<and> next_offset x = Ok (bh_offset (ab_header a) + length (block_bytes C a))"
    if "block_is C x a" for x
    using that by (simp add: block_simps) (simp add: block_is_def sigs_is_def)
  with v b b' show ?thesis by blast
qed

theorem block_reads_both_ways_witness:
  "\<exists>b. data_block_new_from_next_offset example_codec
      (BytesData ([9, 9] @ block_bytes example_codec example_genesis @ [7]))
      (length [9::byte, 9] + length (block_bytes example_codec example_genesis)) = Ok b
    \<and> as_data_vec b = Ok (block_bytes example_codec example_genesis)"
  using block_reads_both_ways [OF example_genesis_wf,
      of "BytesData ([9, 9] @ block_bytes example_codec example_genesis @ [7])" "[9, 9]" "[7]"]
  by fastforce

text \<open>
  (C20) A block proposed on top of a previous block extends the chain: building succeeds when its
  parts fit their size fields, the new block starts where the previous one ends, is one
  higher, points back at it by offset and header hash, passes \<open>validate\<close> against it, and
  its operations are read back in order.
\<close>

theorem built_block_extends:
  assumes p: "block_is C p pa" and fs: "list_all2 (op_is C) fs ms"
    and ms: "sorted (map co_operation_id ms)" "\<forall>m \<in> set ms. op_codec_ok C m"
    and small: "length (ops_bytes C ms) < 2 ^ 32"
    and ok: "buildable C (built_ablock C c (bh_offset (ab_header pa) + length (block_bytes C pa))
      (bh_height (ab_header pa)) (bh_offset (ab_header pa)) (digest C (enc_header C (ab_header pa))) k (ops_of C ms))"
  shows "\<exists>ops b gs. from_operations C fs = Ok ops \<and> build_with_prev_block C c p k ops = Ok b
    \<and> Ok (db_offset b) = next_offset p \<and> get_height b = get_height p + 1
    \<and> bh_previous_offset (tf_reader (db_header b)) = db_offset p
    \<and> Ok (bh_previous_hash (tf_reader (db_header b))) = typed_multihash (db_header p)
    \<and> get_proposed_operation_id b = k \<and> validate C b (Some p) = Ok ()
    \<and> block_operation_frames C b = Ok gs \<and> map tf_reader gs = ms"
proof -
  let ?a = "built_ablock C c (bh_offset (ab_header pa) + length (block_bytes C pa))
      (bh_height (ab_header pa)) (bh_offset (ab_header pa)) (digest C (enc_header C (ab_header pa))) k (ops_of C ms)"
  have ops: "from_operations C fs = Ok (ops_of C ms)" by (rule from_operations_is [OF fs ms(1) small])
  obtain b where b: "build_with_prev_block C c p k (ops_of C ms) = Ok b" "block_is C b ?a" "ablock_wf C ?a"
    using build_with_prev_info_is [OF ok] p by (auto simp: build_with_prev_block_def block_simps)
  have h: "block_holds C ?a ms"
    using ms by (simp add: block_holds_def built_ablock_def built_header_def ops_of_def)
  have H: "hash_lib_ok C" using b(3) by (simp add: ablock_wf_def header_codec_ok_def)
  have m: "ops_match C ?a ms"
    using b(3) H by (simp add: ops_match_def ablock_wf_def built_ablock_def built_header_def ops_of_def
        ops_hash_def digest_decodes)
  obtain gs where gs: "block_operation_frames C b = Ok gs" "list_all2 (op_is C) gs ms"
    using block_operation_frames_is [OF block_is_reader [OF b(2)] block_is_operations_data [OF b(2)] h] by blast
  have "map tf_reader gs = ms"
    using gs(2) by (induction rule: list_all2_induct) (simp_all add: op_is_def)
  moreover have "validate C b (Some p) = Ok ()"
    using validate_represented(2) [OF b(2) H h p] m by (simp add: built_ablock_def built_header_def)
  moreover note block_is_reader [OF b(2)] block_is_offset [OF b(2)]
  ultimately show ?thesis
    using ops b(1) gs(1) p
    by (intro exI [of _ "ops_of C ms"] exI [of _ b] exI [of _ gs])
      (simp add: block_simps get_height_def get_proposed_operation_id_def built_ablock_def built_header_def)
qed

theorem built_block_extends_witness:
  "\<exists>p fs ops b. from_operations example_codec fs = Ok ops
    \<and> build_with_prev_block example_codec example_cell p 9 ops = Ok b \<and> get_height b = 2
    \<and> validate example_codec b (Some p) = Ok ()"
proof -
  obtain p where p: "block_is example_codec p example_genesis" by (rule example_genesis_built)
  obtain fs where fs: "list_all2 (op_is example_codec) fs example_ops" using example_frames by blast
  have "sorted (map co_operation_id example_ops)" "\<forall>m \<in> set example_ops. op_codec_ok example_codec m"
      "length (ops_bytes example_codec example_ops) < 2 ^ 32"
    by (simp add: example_op_def example_ops_def, simp add: example_ops_def, simp add: example_block_simps)
  note b = built_block_extends [OF p fs this example_second_buildable [unfolded example_second_def]]
  have "get_height p = 1"
    using p by (simp add: block_simps example_genesis_def built_ablock_def built_header_def)
  with b show ?thesis by fastforce
qed

section \<open>Finding an operation\<close>

text \<open>
  Looking an operation up in a block by its id, a binary search over the headers, finds
  an operation with that id whenever the block holds one, and answers \<open>None\<close> exactly
  when it holds none; it never fails.
\<close>

lemma get_operation_iff:
  assumes "block_is C b a" and "block_holds C a ms"
  shows "((\<exists>f. get_operation C b k = Ok (Some f) \<and> tf_reader f \<in> set ms \<and> op_get_id f = k)
      \<longleftrightarrow> k \<in> co_operation_id ` set ms)
    \<and> (get_operation C b k = Ok None \<longleftrightarrow> k \<notin> co_operation_id ` set ms)"
proof -
  have some: "\<exists>f. get_operation C b k = Ok (Some f) \<and> tf_reader f \<in> set ms \<and> op_get_id f = k"
    if "k \<in> co_operation_id ` set ms"
    using that get_operation_Some [OF assms] by (fastforce simp: op_is_def op_get_id_def)
  have none: "get_operation C b k = Ok None" if "k \<notin> co_operation_id ` set ms"
    by (rule get_operation_None [OF assms that])
  from some none show ?thesis by fastforce
qed

section \<open>What validation detects\<close>

text \<open>
  (C21) For a block whose frames can be read, \<open>validate\<close> accepts exactly when the header's
  previous hash is the hash of the previous block's header (if one is given), the signature
  and operation sizes announced in the header are those stored, and, unless the block is
  empty, the header's operations hash decodes to the hash of the stored operations. In
  every other case it returns an integrity error; it never panics.
\<close>

theorem validate_decides:
  assumes "block_is C b a" and "hash_lib_ok C" and "block_holds C a ms" and "block_is C p pa"
  shows "validate C b (Some p) =
      (if Ok (bh_previous_hash (ab_header a)) = typed_multihash (db_header p) \<and> ops_match C a ms
       then Ok () else Err BlockIntegrity)
    \<and> validate C b None = (if ops_match C a ms then Ok () else Err BlockIntegrity)"
  using validate_represented [OF assms(1-3)] assms(4) by (auto simp: block_simps)

theorem validate_decides_witness:
  "\<exists>b p. validate example_codec b (Some p) = Err BlockIntegrity \<and> validate example_codec b None = Ok ()"
proof -
  obtain p where p: "block_is example_codec p example_genesis" by (rule example_genesis_built)
  note v = validate_decides [OF p example_codec_hash example_genesis_holds p]
  have "bh_previous_hash (ab_header example_genesis) = []"
    by (simp add: example_genesis_def built_ablock_def built_header_def)
  moreover have "typed_multihash (db_header p) \<noteq> Ok []"
    using p by (simp add: block_simps) (metis digest_example_length list.size(3) zero_neq_numeral)
  ultimately show ?thesis using v example_genesis_match by auto
qed

text \<open>
  The hash stored behind a header is not checked against the header: \<open>verify\<close> reports
  whether they agree, but \<open>validate\<close> looks only at its error. A header frame with any
  decodable hash is accepted, also when \<open>verify\<close> answers \<open>false\<close>.
\<close>

lemma validate_ignores_header_hash:
  assumes b: "block_is C b a" and h: "block_holds C a ms" and m: "ops_match C a ms"
    and ok: "header_codec_ok C (ab_header a)" and x: "length x = multihash_size" "mh_decode C x = Some y"
  shows "\<exists>hf. read_header_frame C (RawFrame (sized_bytes (enc_header C (ab_header a) @ x))) = Ok hf
    \<and> multihash_verify C (capnp_inner (tf_frame hf)) = Ok (digest C (enc_header C (ab_header a)) = y)
    \<and> validate C (b\<lparr>db_header := hf\<rparr>) None = Ok ()"
proof -
  let ?d = "enc_header C (ab_header a) @ x"
  have len: "length ?d < 2 ^ 32" using ok x by (simp add: header_codec_ok_def)
  obtain g where g: "sized_new (RawFrame (sized_bytes ?d)) = Ok g" "exposed_data g = Ok ?d"
    using sized_new_reads [of "RawFrame (sized_bytes ?d)" ?d "[]"] len
      sized_exposed [of "RawFrame (sized_bytes ?d)" "[]" ?d "[]"] by auto
  note mh = multihash_reads [OF g(2) x(1)]
  let ?hf = "\<lparr>tf_frame = CapnpFrame (MultihashFrame g), tf_reader = ab_header a\<rparr>"
  have hf: "read_header_frame C (RawFrame (sized_bytes ?d)) = Ok ?hf"
    using ok by (simp add: read_header_frame_def g(1) mh typed_capnp_new_def header_codec_ok_def
        del: exposed_data.simps multihash_bytes.simps)
  have v: "multihash_verify C (MultihashFrame g) = Ok (digest C (enc_header C (ab_header a)) = y)"
    by (simp add: multihash_verify_def mh x(2) del: exposed_data.simps multihash_bytes.simps)
  have "operations_data (b\<lparr>db_header := ?hf\<rparr>) = Ok (ab_ops a)"
    using block_is_operations_data [OF b] by (simp add: operations_data_def)
  then have "validate C (b\<lparr>db_header := ?hf\<rparr>) None = Ok ()"
    using validate_facts(1) [of C "b\<lparr>db_header := ?hf\<rparr>", OF _ _ _ _ h] v b m
    by (simp add: block_is_def)
  with hf v show ?thesis by auto
qed

section \<open>Signatures of an existing block\<close>

lemma existing_signatures_is:
  assumes ok: "sigs_codec_ok C s (bh_signatures_size h - (length (enc_sigs C s) + 12))"
    and s: "s = \<lparr>bs_operations_size = bh_operations_size h, bs_signatures = sigs\<rparr>"
  shows "if length (enc_sigs C s) + 12 \<le> bh_signatures_size h
    then (\<exists>f. to_frame_for_existing_block C sigs h = Ok f \<and>
      sigs_is C f s (bh_signatures_size h - (length (enc_sigs C s) + 12)) \<and>
      whole_data_size (tf_frame f) = Ok (bh_signatures_size h))
    else to_frame_for_existing_block C sigs h = Err BlockIntegrity"
proof -
  let ?n = "length (enc_sigs C s) + 12" and ?e = "bh_signatures_size h"
  let ?pad = "?e - ?n"
  let ?min = "if ?n < ?e then length (enc_sigs C s) + (?e - ?n) else 0"
  have H: "hash_lib_ok C" using ok by (simp add: sigs_codec_ok_def)
  have bytes: "as_bytes C (SizedBuilder (PaddedBuilder (BytesBuilder (enc_sigs C s)) ?min)) = sigs_bytes C s ?pad"
    using H by (simp add: as_bytes_sized_bytes frame_simps sigs_bytes_def add.commute)
  have size: "expected_size (SizedBuilder (PaddedBuilder (BytesBuilder (enc_sigs C s)) 0)) = Some ?n"
    by simp
  obtain f where f: "sigs_read_frame C (RawFrame (sigs_bytes C s ?pad)) = Ok f" "sigs_is C f s ?pad"
    using read_sigs_at [OF ok, of "RawFrame (sigs_bytes C s ?pad)" "[]"] by auto
  have "to_frame_for_existing_block C sigs h =
      (if length (sigs_bytes C s ?pad) \<noteq> ?e then Err BlockIntegrity else Ok f)"
    unfolding to_frame_for_existing_block_def Let_def s [symmetric] size expect.simps and_then.simps
      bytes f(1) sigs_is_size [OF f(2)] map_err.simps ..
  with f(2) sigs_is_size [OF f(2)] show ?thesis by auto
qed

section \<open>Reading untrusted bytes\<close>

lemma typed_capnp_new_sound: "frame_sound f \<Longrightarrow> typed_capnp_new dec f \<noteq> Panic"
  by (cases "dec (case exposed_data f of Ok d \<Rightarrow> d)")
    (auto simp: typed_capnp_new_def frame_sound_def result_simps)

lemma read_typed_no_panic:
  assumes s: "s \<noteq> Panic" "\<And>f. s = Ok f \<Longrightarrow> frame_sound f"
    and w: "\<And>f. frame_sound f \<Longrightarrow> w f \<noteq> Panic" "\<And>f g. frame_sound f \<Longrightarrow> w f = Ok g \<Longrightarrow> frame_sound g"
  shows "and_then (map_err e s) (\<lambda>f. and_then (map_err e (w f)) (\<lambda>g. map_err e' (typed_capnp_new dec g))) \<noteq> Panic"
proof (cases s)
  case (Ok f)
  then have f: "frame_sound f" by (rule s(2))
  show ?thesis
  proof (cases "w f")
    case W: (Ok g)
    then have "typed_capnp_new dec g \<noteq> Panic" using f w(2) typed_capnp_new_sound by blast
    with Ok W show ?thesis by (cases "typed_capnp_new dec g") simp_all
  qed (use Ok f w(1) in simp_all)
qed (use s in simp_all)

text \<open>
  (C22) Reading the frames of a block or an operation from arbitrary bytes never panics,
  forwards or backwards from any offset: the readers return a frame or an error, whatever
  the serialisation answers.
\<close>

theorem untrusted_frames_never_panic:
  "read_header_frame C (RawFrame d) \<noteq> Panic \<and> read_header_frame_from_next_offset C (RawFrame d) i \<noteq> Panic
   \<and> sigs_read_frame C (RawFrame d) \<noteq> Panic \<and> sigs_read_frame_from_next_offset C (RawFrame d) i \<noteq> Panic
   \<and> read_operation_frame C (RawFrame d) \<noteq> Panic"
  unfolding read_header_frame_def read_header_frame_from_next_offset_def sigs_read_frame_def
    sigs_read_frame_from_next_offset_def read_operation_frame_def
proof (intro conjI)
  note raw = exposed_data.simps(1) whole_data.simps(1)
  note fwd = sized_new_sound [OF raw] and bwd = sized_next_sound [OF raw]
    and mh = multihash_new_sound(1) multihash_new_sound(2) [THEN conjunct1] and pd = padded_new_sound
  show "and_then (map_err BlockFraming (sized_new (RawFrame d))) (\<lambda>f.
      and_then (map_err BlockFraming (multihash_new f)) (\<lambda>g.
        map_err (\<lambda>_. BlockSerialization) (typed_capnp_new (dec_header C) g))) \<noteq> Panic"
    by (rule read_typed_no_panic [OF fwd mh])
  show "and_then (map_err BlockFraming (sized_new_from_next_offset (RawFrame d) i)) (\<lambda>f.
      and_then (map_err BlockFraming (multihash_new f)) (\<lambda>g.
        map_err (\<lambda>_. BlockSerialization) (typed_capnp_new (dec_header C) g))) \<noteq> Panic"
    by (rule read_typed_no_panic [OF bwd mh])
  show "and_then (map_err BlockFraming (sized_new (RawFrame d))) (\<lambda>f.
      and_then (map_err BlockFraming (padded_new f)) (\<lambda>g.
        map_err (\<lambda>_. BlockSerialization) (typed_capnp_new (dec_sigs C) g))) \<noteq> Panic"
    by (rule read_typed_no_panic [OF fwd pd])
  show "and_then (map_err BlockFraming (sized_new_from_next_offset (RawFrame d) i)) (\<lambda>f.
      and_then (map_err BlockFraming (padded_new f)) (\<lambda>g.
        map_err (\<lambda>_. BlockSerialization) (typed_capnp_new (dec_sigs C) g))) \<noteq> Panic"
    by (rule read_typed_no_panic [OF bwd pd])
  show "and_then (map_err OpFraming (sized_new (RawFrame d))) (\<lambda>f.
      and_then (map_err OpFraming (multihash_new f)) (\<lambda>g.
        map_err (\<lambda>_. OpSerialization) (typed_capnp_new (dec_op C) g))) \<noteq> Panic"
    by (rule read_typed_no_panic [OF fwd mh])
qed

end
