(* ===== verification/Exo_Maps.thy ===== *)
theory Exo_Maps
  imports Exo_Prelude
begin

text \<open>
  The two maps of the Rust standard library the chain uses. A \<open>BTreeMap\<close> is the list of
  its entries in increasing order of keys; a \<open>HashMap\<close> is the list of its entries in the
  order an iteration would visit them, so that what is proved holds for every such order.
  Their common contract is the locale \<open>key_map\<close>; \<open>ordered_key_map\<close> adds the order of
  iteration.
\<close>

section \<open>The contract\<close>

locale key_map =
  fixes empty :: "'m"
    and insert :: "'k \<Rightarrow> 'v \<Rightarrow> 'm \<Rightarrow> 'm"
    and remove :: "'k \<Rightarrow> 'm \<Rightarrow> 'm"
    and lookup :: "'m \<Rightarrow> 'k \<Rightarrow> 'v option"
    and entries :: "'m \<Rightarrow> ('k \<times> 'v) list"
    and wf :: "'m \<Rightarrow> bool"
  assumes wf_empty: "wf empty"
    and wf_insert: "wf m \<Longrightarrow> wf (insert k v m)"
    and wf_remove: "wf m \<Longrightarrow> wf (remove k m)"
    and lookup_empty: "lookup empty = Map.empty"
    and lookup_insert: "wf m \<Longrightarrow> lookup (insert k v m) = (lookup m)(k \<mapsto> v)"
    and lookup_remove: "wf m \<Longrightarrow> lookup (remove k m) = (lookup m)(k := None)"
    and distinct_entries: "wf m \<Longrightarrow> distinct (map fst (entries m))"
    and lookup_entries: "wf m \<Longrightarrow> lookup m = map_of (entries m)"
begin

lemma entries_iff: "wf m \<Longrightarrow> (k, v) \<in> set (entries m) \<longleftrightarrow> lookup m k = Some v"
  by (simp add: lookup_entries distinct_entries)

lemma keys_dom: "wf m \<Longrightarrow> fst ` set (entries m) = dom (lookup m)"
  by (simp add: lookup_entries dom_map_of_conv_image_fst)

lemma count_card: "wf m \<Longrightarrow> length (entries m) = card (dom (lookup m))"
  using distinct_card [OF distinct_entries, of m] by (simp add: keys_dom)

lemma wf_inserts: "wf m \<Longrightarrow> wf (fold (\<lambda>(k, v). insert k v) kvs m)"
  by (induction kvs arbitrary: m) (auto simp: wf_insert)

text \<open>Inserting a series of entries: the last one of each key wins over the old map.\<close>

lemma lookup_inserts:
  "wf m \<Longrightarrow> lookup (fold (\<lambda>(k, v). insert k v) kvs m) = lookup m ++ map_of (rev kvs)"
proof (induction kvs arbitrary: m)
  case (Cons kv kvs)
  obtain k v where kv: "kv = (k, v)" by (cases kv)
  have "lookup (insert k v m) ++ map_of (rev kvs) = lookup m ++ map_of (rev kvs @ [(k, v)])"
    using Cons.prems by (simp add: lookup_insert map_add_def fun_eq_iff split: option.split)
  with Cons kv show ?case by (simp add: wf_insert)
qed simp

end

locale ordered_key_map = key_map empty insert remove lookup entries wf
  for empty :: "'m"
    and insert :: "('k :: linorder) \<Rightarrow> 'v \<Rightarrow> 'm \<Rightarrow> 'm"
    and remove :: "'k \<Rightarrow> 'm \<Rightarrow> 'm"
    and lookup :: "'m \<Rightarrow> 'k \<Rightarrow> 'v option"
    and entries :: "'m \<Rightarrow> ('k \<times> 'v) list"
    and wf :: "'m \<Rightarrow> bool" +
  assumes sorted_entries: "wf m \<Longrightarrow> sorted (map fst (entries m))"
begin

lemma entries_strict: "wf m \<Longrightarrow> sorted_wrt (<) (map fst (entries m))"
  using sorted_entries distinct_entries by (simp add: strict_sorted_iff)

text \<open>Two maps with the same entries iterate alike.\<close>

lemma entries_unique:
  assumes "wf m" and "wf m'" and "lookup m = lookup m'"
  shows "entries m = entries m'"
proof -
  have "set (entries m) = set (entries m')"
    using assms entries_iff by (metis (no_types, lifting) antisym subrelI)
  then have k: "map fst (entries m) = map fst (entries m')"
    using assms sorted_distinct_set_unique [of "map fst (entries m)" "map fst (entries m')"]
    by (simp add: sorted_entries distinct_entries)
  have "map (\<lambda>k. (k, the (lookup n k))) (map fst (entries n)) = entries n" if "wf n" for n
    unfolding map_map
    by (rule map_idI) (use that entries_iff in \<open>force simp: comp_def\<close>)
  with assms k show ?thesis by metis
qed

end

section \<open>BTreeMap\<close>

fun bt_insert :: "('k :: linorder) \<Rightarrow> 'v \<Rightarrow> ('k \<times> 'v) list \<Rightarrow> ('k \<times> 'v) list" where
  "bt_insert k v [] = [(k, v)]"
| "bt_insert k v ((k', v') # m) =
     (if k < k' then (k, v) # (k', v') # m
      else if k = k' then (k, v) # m
      else (k', v') # bt_insert k v m)"

definition bt_remove :: "('k :: linorder) \<Rightarrow> ('k \<times> 'v) list \<Rightarrow> ('k \<times> 'v) list" where
  "bt_remove k m = filter (\<lambda>e. fst e \<noteq> k) m"

definition bt_wf :: "(('k :: linorder) \<times> 'v) list \<Rightarrow> bool" where
  "bt_wf m \<longleftrightarrow> sorted_wrt (<) (map fst m)"

lemma bt_insert_keys: "fst ` set (bt_insert k v m) = Set.insert k (fst ` set m)"
  by (induction k v m rule: bt_insert.induct) auto

lemma bt_insert_wf: "bt_wf m \<Longrightarrow> bt_wf (bt_insert k v m)"
proof (induction k v m rule: bt_insert.induct)
  case (2 k v k' v' m)
  then show ?case
    using bt_insert_keys [of k v m] by (auto simp: bt_wf_def simp del: image_insert)
qed (simp add: bt_wf_def)

lemma bt_insert_lookup: "map_of (bt_insert k v m) = (map_of m)(k \<mapsto> v)"
  by (induction k v m rule: bt_insert.induct) auto

lemma map_of_filter_neq: "map_of (filter (\<lambda>e. fst e \<noteq> k) m) = (map_of m)(k := None)"
  by (induction m) auto

lemma bt_wf_filter: "bt_wf m \<Longrightarrow> bt_wf (filter P m)"
  by (simp add: bt_wf_def sorted_wrt_map sorted_wrt_filter)

lemma bt_wf_basics: "bt_wf []" "bt_wf m \<Longrightarrow> sorted (map fst m)" "bt_wf m \<Longrightarrow> distinct (map fst m)"
  by (simp_all add: bt_wf_def strict_sorted_iff)

interpretation bt: ordered_key_map "[] :: (('k :: linorder) \<times> 'v) list" bt_insert bt_remove
  map_of "\<lambda>m. m" bt_wf
  by unfold_locales
    (auto simp: bt_insert_wf bt_insert_lookup bt_remove_def bt_wf_filter map_of_filter_neq bt_wf_basics)

text \<open>
  \<open>range\<close>: the entries between two bounds. The library panics on a range whose start is after
  its end, and on an empty one with both ends excluded.
\<close>

fun from_bound :: "('k :: linorder) bound \<Rightarrow> 'k \<Rightarrow> bool" where
  "from_bound Unbounded k = True"
| "from_bound (Included a) k = (a \<le> k)"
| "from_bound (Excluded a) k = (a < k)"

fun to_bound :: "('k :: linorder) bound \<Rightarrow> 'k \<Rightarrow> bool" where
  "to_bound Unbounded k = True"
| "to_bound (Included b) k = (k \<le> b)"
| "to_bound (Excluded b) k = (k < b)"

fun range_ok :: "('k :: linorder) bound \<times> 'k bound \<Rightarrow> bool" where
  "range_ok (Excluded a, Excluded b) = (a < b)"
| "range_ok (Excluded a, Included b) = (a \<le> b)"
| "range_ok (Included a, Excluded b) = (a \<le> b)"
| "range_ok (Included a, Included b) = (a \<le> b)"
| "range_ok _ = True"

definition in_range :: "('k :: linorder) bound \<times> 'k bound \<Rightarrow> 'k \<Rightarrow> bool" where
  "in_range r k \<longleftrightarrow> from_bound (fst r) k \<and> to_bound (snd r) k"

definition bt_range ::
  "('k :: linorder) bound \<times> 'k bound \<Rightarrow> ('k \<times> 'v) list \<Rightarrow> ('e, ('k \<times> 'v) list) result" where
  "bt_range r m = (if range_ok r then Ok (filter (\<lambda>e. in_range r (fst e)) m) else Panic)"

lemma in_range_unbounded [simp]: "in_range (Unbounded, Unbounded) k"
  by (simp add: in_range_def)

section \<open>HashMap\<close>

definition hm_remove :: "'k \<Rightarrow> ('k \<times> 'v) list \<Rightarrow> ('k \<times> 'v) list" where
  "hm_remove k m = filter (\<lambda>e. fst e \<noteq> k) m"

fun hm_insert :: "'k \<Rightarrow> 'v \<Rightarrow> ('k \<times> 'v) list \<Rightarrow> ('k \<times> 'v) list" where
  "hm_insert k v [] = [(k, v)]"
| "hm_insert k v ((k', v') # m) = (if k = k' then (k, v) # m else (k', v') # hm_insert k v m)"

definition hm_wf :: "('k \<times> 'v) list \<Rightarrow> bool" where
  "hm_wf m \<longleftrightarrow> distinct (map fst m)"

lemma hm_insert_keys: "fst ` set (hm_insert k v m) = Set.insert k (fst ` set m)"
  by (induction k v m rule: hm_insert.induct) auto

lemma hm_insert_wf: "hm_wf m \<Longrightarrow> hm_wf (hm_insert k v m)"
proof (induction k v m rule: hm_insert.induct)
  case (2 k v k' v' m)
  then show ?case
    using hm_insert_keys [of k v m] by (auto simp: hm_wf_def simp flip: set_map)
qed (simp add: hm_wf_def)

lemma hm_insert_lookup: "map_of (hm_insert k v m) = (map_of m)(k \<mapsto> v)"
  by (induction k v m rule: hm_insert.induct) auto

lemma hm_wf_basics: "hm_wf []" "hm_wf m \<Longrightarrow> distinct (map fst m)" "hm_wf m \<Longrightarrow> hm_wf (hm_remove k m)"
  by (simp_all add: hm_wf_def hm_remove_def distinct_map_filter)

interpretation hm: key_map "[] :: ('k \<times> 'v) list" hm_insert hm_remove map_of "\<lambda>m. m" hm_wf
  by unfold_locales
    (simp_all add: hm_insert_wf hm_insert_lookup hm_wf_basics map_of_filter_neq [folded hm_remove_def])

lemma length_hm_insert:
  "hm_wf m \<Longrightarrow> length (hm_insert k v m) = length m + (if k \<in> fst ` set m then 0 else 1)"
  using hm.count_card [OF hm_insert_wf, of m k v] hm.count_card [of m]
  by (auto simp: hm_insert_lookup dom_map_of_conv_image_fst insert_absorb)

end
