(* ===== verification/Exo_Tracker.thy ===== *)
theory Exo_Tracker
  imports Exo_Maps "HOL-Library.Multiset"
begin

text \<open>
  The tracker of opened segments, \<open>chain/src/chain/directory/tracker.rs\<close>. Access counters are
  shared between a registered segment and the tracker: they are kept here, by segment id, as
  64-bit words that wrap around.
\<close>

section \<open>State\<close>

type_synonym usize = "64 word"

datatype open_state = OpenRead | OpenWrite

record tracked_segment =
  ts_path :: string
  ts_access_count_last :: usize
  ts_state :: open_state

record registered_segment =
  rs_id :: nat
  rs_path :: string

record tracker =
  tk_next_id :: nat
  tk_max_open :: nat
  tk_opened :: "(nat \<times> tracked_segment) list"
  tk_live :: "nat \<Rightarrow> usize"

definition tracker_new :: "nat \<Rightarrow> tracker" where
  "tracker_new max_open =
     \<lparr>tk_next_id = 0, tk_max_open = max_open, tk_opened = [], tk_live = (\<lambda>_. 0)\<rparr>"

definition register :: "tracker \<Rightarrow> string \<Rightarrow> tracker \<times> registered_segment" where
  "register t path =
     (let i = tk_next_id t in
      (t\<lparr>tk_next_id := i + 1, tk_live := (tk_live t)(i := 0)\<rparr>, \<lparr>rs_id = i, rs_path = path\<rparr>))"

definition access :: "tracker \<Rightarrow> registered_segment \<Rightarrow> tracker" where
  "access t s = t\<lparr>tk_live := (tk_live t)(rs_id s := tk_live t (rs_id s) + 1)\<rparr>"

section \<open>Closing the least used segments\<close>

definition is_write :: "tracked_segment \<Rightarrow> bool" where
  "is_write ts \<longleftrightarrow> ts_state ts = OpenWrite"

text \<open>The difference since the last check, and the segment with its counter saved.\<close>

definition delta_access_count :: "usize \<Rightarrow> tracked_segment \<Rightarrow> usize \<times> tracked_segment" where
  "delta_access_count access_count_live ts =
     (let access_count_last = ts_access_count_last ts in
      (if access_count_live \<ge> access_count_last then access_count_live - access_count_last
       else (- 1 - access_count_last) + access_count_live,
       ts\<lparr>ts_access_count_last := access_count_live\<rparr>))"

record segment_stats =
  st_index :: nat
  st_access_count :: usize
  st_write :: bool

fun close_loop ::
  "segment_stats list \<Rightarrow> nat \<Rightarrow> nat \<Rightarrow> nat \<Rightarrow> (nat \<times> tracked_segment) list
     \<Rightarrow> (nat \<times> tracked_segment) list" where
  "close_loop [] last_segment to_close closed opened = opened"
| "close_loop (s # ss) last_segment to_close closed opened =
     (if st_index s = last_segment \<or> st_write s then close_loop ss last_segment to_close closed opened
      else let opened' = hm_remove (st_index s) opened in
        if closed + 1 \<ge> to_close then opened'
        else close_loop ss last_segment to_close (closed + 1) opened')"

definition stats_of :: "tracker \<Rightarrow> segment_stats list" where
  "stats_of t =
     map (\<lambda>(i, ts). \<lparr>st_index = i, st_access_count = fst (delta_access_count (tk_live t i) ts),
       st_write = is_write ts\<rparr>) (tk_opened t)"

definition close_least_used :: "tracker \<Rightarrow> nat \<Rightarrow> tracker" where
  "close_least_used t last_segment =
     (let opened1 = map (\<lambda>(i, ts). (i, snd (delta_access_count (tk_live t i) ts))) (tk_opened t);
          segment_stats = sort_key st_access_count (stats_of t);
          to_close = length segment_stats - tk_max_open t
      in t\<lparr>tk_opened := close_loop segment_stats last_segment to_close 0 opened1\<rparr>)"

definition save_access_count :: "tracker \<Rightarrow> tracker" where
  "save_access_count t =
     t\<lparr>tk_opened := map (\<lambda>(i, ts). (i, ts\<lparr>ts_access_count_last := tk_live t i\<rparr>)) (tk_opened t)\<rparr>"

definition open_with :: "open_state \<Rightarrow> tracker \<Rightarrow> registered_segment \<Rightarrow> tracker" where
  "open_with st t s =
     (let t1 = t\<lparr>tk_opened := hm_insert (rs_id s)
            \<lparr>ts_path = rs_path s, ts_access_count_last = 0, ts_state = st\<rparr> (tk_opened t)\<rparr>
      in if length (tk_opened t1) > tk_max_open t1 then close_least_used t1 (rs_id s)
         else save_access_count t1)"

definition open_write :: "tracker \<Rightarrow> registered_segment \<Rightarrow> tracker" where
  "open_write t s = open_with OpenWrite t s"

definition open_read :: "tracker \<Rightarrow> registered_segment \<Rightarrow> tracker" where
  "open_read t s = open_with OpenRead t s"

definition close_segment :: "tracker \<Rightarrow> registered_segment \<Rightarrow> tracker" where
  "close_segment t s = t\<lparr>tk_opened := hm_remove (rs_id s) (tk_opened t)\<rparr>"

definition opened_ids :: "tracker \<Rightarrow> nat set" where
  "opened_ids t = fst ` set (tk_opened t)"

definition write_ids :: "tracker \<Rightarrow> nat set" where
  "write_ids t = {i. \<exists>ts. (i, ts) \<in> set (tk_opened t) \<and> is_write ts}"

definition delta_of :: "tracker \<Rightarrow> nat \<Rightarrow> usize" where
  "delta_of t i = (case map_of (tk_opened t) i of None \<Rightarrow> 0 | Some ts \<Rightarrow> fst (delta_access_count (tk_live t i) ts))"

section \<open>What closing keeps\<close>

text \<open>The segments that the loop closes: the first ones it may close, in order of use.\<close>

definition closable :: "nat \<Rightarrow> segment_stats list \<Rightarrow> nat list" where
  "closable last_segment ss = map st_index (filter (\<lambda>s. st_index s \<noteq> last_segment \<and> \<not> st_write s) ss)"

lemma close_loop_closes:
  assumes "closed < to_close"
  shows "close_loop ss l to_close closed opened =
    filter (\<lambda>e. fst e \<notin> set (take (to_close - closed) (closable l ss))) opened"
  using assms
proof (induction ss l to_close closed opened rule: close_loop.induct)
  case (2 s ss l to_close closed opened)
  show ?case
  proof (cases "st_index s = l \<or> st_write s")
    case True
    then show ?thesis using 2 by (auto simp: closable_def)
  next
    case False
    have n: "to_close - closed = Suc (to_close - (closed + 1))" using 2 by simp
    show ?thesis
    proof (cases "closed + 1 \<ge> to_close")
      case True
      with False n show ?thesis by (simp add: closable_def hm_remove_def Let_def)
    next
      case F2: False
      then have "close_loop ss l to_close (closed + 1) (hm_remove (st_index s) opened) =
          filter (\<lambda>e. fst e \<notin> set (take (to_close - (closed + 1)) (closable l ss))) (hm_remove (st_index s) opened)"
        using 2(2) [OF False refl F2] by simp
      with False F2 n show ?thesis
        by (simp add: closable_def hm_remove_def Let_def)
    qed
  qed
qed (simp add: closable_def)

lemma ids_map_snd: "map fst (map (\<lambda>(i, ts). (i, f i ts)) m) = map fst m"
  by (induction m) auto

lemma closable_sorted:
  "closable l (sort_key st_access_count (stats_of t)) =
     map st_index (sort_key st_access_count (filter (\<lambda>s. st_index s \<noteq> l \<and> \<not> st_write s) (stats_of t)))"
  by (simp add: closable_def filter_sort)

lemma set_closable:
  "hm_wf (tk_opened t) \<Longrightarrow>
   set (closable l (sort_key st_access_count (stats_of t))) = opened_ids t - write_ids t - {l}"
  unfolding closable_def stats_of_def opened_ids_def write_ids_def hm_wf_def
  by (force simp: distinct_map inj_on_def)

lemma distinct_closable:
  assumes "hm_wf (tk_opened t)"
  shows "distinct (closable l (sort_key st_access_count (stats_of t)))"
proof -
  have "map st_index (stats_of t) = map fst (tk_opened t)" by (auto simp: stats_of_def)
  then have d: "distinct (map st_index (stats_of t))" using assms by (simp add: hm_wf_def)
  have "mset (map st_index (sort_key st_access_count (stats_of t))) = mset (map st_index (stats_of t))"
    by simp
  with d have "distinct (map st_index (sort_key st_access_count (stats_of t)))"
    using mset_eq_imp_distinct_iff by blast
  then show ?thesis unfolding closable_def by (rule distinct_map_filter)
qed

text \<open>The use counts along the closable segments increase.\<close>

lemma closable_by_use:
  assumes wf: "hm_wf (tk_opened t)"
  shows "sorted (map (delta_of t) (closable l (sort_key st_access_count (stats_of t))))"
proof -
  have "delta_of t (st_index s) = st_access_count s" if "s \<in> set (stats_of t)" for s
    using that wf by (auto simp: stats_of_def delta_of_def hm_wf_def)
  then have "map (delta_of t \<circ> st_index) (filter P (sort_key st_access_count (stats_of t)))
      = map st_access_count (filter P (sort_key st_access_count (stats_of t)))" for P
    by (auto intro!: map_cong)
  then show ?thesis
    unfolding closable_def map_map by (simp only: sorted_filter sorted_sort_key)
qed

text \<open>Opening a segment when the limit is exceeded.\<close>

lemma close_least_used_ids:
  assumes wf: "hm_wf (tk_opened t)" and more: "tk_max_open t < length (tk_opened t)"
    and K: "K = take (length (tk_opened t) - tk_max_open t) (closable l (sort_key st_access_count (stats_of t)))"
  shows "opened_ids (close_least_used t l) = opened_ids t - set K"
    and "write_ids (close_least_used t l) = write_ids t"
    and "hm_wf (tk_opened (close_least_used t l))"
proof -
  let ?f = "\<lambda>i ts. snd (delta_access_count (tk_live t i) ts)"
  have n: "length (sort_key st_access_count (stats_of t)) = length (tk_opened t)"
    by (simp add: stats_of_def)
  have o: "tk_opened (close_least_used t l) =
      filter (\<lambda>e. fst e \<notin> set K) (map (\<lambda>(i, ts). (i, ?f i ts)) (tk_opened t))"
    using close_loop_closes [of 0 "length (tk_opened t) - tk_max_open t"] more
    by (simp add: close_least_used_def Let_def n K del: length_sort)
  have KS: "set K \<subseteq> opened_ids t - write_ids t - {l}"
    using set_closable [OF wf, of l] by (auto simp: K dest: in_set_takeD)
  show "opened_ids (close_least_used t l) = opened_ids t - set K"
    unfolding opened_ids_def o by force
  show "hm_wf (tk_opened (close_least_used t l))"
    unfolding hm_wf_def o by (rule distinct_map_filter) (use wf in \<open>simp only: ids_map_snd hm_wf_def\<close>)
  have w: "is_write (?f i ts) = is_write ts" for i ts
    by (simp add: delta_access_count_def Let_def is_write_def)
  show "write_ids (close_least_used t l) = write_ids t"
    unfolding write_ids_def o using KS w by (force simp: write_ids_def)
qed

lemma card_opened: "hm_wf (tk_opened t) \<Longrightarrow> card (opened_ids t) = length (tk_opened t)"
  unfolding opened_ids_def hm_wf_def by (metis distinct_card length_map set_map)

text \<open>The tracker right after the new entry, before anything is closed.\<close>

definition opening_of :: "open_state \<Rightarrow> tracker \<Rightarrow> registered_segment \<Rightarrow> tracker" where
  "opening_of st t s =
     t\<lparr>tk_opened := hm_insert (rs_id s)
         \<lparr>ts_path = rs_path s, ts_access_count_last = 0, ts_state = st\<rparr> (tk_opened t)\<rparr>"

lemma open_with_opening:
  "open_with st t s = (if length (tk_opened (opening_of st t s)) > tk_max_open t
     then close_least_used (opening_of st t s) (rs_id s) else save_access_count (opening_of st t s))"
  by (simp add: open_with_def opening_of_def)

lemma opening_ids:
  assumes "hm_wf (tk_opened t)"
  shows "hm_wf (tk_opened (opening_of st t s))"
    and "opened_ids (opening_of st t s) = insert (rs_id s) (opened_ids t)"
    and "write_ids (opening_of st t s) = (write_ids t - {rs_id s}) \<union> (if st = OpenWrite then {rs_id s} else {})"
proof -
  show wf: "hm_wf (tk_opened (opening_of st t s))"
    using assms by (simp add: opening_of_def hm_insert_wf)
  show "opened_ids (opening_of st t s) = insert (rs_id s) (opened_ids t)"
    by (simp add: opening_of_def opened_ids_def hm_insert_keys)
  have e: "(i, ts) \<in> set (tk_opened (opening_of st t s)) \<longleftrightarrow>
      (if i = rs_id s then ts = \<lparr>ts_path = rs_path s, ts_access_count_last = 0, ts_state = st\<rparr>
       else (i, ts) \<in> set (tk_opened t))" for i ts
    using hm.entries_iff [OF wf, of i ts] hm.entries_iff [OF assms, of i ts]
    by (auto simp: opening_of_def hm_insert_lookup)
  show "write_ids (opening_of st t s) = (write_ids t - {rs_id s}) \<union> (if st = OpenWrite then {rs_id s} else {})"
  proof (rule set_eqI)
    fix i show "i \<in> write_ids (opening_of st t s) \<longleftrightarrow>
        i \<in> (write_ids t - {rs_id s}) \<union> (if st = OpenWrite then {rs_id s} else {})"
      by (cases "i = rs_id s") (simp_all add: write_ids_def e is_write_def)
  qed
qed

lemma save_access_count_opened:
  "tk_opened (save_access_count t) =
     map (\<lambda>(i, ts). (i, ts\<lparr>ts_access_count_last := tk_live t i\<rparr>)) (tk_opened t)"
  by (simp add: save_access_count_def)

lemma save_access_count_ids:
  shows "opened_ids (save_access_count t) = opened_ids t" and "write_ids (save_access_count t) = write_ids t"
    and "hm_wf (tk_opened (save_access_count t)) = hm_wf (tk_opened t)"
proof -
  show "opened_ids (save_access_count t) = opened_ids t"
    unfolding opened_ids_def save_access_count_opened set_map [symmetric] ids_map_snd ..
  show "hm_wf (tk_opened (save_access_count t)) = hm_wf (tk_opened t)"
    unfolding hm_wf_def save_access_count_opened ids_map_snd ..
  show "write_ids (save_access_count t) = write_ids t"
    unfolding write_ids_def save_access_count_opened by (force simp: is_write_def)
qed

lemma write_ids_opened: "write_ids t \<subseteq> opened_ids t"
  by (force simp: write_ids_def opened_ids_def)

lemma finite_write_ids [simp]: "finite (write_ids t)"
  by (rule finite_subset [OF write_ids_opened]) (simp add: opened_ids_def)

lemma close_least_used_limit:
  assumes wf: "hm_wf (tk_opened t)" and more: "tk_max_open t < length (tk_opened t)"
    and l: "l \<in> opened_ids t"
  shows "card (opened_ids (close_least_used t l)) = max (tk_max_open t) (card (insert l (write_ids t)))"
proof -
  let ?c = "closable l (sort_key st_access_count (stats_of t))"
  let ?n = "length (tk_opened t) - tk_max_open t"
  note ids = close_least_used_ids [OF wf more refl, of l]
  have fin: "finite (opened_ids t)" by (simp add: opened_ids_def)
  have kept: "insert l (write_ids t) \<subseteq> opened_ids t" using l write_ids_opened by blast
  have c: "set ?c = opened_ids t - insert l (write_ids t)" using set_closable [OF wf, of l] by auto
  then have len: "length ?c = card (opened_ids t) - card (insert l (write_ids t))"
    using distinct_card [OF distinct_closable [OF wf, of l]] card_Diff_subset [OF _ kept] by simp
  have le: "card (insert l (write_ids t)) \<le> card (opened_ids t)" by (rule card_mono [OF fin kept])
  show ?thesis
  proof (cases "?n \<le> length ?c")
    case True
    then have "card (set (take ?n ?c)) = ?n"
      using distinct_closable [OF wf, of l] by (simp add: distinct_card)
    moreover have "set (take ?n ?c) \<subseteq> opened_ids t"
      using set_closable [OF wf, of l] by (auto dest: in_set_takeD)
    ultimately have "card (opened_ids t - set (take ?n ?c)) = tk_max_open t"
      using card_opened [OF wf] fin more by (simp add: card_Diff_subset finite_subset)
    moreover have "card (insert l (write_ids t)) \<le> tk_max_open t"
      using True len le more card_opened [OF wf] by linarith
    ultimately show ?thesis using ids by (simp add: max_def)
  next
    case False
    then have "opened_ids (close_least_used t l) = insert l (write_ids t)"
      using ids(1) c kept by auto
    moreover have "tk_max_open t \<le> card (insert l (write_ids t))"
      using False len le card_opened [OF wf] by linarith
    ultimately show ?thesis by (simp add: max_def)
  qed
qed

lemma close_least_used_order:
  assumes wf: "hm_wf (tk_opened t)" and more: "tk_max_open t < length (tk_opened t)"
    and i: "i \<in> opened_ids t - opened_ids (close_least_used t l)"
    and j: "j \<in> opened_ids (close_least_used t l) - write_ids t - {l}"
  shows "delta_of t i \<le> delta_of t j"
proof -
  let ?c = "closable l (sort_key st_access_count (stats_of t))"
  let ?n = "length (tk_opened t) - tk_max_open t"
  note ids = close_least_used_ids [OF wf more refl, of l]
  have "i \<in> set (take ?n ?c)" using ids(1) i by auto
  then obtain a where a: "a < length ?c" "a < ?n" "?c ! a = i" by (auto simp: in_set_conv_nth)
  have "j \<in> set ?c" "j \<notin> set (take ?n ?c)" using set_closable [OF wf, of l] ids(1) j by auto
  then obtain b where b: "b < length ?c" "?c ! b = j" and nt: "j \<notin> set (take ?n ?c)"
    by (auto simp: in_set_conv_nth)
  have nb: "?n \<le> b"
  proof (rule ccontr)
    assume "\<not> ?n \<le> b"
    then have "take ?n ?c ! b = j" "b < length (take ?n ?c)" using b by auto
    with nt nth_mem show False by blast
  qed
  from sorted_nth_mono [OF closable_by_use [OF wf, of l], of a b] a b nb show ?thesis by simp
qed

section \<open>The limit on opened segments\<close>

text \<open>
  (C31) Opening a segment closes as many segments as the limit asks for and no more: with the new one, either
  all are within the limit and stay open, or exactly as many are left as the limit allows, or, when
  the segments opened for writing and the new one alone exceed the limit, exactly these. The new segment and
  those opened for writing stay open, and the segments that are closed were used no more, since the
  last check, than any of those kept open for reading.
\<close>

theorem open_keeps_limit:
  assumes wf: "hm_wf (tk_opened t)"
  shows "hm_wf (tk_opened (open_with st t s)) \<and> rs_id s \<in> opened_ids (open_with st t s)
    \<and> opened_ids (open_with st t s) \<subseteq> insert (rs_id s) (opened_ids t)
    \<and> write_ids t - {rs_id s} \<subseteq> write_ids (open_with st t s)
    \<and> card (opened_ids (open_with st t s)) =
        min (card (insert (rs_id s) (opened_ids t))) (max (tk_max_open t) (card (insert (rs_id s) (write_ids t))))
    \<and> (\<forall>i \<in> opened_ids t - opened_ids (open_with st t s).
        \<forall>j \<in> opened_ids (open_with st t s) - write_ids t - {rs_id s}.
          delta_of (opening_of st t s) i \<le> delta_of (opening_of st t s) j)"
proof -
  let ?t = "opening_of st t s"
  note o = opening_ids [OF wf, of st s]
  have m: "tk_max_open ?t = tk_max_open t" by (simp add: opening_of_def)
  have w: "insert (rs_id s) (write_ids ?t) = insert (rs_id s) (write_ids t)" using o(3) by auto
  show ?thesis
  proof (cases "length (tk_opened ?t) > tk_max_open t")
    case True
    then have eq: "open_with st t s = close_least_used ?t (rs_id s)" by (simp add: open_with_opening)
    have more: "tk_max_open ?t < length (tk_opened ?t)" using True m by simp
    note ids = close_least_used_ids [OF o(1) more refl, of "rs_id s"]
    have "rs_id s \<notin> set (take n (closable (rs_id s) (sort_key st_access_count (stats_of ?t))))" for n
      using set_closable [OF o(1), of "rs_id s"] by (auto dest: in_set_takeD)
    moreover have "card (opened_ids (close_least_used ?t (rs_id s))) =
        min (card (insert (rs_id s) (opened_ids t))) (max (tk_max_open t) (card (insert (rs_id s) (write_ids t))))"
    proof -
      have "card (insert (rs_id s) (write_ids t)) \<le> card (insert (rs_id s) (opened_ids t))"
        using write_ids_opened [of t] by (intro card_mono) (auto simp: opened_ids_def)
      then show ?thesis
        using close_least_used_limit [OF o(1) more, of "rs_id s"] o(2) w m more card_opened [OF o(1)] by simp
    qed
    ultimately show ?thesis
      using ids o close_least_used_order [OF o(1) more, where l = "rs_id s"]
      unfolding eq by auto
  next
    case False
    then have eq: "open_with st t s = save_access_count ?t" by (simp add: open_with_opening)
    show ?thesis
      using o False card_opened [OF o(1)] unfolding eq by (auto simp: save_access_count_ids)
  qed
qed

theorem open_keeps_limit_witness:
  "card (opened_ids (open_with OpenRead
      (open_with OpenRead (open_with OpenWrite (tracker_new 2) \<lparr>rs_id = 0, rs_path = ''seg1''\<rparr>)
        \<lparr>rs_id = 1, rs_path = ''seg2''\<rparr>) \<lparr>rs_id = 2, rs_path = ''seg3''\<rparr>)) = 2"
proof -
  let ?t = "open_with OpenRead (open_with OpenWrite (tracker_new 2) \<lparr>rs_id = 0, rs_path = ''seg1''\<rparr>)
        \<lparr>rs_id = 1, rs_path = ''seg2''\<rparr>"
  have t: "?t = \<lparr>tk_next_id = 0, tk_max_open = 2, tk_opened =
      [(0, \<lparr>ts_path = ''seg1'', ts_access_count_last = 0, ts_state = OpenWrite\<rparr>),
       (1, \<lparr>ts_path = ''seg2'', ts_access_count_last = 0, ts_state = OpenRead\<rparr>)], tk_live = (\<lambda>_. 0)\<rparr>"
    by (simp add: open_with_def tracker_new_def save_access_count_def)
  have "write_ids ?t = {0}" "opened_ids ?t = {0, 1}" "hm_wf (tk_opened ?t)" "tk_max_open ?t = 2"
    unfolding t by (auto simp: write_ids_def opened_ids_def is_write_def hm_wf_def)
  with open_keeps_limit [of ?t OpenRead "\<lparr>rs_id = 2, rs_path = ''seg3''\<rparr>"] show ?thesis
    by (simp add: card_insert_if)
qed

end
