(* ===== verification/Exo_Segment.thy ===== *)
theory Exo_Segment
  imports Exo_Block_Facts Exo_Tracker
begin

text \<open>
  Segments of the chain, \<open>chain/src/chain/directory/segment.rs\<close>: a file that is mapped for
  writing or for reading (through the tracker), and the range of block offsets it stores.
  The contents of the file are part of the state; calls to the operating system succeed.
\<close>

section \<open>Errors and configuration\<close>

datatype chain_error =
    ChainBlock block_error
  | UnexpectedState
  | ChainIntegrity
  | InvalidNextBlock nat nat
  | ChainSerialization
  | OutOfBound
  | ChainIo
  | ChainDirectory
  | ChainPoisoned
  | ChainOther

fun chain_is_fatal :: "chain_error \<Rightarrow> bool" where
  "chain_is_fatal UnexpectedState = True"
| "chain_is_fatal ChainIntegrity = True"
| "chain_is_fatal ChainIo = True"
| "chain_is_fatal _ = False"

record dir_config =
  segment_over_allocate_size :: nat
  segment_max_size :: nat
  segment_max_open_mmap :: nat
  operation_index_max_memory_items :: nat

definition dir_config_default :: dir_config where
  "dir_config_default =
     \<lparr>segment_over_allocate_size = 20 * 1024 * 1024, segment_max_size = 200 * 1024 * 1024,
      segment_max_open_mmap = 20, operation_index_max_memory_items = 10000\<rparr>"

text \<open>The configuration read from a cell, in which both fields are optional.\<close>

definition dir_config_from :: "nat option \<Rightarrow> nat option \<Rightarrow> dir_config" where
  "dir_config_from proto_segment_max_size proto_segment_max_open_mmap =
     (let config = dir_config_default;
          config = (case proto_segment_max_size of
                      Some val \<Rightarrow> config\<lparr>segment_max_size := val\<rparr> | None \<Rightarrow> config) in
      case proto_segment_max_open_mmap of
        Some val \<Rightarrow> config\<lparr>segment_max_open_mmap := val\<rparr> | None \<Rightarrow> config)"

section \<open>Segment files\<close>

datatype seg_mmap = MmapWrite | MmapRead | MmapClosed

text \<open>
  \<open>sf_pinned\<close>: a block that was read from the file and is still held by a caller keeps the
  read mapping alive, whatever the tracker does.
\<close>

record segment_file =
  sf_path :: string
  sf_data :: bytes
  sf_mmap :: seg_mmap
  sf_current_size :: nat
  sf_registered :: registered_segment
  sf_pinned :: bool

type_synonym 'a file_op = "(tracker \<times> segment_file, chain_error, 'a) sop"

definition resize :: "nat \<Rightarrow> bytes \<Rightarrow> bytes" where
  "resize n d = take n d @ replicate (n - length d) 0"

definition sf_open :: "string \<Rightarrow> bytes \<Rightarrow> nat \<Rightarrow> tracker \<Rightarrow> tracker \<times> segment_file" where
  "sf_open path data minimum_size t =
     (let current_size = length data;
          (size', data') = (if current_size < minimum_size then (minimum_size, resize minimum_size data)
                            else (current_size, data));
          (t', registered) = register t path
      in (t', \<lparr>sf_path = path, sf_data = data', sf_mmap = MmapClosed, sf_current_size = size',
               sf_registered = registered, sf_pinned = False\<rparr>))"

text \<open>\<open>Weak::upgrade\<close> of a read mapping: the tracker or a block still holds it.\<close>

definition upgrade :: "tracker \<Rightarrow> segment_file \<Rightarrow> bool" where
  "upgrade t sf \<longleftrightarrow> sf_pinned sf \<or>
     (case map_of (tk_opened t) (rs_id (sf_registered sf)) of None \<Rightarrow> False | Some ts \<Rightarrow> ts_state ts = OpenRead)"

text \<open>\<open>Some ()\<close> is a read mapping, \<open>None\<close> a file mapped for writing.\<close>

definition maybe_mmap_read :: "unit option file_op" where
  "maybe_mmap_read s =
     (let (t, sf) = s; t1 = access t (sf_registered sf) in
      if sf_mmap sf = MmapRead \<and> upgrade t1 sf then (Ok (Some ()), (t1, sf))
      else if sf_mmap sf = MmapWrite then (Ok None, (t1, sf))
      else (Ok (Some ()), (open_read t1 (sf_registered sf), sf\<lparr>sf_mmap := MmapRead\<rparr>)))"

definition maybe_mmap_write :: "unit file_op" where
  "maybe_mmap_write s =
     (let (t, sf) = s; t1 = access t (sf_registered sf) in
      if sf_mmap sf = MmapWrite then (Ok (), (t1, sf))
      else let t2 = (if sf_mmap sf = MmapRead \<and> upgrade t1 sf then close_segment t1 (sf_registered sf) else t1) in
        if sf_mmap sf = MmapRead \<and> upgrade t2 sf then (Err UnexpectedState, (t2, sf))
        else (Ok (), (open_write t2 (sf_registered sf), sf\<lparr>sf_mmap := MmapWrite\<rparr>)))"

definition sf_close_write :: "segment_file \<Rightarrow> segment_file" where
  "sf_close_write sf = (if sf_mmap sf \<noteq> MmapWrite then sf else sf\<lparr>sf_mmap := MmapClosed\<rparr>)"

text \<open>A block read while the file is mapped for writing is copied out and read again.\<close>

definition copied_block :: "('c) codec_scheme \<Rightarrow> data_block \<Rightarrow> (chain_error, data_block) result" where
  "copied_block C b =
     map_err ChainBlock (and_then (as_data_vec b) (\<lambda>bytes. data_block_new C (BytesData bytes)))"

definition sf_get_block :: "('c) codec_scheme \<Rightarrow> nat \<Rightarrow> data_block file_op" where
  "sf_get_block C offset =
     sbind maybe_mmap_read (\<lambda>mmap_read (t, sf).
       case sf_mmap sf of
         MmapWrite \<Rightarrow>
           (and_then (slice (sf_data sf) offset (length (sf_data sf))) (\<lambda>d.
            and_then (map_err ChainBlock (data_block_new C (ref_data_new d))) (copied_block C)), (t, sf))
       | MmapRead \<Rightarrow>
           (if mmap_read = None then (Panic, (t, sf))
            else (and_then (data_view (mmap_data_from_mmap (sf_data sf) (sf_current_size sf))
                    (Included offset) Unbounded) (\<lambda>v. map_err ChainBlock (data_block_new C v)),
                  (t, sf\<lparr>sf_pinned := True\<rparr>)))
       | MmapClosed \<Rightarrow> (Err UnexpectedState, (t, sf)))"

definition sf_get_block_from_next :: "('c) codec_scheme \<Rightarrow> nat \<Rightarrow> data_block file_op" where
  "sf_get_block_from_next C next_off =
     sbind maybe_mmap_read (\<lambda>mmap_read (t, sf).
       case sf_mmap sf of
         MmapWrite \<Rightarrow>
           (and_then (map_err ChainBlock (data_block_new_from_next_offset C (ref_data_new (sf_data sf)) next_off))
              (copied_block C), (t, sf))
       | MmapRead \<Rightarrow>
           (if mmap_read = None then (Panic, (t, sf))
            else (map_err ChainBlock (data_block_new_from_next_offset C
                    (mmap_data_from_mmap (sf_data sf) (sf_current_size sf)) next_off),
                  (t, sf\<lparr>sf_pinned := True\<rparr>)))
       | MmapClosed \<Rightarrow> (Err UnexpectedState, (t, sf)))"

definition sf_write_block :: "nat \<Rightarrow> data_block \<Rightarrow> unit file_op" where
  "sf_write_block offset block =
     sbind maybe_mmap_write (\<lambda>_ (t, sf).
       if sf_mmap sf \<noteq> MmapWrite then (Err UnexpectedState, (t, sf))
       else if length (sf_data sf) < offset then (Panic, (t, sf))
       else case copy_data_into block (drop offset (sf_data sf)) of
         Ok d \<Rightarrow> (Ok (), (t, sf\<lparr>sf_data := take offset (sf_data sf) @ d\<rparr>))
       | _ \<Rightarrow> (Panic, (t, sf)))"

definition sf_set_len :: "nat \<Rightarrow> unit file_op" where
  "sf_set_len new_size =
     sbind maybe_mmap_write (\<lambda>_ (t, sf).
     sbind maybe_mmap_write (\<lambda>_ (t, sf). (Ok (), (t, sf\<lparr>sf_current_size := new_size\<rparr>)))
       (close_segment t (sf_registered sf),
        sf\<lparr>sf_mmap := MmapClosed, sf_data := resize new_size (sf_data sf)\<rparr>))"

section \<open>Scanning a segment file\<close>

lemma typed_capnp_new_frame: "typed_capnp_new dec f = Ok t \<Longrightarrow> tf_frame t = CapnpFrame f"
  by (cases "exposed_data f") (auto simp: typed_capnp_new_def result_simps)

lemma read_header_frame_size:
  assumes "read_header_frame C f = Ok h" and "whole_data_size (tf_frame h) = Ok n"
  shows "8 \<le> n"
proof -
  obtain g m where g: "sized_new f = Ok g" and m: "multihash_new g = Ok m"
    and h: "typed_capnp_new (dec_header C) m = Ok h"
    using assms(1) by (auto simp: read_header_frame_def result_simps)
  obtain k where "g = SizedFrame f 0 k" using g by (auto simp: sized_new_def result_simps)
  moreover have "m = MultihashFrame g" using m by (auto simp: multihash_new_def result_simps)
  ultimately show ?thesis
    using assms(2) typed_capnp_new_frame [OF h] by (auto simp: whole_data_size_def result_simps)
qed

lemma data_block_new_size:
  assumes "data_block_new C d = Ok b" and "total_size b = Ok n"
  shows "8 \<le> n"
proof -
  obtain f h where "read_header_frame C f = Ok h" "db_header b = h"
    using assms(1) by (auto simp: data_block_new_def result_simps Let_def split: if_splits)
  then show ?thesis
    using read_header_frame_size [of C f h] assms(2) by (auto simp: total_size_def result_simps)
qed

lemma sf_get_block_size:
  assumes "sf_get_block C off s = (Ok b, s')" and "total_size b = Ok n"
  shows "8 \<le> n"
proof -
  have "\<exists>d. data_block_new C d = Ok b"
    using assms(1)
    by (auto simp: sf_get_block_def sbind_def copied_block_def result_simps
        split: prod.splits result.splits seg_mmap.splits if_splits)
  then show ?thesis using data_block_new_size assms(2) by blast
qed

text \<open>
  What reading leaves of a file: its contents, its size and its registration, and that it is
  mapped for writing if it was.
\<close>

definition same_file :: "segment_file \<Rightarrow> segment_file \<Rightarrow> bool" where
  "same_file sf sf' \<longleftrightarrow>
     sf_path sf' = sf_path sf \<and> sf_data sf' = sf_data sf \<and> sf_current_size sf' = sf_current_size sf \<and>
     sf_registered sf' = sf_registered sf \<and> (sf_mmap sf = MmapWrite \<longrightarrow> sf_mmap sf' = MmapWrite)"

lemma same_file_refl [simp]: "same_file sf sf"
  by (simp add: same_file_def)

lemma same_file_trans: "same_file a b \<Longrightarrow> same_file b c \<Longrightarrow> same_file a c"
  by (simp add: same_file_def)

lemma maybe_mmap_read_same: "maybe_mmap_read (t, sf) = (r, (t', sf')) \<Longrightarrow> same_file sf sf'"
  by (auto simp: maybe_mmap_read_def Let_def same_file_def split: if_splits)

lemma maybe_mmap_write_same: "maybe_mmap_write (t, sf) = (r, (t', sf')) \<Longrightarrow> same_file sf sf'"
  by (auto simp: maybe_mmap_write_def Let_def same_file_def split: if_splits)

lemma sf_get_block_same:
  assumes "sf_get_block C off (t, sf) = (r, (t', sf'))"
  shows "same_file sf sf'"
  using assms maybe_mmap_read_same [of t sf]
  by (fastforce simp: sf_get_block_def sbind_def same_file_def
      split: prod.splits result.splits seg_mmap.splits if_splits)

lemma sf_get_block_progress:
  assumes "sf_get_block C off (t, sf) = (Ok b, (t', sf'))" and "total_size b = Ok n"
    and "\<not> sf_current_size sf \<le> off"
  shows "sf_current_size sf' - (off + n) < sf_current_size sf - off"
  using assms sf_get_block_size [OF assms(1,2)] sf_get_block_same [OF assms(1)]
  by (simp add: same_file_def)

lemma sf_get_block_from_next_same:
  assumes "sf_get_block_from_next C off (t, sf) = (r, (t', sf'))"
  shows "same_file sf sf'"
  using assms maybe_mmap_read_same [of t sf]
  by (fastforce simp: sf_get_block_from_next_def sbind_def same_file_def
      split: prod.splits result.splits seg_mmap.splits if_splits)

text \<open>
  \<open>SegmentBlockIterator\<close> driven to its end by \<open>last()\<close>: the last block before the end of the
  file or before the first read error.
\<close>

function sf_scan :: "('c) codec_scheme \<Rightarrow> nat \<Rightarrow> data_block option \<Rightarrow> data_block option file_op" where
  "sf_scan C current_offset last_block (t, sf) =
     (if current_offset \<ge> sf_current_size sf then (Ok last_block, (t, sf))
      else case sf_get_block C current_offset (t, sf) of
        (Ok block, (t', sf')) \<Rightarrow>
          (case total_size block of
             Ok n \<Rightarrow> sf_scan C (current_offset + n) (Some block) (t', sf')
           | _ \<Rightarrow> (Panic, (t', sf')))
      | (Err other, (t', sf')) \<Rightarrow> (Ok last_block, (t', sf'))
      | (Panic, (t', sf')) \<Rightarrow> (Panic, (t', sf')))"
  by pat_completeness auto
termination
  by (relation "measure (\<lambda>(C, off, b, (t, sf)). sf_current_size sf - off)")
    (auto intro: sf_get_block_progress [OF sym])

declare sf_scan.simps [simp del]

record segment_metadata =
  sm_filename :: string
  sm_first_block_offset :: nat
  sm_next_block_offset :: nat

definition from_segment_file :: "('c) codec_scheme \<Rightarrow> segment_metadata file_op" where
  "from_segment_file C =
     sbind (sf_get_block C 0) (\<lambda>first_block.
     sbind (sf_scan C 0 None) (\<lambda>last_opt.
     sbind (slift (ok_or ChainIntegrity last_opt)) (\<lambda>last_block.
     sbind (slift (map_err ChainBlock (total_size last_block))) (\<lambda>n (t, sf).
       (Ok \<lparr>sm_filename = sf_path sf, sm_first_block_offset = db_offset first_block,
            sm_next_block_offset = db_offset last_block + n\<rparr>, (t, sf))))))"

definition from_segment_file_path ::
  "('c) codec_scheme \<Rightarrow> string \<Rightarrow> bytes \<Rightarrow> tracker \<Rightarrow> (chain_error, segment_metadata) result \<times> tracker" where
  "from_segment_file_path C path data t =
     (let (r, (t', sf')) = from_segment_file C (sf_open path data 0 t) in (r, t'))"

section \<open>Segments\<close>

record segment =
  seg_file :: segment_file
  seg_first_block_offset :: nat
  seg_next_block_offset :: nat
  seg_next_file_offset :: nat

type_synonym 'a seg_op = "(tracker \<times> segment, chain_error, 'a) sop"

definition on_file :: "'a file_op \<Rightarrow> 'a seg_op" where
  "on_file m s =
     (let (t, seg) = s; (r, (t', sf')) = m (t, seg_file seg) in (r, (t', seg\<lparr>seg_file := sf'\<rparr>)))"

definition segment_path :: "nat \<Rightarrow> string" where
  "segment_path first_offset = ''seg_'' @ show_nat first_offset @ ''.bin''"

definition is_segment_file :: "string \<Rightarrow> bool" where
  "is_segment_file filename \<longleftrightarrow> take 4 filename = ''seg_''"

text \<open>\<open>files\<close> are the names of the files that exist in the directory.\<close>

definition segment_create ::
  "dir_config \<Rightarrow> string list \<Rightarrow> data_block \<Rightarrow> (tracker, chain_error, segment) sop" where
  "segment_create config files block t =
     (let first_block_offset = bh_offset (tf_reader (db_header block));
          path = segment_path first_block_offset in
      if path \<in> set files then (Err UnexpectedState, t)
      else case total_size block of
        Ok block_size \<Rightarrow>
          (let segment_alloc_size = max (segment_over_allocate_size config) block_size;
               (t1, sf) = sf_open path [] segment_alloc_size t in
           case sf_write_block 0 block (t1, sf) of
             (Ok _, (t2, sf2)) \<Rightarrow>
               (Ok \<lparr>seg_file = sf2, seg_first_block_offset = first_block_offset,
                    seg_next_block_offset = first_block_offset + block_size,
                    seg_next_file_offset = block_size\<rparr>, t2)
           | (Err e, (t2, sf2)) \<Rightarrow> (Err e, t2)
           | (Panic, (t2, sf2)) \<Rightarrow> (Panic, t2))
      | _ \<Rightarrow> (Panic, t))"

definition segment_open_with_metadata ::
  "string \<Rightarrow> bytes \<Rightarrow> segment_metadata \<Rightarrow> (tracker, chain_error, segment) sop" where
  "segment_open_with_metadata path data metadata t =
     (let (t1, sf) = sf_open path data 0 t in
      if sm_next_block_offset metadata < sm_first_block_offset metadata then (Panic, t1)
      else (Ok \<lparr>seg_file = sf, seg_first_block_offset = sm_first_block_offset metadata,
                seg_next_block_offset = sm_next_block_offset metadata,
                seg_next_file_offset = sm_next_block_offset metadata - sm_first_block_offset metadata\<rparr>, t1))"

definition segment_open ::
  "('c) codec_scheme \<Rightarrow> string \<Rightarrow> bytes \<Rightarrow> (tracker, chain_error, segment) sop" where
  "segment_open C path data =
     sbind (from_segment_file_path C path data) (segment_open_with_metadata path data)"

definition ensure_file_size :: "dir_config \<Rightarrow> nat \<Rightarrow> unit seg_op" where
  "ensure_file_size config write_size s =
     (let (t, seg) = s; next_file_offset = seg_next_file_offset seg in
      if sf_current_size (seg_file seg) < next_file_offset + write_size
      then on_file (sf_set_len (next_file_offset + write_size + segment_over_allocate_size config)) s
      else (Ok (), s))"

definition segment_write_block :: "dir_config \<Rightarrow> data_block \<Rightarrow> unit seg_op" where
  "segment_write_block config block s =
     (let (t, seg) = s; next_file_offset = seg_next_file_offset seg;
          next_block_offset = seg_next_block_offset seg in
      case total_size block of
        Ok block_size \<Rightarrow>
          (if next_block_offset \<noteq> db_offset block
           then (Err (InvalidNextBlock (db_offset block) next_block_offset), s)
           else sbind (ensure_file_size config block_size) (\<lambda>_.
                sbind (on_file (sf_write_block next_file_offset block)) (\<lambda>_ (t, seg).
                  (Ok (), (t, seg\<lparr>seg_next_file_offset := seg_next_file_offset seg + block_size,
                                  seg_next_block_offset := seg_next_block_offset seg + block_size\<rparr>)))) s)
      | _ \<Rightarrow> (Panic, s))"

definition segment_get_block :: "('c) codec_scheme \<Rightarrow> nat \<Rightarrow> data_block seg_op" where
  "segment_get_block C offset s =
     (let (t, seg) = s in
      if offset < seg_first_block_offset seg then (Err OutOfBound, s)
      else if offset \<ge> seg_next_block_offset seg then (Err OutOfBound, s)
      else on_file (sf_get_block C (offset - seg_first_block_offset seg)) s)"

definition segment_get_block_from_next_offset :: "('c) codec_scheme \<Rightarrow> nat \<Rightarrow> data_block seg_op" where
  "segment_get_block_from_next_offset C next_off s =
     (let (t, seg) = s in
      if next_off < seg_first_block_offset seg then (Err OutOfBound, s)
      else if next_off > seg_next_block_offset seg then (Err OutOfBound, s)
      else on_file (sf_get_block_from_next C (next_off - seg_first_block_offset seg)) s)"

text \<open>The file offset of the next write is not changed.\<close>

definition segment_truncate_from_block_offset :: "nat \<Rightarrow> unit seg_op" where
  "segment_truncate_from_block_offset block_offset s =
     (let (t, seg) = s in
      if block_offset < seg_first_block_offset seg then (Err OutOfBound, s)
      else on_file (sf_set_len (block_offset - seg_first_block_offset seg))
             (t, seg\<lparr>seg_next_block_offset := block_offset\<rparr>))"

definition segment_open_write :: "unit seg_op" where
  "segment_open_write = on_file maybe_mmap_write"

definition segment_close_write :: "segment \<Rightarrow> segment" where
  "segment_close_write seg = seg\<lparr>seg_file := sf_close_write (seg_file seg)\<rparr>"

definition seg_metadata :: "segment \<Rightarrow> segment_metadata" where
  "seg_metadata seg =
     \<lparr>sm_filename = sf_path (seg_file seg), sm_first_block_offset = seg_first_block_offset seg,
      sm_next_block_offset = seg_next_block_offset seg\<rparr>"

end
