(* ===== verification/Exo_Segment_Facts.thy ===== *)
theory Exo_Segment_Facts
  imports Exo_Segment
begin

text \<open>
  What a segment stores: consecutive blocks, then zeros up to the size of the file. Every
  operation keeps this, except truncation, which leaves the file offset of the next write
  where it was.
\<close>

section \<open>Consecutive blocks\<close>

definition chain_bytes :: "('c) codec_scheme \<Rightarrow> ablock list \<Rightarrow> bytes" where
  "chain_bytes C as = concat (map (block_bytes C) as)"

fun contiguous :: "('c) codec_scheme \<Rightarrow> nat \<Rightarrow> ablock list \<Rightarrow> bool" where
  "contiguous C off [] \<longleftrightarrow> True"
| "contiguous C off (a # as) \<longleftrightarrow>
     bh_offset (ab_header a) = off \<and> contiguous C (off + length (block_bytes C a)) as"

lemma chain_bytes_simps [simp]:
  "chain_bytes C [] = []" "chain_bytes C (a # as) = block_bytes C a @ chain_bytes C as"
  "chain_bytes C (xs @ ys) = chain_bytes C xs @ chain_bytes C ys"
  by (simp_all add: chain_bytes_def)

lemma contiguous_append [simp]:
  "contiguous C off (xs @ ys) \<longleftrightarrow>
     contiguous C off xs \<and> contiguous C (off + length (chain_bytes C xs)) ys"
  by (induction xs arbitrary: off) (auto simp: add.assoc)

lemma contiguous_nth:
  "contiguous C off as \<Longrightarrow> k < length as \<Longrightarrow>
     bh_offset (ab_header (as ! k)) = off + length (chain_bytes C (take k as))"
proof (induction as arbitrary: off k)
  case (Cons a as)
  then show ?case by (cases k) (auto simp: add.assoc)
qed simp

lemma chain_bytes_split:
  "k < length as \<Longrightarrow>
     chain_bytes C as = chain_bytes C (take k as) @ block_bytes C (as ! k) @ chain_bytes C (drop (Suc k) as)"
  by (metis append_Cons append_Nil chain_bytes_simps(2,3) id_take_nth_drop)

lemma chain_bytes_pos: "as \<noteq> [] \<Longrightarrow> 0 < length (chain_bytes C as)"
  using block_bytes_nonempty by (cases as) auto

section \<open>Files\<close>

lemma maybe_mmap_read_ok:
  obtains mr t' sf' where "maybe_mmap_read (t, sf) = (Ok mr, (t', sf'))" "same_file sf sf'"
    "sf_mmap sf' = MmapWrite \<and> mr = None \<or> sf_mmap sf' = MmapRead \<and> mr = Some ()"
proof -
  obtain r t' sf' where e: "maybe_mmap_read (t, sf) = (r, (t', sf'))" by (metis prod.exhaust)
  then have "\<exists>mr. r = Ok mr \<and> (sf_mmap sf' = MmapWrite \<and> mr = None \<or> sf_mmap sf' = MmapRead \<and> mr = Some ())"
    by (auto simp: maybe_mmap_read_def Let_def split: if_splits)
  with e maybe_mmap_read_same [OF e] that show thesis by blast
qed

text \<open>A file can be mapped for writing unless a caller still holds one of its blocks.\<close>

definition writable :: "segment_file \<Rightarrow> bool" where
  "writable sf \<longleftrightarrow> \<not> (sf_mmap sf = MmapRead \<and> sf_pinned sf)"

lemma maybe_mmap_write_ok:
  assumes "writable sf"
  obtains t' sf' where "maybe_mmap_write (t, sf) = (Ok (), (t', sf'))" "same_file sf sf'" "sf_mmap sf' = MmapWrite"
proof -
  have "\<not> upgrade (close_segment t1 (sf_registered sf)) sf" if "\<not> sf_pinned sf" for t1
    using that by (simp add: upgrade_def close_segment_def hm_remove_def map_of_filter_neq)
  moreover obtain r t' sf' where e: "maybe_mmap_write (t, sf) = (r, (t', sf'))" by (metis prod.exhaust)
  ultimately have "r = Ok () \<and> sf_mmap sf' = MmapWrite"
    using assms by (auto simp: maybe_mmap_write_def Let_def writable_def split: if_splits)
  with e maybe_mmap_write_same [OF e] that show thesis by blast
qed

lemma writable_mmap [simp]: "sf_mmap sf = MmapWrite \<Longrightarrow> writable sf"
  by (simp add: writable_def)

lemma sf_set_len_ok:
  assumes "writable sf"
  shows "\<exists>t' sf'. sf_set_len n (t, sf) = (Ok (), (t', sf')) \<and> sf_mmap sf' = MmapWrite
    \<and> sf_data sf' = resize n (sf_data sf) \<and> sf_current_size sf' = n \<and> sf_path sf' = sf_path sf"
proof -
  obtain t1 sf1 where 1: "maybe_mmap_write (t, sf) = (Ok (), (t1, sf1))" "same_file sf sf1"
    using maybe_mmap_write_ok [OF assms] by metis
  let ?sf = "sf1\<lparr>sf_mmap := MmapClosed, sf_data := resize n (sf_data sf1)\<rparr>"
  have "writable ?sf" by (simp add: writable_def)
  then obtain t2 sf2 where 2: "maybe_mmap_write (close_segment t1 (sf_registered sf1), ?sf) = (Ok (), (t2, sf2))"
      "same_file ?sf sf2" "sf_mmap sf2 = MmapWrite"
    using maybe_mmap_write_ok by metis
  with 1 show ?thesis by (simp add: sf_set_len_def same_file_def)
qed

lemma sf_write_block_ok:
  assumes "writable sf" and b: "block_is C b a" and len: "off + length (block_bytes C a) \<le> length (sf_data sf)"
  shows "\<exists>t' sf'. sf_write_block off b (t, sf) = (Ok (), (t', sf')) \<and> sf_mmap sf' = MmapWrite
    \<and> sf_data sf' = overwrite (sf_data sf) off (block_bytes C a)
    \<and> sf_current_size sf' = sf_current_size sf \<and> sf_path sf' = sf_path sf"
proof -
  obtain t1 sf1 where 1: "maybe_mmap_write (t, sf) = (Ok (), (t1, sf1))" "same_file sf sf1" "sf_mmap sf1 = MmapWrite"
    using maybe_mmap_write_ok [OF assms(1)] by metis
  have "copy_data_into b (drop off (sf_data sf)) =
      Ok (block_bytes C a @ drop (length (block_bytes C a)) (drop off (sf_data sf)))"
    by (rule copy_data_into_writes [OF b]) (use len in simp)
  with 1 len show ?thesis
    by (simp add: sf_write_block_def same_file_def overwrite_def add.commute)
qed

section \<open>Reading from a file\<close>

lemma copied_block_is:
  assumes "block_is C b a" and "ablock_wf C a"
  shows "\<exists>b'. copied_block C b = Ok b' \<and> block_is C b' a"
proof -
  obtain b' where "data_block_new C (BytesData (block_bytes C a)) = Ok b'" "block_is C b' a"
    using data_block_new_reads [OF assms(2), of "BytesData (block_bytes C a)" "[]"] by auto
  then show ?thesis by (simp add: copied_block_def block_is_as_data_vec [OF assms(1)])
qed

lemma sf_get_block_reads:
  assumes wf: "ablock_wf C a" and d: "sf_data sf = p @ block_bytes C a @ r"
    and n: "sf_current_size sf = length (sf_data sf)"
  shows "\<exists>b t' sf'. sf_get_block C (length p) (t, sf) = (Ok b, (t', sf')) \<and> block_is C b a \<and> same_file sf sf'"
proof -
  obtain mr t1 sf1 where 1: "maybe_mmap_read (t, sf) = (Ok mr, (t1, sf1))" "same_file sf sf1"
      "sf_mmap sf1 = MmapWrite \<and> mr = None \<or> sf_mmap sf1 = MmapRead \<and> mr = Some ()"
    by (rule maybe_mmap_read_ok)
  have d1: "sf_data sf1 = p @ block_bytes C a @ r" "sf_current_size sf1 = length (sf_data sf1)"
    using 1(2) d n by (simp_all add: same_file_def)
  obtain b where b: "data_block_new C (ref_data_new (block_bytes C a @ r)) = Ok b" "block_is C b a"
    using data_block_new_reads [OF wf ref_data_new_holds] by blast
  obtain b' where b': "copied_block C b = Ok b'" "block_is C b' a" using copied_block_is [OF b(2) wf] by blast
  have m: "src_holds (mmap_data_from_mmap (sf_data sf1) (sf_current_size sf1)) (p @ block_bytes C a @ r)"
    using d1 mmap_data_holds [of "sf_data sf1"] by simp
  obtain v where v: "data_view (mmap_data_from_mmap (sf_data sf1) (sf_current_size sf1)) (Included (length p)) Unbounded
      = (Ok v :: (chain_error, data_src) result)" "src_holds v (block_bytes C a @ r)"
    using src_holds_view_from [OF m, of "length p"] by auto
  obtain b2 where b2: "data_block_new C v = Ok b2" "block_is C b2 a"
    using data_block_new_reads [OF wf v(2)] by blast
  from 1(3) show ?thesis
  proof
    assume "sf_mmap sf1 = MmapWrite \<and> mr = None"
    then have "sf_get_block C (length p) (t, sf) = (Ok b', (t1, sf1))"
      using 1 d1 b b' by (simp add: sf_get_block_def)
    with b' 1(2) show ?thesis by blast
  next
    assume "sf_mmap sf1 = MmapRead \<and> mr = Some ()"
    then have "sf_get_block C (length p) (t, sf) = (Ok b2, (t1, sf1\<lparr>sf_pinned := True\<rparr>))"
      using 1 v(1) b2 by (simp add: sf_get_block_def)
    with b2 1(2) show ?thesis by (auto simp: same_file_def)
  qed
qed

lemma sf_get_block_from_next_reads:
  assumes wf: "ablock_wf C a" and d: "sf_data sf = p @ block_bytes C a @ r"
    and n: "sf_current_size sf = length (sf_data sf)" and off: "off = length p + length (block_bytes C a)"
  shows "\<exists>b t' sf'. sf_get_block_from_next C off (t, sf) = (Ok b, (t', sf')) \<and> block_is C b a \<and> same_file sf sf'"
proof -
  obtain mr t1 sf1 where 1: "maybe_mmap_read (t, sf) = (Ok mr, (t1, sf1))" "same_file sf sf1"
      "sf_mmap sf1 = MmapWrite \<and> mr = None \<or> sf_mmap sf1 = MmapRead \<and> mr = Some ()"
    by (rule maybe_mmap_read_ok)
  have d1: "sf_data sf1 = p @ block_bytes C a @ r" "sf_current_size sf1 = length (sf_data sf1)"
    using 1(2) d n by (simp_all add: same_file_def)
  obtain b where b: "data_block_new_from_next_offset C (ref_data_new (sf_data sf1)) off = Ok b" "block_is C b a"
    using data_block_before_reads [OF wf, of "ref_data_new (sf_data sf1)" p r off] d1 off by auto
  obtain b' where b': "copied_block C b = Ok b'" "block_is C b' a" using copied_block_is [OF b(2) wf] by blast
  have m: "src_holds (mmap_data_from_mmap (sf_data sf1) (sf_current_size sf1)) (p @ block_bytes C a @ r)"
    using d1 mmap_data_holds [of "sf_data sf1"] by simp
  obtain b2 where b2: "data_block_new_from_next_offset C (mmap_data_from_mmap (sf_data sf1) (sf_current_size sf1)) off = Ok b2"
      "block_is C b2 a"
    using data_block_before_reads [OF wf m off] by blast
  from 1(3) show ?thesis
  proof
    assume "sf_mmap sf1 = MmapWrite \<and> mr = None"
    then have "sf_get_block_from_next C off (t, sf) = (Ok b', (t1, sf1))"
      using 1 b b' by (simp add: sf_get_block_from_next_def)
    with b' 1(2) show ?thesis by blast
  next
    assume "sf_mmap sf1 = MmapRead \<and> mr = Some ()"
    then have "sf_get_block_from_next C off (t, sf) = (Ok b2, (t1, sf1\<lparr>sf_pinned := True\<rparr>))"
      using 1 b2 by (simp add: sf_get_block_from_next_def)
    with b2 1(2) show ?thesis by (auto simp: same_file_def)
  qed
qed

text \<open>Zeros are not a block: the header they announce is too small for its hash.\<close>

lemma read_u32_zeros: "read_u32 (0 # 0 # 0 # 0 # d) = Some 0"
  by simp

lemma zeros_header:
  assumes "(\<exists>n. d = replicate n 0) \<or> (\<exists>r. d = replicate 8 0 @ r)"
  shows "\<exists>e. read_header_frame C (RawFrame d) = Err e"
proof -
  consider "length d < 4" | "4 \<le> length d" "length d < 8" "\<exists>r. d = 0 # 0 # 0 # 0 # r"
    | "\<exists>r. d = 0 # 0 # 0 # 0 # 0 # 0 # 0 # 0 # r"
  proof -
    have "d = replicate n 0 \<Longrightarrow> 8 \<le> n \<Longrightarrow> \<exists>r. d = replicate 8 0 @ r" for n
      by (metis le_add_diff_inverse replicate_add)
    moreover have "d = replicate n 0 \<Longrightarrow> 4 \<le> n \<Longrightarrow> \<exists>r. d = replicate 4 0 @ r" for n
      by (metis le_add_diff_inverse replicate_add)
    ultimately show thesis
      using assms that by (fastforce simp: numeral_eq_Suc not_less_eq_eq)
  qed
  then show ?thesis
    by cases (auto simp: read_header_frame_def sized_new_def check_from_size_def multihash_new_def
        multihash_size_def slice_def)
qed

lemma zeros_block:
  assumes "(\<exists>n. b = replicate n 0) \<or> (\<exists>r. b = replicate 8 0 @ r)" and "src_holds d b"
  shows "\<exists>e. data_block_new C d = Err e"
  using zeros_header [OF assms(1), of C] assms(2) by (auto simp: data_block_new_def)

lemma sf_get_block_zeros:
  assumes z: "(\<exists>n. z = replicate n 0) \<or> (\<exists>r. z = replicate 8 0 @ r)" and d: "sf_data sf = p @ z"
    and n: "sf_current_size sf = length (sf_data sf)"
  shows "\<exists>e t' sf'. sf_get_block C (length p) (t, sf) = (Err e, (t', sf')) \<and> same_file sf sf'"
proof -
  obtain mr t1 sf1 where 1: "maybe_mmap_read (t, sf) = (Ok mr, (t1, sf1))" "same_file sf sf1"
      "sf_mmap sf1 = MmapWrite \<and> mr = None \<or> sf_mmap sf1 = MmapRead \<and> mr = Some ()"
    by (rule maybe_mmap_read_ok)
  have d1: "sf_data sf1 = p @ z" "sf_current_size sf1 = length (sf_data sf1)"
    using 1(2) d n by (simp_all add: same_file_def)
  obtain e where e: "data_block_new C (ref_data_new z) = Err e"
    using zeros_block [OF z ref_data_new_holds] by blast
  have m: "src_holds (mmap_data_from_mmap (sf_data sf1) (sf_current_size sf1)) (p @ z)"
    using d1 mmap_data_holds [of "sf_data sf1"] by simp
  obtain v where v: "data_view (mmap_data_from_mmap (sf_data sf1) (sf_current_size sf1)) (Included (length p)) Unbounded
      = (Ok v :: (chain_error, data_src) result)" "src_holds v z"
    using src_holds_view_from [OF m, of "length p"] by auto
  obtain e2 where e2: "data_block_new C v = Err e2"
    using zeros_block [OF z v(2)] by blast
  from 1(3) show ?thesis
  proof
    assume "sf_mmap sf1 = MmapWrite \<and> mr = None"
    then have "sf_get_block C (length p) (t, sf) = (Err (ChainBlock e), (t1, sf1))"
      using 1 d1 e by (simp add: sf_get_block_def)
    with 1(2) show ?thesis by blast
  next
    assume "sf_mmap sf1 = MmapRead \<and> mr = Some ()"
    then have "sf_get_block C (length p) (t, sf) = (Err (ChainBlock e2), (t1, sf1\<lparr>sf_pinned := True\<rparr>))"
      using 1 v(1) e2 by (simp add: sf_get_block_def)
    with 1(2) show ?thesis by (auto simp: same_file_def)
  qed
qed

section \<open>Segments\<close>

text \<open>
  The segment stores the blocks \<open>as\<close> and they can be read back; it holds them when in
  addition the next write goes right behind them.
\<close>

definition seg_stores :: "('c) codec_scheme \<Rightarrow> segment \<Rightarrow> ablock list \<Rightarrow> bool" where
  "seg_stores C seg as \<longleftrightarrow>
     as \<noteq> [] \<and> (\<forall>a \<in> set as. ablock_wf C a) \<and> contiguous C (seg_first_block_offset seg) as \<and>
     (\<exists>n. sf_data (seg_file seg) = chain_bytes C as @ replicate n 0) \<and>
     sf_current_size (seg_file seg) = length (sf_data (seg_file seg)) \<and>
     sf_path (seg_file seg) = segment_path (seg_first_block_offset seg) \<and>
     seg_next_block_offset seg = seg_first_block_offset seg + length (chain_bytes C as)"

definition seg_holds :: "('c) codec_scheme \<Rightarrow> segment \<Rightarrow> ablock list \<Rightarrow> bool" where
  "seg_holds C seg as \<longleftrightarrow> seg_stores C seg as \<and> seg_next_file_offset seg = length (chain_bytes C as)"

text \<open>What reading leaves of a segment.\<close>

definition same_segment :: "segment \<Rightarrow> segment \<Rightarrow> bool" where
  "same_segment s s' \<longleftrightarrow>
     same_file (seg_file s) (seg_file s') \<and> seg_first_block_offset s' = seg_first_block_offset s \<and>
     seg_next_block_offset s' = seg_next_block_offset s \<and> seg_next_file_offset s' = seg_next_file_offset s"

lemma same_segment_refl [simp]: "same_segment s s"
  by (simp add: same_segment_def)

lemma same_segment_trans: "same_segment a b \<Longrightarrow> same_segment b c \<Longrightarrow> same_segment a c"
  by (auto simp: same_segment_def intro: same_file_trans)

lemma seg_holds_same: "seg_holds C s as \<Longrightarrow> same_segment s s' \<Longrightarrow> seg_holds C s' as"
  by (simp add: seg_holds_def seg_stores_def same_segment_def same_file_def)

lemma seg_stores_same: "seg_stores C s as \<Longrightarrow> same_segment s s' \<Longrightarrow> seg_stores C s' as"
  by (simp add: seg_stores_def same_segment_def same_file_def)

lemma segment_get_block_reads:
  assumes s: "seg_stores C seg as" and k: "k < length as"
  shows "\<exists>b t' seg'. segment_get_block C (bh_offset (ab_header (as ! k))) (t, seg) = (Ok b, (t', seg'))
    \<and> block_is C b (as ! k) \<and> same_segment seg seg'"
proof -
  let ?p = "chain_bytes C (take k as)"
  have off: "bh_offset (ab_header (as ! k)) = seg_first_block_offset seg + length ?p"
    using s k contiguous_nth by (auto simp: seg_stores_def)
  obtain n where d: "sf_data (seg_file seg) =
      ?p @ block_bytes C (as ! k) @ chain_bytes C (drop (Suc k) as) @ replicate n 0"
    using s chain_bytes_split [OF k, of C] by (auto simp: seg_stores_def)
  have lt: "length ?p < length (chain_bytes C as)"
    using chain_bytes_split [OF k, of C] block_bytes_nonempty [of C "as ! k"] by simp
  obtain b t' sf' where "sf_get_block C (length ?p) (t, seg_file seg) = (Ok b, (t', sf'))"
      "block_is C b (as ! k)" "same_file (seg_file seg) sf'"
    using sf_get_block_reads [OF _ d] s k by (fastforce simp: seg_stores_def)
  with off lt s show ?thesis
    by (auto simp: segment_get_block_def on_file_def seg_stores_def same_segment_def)
qed

lemma segment_get_block_from_next_reads:
  assumes s: "seg_stores C seg as" and k: "k < length as"
  shows "\<exists>b t' seg'. segment_get_block_from_next_offset C
      (bh_offset (ab_header (as ! k)) + length (block_bytes C (as ! k))) (t, seg) = (Ok b, (t', seg'))
    \<and> block_is C b (as ! k) \<and> same_segment seg seg'"
proof -
  let ?p = "chain_bytes C (take k as)"
  have off: "bh_offset (ab_header (as ! k)) = seg_first_block_offset seg + length ?p"
    using s k contiguous_nth by (auto simp: seg_stores_def)
  obtain n where d: "sf_data (seg_file seg) =
      ?p @ block_bytes C (as ! k) @ chain_bytes C (drop (Suc k) as) @ replicate n 0"
    using s chain_bytes_split [OF k, of C] by (auto simp: seg_stores_def)
  have le: "length ?p + length (block_bytes C (as ! k)) \<le> length (chain_bytes C as)"
    using chain_bytes_split [OF k, of C] by simp
  obtain b t' sf' where "sf_get_block_from_next C (length ?p + length (block_bytes C (as ! k))) (t, seg_file seg) = (Ok b, (t', sf'))"
      "block_is C b (as ! k)" "same_file (seg_file seg) sf'"
    using sf_get_block_from_next_reads [OF _ d _ refl] s k by (fastforce simp: seg_stores_def)
  with off le s show ?thesis
    by (auto simp: segment_get_block_from_next_offset_def on_file_def seg_stores_def same_segment_def add.assoc)
qed

section \<open>Writing\<close>

lemma ensure_file_size_ok:
  assumes w: "writable (seg_file seg)" and d: "sf_data (seg_file seg) = p @ replicate n 0"
    and size: "sf_current_size (seg_file seg) = length (sf_data (seg_file seg))"
    and off: "length p \<le> seg_next_file_offset seg"
  shows "\<exists>t' seg' n'. ensure_file_size cfg k (t, seg) = (Ok (), (t', seg'))
    \<and> sf_data (seg_file seg') = p @ replicate n' 0 \<and> writable (seg_file seg')
    \<and> sf_current_size (seg_file seg') = length (sf_data (seg_file seg'))
    \<and> seg_next_file_offset seg + k \<le> length (sf_data (seg_file seg'))
    \<and> sf_path (seg_file seg') = sf_path (seg_file seg)
    \<and> seg_first_block_offset seg' = seg_first_block_offset seg
    \<and> seg_next_block_offset seg' = seg_next_block_offset seg
    \<and> seg_next_file_offset seg' = seg_next_file_offset seg"
proof (cases "sf_current_size (seg_file seg) < seg_next_file_offset seg + k")
  case True
  let ?n = "seg_next_file_offset seg + k + segment_over_allocate_size cfg"
  obtain t' sf' where s: "sf_set_len ?n (t, seg_file seg) = (Ok (), (t', sf'))" "sf_mmap sf' = MmapWrite"
      "sf_data sf' = resize ?n (sf_data (seg_file seg))" "sf_current_size sf' = ?n" "sf_path sf' = sf_path (seg_file seg)"
    using sf_set_len_ok [OF w] by blast
  have r: "resize ?n (p @ replicate n 0) = p @ replicate (?n - length p) 0"
    using True off d size by (simp add: resize_def flip: replicate_add)
  have "ensure_file_size cfg k (t, seg) = (Ok (), (t', seg\<lparr>seg_file := sf'\<rparr>))"
    using True s(1) by (simp add: ensure_file_size_def on_file_def)
  with s r d off True show ?thesis by auto
next
  case False
  with assms show ?thesis by (auto simp: ensure_file_size_def)
qed

lemma overwrite_zeros:
  "length p + length s \<le> length p + n \<Longrightarrow>
     overwrite (p @ replicate n 0) (length p) s = p @ s @ replicate (n - length s) 0"
  by (simp add: overwrite_def)

lemma segment_write_block_ok:
  assumes h: "seg_holds C seg as" and w: "writable (seg_file seg)" and b: "block_is C b a"
    and wf: "ablock_wf C a" and off: "bh_offset (ab_header a) = seg_next_block_offset seg"
  shows "\<exists>t' seg'. segment_write_block cfg b (t, seg) = (Ok (), (t', seg'))
    \<and> seg_holds C seg' (as @ [a]) \<and> sf_mmap (seg_file seg') = MmapWrite
    \<and> seg_first_block_offset seg' = seg_first_block_offset seg"
proof -
  let ?p = "chain_bytes C as" and ?k = "length (block_bytes C a)"
  obtain n where d: "sf_data (seg_file seg) = ?p @ replicate n 0"
    and size: "sf_current_size (seg_file seg) = length (sf_data (seg_file seg))"
    and nf: "seg_next_file_offset seg = length ?p"
    using h by (auto simp: seg_holds_def seg_stores_def)
  obtain t1 seg1 n1 where 1: "ensure_file_size cfg ?k (t, seg) = (Ok (), (t1, seg1))"
      "sf_data (seg_file seg1) = ?p @ replicate n1 0" "writable (seg_file seg1)"
      "sf_current_size (seg_file seg1) = length (sf_data (seg_file seg1))"
      "length ?p + ?k \<le> length (sf_data (seg_file seg1))" "sf_path (seg_file seg1) = sf_path (seg_file seg)"
      "seg_first_block_offset seg1 = seg_first_block_offset seg"
      "seg_next_block_offset seg1 = seg_next_block_offset seg" "seg_next_file_offset seg1 = seg_next_file_offset seg"
    using ensure_file_size_ok [OF w d size, of cfg ?k t] nf by auto
  obtain t2 sf2 where 2: "sf_write_block (length ?p) b (t1, seg_file seg1) = (Ok (), (t2, sf2))" "sf_mmap sf2 = MmapWrite"
      "sf_data sf2 = overwrite (sf_data (seg_file seg1)) (length ?p) (block_bytes C a)"
      "sf_current_size sf2 = sf_current_size (seg_file seg1)" "sf_path sf2 = sf_path (seg_file seg1)"
    using sf_write_block_ok [OF 1(3) b 1(5)] by blast
  let ?seg = "seg1\<lparr>seg_file := sf2, seg_next_file_offset := length ?p + ?k,
    seg_next_block_offset := seg_next_block_offset seg + ?k\<rparr>"
  have data: "sf_data sf2 = chain_bytes C (as @ [a]) @ replicate (n1 - ?k) 0"
    using 2(3) 1(2,5) overwrite_zeros [of ?p "block_bytes C a" n1] by simp
  have "segment_write_block cfg b (t, seg) = (Ok (), (t2, ?seg))"
    using 1 2 nf off by (simp add: segment_write_block_def on_file_def block_is_total_size [OF b] block_is_offset [OF b])
  moreover have "seg_holds C ?seg (as @ [a])"
    using h wf 1 2(4,5) data off by (auto simp: seg_holds_def seg_stores_def)
  ultimately show ?thesis using 1(7) 2(2) by auto
qed

text \<open>A block with another offset is refused and nothing changes.\<close>

lemma segment_write_block_refuses:
  assumes "block_is C b a" and "bh_offset (ab_header a) \<noteq> seg_next_block_offset seg"
  shows "segment_write_block cfg b (t, seg) =
    (Err (InvalidNextBlock (bh_offset (ab_header a)) (seg_next_block_offset seg)), (t, seg))"
  using assms by (simp add: segment_write_block_def block_simps)

lemma segment_create_ok:
  assumes b: "block_is C b a" and wf: "ablock_wf C a" and new: "segment_path (bh_offset (ab_header a)) \<notin> set files"
  shows "\<exists>t' seg. segment_create cfg files b t = (Ok seg, t') \<and> seg_holds C seg [a]
    \<and> seg_first_block_offset seg = bh_offset (ab_header a) \<and> writable (seg_file seg)"
proof -
  let ?k = "length (block_bytes C a)" and ?n = "max (segment_over_allocate_size cfg) (length (block_bytes C a))"
  obtain t1 sf where 1: "sf_open (segment_path (bh_offset (ab_header a))) [] ?n t = (t1, sf)" by (metis prod.exhaust)
  have pos: "0 < ?n" using block_bytes_nonempty [of C a] by (simp add: less_max_iff_disj)
  have sf: "sf_data sf = replicate ?n 0" "sf_mmap sf = MmapClosed" "sf_current_size sf = ?n"
      "sf_path sf = segment_path (bh_offset (ab_header a))"
    using 1 pos by (auto simp: sf_open_def resize_def Let_def split: prod.splits)
  obtain t2 sf2 where 2: "sf_write_block 0 b (t1, sf) = (Ok (), (t2, sf2))" "sf_mmap sf2 = MmapWrite"
      "sf_data sf2 = overwrite (sf_data sf) 0 (block_bytes C a)"
      "sf_current_size sf2 = sf_current_size sf" "sf_path sf2 = sf_path sf"
    using sf_write_block_ok [of sf C b a 0 t1] b sf by (auto simp: writable_def)
  have data: "sf_data sf2 = block_bytes C a @ replicate (?n - ?k) 0"
    using 2(3) sf(1) overwrite_zeros [of "[]" "block_bytes C a" ?n] by simp
  let ?seg = "\<lparr>seg_file = sf2, seg_first_block_offset = bh_offset (ab_header a),
    seg_next_block_offset = bh_offset (ab_header a) + ?k, seg_next_file_offset = ?k\<rparr> :: segment"
  have "segment_create cfg files b t = (Ok ?seg, t2)"
    using new 1 2(1) by (simp add: segment_create_def Let_def block_is_total_size [OF b] block_is_reader [OF b])
  moreover have "seg_holds C ?seg [a]"
    using wf 2(4,5) sf data by (auto simp: seg_holds_def seg_stores_def)
  ultimately show ?thesis using 2(2) by auto
qed

section \<open>Truncating\<close>

lemma segment_truncate_ok:
  assumes s: "seg_stores C seg (xs @ ys)" and w: "writable (seg_file seg)" and xs: "xs \<noteq> []"
    and off: "off = seg_first_block_offset seg + length (chain_bytes C xs)"
  shows "\<exists>t' seg'. segment_truncate_from_block_offset off (t, seg) = (Ok (), (t', seg'))
    \<and> seg_stores C seg' xs \<and> writable (seg_file seg') \<and> sf_data (seg_file seg') = chain_bytes C xs
    \<and> seg_first_block_offset seg' = seg_first_block_offset seg \<and> seg_next_block_offset seg' = off
    \<and> seg_next_file_offset seg' = seg_next_file_offset seg"
proof -
  let ?n = "length (chain_bytes C xs)"
  obtain t' sf' where 1: "sf_set_len ?n (t, seg_file seg) = (Ok (), (t', sf'))" "sf_mmap sf' = MmapWrite"
      "sf_data sf' = resize ?n (sf_data (seg_file seg))" "sf_current_size sf' = ?n" "sf_path sf' = sf_path (seg_file seg)"
    using sf_set_len_ok [OF w] by blast
  have d: "sf_data sf' = chain_bytes C xs"
    using s 1(3) by (auto simp: seg_stores_def resize_def)
  let ?seg = "seg\<lparr>seg_next_block_offset := off, seg_file := sf'\<rparr>"
  have "segment_truncate_from_block_offset off (t, seg) = (Ok (), (t', ?seg))"
    using 1(1) off by (simp add: segment_truncate_from_block_offset_def on_file_def)
  moreover have "seg_stores C ?seg xs"
    using s xs off 1 d by (auto simp: seg_stores_def intro!: exI [of _ 0])
  ultimately show ?thesis using 1(2) d by auto
qed

section \<open>Scanning\<close>

lemma sf_scan_finds:
  assumes wf: "\<forall>a \<in> set as. ablock_wf C a" and d: "sf_data sf = p @ chain_bytes C as @ replicate n 0"
    and size: "sf_current_size sf = length (sf_data sf)"
  shows "\<exists>r t' sf'. sf_scan C (length p) lb (t, sf) = (Ok r, (t', sf')) \<and> same_file sf sf'
    \<and> (if as = [] then r = lb else \<exists>b. r = Some b \<and> block_is C b (last as))"
  using assms
proof (induction as arbitrary: p lb t sf)
  case Nil
  show ?case
  proof (cases "n = 0")
    case True
    with Nil show ?thesis by (simp add: sf_scan.simps [of C "length p" lb t sf])
  next
    case False
    obtain e t' sf' where "sf_get_block C (length p) (t, sf) = (Err e, (t', sf'))" "same_file sf sf'"
      using sf_get_block_zeros [of "replicate n 0" sf p C t] Nil by auto
    with Nil False show ?thesis by (simp add: sf_scan.simps [of C "length p" lb t sf])
  qed
next
  case (Cons a as)
  obtain b t1 sf1 where 1: "sf_get_block C (length p) (t, sf) = (Ok b, (t1, sf1))" "block_is C b a" "same_file sf sf1"
    using sf_get_block_reads [of C a sf p "chain_bytes C as @ replicate n 0" t] Cons.prems by auto
  have ne: "\<not> sf_current_size sf \<le> length p"
    using Cons.prems block_bytes_nonempty [of C a] by simp
  have "sf_scan C (length p) lb (t, sf) = sf_scan C (length (p @ block_bytes C a)) (Some b) (t1, sf1)"
    using 1 ne by (simp add: sf_scan.simps [of C "length p" lb t sf] block_is_total_size [OF 1(2)])
  moreover have "\<exists>r t' sf'. sf_scan C (length (p @ block_bytes C a)) (Some b) (t1, sf1) = (Ok r, (t', sf'))
      \<and> same_file sf1 sf' \<and> (if as = [] then r = Some b else \<exists>b. r = Some b \<and> block_is C b (last as))"
    by (rule Cons.IH) (use Cons.prems 1(3) in \<open>simp_all add: same_file_def\<close>)
  ultimately show ?case using 1 by (auto intro: same_file_trans)
qed

end
