(* ===== verification/Exo_Segment_Props.thy ===== *)
theory Exo_Segment_Props
  imports Exo_Segment_Facts Exo_Block_Props
begin

text \<open>
  Properties of segments: what was written is read back, a segment that is opened again is the
  one that was written, and what a write after a truncation does.
\<close>

section \<open>Helpers\<close>

lemma from_segment_file_ok:
  assumes s: "seg_stores C seg as" and same: "same_file (seg_file seg) sf"
  shows "\<exists>t' sf'. from_segment_file C (t, sf) = (Ok (seg_metadata seg), (t', sf')) \<and> same_file sf sf'"
proof -
  obtain n where d: "sf_data sf = chain_bytes C as @ replicate n 0"
    and size: "sf_current_size sf = length (sf_data sf)"
    and path: "sf_path sf = sf_path (seg_file seg)"
    using s same by (auto simp: seg_stores_def same_file_def)
  obtain a as' where as: "as = a # as'" using s by (cases as) (auto simp: seg_stores_def)
  have wf: "\<forall>a \<in> set as. ablock_wf C a" using s by (simp add: seg_stores_def)
  obtain b t1 sf1 where 1: "sf_get_block C 0 (t, sf) = (Ok b, (t1, sf1))" "block_is C b a" "same_file sf sf1"
    using sf_get_block_reads [of C a sf "[]" "chain_bytes C as' @ replicate n 0" t] d size wf as by auto
  have d1: "sf_data sf1 = [] @ chain_bytes C as @ replicate n 0" "sf_current_size sf1 = length (sf_data sf1)"
    using d size 1(3) by (simp_all add: same_file_def)
  obtain l t2 sf2 where 2: "sf_scan C 0 None (t1, sf1) = (Ok (Some l), (t2, sf2))" "same_file sf1 sf2" "block_is C l (last as)"
    using sf_scan_finds [OF wf d1, of None t1] as by auto
  have "as \<noteq> []" using as by simp
  then have last: "bh_offset (ab_header (last as)) + length (block_bytes C (last as)) = seg_next_block_offset seg"
    using s contiguous_nth [of C "seg_first_block_offset seg" as "length as - 1"]
      chain_bytes_split [of "length as - 1" as C]
    by (auto simp: seg_stores_def last_conv_nth)
  have first: "bh_offset (ab_header a) = seg_first_block_offset seg"
    using s as by (simp add: seg_stores_def)
  have "from_segment_file C (t, sf) = (Ok (seg_metadata seg), (t2, sf2))"
    using 1 2 last first path
    by (simp add: from_segment_file_def block_is_total_size [OF 2(3)] block_is_offset [OF 2(3)]
        block_is_offset [OF 1(2)] seg_metadata_def same_file_def)
  then show ?thesis using 1(3) 2(2) same_file_trans by blast
qed

lemma block_bytes_8: "8 \<le> length (block_bytes C a)"
  using length_sigs_bytes [of C "ab_sigs a" "ab_pad a"] by (simp add: block_bytes_def)

text \<open>A segment with one block, and the block that follows it, for the examples.\<close>

lemma example_second_built:
  obtains b where "block_is example_codec b example_second" "ablock_wf example_codec example_second"
  using build_with_prev_info_is [OF example_second_buildable [unfolded example_second_def]]
  by (auto simp: example_second_def)

lemma example_offsets [simp]:
  "bh_offset (ab_header example_genesis) = 0"
  "bh_offset (ab_header example_second) = length (block_bytes example_codec example_genesis)"
  by (simp_all add: example_genesis_def example_second_def built_ablock_def built_header_def)

lemma example_segment:
  obtains seg where "seg_holds example_codec seg [example_genesis]" "writable (seg_file seg)"
    "seg_first_block_offset seg = 0"
proof -
  obtain b where "block_is example_codec b example_genesis" by (rule example_genesis_built)
  from segment_create_ok [OF this example_genesis_wf, of "[]" dir_config_default "tracker_new 2"] that
  show thesis by fastforce
qed

section \<open>Reading what was written\<close>

text \<open>
  A segment accepts exactly the block that starts at its next offset. After the write
  every stored block, the new one included, is read back at its offset and from its next
  offset, whichever way the file is mapped at that moment. Any other block is refused, and the
  segment is left as it was.
\<close>

lemma segment_write_then_read:
  assumes h: "seg_holds C seg as" and w: "writable (seg_file seg)" and b: "block_is C b a" and wf: "ablock_wf C a"
  shows "if bh_offset (ab_header a) = seg_next_block_offset seg
    then (\<exists>t1 seg1. segment_write_block cfg b (t, seg) = (Ok (), (t1, seg1)) \<and> seg_holds C seg1 (as @ [a])
      \<and> (\<forall>k < length (as @ [a]). \<forall>t2.
          (\<exists>x t3 seg3. segment_get_block C (bh_offset (ab_header ((as @ [a]) ! k))) (t2, seg1) = (Ok x, (t3, seg3))
            \<and> block_is C x ((as @ [a]) ! k) \<and> seg_holds C seg3 (as @ [a]))
        \<and> (\<exists>x t3 seg3. segment_get_block_from_next_offset C (bh_offset (ab_header ((as @ [a]) ! k))
              + length (block_bytes C ((as @ [a]) ! k))) (t2, seg1) = (Ok x, (t3, seg3))
            \<and> block_is C x ((as @ [a]) ! k) \<and> seg_holds C seg3 (as @ [a]))))
    else segment_write_block cfg b (t, seg) =
      (Err (InvalidNextBlock (bh_offset (ab_header a)) (seg_next_block_offset seg)), (t, seg))"
proof (cases "bh_offset (ab_header a) = seg_next_block_offset seg")
  case True
  obtain t1 seg1 where 1: "segment_write_block cfg b (t, seg) = (Ok (), (t1, seg1))" "seg_holds C seg1 (as @ [a])"
    using segment_write_block_ok [OF h w b wf True] by blast
  then have s: "seg_stores C seg1 (as @ [a])" by (simp add: seg_holds_def)
  have fwd: "\<exists>x t3 seg3. segment_get_block C (bh_offset (ab_header ((as @ [a]) ! k))) (t2, seg1) = (Ok x, (t3, seg3))
      \<and> block_is C x ((as @ [a]) ! k) \<and> seg_holds C seg3 (as @ [a])" if "k < length (as @ [a])" for k t2
    using segment_get_block_reads [OF s that, of t2] seg_holds_same [OF 1(2)] by blast
  have bwd: "\<exists>x t3 seg3. segment_get_block_from_next_offset C (bh_offset (ab_header ((as @ [a]) ! k))
        + length (block_bytes C ((as @ [a]) ! k))) (t2, seg1) = (Ok x, (t3, seg3))
      \<and> block_is C x ((as @ [a]) ! k) \<and> seg_holds C seg3 (as @ [a])" if "k < length (as @ [a])" for k t2
    using segment_get_block_from_next_reads [OF s that, of t2] seg_holds_same [OF 1(2)] by blast
  show ?thesis
    unfolding if_P [OF True]
    by (intro exI [of _ t1] exI [of _ seg1] conjI allI impI 1 fwd bwd)
next
  case False
  then show ?thesis using segment_write_block_refuses [OF b] by simp
qed

section \<open>Opening a segment again\<close>

text \<open>
  (C30) Opening the file of a segment without its metadata finds the blocks by scanning the file
  up to the preallocated zeros: the segment that is opened has the offsets of the one that was
  written, and holds the same blocks.
\<close>

theorem segment_reopen:
  assumes h: "seg_holds C seg as"
  shows "\<exists>t' seg'. segment_open C (sf_path (seg_file seg)) (sf_data (seg_file seg)) t = (Ok seg', t')
    \<and> seg_metadata seg' = seg_metadata seg \<and> seg_next_file_offset seg' = seg_next_file_offset seg
    \<and> seg_holds C seg' as"
proof -
  let ?path = "sf_path (seg_file seg)" and ?data = "sf_data (seg_file seg)"
  have s: "seg_stores C seg as" using h by (simp add: seg_holds_def)
  obtain t0 sf where 0: "sf_open ?path ?data 0 t = (t0, sf)" by (metis prod.exhaust)
  define seg0 where "seg0 = seg\<lparr>seg_file := sf\<rparr>"
  have sf: "sf_path sf = ?path" "sf_data sf = ?data" "sf_current_size sf = length ?data"
    using 0 by (auto simp: sf_open_def Let_def split: prod.splits)
  have s0: "seg_stores C seg0 as"
    using s sf by (simp add: seg_stores_def seg0_def)
  obtain t1 sf1 where "from_segment_file C (t0, sf) = (Ok (seg_metadata seg0), (t1, sf1))"
    using from_segment_file_ok [OF s0, of sf t0] by (auto simp: seg0_def)
  moreover have m: "seg_metadata seg0 = seg_metadata seg" using sf by (simp add: seg_metadata_def seg0_def)
  ultimately have 1: "from_segment_file_path C ?path ?data t = (Ok (seg_metadata seg), t1)"
    using 0 by (simp add: from_segment_file_path_def)
  obtain t2 sf2 where 2: "sf_open ?path ?data 0 t1 = (t2, sf2)" by (metis prod.exhaust)
  have sf2: "sf_path sf2 = ?path" "sf_data sf2 = ?data" "sf_current_size sf2 = length ?data"
    using 2 by (auto simp: sf_open_def Let_def split: prod.splits)
  have nb: "seg_next_block_offset seg = seg_first_block_offset seg + length (chain_bytes C as)"
      "seg_next_file_offset seg = length (chain_bytes C as)"
    using h by (simp_all add: seg_holds_def seg_stores_def)
  let ?seg = "seg\<lparr>seg_file := sf2\<rparr>"
  have "segment_open C ?path ?data t = (Ok ?seg, t2)"
    using 1 2 nb by (simp add: segment_open_def segment_open_with_metadata_def seg_metadata_def)
  moreover have "seg_holds C ?seg as" using h s sf2 by (auto simp: seg_holds_def seg_stores_def)
  ultimately show ?thesis using sf2 by (auto simp: seg_metadata_def)
qed

theorem segment_reopen_witness:
  "\<exists>(seg :: segment) t' seg'. segment_open example_codec (sf_path (seg_file seg)) (sf_data (seg_file seg)) (tracker_new 1) = (Ok seg', t')
    \<and> seg_holds example_codec seg' [example_genesis]"
proof -
  obtain seg where "seg_holds example_codec seg [example_genesis]" by (rule example_segment)
  from segment_reopen [OF this, of "tracker_new 1"] show ?thesis by blast
qed

section \<open>Writing after a truncation\<close>

text \<open>
  (C38) Truncating a segment inside its range keeps the file offset of the next write. The next
  block is accepted, but written behind the bytes that were cut off, so reading it back at its
  offset gives an error.
\<close>

theorem write_after_truncate_lost:
  assumes h: "seg_holds C seg (xs @ ys)" and w: "writable (seg_file seg)" and ne: "xs \<noteq> []" "ys \<noteq> []"
    and b: "block_is C b a" and off: "bh_offset (ab_header a) = seg_first_block_offset seg + length (chain_bytes C xs)"
  shows "\<exists>t1 seg1 t2 seg2 e t3 seg3.
    segment_truncate_from_block_offset (bh_offset (ab_header a)) (t, seg) = (Ok (), (t1, seg1))
    \<and> segment_write_block cfg b (t1, seg1) = (Ok (), (t2, seg2))
    \<and> segment_get_block C (bh_offset (ab_header a)) (t2, seg2) = (Err e, (t3, seg3))"
proof -
  let ?p = "chain_bytes C xs" and ?k = "length (block_bytes C a)" and ?m = "length (chain_bytes C ys)"
  have s: "seg_stores C seg (xs @ ys)" and nf: "seg_next_file_offset seg = length ?p + ?m"
    using h by (simp_all add: seg_holds_def)
  obtain t1 seg1 where 1: "segment_truncate_from_block_offset (bh_offset (ab_header a)) (t, seg) = (Ok (), (t1, seg1))"
      "seg_stores C seg1 xs" "writable (seg_file seg1)" "sf_data (seg_file seg1) = ?p @ replicate 0 0"
      "seg_first_block_offset seg1 = seg_first_block_offset seg" "seg_next_block_offset seg1 = bh_offset (ab_header a)"
      "seg_next_file_offset seg1 = length ?p + ?m"
    using segment_truncate_ok [OF s w ne(1) off, of t] nf by auto
  have size: "sf_current_size (seg_file seg1) = length (sf_data (seg_file seg1))"
    using 1(2) by (simp add: seg_stores_def)
  obtain t2 seg2 n where 2: "ensure_file_size cfg ?k (t1, seg1) = (Ok (), (t2, seg2))"
      "sf_data (seg_file seg2) = ?p @ replicate n 0" "writable (seg_file seg2)"
      "sf_current_size (seg_file seg2) = length (sf_data (seg_file seg2))"
      "length ?p + ?m + ?k \<le> length (sf_data (seg_file seg2))"
      "seg_first_block_offset seg2 = seg_first_block_offset seg1"
      "seg_next_block_offset seg2 = seg_next_block_offset seg1" "seg_next_file_offset seg2 = seg_next_file_offset seg1"
    using ensure_file_size_ok [OF 1(3,4) size, of cfg ?k t1] 1(7) by auto
  obtain t3 sf3 where 3: "sf_write_block (length ?p + ?m) b (t2, seg_file seg2) = (Ok (), (t3, sf3))"
      "sf_data sf3 = overwrite (sf_data (seg_file seg2)) (length ?p + ?m) (block_bytes C a)"
      "sf_current_size sf3 = sf_current_size (seg_file seg2)"
    using sf_write_block_ok [OF 2(3) b 2(5)] by blast
  let ?seg = "seg2\<lparr>seg_file := sf3, seg_next_file_offset := length ?p + ?m + ?k,
    seg_next_block_offset := bh_offset (ab_header a) + ?k\<rparr>"
  have wr: "segment_write_block cfg b (t1, seg1) = (Ok (), (t3, ?seg))"
    using 1 2 3 by (simp add: segment_write_block_def on_file_def block_is_total_size [OF b] block_is_offset [OF b])
  have m: "8 \<le> ?m" using ne(2) block_bytes_8 [of C "hd ys"] by (cases ys) auto
  obtain r where d: "sf_data sf3 = ?p @ replicate 8 0 @ r"
  proof -
    have "sf_data sf3 = ?p @ replicate ?m 0 @ block_bytes C a @ replicate (n - ?m - ?k) 0"
      using 3(2) 2(2,5) by (simp add: overwrite_def min_def)
    moreover have "replicate ?m (0 :: byte) = replicate 8 0 @ replicate (?m - 8) 0"
      using m by (simp flip: replicate_add)
    ultimately show thesis using that by simp
  qed
  have "sf_current_size sf3 = length (sf_data sf3)" using 3 2 by simp
  then obtain e t4 sf4 where 4: "sf_get_block C (length ?p) (t3, sf3) = (Err e, (t4, sf4))"
    using sf_get_block_zeros [of "replicate 8 0 @ r" sf3 ?p C t3] d by auto
  have k: "0 < ?k" by (rule block_bytes_nonempty)
  have "segment_get_block C (bh_offset (ab_header a)) (t3, ?seg) = (Err e, (t4, ?seg\<lparr>seg_file := sf4\<rparr>))"
    using 4 1 2 off k by (simp add: segment_get_block_def on_file_def)
  with 1(1) wr show ?thesis by blast
qed

theorem write_after_truncate_lost_witness:
  "\<exists>b t1 seg1 t2 seg2 e t3 seg3. segment_write_block dir_config_default b (t1, seg1) = (Ok (), (t2, seg2))
    \<and> segment_get_block example_codec (length (block_bytes example_codec example_genesis)) (t2, seg2) = (Err e, (t3, seg3))"
proof -
  obtain seg where seg: "seg_holds example_codec seg [example_genesis]" "writable (seg_file seg)"
      "seg_first_block_offset seg = 0"
    by (rule example_segment)
  obtain b where b: "block_is example_codec b example_second" "ablock_wf example_codec example_second"
    by (rule example_second_built)
  have n: "bh_offset (ab_header example_second) = seg_next_block_offset seg"
    using seg by (simp add: seg_holds_def seg_stores_def)
  obtain t1 :: tracker and seg1 where 1: "seg_holds example_codec seg1 ([example_genesis] @ [example_second])" "writable (seg_file seg1)"
      "seg_first_block_offset seg1 = 0"
    using segment_write_block_ok [OF seg(1,2) b n, of dir_config_default "tracker_new 2"] seg(3) by auto
  from write_after_truncate_lost [OF 1(1,2) _ _ b(1), where cfg = dir_config_default and t = t1] 1(3) show ?thesis by fastforce
qed

end
