(* ===== verification/Exo_Op_Index.thy ===== *)
theory Exo_Op_Index
  imports Exo_Segment Exo_Maps
begin

text \<open>
  The operation index, \<open>chain/src/chain/directory/operation_index.rs\<close>: which block stores an
  operation. The recent part is a map in memory, which is flushed to immutable index files
  of the \<open>extindex\<close> crate. That crate is a parameter: building a file from sorted entries,
  and finding a key in it.
\<close>

section \<open>State\<close>

record 'r ext_index =
  ix_build :: "(nat \<times> nat) list \<Rightarrow> 'r"
  ix_find :: "'r \<Rightarrow> nat \<Rightarrow> nat option"

text \<open>What the index relies on: a file built from sorted entries finds exactly those.\<close>

definition ext_index_ok :: "'r ext_index \<Rightarrow> bool" where
  "ext_index_ok E \<longleftrightarrow>
     (\<forall>es. sorted_wrt (<) (map fst es) \<longrightarrow> (\<forall>k. ix_find E (ix_build E es) k = map_of es k))"

record 'r stored_index =
  si_start :: nat
  si_end :: nat
  si_reader :: 'r

record index_file =
  if_offset_from :: nat
  if_offset_to :: nat
  if_file_name :: string

text \<open>\<open>oi_metadata\<close> and \<open>oi_files\<close> are the metadata file and the index files on disk.\<close>

record 'r op_index =
  oi_memory_offset_from :: nat
  oi_memory_index :: "(nat \<times> nat) list"
  oi_next_expected_offset :: nat
  oi_stored_indices :: "'r stored_index list"
  oi_metadata :: "index_file list"
  oi_files :: "(string \<times> 'r) list"

definition index_file_name :: "nat \<Rightarrow> string" where
  "index_file_name start = ''opsidx_'' @ show_nat start @ ''.bin''"

definition meta_of :: "'r stored_index \<Rightarrow> index_file" where
  "meta_of si = \<lparr>if_offset_from = si_start si, if_offset_to = si_end si,
     if_file_name = index_file_name (si_start si)\<rparr>"

definition write_metadata :: "'r op_index \<Rightarrow> 'r op_index" where
  "write_metadata ix =
     ix\<lparr>oi_metadata := map meta_of (oi_stored_indices ix)\<rparr>"

definition index_create :: "'r op_index" where
  "index_create = write_metadata
     \<lparr>oi_memory_offset_from = 0, oi_memory_index = [], oi_next_expected_offset = 0,
      oi_stored_indices = [], oi_metadata = [], oi_files = []\<rparr>"

fun open_stored :: "(string \<times> 'r) list \<Rightarrow> index_file list \<Rightarrow> (chain_error, 'r stored_index list) result" where
  "open_stored files [] = Ok []"
| "open_stored files (m # ms) =
     and_then (ok_or ChainDirectory (map_of files (if_file_name m))) (\<lambda>index_reader.
     and_then (open_stored files ms) (\<lambda>sis.
       Ok (\<lparr>si_start = if_offset_from m, si_end = if_offset_to m, si_reader = index_reader\<rparr> # sis)))"

definition last_end :: "'r stored_index list \<Rightarrow> nat" where
  "last_end sis = (if sis = [] then 0 else si_end (last sis))"

definition index_open ::
  "index_file list option \<Rightarrow> (string \<times> 'r) list \<Rightarrow> (chain_error, 'r op_index) result" where
  "index_open metadata_opt files =
     and_then (ok_or UnexpectedState metadata_opt) (\<lambda>metadata.
     and_then (open_stored files metadata) (\<lambda>stored_indices.
       let next_expected_offset = last_end stored_indices in
       Ok \<lparr>oi_memory_offset_from = next_expected_offset, oi_memory_index = [],
           oi_next_expected_offset = next_expected_offset, oi_stored_indices = stored_indices,
           oi_metadata = metadata, oi_files = files\<rparr>))"

section \<open>Operations\<close>

definition put_operation_block :: "nat \<Rightarrow> nat \<Rightarrow> 'r op_index \<Rightarrow> 'r op_index" where
  "put_operation_block operation_id block_offset ix =
     ix\<lparr>oi_memory_index := bt_insert operation_id block_offset (oi_memory_index ix)\<rparr>"

definition maybe_flush_to_disk :: "'r ext_index \<Rightarrow> dir_config \<Rightarrow> 'r op_index \<Rightarrow> 'r op_index" where
  "maybe_flush_to_disk E config ix =
     (if length (oi_memory_index ix) > operation_index_max_memory_items config then
        let from_offset = oi_memory_offset_from ix;
            to_offset = oi_next_expected_offset ix;
            reader = ix_build E (oi_memory_index ix);
            stored = \<lparr>si_start = from_offset, si_end = to_offset, si_reader = reader\<rparr>;
            ix1 = write_metadata (ix\<lparr>oi_files := hm_insert (index_file_name from_offset) reader (oi_files ix),
                                     oi_stored_indices := oi_stored_indices ix @ [stored]\<rparr>)
        in ix1\<lparr>oi_memory_offset_from := oi_next_expected_offset ix1, oi_memory_index := []\<rparr>
      else ix)"

definition index_block ::
  "('c) codec_scheme \<Rightarrow> 'r ext_index \<Rightarrow> dir_config \<Rightarrow> data_block \<Rightarrow> ('r op_index, chain_error, unit) sop" where
  "index_block C E config block ix =
     (if oi_next_expected_offset ix \<noteq> db_offset block then (Err ChainIntegrity, ix)
      else let ix1 = put_operation_block (get_proposed_operation_id block) (db_offset block) ix in
        case map_err ChainBlock (block_operation_frames C block) of
          Ok operations \<Rightarrow>
            (let ix2 = fold (\<lambda>operation. put_operation_block (op_get_id operation) (db_offset block)) operations ix1 in
             case map_err ChainBlock (next_offset block) of
               Ok n \<Rightarrow> (Ok (), maybe_flush_to_disk E config (ix2\<lparr>oi_next_expected_offset := n\<rparr>))
             | Err e \<Rightarrow> (Err e, ix2)
             | Panic \<Rightarrow> (Panic, ix2))
        | Err e \<Rightarrow> (Err e, ix1)
        | Panic \<Rightarrow> (Panic, ix1))"

fun find_stored :: "'r ext_index \<Rightarrow> 'r stored_index list \<Rightarrow> nat \<Rightarrow> nat option" where
  "find_stored E [] operation_id = None"
| "find_stored E (si # sis) operation_id =
     (case ix_find E (si_reader si) operation_id of
        Some off \<Rightarrow> Some off
      | None \<Rightarrow> find_stored E sis operation_id)"

definition get_operation_block :: "'r ext_index \<Rightarrow> 'r op_index \<Rightarrow> nat \<Rightarrow> nat option" where
  "get_operation_block E ix operation_id =
     (case map_of (oi_memory_index ix) operation_id of
        Some off \<Rightarrow> Some off
      | None \<Rightarrow> find_stored E (oi_stored_indices ix) operation_id)"

text \<open>The memory map is cleared in the first case only.\<close>

definition index_truncate_from_offset :: "nat \<Rightarrow> 'r op_index \<Rightarrow> 'r op_index" where
  "index_truncate_from_offset from_offset ix =
     write_metadata
       (if from_offset \<ge> oi_memory_offset_from ix then
          ix\<lparr>oi_memory_index := [], oi_next_expected_offset := oi_memory_offset_from ix\<rparr>
        else
          let removed = filter (\<lambda>si. si_end si \<ge> from_offset) (oi_stored_indices ix);
              kept = filter (\<lambda>si. \<not> si_end si \<ge> from_offset) (oi_stored_indices ix) in
          ix\<lparr>oi_files := fold (\<lambda>si. hm_remove (index_file_name (si_start si))) removed (oi_files ix),
             oi_stored_indices := kept,
             oi_next_expected_offset := last_end kept,
             oi_memory_offset_from := last_end kept\<rparr>)"

section \<open>What the index holds\<close>

text \<open>
  An indexed block: its offset, the offset that follows it, and the ids it is found under, its
  proposal first.
\<close>

type_synonym iblock = "nat \<times> nat \<times> nat list"

definition ids_of :: "iblock list \<Rightarrow> (nat \<times> nat) list" where
  "ids_of xs = concat (map (\<lambda>(off, n, ids). map (\<lambda>i. (i, off)) ids) xs)"

fun consecutive :: "nat \<Rightarrow> iblock list \<Rightarrow> bool" where
  "consecutive off [] \<longleftrightarrow> True"
| "consecutive off ((o', n, ids) # xs) \<longleftrightarrow> o' = off \<and> off < n \<and> consecutive n xs"

definition end_of :: "nat \<Rightarrow> iblock list \<Rightarrow> nat" where
  "end_of off xs = (if xs = [] then off else fst (snd (last xs)))"

definition stored_ok :: "'r ext_index \<Rightarrow> 'r stored_index \<Rightarrow> iblock list \<Rightarrow> bool" where
  "stored_ok E si p \<longleftrightarrow> p \<noteq> [] \<and> si_start si = fst (hd p) \<and> si_end si = end_of 0 p \<and>
     (\<forall>k. ix_find E (si_reader si) k = map_of (rev (ids_of p)) k)"

text \<open>The index holds the blocks \<open>concat ps\<close> in its files and \<open>mem\<close> in memory.\<close>

definition index_holds :: "'r ext_index \<Rightarrow> 'r op_index \<Rightarrow> iblock list list \<Rightarrow> iblock list \<Rightarrow> bool" where
  "index_holds E ix ps mem \<longleftrightarrow>
     list_all2 (stored_ok E) (oi_stored_indices ix) ps \<and>
     bt_wf (oi_memory_index ix) \<and> map_of (oi_memory_index ix) = map_of (rev (ids_of mem)) \<and>
     consecutive 0 (concat ps @ mem) \<and>
     oi_memory_offset_from ix = end_of 0 (concat ps) \<and>
     oi_next_expected_offset ix = end_of 0 (concat ps @ mem) \<and>
     oi_metadata ix = map meta_of (oi_stored_indices ix) \<and>
     (\<forall>si \<in> set (oi_stored_indices ix). map_of (oi_files ix) (index_file_name (si_start si)) = Some (si_reader si))"

lemma index_file_name_inject [simp]: "index_file_name m = index_file_name n \<longleftrightarrow> m = n"
  by (simp add: index_file_name_def)

lemma end_of_append [simp]: "end_of off (xs @ ys) = end_of (end_of off xs) ys"
  by (auto simp: end_of_def)

lemma end_of_simps [simp]:
  "end_of off [] = off" "end_of off [x] = fst (snd x)"
  by (auto simp: end_of_def)

lemma end_of_nonempty: "xs \<noteq> [] \<Longrightarrow> end_of off xs = end_of off' xs"
  by (simp add: end_of_def)

lemma end_of_Cons: "end_of off ((o', n, ids) # xs) = end_of n xs"
  by (simp add: end_of_def)

lemma consecutive_append [simp]:
  "consecutive off (xs @ ys) \<longleftrightarrow> consecutive off xs \<and> consecutive (end_of off xs) ys"
  by (induction off xs rule: consecutive.induct) (auto simp: end_of_Cons)

lemma consecutive_le: "consecutive off xs \<Longrightarrow> off \<le> end_of off xs"
  by (induction off xs rule: consecutive.induct) (auto simp: end_of_Cons)

lemma consecutive_hd: "consecutive off xs \<Longrightarrow> xs \<noteq> [] \<Longrightarrow> fst (hd xs) = off \<and> off < end_of off xs"
  using consecutive_le by (cases xs) (fastforce simp: end_of_Cons)+

text \<open>The parts of the index files start and end in increasing order.\<close>

lemma parts_bounds:
  assumes "consecutive off (concat ps)" and "[] \<notin> set ps"
  shows "\<forall>p \<in> set ps. off \<le> fst (hd p) \<and> fst (hd p) < end_of 0 p \<and> end_of 0 p \<le> end_of off (concat ps)"
  using assms
proof (induction ps arbitrary: off)
  case (Cons p ps)
  then have p: "p \<noteq> []" "consecutive off p" and c: "consecutive (end_of off p) (concat ps)" by auto
  have e: "end_of 0 p = end_of off p" using p(1) by (rule end_of_nonempty)
  have "\<forall>q \<in> set ps. end_of off p \<le> fst (hd q) \<and> fst (hd q) < end_of 0 q \<and> end_of 0 q \<le> end_of (end_of off p) (concat ps)"
    using Cons c by auto
  with consecutive_hd [OF p(2,1)] consecutive_le [OF c] e show ?case by fastforce
qed simp

lemma parts_sorted:
  assumes "consecutive off (concat ps)" and "[] \<notin> set ps"
  shows "sorted_wrt (<) (map (\<lambda>p. fst (hd p)) ps)" and "sorted (map (end_of 0) ps)"
proof -
  have "sorted_wrt (\<lambda>p q. fst (hd p) < fst (hd q) \<and> end_of 0 p \<le> end_of 0 q) ps"
    using assms
  proof (induction ps arbitrary: off)
    case (Cons p ps)
    then have p: "p \<noteq> []" "consecutive off p" and c: "consecutive (end_of off p) (concat ps)" and n: "[] \<notin> set ps"
      by auto
    have e: "end_of 0 p = end_of off p" using p(1) by (rule end_of_nonempty)
    show ?case
      using Cons.IH [OF c n] parts_bounds [OF c n] consecutive_hd [OF p(2,1)] e by fastforce
  qed simp
  then show "sorted_wrt (<) (map (\<lambda>p. fst (hd p)) ps)" "sorted (map (end_of 0) ps)"
    by (auto simp: sorted_wrt_map elim: sorted_wrt_mono_rel [rotated])
qed

section \<open>Indexing a block\<close>

lemma puts_memory:
  "fold (\<lambda>f. put_operation_block (g f) off) fs ix =
     ix\<lparr>oi_memory_index := fold (\<lambda>(k, v). bt_insert k v) (map (\<lambda>f. (g f, off)) fs) (oi_memory_index ix)\<rparr>"
  by (induction fs arbitrary: ix) (simp_all add: put_operation_block_def)

lemma ids_of_append: "ids_of (xs @ ys) = ids_of xs @ ids_of ys"
  by (simp add: ids_of_def)

lemma ids_of_single: "ids_of [(off, n, ids)] = map (\<lambda>i. (i, off)) ids"
  by (simp add: ids_of_def)

lemma index_holds_put:
  assumes "index_holds E ix ps mem" and "off = oi_next_expected_offset ix" and "off < n"
  shows "index_holds E (ix\<lparr>oi_memory_index := fold (\<lambda>(k, v). bt_insert k v) (map (\<lambda>i. (i, off)) ids) (oi_memory_index ix),
      oi_next_expected_offset := n\<rparr>) ps (mem @ [(off, n, ids)])"
  using assms bt.lookup_inserts [of "oi_memory_index ix" "map (\<lambda>i. (i, off)) ids"]
    bt.wf_inserts [of "oi_memory_index ix" "map (\<lambda>i. (i, off)) ids"]
  by (simp add: index_holds_def ids_of_append ids_of_single)

lemma stored_fresh:
  assumes h: "index_holds E ix ps mem" and si: "si \<in> set (oi_stored_indices ix)"
  shows "si_start si < oi_memory_offset_from ix"
proof -
  have all: "list_all2 (stored_ok E) (oi_stored_indices ix) ps" and c: "consecutive 0 (concat ps)"
    and m: "oi_memory_offset_from ix = end_of 0 (concat ps)"
    using h by (simp_all add: index_holds_def)
  then obtain p where p: "p \<in> set ps" "stored_ok E si p"
    using si by (metis in_set_conv_nth list_all2_conv_all_nth)
  have "[] \<notin> set ps" using all by (auto simp: list_all2_conv_all_nth in_set_conv_nth stored_ok_def)
  with parts_bounds [OF c] p m show ?thesis by (auto simp: stored_ok_def)
qed

lemma maybe_flush_holds:
  assumes E: "ext_index_ok E" and h: "index_holds E ix ps mem"
  shows "\<exists>ps' mem'. index_holds E (maybe_flush_to_disk E cfg ix) ps' mem' \<and> concat ps' @ mem' = concat ps @ mem"
proof (cases "length (oi_memory_index ix) > operation_index_max_memory_items cfg")
  case True
  then have "oi_memory_index ix \<noteq> []" by auto
  then have ne: "mem \<noteq> []" using h by (auto simp: index_holds_def ids_of_def)
  let ?si = "\<lparr>si_start = oi_memory_offset_from ix, si_end = oi_next_expected_offset ix,
    si_reader = ix_build E (oi_memory_index ix)\<rparr>"
  have "stored_ok E ?si mem"
    using h E ne consecutive_hd [of "end_of 0 (concat ps)" mem] end_of_nonempty [OF ne, of "end_of 0 (concat ps)" 0]
    by (auto simp: stored_ok_def index_holds_def ext_index_ok_def bt_wf_def)
  moreover have "si_start si \<noteq> oi_memory_offset_from ix" if "si \<in> set (oi_stored_indices ix)" for si
    using stored_fresh [OF h that] by simp
  ultimately have "index_holds E (maybe_flush_to_disk E cfg ix) (ps @ [mem]) []"
    using True h
    by (auto simp: index_holds_def maybe_flush_to_disk_def Let_def write_metadata_def list_all2_appendI
        hm_insert_lookup bt_wf_basics ids_of_def)
  then show ?thesis by (metis append_Nil2 concat.simps concat_append)
qed (use h in \<open>auto simp: maybe_flush_to_disk_def\<close>)

lemma index_block_ok:
  assumes E: "ext_index_ok E" and h: "index_holds E ix ps mem" and b: "block_is C b a"
    and ops: "block_operation_frames C b = Ok fs" and off: "bh_offset (ab_header a) = oi_next_expected_offset ix"
  shows "\<exists>ix' ps' mem'. index_block C E cfg b ix = (Ok (), ix') \<and> index_holds E ix' ps' mem'
    \<and> concat ps' @ mem' = concat ps @ mem @ [(bh_offset (ab_header a),
        bh_offset (ab_header a) + length (block_bytes C a), bh_proposed_operation_id (ab_header a) # map op_get_id fs)]"
proof -
  let ?off = "bh_offset (ab_header a)" and ?ids = "bh_proposed_operation_id (ab_header a) # map op_get_id fs"
  let ?n = "?off + length (block_bytes C a)"
  let ?ix = "ix\<lparr>oi_memory_index := fold (\<lambda>(k, v). bt_insert k v) (map (\<lambda>i. (i, ?off)) ?ids) (oi_memory_index ix),
      oi_next_expected_offset := ?n\<rparr>"
  have "index_holds E ?ix ps (mem @ [(?off, ?n, ?ids)])"
    by (rule index_holds_put [OF h off]) (use block_bytes_nonempty [of C a] in simp)
  then obtain ps' mem' where p: "index_holds E (maybe_flush_to_disk E cfg ?ix) ps' mem'"
      "concat ps' @ mem' = concat ps @ mem @ [(?off, ?n, ?ids)]"
    using maybe_flush_holds [OF E, of ?ix ps "mem @ [(?off, ?n, ?ids)]" cfg] by auto
  have "index_block C E cfg b ix = (Ok (), maybe_flush_to_disk E cfg ?ix)"
    using off ops b
    by (simp add: index_block_def Let_def block_simps puts_memory put_operation_block_def
        get_proposed_operation_id_def comp_def)
  with p show ?thesis by blast
qed

lemma index_block_refuses:
  assumes "block_is C b a" and "bh_offset (ab_header a) \<noteq> oi_next_expected_offset ix"
  shows "index_block C E cfg b ix = (Err ChainIntegrity, ix)"
  using assms by (simp add: index_block_def block_simps)

section \<open>Finding an operation\<close>

text \<open>No operation id occurs in two blocks.\<close>

definition unique_ids :: "iblock list \<Rightarrow> bool" where
  "unique_ids xs \<longleftrightarrow> (\<forall>k off off'. (k, off) \<in> set (ids_of xs) \<longrightarrow> (k, off') \<in> set (ids_of xs) \<longrightarrow> off = off')"

lemma map_of_rev_unique:
  assumes "\<And>off off'. (k, off) \<in> set es \<Longrightarrow> (k, off') \<in> set es \<Longrightarrow> off = off'"
  shows "map_of (rev es) k = Some off \<longleftrightarrow> (k, off) \<in> set es"
  using assms map_of_SomeD [of "rev es" k] weak_map_of_SomeI [of k off "rev es"] by fastforce

lemma map_of_rev_None: "map_of (rev es) k = None \<longleftrightarrow> (\<forall>off. (k, off) \<notin> set es)"
  by (force simp: map_of_eq_None_iff)

lemma ids_of_concat: "set (ids_of (concat ps)) = (\<Union>p \<in> set ps. set (ids_of p))"
  by (induction ps) (auto simp: ids_of_append ids_of_def)

lemma find_stored_iff:
  assumes "list_all2 (stored_ok E) sis ps" and "unique_ids (concat ps)"
  shows "find_stored E sis k = Some off \<longleftrightarrow> (k, off) \<in> set (ids_of (concat ps))"
  using assms
proof (induction sis ps rule: list_all2_induct)
  case (Cons si sis p ps)
  have u: "unique_ids (concat ps)" and up: "unique_ids p"
    using Cons.prems by (auto simp: unique_ids_def ids_of_append)
  have f: "ix_find E (si_reader si) k = map_of (rev (ids_of p)) k"
    using Cons.hyps(1) by (simp add: stored_ok_def)
  show ?case
  proof (cases "ix_find E (si_reader si) k")
    case None
    then have "(k, off') \<notin> set (ids_of p)" for off' using f by (simp add: map_of_rev_None)
    with None Cons.IH u show ?thesis by (simp add: ids_of_append)
  next
    case (Some off')
    then have "(k, off') \<in> set (ids_of p)" using f by (auto dest: map_of_SomeD)
    with Some Cons.prems show ?thesis by (auto simp: unique_ids_def ids_of_append)
  qed
qed (simp add: ids_of_def)

lemma get_operation_block_iff:
  assumes h: "index_holds E ix ps mem" and u: "unique_ids (concat ps @ mem)"
  shows "get_operation_block E ix k = Some off \<longleftrightarrow> (k, off) \<in> set (ids_of (concat ps @ mem))"
proof -
  have up: "unique_ids (concat ps)" using u by (auto simp: unique_ids_def ids_of_append)
  have m: "map_of (oi_memory_index ix) k = map_of (rev (ids_of mem)) k"
    and all: "list_all2 (stored_ok E) (oi_stored_indices ix) ps"
    using h by (simp_all add: index_holds_def)
  show ?thesis
  proof (cases "map_of (oi_memory_index ix) k")
    case None
    then have "(k, off') \<notin> set (ids_of mem)" for off' using m by (simp add: map_of_rev_None)
    with None find_stored_iff [OF all up] show ?thesis by (simp add: get_operation_block_def ids_of_append)
  next
    case (Some off')
    then have "(k, off') \<in> set (ids_of mem)" using m by (auto dest: map_of_SomeD)
    with Some u show ?thesis by (auto simp: get_operation_block_def unique_ids_def ids_of_append)
  qed
qed

section \<open>Opening and truncating\<close>

lemma open_stored_ok:
  assumes "\<forall>si \<in> set sis. map_of files (index_file_name (si_start si)) = Some (si_reader si)"
  shows "open_stored files (map meta_of sis) = Ok sis"
  using assms by (induction sis) (simp_all add: meta_of_def)

lemma last_end_parts:
  assumes "list_all2 (stored_ok E) sis ps"
  shows "last_end sis = end_of 0 (concat ps)"
  using assms
proof (induction sis ps rule: list_all2_induct)
  case (Cons si sis p ps)
  then show ?case
    using end_of_nonempty [of "concat ps" 0 "end_of 0 p"]
    by (cases ps) (auto simp: last_end_def stored_ok_def list_all2_Cons2)
qed (simp add: last_end_def)

lemma index_open_ok:
  assumes "index_holds E ix ps mem"
  shows "\<exists>ix'. index_open (Some (oi_metadata ix)) (oi_files ix) = Ok ix' \<and> index_holds E ix' ps []"
proof -
  have "open_stored (oi_files ix) (oi_metadata ix) = Ok (oi_stored_indices ix)"
    using assms open_stored_ok [of "oi_stored_indices ix" "oi_files ix"] by (simp add: index_holds_def)
  moreover have "last_end (oi_stored_indices ix) = end_of 0 (concat ps)"
    using assms last_end_parts by (auto simp: index_holds_def)
  ultimately show ?thesis
    using assms by (simp add: index_open_def Let_def index_holds_def bt_wf_basics ids_of_def)
qed

lemma index_create_holds: "index_holds E index_create [] []"
  by (simp add: index_holds_def index_create_def write_metadata_def bt_wf_basics ids_of_def)

lemma index_truncate_memory:
  assumes "index_holds E ix ps mem" and "oi_memory_offset_from ix \<le> off"
  shows "index_holds E (index_truncate_from_offset off ix) ps []"
  using assms
  by (simp add: index_holds_def index_truncate_from_offset_def write_metadata_def bt_wf_basics ids_of_def)

lemma filter_takeWhile_sorted:
  "sorted (map f xs) \<Longrightarrow> filter (\<lambda>x. f x < (n :: nat)) xs = takeWhile (\<lambda>x. f x < n) xs"
proof (induction xs)
  case (Cons x xs)
  then show ?case by (cases xs) (auto simp: filter_empty_conv)
qed simp

lemma map_of_removes:
  "map_of (fold (\<lambda>si. hm_remove (g si)) sis m) k = (if k \<in> g ` set sis then None else map_of m k)"
  by (induction sis arbitrary: m) (auto simp: hm_remove_def map_of_filter_neq)

lemma stored_filter:
  "list_all2 (stored_ok E) sis ps \<Longrightarrow>
     list_all2 (stored_ok E) (filter (\<lambda>si. \<not> off \<le> si_end si) sis) (filter (\<lambda>p. end_of 0 p < off) ps)"
  by (induction sis ps rule: list_all2_induct) (auto simp: stored_ok_def)

lemma stored_starts:
  assumes all: "list_all2 (stored_ok E) sis ps" and c: "consecutive 0 (concat ps)"
  shows "sorted (map (end_of 0) ps)" and "distinct (map si_start sis)"
proof -
  have ne: "[] \<notin> set ps" using all by (auto simp: list_all2_conv_all_nth in_set_conv_nth stored_ok_def)
  then show "sorted (map (end_of 0) ps)" by (rule parts_sorted [OF c])
  have "map si_start sis = map (\<lambda>p. fst (hd p)) ps"
    using all by (induction sis ps rule: list_all2_induct) (auto simp: stored_ok_def)
  with parts_sorted(1) [OF c ne] show "distinct (map si_start sis)"
    by (simp add: strict_sorted_iff)
qed

lemma index_truncate_files:
  assumes h: "index_holds E ix ps []" and off: "off < oi_memory_offset_from ix"
  shows "index_holds E (index_truncate_from_offset off ix) (takeWhile (\<lambda>p. end_of 0 p < off) ps) []"
proof -
  let ?sis = "oi_stored_indices ix" and ?K = "\<lambda>si. \<not> off \<le> si_end si"
  let ?ps = "filter (\<lambda>p. end_of 0 p < off) ps"
  have all: "list_all2 (stored_ok E) ?sis ps" and c: "consecutive 0 (concat ps)"
    and m: "oi_memory_index ix = []"
    and files: "\<forall>si \<in> set ?sis. map_of (oi_files ix) (index_file_name (si_start si)) = Some (si_reader si)"
    using h by (auto simp: index_holds_def ids_of_def)
  have eq: "?ps = takeWhile (\<lambda>p. end_of 0 p < off) ps"
    by (rule filter_takeWhile_sorted) (rule stored_starts [OF all c])
  have cp: "consecutive 0 (concat ?ps)"
    unfolding eq using c by (metis concat_append consecutive_append takeWhile_dropWhile_id)
  have kept: "map_of (fold (\<lambda>si. hm_remove (index_file_name (si_start si))) (filter (\<lambda>si. off \<le> si_end si) ?sis) (oi_files ix))
      (index_file_name (si_start si)) = Some (si_reader si)" if si: "si \<in> set (filter ?K ?sis)" for si
  proof -
    have "si_start si \<notin> si_start ` set (filter (\<lambda>si. off \<le> si_end si) ?sis)"
      using si stored_starts(2) [OF all c] by (auto simp: distinct_map inj_on_def)
    then show ?thesis using si files by (auto simp: map_of_removes)
  qed
  have "index_holds E (index_truncate_from_offset off ix) ?ps []"
    using off m stored_filter [OF all, of off] cp kept last_end_parts [OF stored_filter [OF all, of off]]
    by (simp add: index_holds_def index_truncate_from_offset_def write_metadata_def Let_def bt_wf_basics ids_of_def)
  then show ?thesis by (simp add: eq)
qed

end
