(* ===== verification/Exo_Index_Props.thy ===== *)
theory Exo_Index_Props
  imports Exo_Op_Index Exo_Block_Props
begin

text \<open>Properties of the operation index: what it finds, what survives opening it again, and truncation.\<close>

section \<open>Finding the block of an operation\<close>

definition block_ids :: "ablock \<Rightarrow> chain_operation list \<Rightarrow> nat list" where
  "block_ids a ms = bh_proposed_operation_id (ab_header a) # map co_operation_id ms"

definition iblock_of :: "('c) codec_scheme \<Rightarrow> ablock \<Rightarrow> chain_operation list \<Rightarrow> iblock" where
  "iblock_of C a ms = (bh_offset (ab_header a), bh_offset (ab_header a) + length (block_bytes C a), block_ids a ms)"

lemma index_block_adds:
  assumes E: "ext_index_ok E" and h: "index_holds E ix ps mem" and b: "block_is C b a" and m: "block_holds C a ms"
    and off: "bh_offset (ab_header a) = oi_next_expected_offset ix"
  shows "\<exists>ix' ps' mem'. index_block C E cfg b ix = (Ok (), ix') \<and> index_holds E ix' ps' mem'
    \<and> concat ps' @ mem' = concat ps @ mem @ [iblock_of C a ms]"
proof -
  obtain fs where fs: "block_operation_frames C b = Ok fs" "list_all2 (op_is C) fs ms"
    using block_operation_frames_is [OF block_is_reader [OF b] block_is_operations_data [OF b] m] by blast
  have "map op_get_id fs = map co_operation_id ms"
    using fs(2) by (induction rule: list_all2_induct) (simp_all add: op_is_def op_get_id_def)
  with index_block_ok [OF E h b fs(1) off, of cfg] show ?thesis by (simp add: iblock_of_def block_ids_def)
qed

text \<open>
  Indexing the next block succeeds, in memory or by flushing to a file, and the index then
  finds every operation it found before, and the proposal and every operation of the new block,
  at the offset of their block, and nothing else. A block with another offset is refused.
\<close>

lemma index_block_finds:
  assumes E: "ext_index_ok E" and h: "index_holds E ix ps mem" and b: "block_is C b a" and m: "block_holds C a ms"
    and u: "unique_ids (concat ps @ mem @ [iblock_of C a ms])"
  shows "if bh_offset (ab_header a) = oi_next_expected_offset ix
    then (\<exists>ix'. index_block C E cfg b ix = (Ok (), ix')
      \<and> oi_next_expected_offset ix' = bh_offset (ab_header a) + length (block_bytes C a)
      \<and> (\<forall>k off. get_operation_block E ix' k = Some off \<longleftrightarrow>
          get_operation_block E ix k = Some off \<or> off = bh_offset (ab_header a) \<and> k \<in> set (block_ids a ms)))
    else index_block C E cfg b ix = (Err ChainIntegrity, ix)"
proof (cases "bh_offset (ab_header a) = oi_next_expected_offset ix")
  case True
  obtain ix' ps' mem' where 1: "index_block C E cfg b ix = (Ok (), ix')" "index_holds E ix' ps' mem'"
      "concat ps' @ mem' = concat ps @ mem @ [iblock_of C a ms]"
    using index_block_adds [OF E h b m True] by blast
  have uo: "unique_ids (concat ps @ mem)" using u by (auto simp: unique_ids_def ids_of_append)
  have "get_operation_block E ix' k = Some off \<longleftrightarrow>
      get_operation_block E ix k = Some off \<or> off = bh_offset (ab_header a) \<and> k \<in> set (block_ids a ms)" for k off
    using get_operation_block_iff [OF 1(2)] 1(3) u get_operation_block_iff [OF h uo]
    by (auto simp: ids_of_append iblock_of_def ids_of_single)
  moreover have "oi_next_expected_offset ix' = end_of 0 (concat ps' @ mem')"
    using 1(2) by (simp add: index_holds_def)
  then have "oi_next_expected_offset ix' = bh_offset (ab_header a) + length (block_bytes C a)"
    unfolding 1(3) by (simp add: iblock_of_def)
  ultimately show ?thesis using 1(1) True by auto
next
  case False
  then show ?thesis using index_block_refuses [OF b] by simp
qed

definition example_ext :: "(nat \<times> nat) list ext_index" where
  "example_ext = \<lparr>ix_build = (\<lambda>es. es), ix_find = map_of\<rparr>"

lemma example_ext_ok [simp]: "ext_index_ok example_ext"
  by (simp add: ext_index_ok_def example_ext_def)

lemma example_genesis_ids: "block_ids example_genesis example_ops = [0, 3, 5]"
  by (simp add: block_ids_def example_genesis_def built_ablock_def built_header_def example_ops_def example_op_def)

lemma example_unique: "unique_ids ([] @ [iblock_of example_codec example_genesis example_ops])"
  by (auto simp: unique_ids_def iblock_of_def ids_of_single)

lemma example_offset_0: "bh_offset (ab_header example_genesis) = 0"
  by (simp add: example_genesis_def built_ablock_def built_header_def)

section \<open>Opening and truncating\<close>

text \<open>
  An index that is opened again from its files has lost exactly what was only in memory,
  and says so: it finds the operations of the flushed blocks, and the next block it expects is
  the first one it has lost.
\<close>

lemma index_reopen:
  assumes h: "index_holds E ix ps mem" and u: "unique_ids (concat ps @ mem)"
  shows "\<exists>ix'. index_open (Some (oi_metadata ix)) (oi_files ix) = Ok ix'
    \<and> oi_next_expected_offset ix' = oi_memory_offset_from ix
    \<and> (\<forall>k off. get_operation_block E ix' k = Some off \<longleftrightarrow> (k, off) \<in> set (ids_of (concat ps)))
    \<and> (\<forall>k off. get_operation_block E ix k = Some off \<longleftrightarrow>
        get_operation_block E ix' k = Some off \<or> (k, off) \<in> set (ids_of mem))"
proof -
  obtain ix' where 1: "index_open (Some (oi_metadata ix)) (oi_files ix) = Ok ix'" "index_holds E ix' ps []"
    using index_open_ok [OF h] by blast
  have "unique_ids (concat ps @ [])" using u by (auto simp: unique_ids_def ids_of_append)
  from get_operation_block_iff [OF 1(2) this] get_operation_block_iff [OF h u]
  have "\<forall>k off. get_operation_block E ix' k = Some off \<longleftrightarrow> (k, off) \<in> set (ids_of (concat ps))"
      "\<forall>k off. get_operation_block E ix k = Some off \<longleftrightarrow>
        get_operation_block E ix' k = Some off \<or> (k, off) \<in> set (ids_of mem)"
    by (simp_all add: ids_of_append)
  moreover have "oi_next_expected_offset ix' = oi_memory_offset_from ix"
    using 1(2) h by (simp add: index_holds_def)
  ultimately show ?thesis using 1(1) by blast
qed

text \<open>
  Truncating at or after the start of the memory part leaves the flushed blocks exactly;
  truncating before it, when nothing is in memory, leaves the flushed files that end before the
  offset. But when the memory part is not empty, its entries stay after such a truncation: an
  operation of a removed block is still found.
\<close>

lemma index_truncate:
  assumes h: "index_holds E ix ps mem"
  shows "(oi_memory_offset_from ix \<le> off \<longrightarrow> index_holds E (index_truncate_from_offset off ix) ps [])
    \<and> (off < oi_memory_offset_from ix \<and> mem = [] \<longrightarrow>
        index_holds E (index_truncate_from_offset off ix) (takeWhile (\<lambda>p. end_of 0 p < off) ps) [])
    \<and> (off < oi_memory_offset_from ix \<longrightarrow> (\<forall>k o'. map_of (oi_memory_index ix) k = Some o' \<longrightarrow>
        get_operation_block E (index_truncate_from_offset off ix) k = Some o'))"
proof (intro conjI impI allI)
  show "index_holds E (index_truncate_from_offset off ix) ps []" if "oi_memory_offset_from ix \<le> off"
    by (rule index_truncate_memory [OF h that])
  show "index_holds E (index_truncate_from_offset off ix) (takeWhile (\<lambda>p. end_of 0 p < off) ps) []"
    if "off < oi_memory_offset_from ix \<and> mem = []"
    using index_truncate_files h that by blast
  show "get_operation_block E (index_truncate_from_offset off ix) k = Some o'"
    if "off < oi_memory_offset_from ix" "map_of (oi_memory_index ix) k = Some o'" for k o'
    using that
    by (simp add: get_operation_block_def index_truncate_from_offset_def write_metadata_def Let_def)
qed

definition example_index :: "(nat \<times> nat) list op_index" where
  "example_index = write_metadata
     \<lparr>oi_memory_offset_from = 10, oi_memory_index = [(7, 10)], oi_next_expected_offset = 20,
      oi_stored_indices = [\<lparr>si_start = 0, si_end = 10, si_reader = [(4, 0)]\<rparr>], oi_metadata = [],
      oi_files = [(index_file_name 0, [(4, 0)])]\<rparr>"

end
