(* ===== verification/Exo_Directory.thy ===== *)
theory Exo_Directory
  imports Exo_Op_Index Exo_Segment_Facts
begin

text \<open>
  The directory chain store, \<open>chain/src/chain/directory/mod.rs\<close>, and the ranges of segments of
  \<open>chain/src/chain/mod.rs\<close>. Reading a block may map a segment and close others, so every
  operation returns the store after it. \<open>ds_index\<close> is \<open>None\<close> while an operation has taken the
  index out.
\<close>

section \<open>Segments of a chain\<close>

type_synonym segment_range = "nat \<times> nat"

definition filter_in_range :: "nat option \<Rightarrow> nat option \<Rightarrow> segment_range list \<Rightarrow> segment_range list" where
  "filter_in_range from to_opt segs =
     (let from_offset = (case from of None \<Rightarrow> 0 | Some n \<Rightarrow> n);
          to_offset = (case to_opt of None \<Rightarrow> 2 ^ 64 - 1 | Some n \<Rightarrow> n) in
      filter (\<lambda>seg. from_offset \<le> snd seg \<and> fst seg \<le> to_offset) segs)"

section \<open>State\<close>

record 'r dir_store =
  ds_config :: dir_config
  ds_segments :: "segment list"
  ds_tracker :: tracker
  ds_index :: "'r op_index option"
  ds_metadata :: "segment_metadata list"
  ds_files :: "string list"

type_synonym ('r, 'a) dir_op = "('r dir_store, chain_error, 'a) sop"

text \<open>An operation on one segment of the store.\<close>

definition on_segment :: "nat \<Rightarrow> 'a seg_op \<Rightarrow> ('r, 'a) dir_op" where
  "on_segment i m st =
     (if i < length (ds_segments st) then
        let (r, (t', seg')) = m (ds_tracker st, ds_segments st ! i) in
        (r, st\<lparr>ds_tracker := t', ds_segments := (ds_segments st)[i := seg']\<rparr>)
      else (Panic, st))"

definition dir_create :: "dir_config \<Rightarrow> string list \<Rightarrow> (chain_error, 'r dir_store) result" where
  "dir_create config paths =
     (if length paths > 0 then Err UnexpectedState
      else Ok \<lparr>ds_config = config, ds_segments = [], ds_tracker = tracker_new (segment_max_open_mmap config),
               ds_index = Some index_create, ds_metadata = [], ds_files = []\<rparr>)"

definition get_segment_index_for_block_offset :: "'r dir_store \<Rightarrow> nat \<Rightarrow> nat option" where
  "get_segment_index_for_block_offset st block_offset =
     (case binary_search_by
        (\<lambda>seg. if block_offset \<ge> seg_first_block_offset seg \<and> block_offset < seg_next_block_offset seg then Equal
               else if block_offset < seg_first_block_offset seg then Greater else Less) (ds_segments st) of
        Inr i \<Rightarrow> Some i | Inl _ \<Rightarrow> None)"

definition get_segment_index_for_next_block_offset :: "'r dir_store \<Rightarrow> nat \<Rightarrow> nat option" where
  "get_segment_index_for_next_block_offset st next_block_offset =
     (if next_block_offset > 0 then get_segment_index_for_block_offset st (next_block_offset - 1) else None)"

text \<open>The metadata of the last segment is left out, since it may still change.\<close>

definition save_metadata :: "'r dir_store \<Rightarrow> 'r dir_store" where
  "save_metadata st = st\<lparr>ds_metadata := butlast (map seg_metadata (ds_segments st))\<rparr>"

section \<open>Reading\<close>

definition dir_segments :: "'r dir_store \<Rightarrow> segment_range list" where
  "dir_segments st = map (\<lambda>s. (seg_first_block_offset s, seg_next_block_offset s)) (ds_segments st)"

definition dir_get_block :: "('c) codec_scheme \<Rightarrow> nat \<Rightarrow> ('r, data_block) dir_op" where
  "dir_get_block C offset st =
     (case get_segment_index_for_block_offset st offset of
        None \<Rightarrow> (Err OutOfBound, st)
      | Some i \<Rightarrow> on_segment i (segment_get_block C offset) st)"

definition dir_get_block_from_next_offset :: "('c) codec_scheme \<Rightarrow> nat \<Rightarrow> ('r, data_block) dir_op" where
  "dir_get_block_from_next_offset C next_off st =
     (case get_segment_index_for_next_block_offset st next_off of
        None \<Rightarrow> (Err OutOfBound, st)
      | Some i \<Rightarrow> on_segment i (segment_get_block_from_next_offset C next_off) st)"

definition dir_get_last_block :: "('c) codec_scheme \<Rightarrow> ('r, data_block option) dir_op" where
  "dir_get_last_block C st =
     (if ds_segments st = [] then (Ok None, st)
      else sbind (on_segment (length (ds_segments st) - 1)
             (segment_get_block_from_next_offset C (seg_next_block_offset (last (ds_segments st)))))
             (\<lambda>b. sreturn (Some b)) st)"

definition dir_get_block_by_operation_id ::
  "('c) codec_scheme \<Rightarrow> 'r ext_index \<Rightarrow> nat \<Rightarrow> ('r, data_block option) dir_op" where
  "dir_get_block_by_operation_id C E operation_id st =
     (case ds_index st of None \<Rightarrow> (Panic, st)
      | Some ix \<Rightarrow>
          (case get_operation_block E ix operation_id of
             Some block_offset \<Rightarrow> sbind (dir_get_block C block_offset) (\<lambda>b. sreturn (Some b)) st
           | None \<Rightarrow> (Ok None, st)))"

section \<open>Iterating\<close>

record dir_iter =
  it_current_offset :: nat
  it_current_segment :: "nat option"
  it_done :: bool

definition blocks_iter :: "nat \<Rightarrow> dir_iter" where
  "blocks_iter from_offset = \<lparr>it_current_offset = from_offset, it_current_segment = None, it_done = False\<rparr>"

definition blocks_iter_reverse :: "nat \<Rightarrow> dir_iter" where
  "blocks_iter_reverse from_next_offset =
     \<lparr>it_current_offset = from_next_offset, it_current_segment = None, it_done = False\<rparr>"

type_synonym 'r iter_step =
  "((chain_error, data_block) result) option \<times> dir_iter \<times> 'r dir_store"

definition iter_next :: "('c) codec_scheme \<Rightarrow> dir_iter \<Rightarrow> 'r dir_store \<Rightarrow> 'r iter_step" where
  "iter_next C it st =
     (if it_done it then (None, it, st)
      else
        let it1 = (case it_current_segment it of
              None \<Rightarrow> it\<lparr>it_current_segment := get_segment_index_for_block_offset st (it_current_offset it)\<rparr>
            | Some _ \<Rightarrow> it) in
        case it_current_segment it1 of
          None \<Rightarrow> (None, it1, st)
        | Some i \<Rightarrow>
            (case on_segment i (segment_get_block C (it_current_offset it)) st of
               (Ok block, st') \<Rightarrow>
                 (case map_err ChainBlock (total_size block) of
                    Ok data_size \<Rightarrow>
                      (let end_of_segment = it_current_offset it + data_size \<ge> seg_next_block_offset (ds_segments st' ! i);
                           it2 = (if end_of_segment then it1\<lparr>it_current_segment := None\<rparr> else it1)
                       in (Some (Ok block), it2\<lparr>it_current_offset := it_current_offset it + data_size\<rparr>, st'))
                  | Err e \<Rightarrow> (Some Panic, it1, st')
                  | Panic \<Rightarrow> (Some Panic, it1, st'))
             | (Err e, st') \<Rightarrow> (Some (Err e), it1, st')
             | (Panic, st') \<Rightarrow> (Some Panic, it1, st')))"

definition iter_next_reverse :: "('c) codec_scheme \<Rightarrow> dir_iter \<Rightarrow> 'r dir_store \<Rightarrow> 'r iter_step" where
  "iter_next_reverse C it st =
     (if it_done it then (None, it, st)
      else
        let it1 = (case it_current_segment it of
              None \<Rightarrow> it\<lparr>it_current_segment := get_segment_index_for_next_block_offset st (it_current_offset it)\<rparr>
            | Some _ \<Rightarrow> it) in
        case it_current_segment it1 of
          None \<Rightarrow> (None, it1, st)
        | Some i \<Rightarrow>
            (case on_segment i (segment_get_block_from_next_offset C (it_current_offset it)) st of
               (Ok block, st') \<Rightarrow>
                 (case map_err ChainBlock (total_size block) of
                    Ok data_size \<Rightarrow>
                      (let cur = it_current_offset it;
                           end_of_segment = data_size + 1 > cur
                             \<or> cur - data_size - 1 < seg_first_block_offset (ds_segments st' ! i);
                           it2 = (if end_of_segment then it1\<lparr>it_current_segment := None\<rparr> else it1);
                           it3 = (if data_size > cur then it2\<lparr>it_done := True\<rparr> else it2);
                           it4 = (if it_done it3 then it3 else it3\<lparr>it_current_offset := cur - data_size\<rparr>)
                       in (Some (Ok block), it4, st'))
                  | Err e \<Rightarrow> (Some Panic, it1, st')
                  | Panic \<Rightarrow> (Some Panic, it1, st'))
             | (Err e, st') \<Rightarrow> (Some (Err e), it1, st')
             | (Panic, st') \<Rightarrow> (Some Panic, it1, st')))"

text \<open>The end of the last segment, which bounds the iteration.\<close>

definition dir_end :: "'r dir_store \<Rightarrow> nat" where
  "dir_end st = foldr max (map seg_next_block_offset (ds_segments st)) 0"

lemma dir_end_ge: "i < length (ds_segments st) \<Longrightarrow> seg_next_block_offset (ds_segments st ! i) \<le> dir_end st"
proof -
  have "x \<in> set xs \<Longrightarrow> x \<le> foldr max xs 0" for x :: nat and xs
    by (induction xs) (auto simp: le_max_iff_disj)
  then show "i < length (ds_segments st) \<Longrightarrow> seg_next_block_offset (ds_segments st ! i) \<le> dir_end st"
    by (simp add: dir_end_def)
qed

text \<open>What reading leaves of a store.\<close>

definition same_store :: "'r dir_store \<Rightarrow> 'r dir_store \<Rightarrow> bool" where
  "same_store st st' \<longleftrightarrow>
     list_all2 same_segment (ds_segments st) (ds_segments st') \<and> ds_config st' = ds_config st \<and>
     ds_index st' = ds_index st \<and> ds_metadata st' = ds_metadata st \<and> ds_files st' = ds_files st"

lemma same_store_refl [simp]: "same_store st st"
  by (simp add: same_store_def list_all2_same)

lemma same_store_trans: "same_store a b \<Longrightarrow> same_store b c \<Longrightarrow> same_store a c"
  using list_all2_trans [of same_segment same_segment same_segment "ds_segments a" "ds_segments b" "ds_segments c"]
    same_segment_trans
  by (auto simp: same_store_def)

lemma segment_get_block_same:
  assumes "segment_get_block C off (t, seg) = (r, (t', seg'))"
  shows "same_segment seg seg'"
  using assms sf_get_block_same [of C "off - seg_first_block_offset seg" t "seg_file seg"]
  by (auto simp: segment_get_block_def on_file_def same_segment_def split: if_splits prod.splits)

lemma segment_get_block_from_next_same:
  assumes "segment_get_block_from_next_offset C off (t, seg) = (r, (t', seg'))"
  shows "same_segment seg seg'"
  using assms sf_get_block_from_next_same [of C "off - seg_first_block_offset seg" t "seg_file seg"]
  by (auto simp: segment_get_block_from_next_offset_def on_file_def same_segment_def split: if_splits prod.splits)

lemma on_segment_same:
  assumes "on_segment i m st = (r, st')"
    and "\<And>t seg r t' seg'. m (t, seg) = (r, (t', seg')) \<Longrightarrow> same_segment seg seg'"
  shows "same_store st st'"
proof (cases "i < length (ds_segments st)")
  case True
  obtain r' t' seg' where m: "m (ds_tracker st, ds_segments st ! i) = (r', (t', seg'))" by (metis prod.exhaust)
  have "list_all2 same_segment (ds_segments st) ((ds_segments st)[i := seg'])"
    using assms(2) [OF m] True by (auto simp: list_all2_conv_all_nth nth_list_update)
  with assms(1) True m show ?thesis by (auto simp: on_segment_def same_store_def)
qed (use assms(1) in \<open>auto simp: on_segment_def\<close>)

lemma on_segment_get_same:
  "on_segment i (segment_get_block C off) st = (r, st') \<Longrightarrow> same_store st st'"
  by (erule on_segment_same) (rule segment_get_block_same)

lemma on_segment_get_next_same:
  "on_segment i (segment_get_block_from_next_offset C off) st = (r, st') \<Longrightarrow> same_store st st'"
  by (erule on_segment_same) (rule segment_get_block_from_next_same)

lemma dir_end_same: "same_store st st' \<Longrightarrow> dir_end st' = dir_end st"
proof -
  assume "same_store st st'"
  then have "list_all2 same_segment (ds_segments st) (ds_segments st')" by (simp add: same_store_def)
  then have "map seg_next_block_offset (ds_segments st') = map seg_next_block_offset (ds_segments st)"
    by (induction rule: list_all2_induct) (auto simp: same_segment_def)
  then show ?thesis by (simp add: dir_end_def)
qed

lemma on_segment_get_progress:
  assumes "on_segment i (segment_get_block C off) st = (Ok b, st')" and "total_size b = Ok n"
  shows "off < dir_end st" and "8 \<le> n"
proof -
  obtain t' seg' where i: "i < length (ds_segments st)"
    and g: "segment_get_block C off (ds_tracker st, ds_segments st ! i) = (Ok b, (t', seg'))"
    using assms(1) by (auto simp: on_segment_def split: if_splits prod.splits)
  then have "off < seg_next_block_offset (ds_segments st ! i)"
    by (auto simp: segment_get_block_def split: if_splits)
  with dir_end_ge [OF i] show "off < dir_end st" by simp
  show "8 \<le> n"
    using g assms(2) sf_get_block_size
    by (fastforce simp: segment_get_block_def on_file_def split: if_splits prod.splits)
qed

lemma iter_next_progress:
  assumes "iter_next C it st = (Some (Ok b), it', st')"
  shows "it_current_offset it < dir_end st" and "it_current_offset it < it_current_offset it'"
    and "dir_end st' = dir_end st"
proof -
  obtain i n where g: "on_segment i (segment_get_block C (it_current_offset it)) st = (Ok b, st')"
    and n: "total_size b = Ok n" and it': "it_current_offset it' = it_current_offset it + n"
    using assms
    by (auto simp: iter_next_def Let_def result_simps split: if_splits option.splits prod.splits result.splits)
  note p = on_segment_get_progress [OF g n]
  show "it_current_offset it < dir_end st" "it_current_offset it < it_current_offset it'"
    using p it' by simp_all
  show "dir_end st' = dir_end st"
    by (rule dir_end_same [OF on_segment_get_same [OF g]])
qed

lemma iter_next_measure:
  assumes "(Some (Ok b), it', st') = iter_next C it st"
  shows "dir_end st' - it_current_offset it' < dir_end st - it_current_offset it"
  using iter_next_progress [OF assms [symmetric]] by simp

section \<open>Indexing the blocks of the store\<close>

text \<open>\<open>index_blocks\<close> over an iterator of the store.\<close>

function index_blocks ::
  "('c) codec_scheme \<Rightarrow> 'r ext_index \<Rightarrow> dir_iter \<Rightarrow> 'r op_index \<times> 'r dir_store
     \<Rightarrow> (chain_error, unit) result \<times> 'r op_index \<times> 'r dir_store" where
  "index_blocks C E it (ix, st) =
     (case iter_next C it st of
        (None, it', st') \<Rightarrow> (Ok (), ix, st')
      | (Some (Ok block), it', st') \<Rightarrow>
          (if db_offset block \<ge> oi_memory_offset_from ix then
             (case index_block C E (ds_config st) block ix of
                (Ok _, ix') \<Rightarrow> index_blocks C E it' (ix', st')
              | (Err e, ix') \<Rightarrow> (Err e, ix', st')
              | (Panic, ix') \<Rightarrow> (Panic, ix', st'))
           else index_blocks C E it' (ix, st'))
      | (Some (Err e), it', st') \<Rightarrow> (Err e, ix, st')
      | (Some Panic, it', st') \<Rightarrow> (Panic, ix, st'))"
  by pat_completeness auto
termination
  by (relation "measure (\<lambda>(C, E, it, (ix, st)). dir_end st - it_current_offset it)")
    (auto intro: iter_next_measure)

declare index_blocks.simps [simp del]

text \<open>A \<open>for\<close> loop that collects the blocks of an iterator up to its end or the first error.\<close>

function collect_blocks ::
  "('c) codec_scheme \<Rightarrow> dir_iter \<Rightarrow> 'r dir_store \<Rightarrow> (chain_error, data_block list) result \<times> 'r dir_store" where
  "collect_blocks C it st =
     (case iter_next C it st of
        (None, it', st') \<Rightarrow> (Ok [], st')
      | (Some (Ok block), it', st') \<Rightarrow>
          (case collect_blocks C it' st' of (r, st'') \<Rightarrow> (and_then r (\<lambda>bs. Ok (block # bs)), st''))
      | (Some (Err e), it', st') \<Rightarrow> (Err e, st')
      | (Some Panic, it', st') \<Rightarrow> (Panic, st'))"
  by pat_completeness auto
termination
  by (relation "measure (\<lambda>(C, it, st). dir_end st - it_current_offset it)")
    (auto intro: iter_next_measure)

declare collect_blocks.simps [simp del]

section \<open>Writing\<close>

definition dir_new_segment :: "data_block \<Rightarrow> ('r, unit) dir_op" where
  "dir_new_segment block st =
     (let st1 = (if ds_segments st = [] then st
                 else st\<lparr>ds_segments := butlast (ds_segments st) @ [segment_close_write (last (ds_segments st))]\<rparr>) in
      case segment_create (ds_config st1) (ds_files st1) block (ds_tracker st1) of
        (Ok segment, t1) \<Rightarrow>
          (let st2 = st1\<lparr>ds_files := ds_files st1 @ [sf_path (seg_file segment)]\<rparr> in
           case segment_open_write (t1, segment) of
             (Ok _, (t2, segment')) \<Rightarrow>
               (Ok (), save_metadata (st2\<lparr>ds_tracker := t2, ds_segments := ds_segments st2 @ [segment']\<rparr>))
           | (Err e, (t2, segment')) \<Rightarrow> (Err e, st2\<lparr>ds_tracker := t2\<rparr>)
           | (Panic, (t2, segment')) \<Rightarrow> (Panic, st2\<lparr>ds_tracker := t2\<rparr>))
      | (Err e, t1) \<Rightarrow> (Err e, st1\<lparr>ds_tracker := t1\<rparr>)
      | (Panic, t1) \<Rightarrow> (Panic, st1\<lparr>ds_tracker := t1\<rparr>))"

definition need_new_segment :: "'r dir_store \<Rightarrow> nat \<Rightarrow> bool" where
  "need_new_segment st block_size \<longleftrightarrow>
     ds_segments st = [] \<or>
     seg_next_file_offset (last (ds_segments st)) + block_size > segment_max_size (ds_config st)"

definition dir_write_block :: "('c) codec_scheme \<Rightarrow> 'r ext_index \<Rightarrow> data_block \<Rightarrow> ('r, nat) dir_op" where
  "dir_write_block C E block st =
     (case total_size block of
        Ok block_size \<Rightarrow>
          sbind (if need_new_segment st block_size then dir_new_segment block
                 else on_segment (length (ds_segments st) - 1) (segment_write_block (ds_config st) block))
            (\<lambda>_ st1.
               case ds_index st1 of
                 None \<Rightarrow> (Panic, st1)
               | Some ix \<Rightarrow>
                   (case index_block C E (ds_config st1) block ix of
                      (Ok _, ix') \<Rightarrow> (Ok (seg_next_block_offset (last (ds_segments st1))), st1\<lparr>ds_index := Some ix'\<rparr>)
                    | (Err e, ix') \<Rightarrow> (Err e, st1\<lparr>ds_index := Some ix'\<rparr>)
                    | (Panic, ix') \<Rightarrow> (Panic, st1\<lparr>ds_index := Some ix'\<rparr>))) st
      | _ \<Rightarrow> (Panic, st))"

section \<open>Truncating\<close>

text \<open>When indexing fails, the index that was taken out is not put back.\<close>

definition dir_reindex :: "('c) codec_scheme \<Rightarrow> 'r ext_index \<Rightarrow> 'r op_index \<Rightarrow> ('r, unit) dir_op" where
  "dir_reindex C E ix st =
     (case index_blocks C E (blocks_iter (oi_next_expected_offset ix)) (ix, st\<lparr>ds_index := None\<rparr>) of
        (Ok _, ix', st') \<Rightarrow> (Ok (), st'\<lparr>ds_index := Some ix'\<rparr>)
      | (Err e, ix', st') \<Rightarrow> (Err e, st')
      | (Panic, ix', st') \<Rightarrow> (Panic, st'))"

definition dir_truncate_from_offset :: "('c) codec_scheme \<Rightarrow> 'r ext_index \<Rightarrow> nat \<Rightarrow> ('r, unit) dir_op" where
  "dir_truncate_from_offset C E offset st =
     (case get_segment_index_for_block_offset st offset of
        None \<Rightarrow> (Err OutOfBound, st)
      | Some segment_index \<Rightarrow>
          sbind (if offset > seg_first_block_offset (ds_segments st ! segment_index)
                 then sbind (on_segment segment_index (segment_truncate_from_block_offset offset))
                        (\<lambda>_. sreturn (segment_index + 1))
                 else sreturn segment_index)
            (\<lambda>truncate_to st1.
               let removed_segments = drop truncate_to (ds_segments st1);
                   removed_paths = map (\<lambda>s. sf_path (seg_file s)) removed_segments;
                   st2 = save_metadata (st1\<lparr>ds_segments := take truncate_to (ds_segments st1),
                           ds_files := filter (\<lambda>f. f \<notin> set removed_paths) (ds_files st1)\<rparr>)
               in case ds_index st2 of
                    None \<Rightarrow> (Panic, st2)
                  | Some index \<Rightarrow> dir_reindex C E (index_truncate_from_offset offset index) st2) st)"

section \<open>Opening\<close>

text \<open>\<open>files\<close> is the listing of the directory, with the contents of its files.\<close>

fun open_segments ::
  "('c) codec_scheme \<Rightarrow> (string \<times> segment_metadata) list \<Rightarrow> (string \<times> bytes) list
     \<Rightarrow> (tracker, chain_error, segment list) sop" where
  "open_segments C metas [] = sreturn []"
| "open_segments C metas ((filename, data) # files) =
     (if is_segment_file filename then
        sbind (case map_of metas filename of
                 Some metadata \<Rightarrow> segment_open_with_metadata filename data metadata
               | None \<Rightarrow> segment_open C filename data) (\<lambda>segment.
        sbind (open_segments C metas files) (\<lambda>segments. sreturn (segment # segments)))
      else open_segments C metas files)"

definition dir_open ::
  "('c) codec_scheme \<Rightarrow> 'r ext_index \<Rightarrow> dir_config \<Rightarrow> (string \<times> bytes) list \<Rightarrow> segment_metadata list option
     \<Rightarrow> index_file list option \<Rightarrow> (string \<times> 'r) list \<Rightarrow> (chain_error, 'r dir_store) result" where
  "dir_open C E config files metadata_opt index_metadata index_files =
     (let metas = fold (\<lambda>m. hm_insert (sm_filename m) m) (case metadata_opt of None \<Rightarrow> [] | Some ms \<Rightarrow> ms) [];
          (r, t1) = open_segments C metas files (tracker_new (segment_max_open_mmap config)) in
      and_then r (\<lambda>unsorted.
        let segments = sort_key seg_first_block_offset unsorted;
            store = \<lparr>ds_config = config, ds_segments = segments, ds_tracker = t1, ds_index = None,
                     ds_metadata = (case metadata_opt of None \<Rightarrow> [] | Some ms \<Rightarrow> ms),
                     ds_files = map fst (filter (\<lambda>f. is_segment_file (fst f)) files)\<rparr>;
            (r2, store2) = (if segments = [] then (Ok (), store)
                            else on_segment (length segments - 1) segment_open_write store) in
        and_then r2 (\<lambda>_.
        and_then (index_open index_metadata index_files) (\<lambda>operation_index.
          let (r3, store3) = dir_reindex C E operation_index store2 in
          and_then r3 (\<lambda>_. Ok (save_metadata store3))))))"

end
