(* ===== verification/Exo_Directory_Facts.thy ===== *)
theory Exo_Directory_Facts
  imports Exo_Directory Exo_Index_Props
begin

text \<open>
  The directory store as a list of blocks: the segments partition the chain, and the index holds
  its operations. Finding a segment, reading, iterating and writing agree with that list.
\<close>

section \<open>The segments of a chain\<close>

definition segs_store :: "('c) codec_scheme \<Rightarrow> segment list \<Rightarrow> ablock list list \<Rightarrow> bool" where
  "segs_store C segs bss \<longleftrightarrow> list_all2 (seg_stores C) segs bss \<and> contiguous C 0 (concat bss)"

definition span_of :: "('c) codec_scheme \<Rightarrow> ablock list \<Rightarrow> nat" where
  "span_of C as = length (chain_bytes C as)"

lemma span_of_simps [simp]:
  "span_of C [] = 0" "span_of C (a # as) = length (block_bytes C a) + span_of C as"
  "span_of C (xs @ ys) = span_of C xs + span_of C ys"
  by (simp_all add: span_of_def)

lemma concat_split: "i < length bss \<Longrightarrow> concat bss = concat (take i bss) @ bss ! i @ concat (drop (Suc i) bss)"
  by (metis concat.simps(2) concat_append id_take_nth_drop)

lemma segs_store_nth:
  assumes s: "segs_store C segs bss" and i: "i < length segs"
  shows "seg_stores C (segs ! i) (bss ! i)" and "seg_first_block_offset (segs ! i) = span_of C (concat (take i bss))"
    and "seg_next_block_offset (segs ! i) = span_of C (concat (take (Suc i) bss))" and "i < length bss"
proof -
  show st: "seg_stores C (segs ! i) (bss ! i)" and ib: "i < length bss"
    using s i by (auto simp: segs_store_def list_all2_conv_all_nth)
  have c: "contiguous C (span_of C (concat (take i bss))) (bss ! i)"
    using s concat_split [OF ib] by (simp add: segs_store_def span_of_def)
  with st show f: "seg_first_block_offset (segs ! i) = span_of C (concat (take i bss))"
    by (cases "bss ! i") (auto simp: seg_stores_def)
  have "concat (take (Suc i) bss) = concat (take i bss) @ bss ! i"
    using ib by (simp add: take_Suc_conv_app_nth)
  with st f show "seg_next_block_offset (segs ! i) = span_of C (concat (take (Suc i) bss))"
    by (simp add: seg_stores_def span_of_def)
qed

lemma span_of_take_mono: "i \<le> j \<Longrightarrow> span_of C (concat (take i bss)) \<le> span_of C (concat (take j bss))"
  by (metis concat_append le_add1 span_of_simps(3) le_add_diff_inverse take_add)

lemma segs_range:
  assumes s: "segs_store C segs bss" and i: "i < length segs" and j: "j < length segs"
  shows "seg_first_block_offset (segs ! i) < seg_next_block_offset (segs ! i)"
    and "i < j \<Longrightarrow> seg_next_block_offset (segs ! i) \<le> seg_first_block_offset (segs ! j)"
proof -
  have "bss ! i \<noteq> []" using segs_store_nth(1) [OF s i] by (simp add: seg_stores_def)
  then show "seg_first_block_offset (segs ! i) < seg_next_block_offset (segs ! i)"
    using segs_store_nth(1) [OF s i] chain_bytes_pos [of "bss ! i" C] by (simp add: seg_stores_def)
  show "seg_next_block_offset (segs ! i) \<le> seg_first_block_offset (segs ! j)" if "i < j"
    using segs_store_nth [OF s i] segs_store_nth [OF s j] span_of_take_mono [of "Suc i" j] that by simp
qed

lemma segment_index_iff:
  assumes s: "segs_store C (ds_segments st) bss"
  shows "get_segment_index_for_block_offset st off = Some i \<longleftrightarrow>
    i < length (ds_segments st) \<and> seg_first_block_offset (ds_segments st ! i) \<le> off
      \<and> off < seg_next_block_offset (ds_segments st ! i)"
proof -
  let ?segs = "ds_segments st"
  let ?c = "\<lambda>seg :: segment. if off \<ge> seg_first_block_offset seg \<and> off < seg_next_block_offset seg then Equal
               else if off < seg_first_block_offset seg then Greater else Less"
  have ord: "search_ordered ?c ?segs"
    unfolding search_ordered_def
  proof (intro allI impI)
    fix a b assume ab: "a \<le> b" "b < length ?segs"
    have "a = b \<or> seg_next_block_offset (?segs ! a) \<le> seg_first_block_offset (?segs ! b)"
      using segs_range(2) [OF s, of a b] ab by (cases "a = b") auto
    with segs_range(1) [OF s, of a b] segs_range(1) [OF s, of b a] ab
    show "(?c (?segs ! b) = Less \<longrightarrow> ?c (?segs ! a) = Less) \<and> (?c (?segs ! a) = Greater \<longrightarrow> ?c (?segs ! b) = Greater)"
      by (auto split: if_splits)
  qed
  show ?thesis
  proof
    assume "get_segment_index_for_block_offset st off = Some i"
    then have "binary_search_by ?c ?segs = Inr i"
      by (auto simp: get_segment_index_for_block_offset_def split: sum.splits)
    from binary_search_Inr [OF this] show "i < length ?segs \<and> seg_first_block_offset (?segs ! i) \<le> off
        \<and> off < seg_next_block_offset (?segs ! i)"
      by (auto split: if_splits)
  next
    assume i: "i < length ?segs \<and> seg_first_block_offset (?segs ! i) \<le> off \<and> off < seg_next_block_offset (?segs ! i)"
    then obtain j where j: "binary_search_by ?c ?segs = Inr j"
      using binary_search_finds [OF ord, of i] by auto
    from binary_search_Inr [OF j] have "j < length ?segs" "seg_first_block_offset (?segs ! j) \<le> off"
        "off < seg_next_block_offset (?segs ! j)"
      by (auto split: if_splits)
    then have "i = j"
      using i segs_range(2) [OF s, of i j] segs_range(2) [OF s, of j i] by (cases i j rule: linorder_cases) auto
    with j show "get_segment_index_for_block_offset st off = Some i"
      by (simp add: get_segment_index_for_block_offset_def)
  qed
qed

section \<open>Reading\<close>

lemma concat_nth_ex:
  "k < length (concat bss) \<Longrightarrow>
     \<exists>i j. i < length bss \<and> j < length (bss ! i) \<and> concat bss ! k = bss ! i ! j
       \<and> take k (concat bss) = concat (take i bss) @ take j (bss ! i)"
proof (induction bss arbitrary: k)
  case (Cons bs bss)
  show ?case
  proof (cases "k < length bs")
    case True
    then show ?thesis by (intro exI [of _ 0] exI [of _ k]) (simp add: nth_append)
  next
    case False
    then have "k - length bs < length (concat bss)" using Cons.prems by auto
    then obtain i j where "i < length bss" "j < length (bss ! i)" "concat bss ! (k - length bs) = bss ! i ! j"
        "take (k - length bs) (concat bss) = concat (take i bss) @ take j (bss ! i)"
      using Cons.IH by blast
    with False show ?thesis by (intro exI [of _ "Suc i"] exI [of _ j]) (simp add: nth_append)
  qed
qed simp

text \<open>The segment that stores the \<open>k\<close>-th block.\<close>

lemma block_segment:
  assumes s: "segs_store C segs bss" and k: "k < length (concat bss)"
  shows "\<exists>i j. i < length segs \<and> j < length (bss ! i) \<and> concat bss ! k = bss ! i ! j \<and> seg_stores C (segs ! i) (bss ! i)
    \<and> bh_offset (ab_header (concat bss ! k)) = span_of C (take k (concat bss))
    \<and> seg_first_block_offset (segs ! i) \<le> span_of C (take k (concat bss))
    \<and> span_of C (take (Suc k) (concat bss)) = span_of C (take k (concat bss)) + length (block_bytes C (concat bss ! k))
    \<and> span_of C (take (Suc k) (concat bss)) \<le> seg_next_block_offset (segs ! i)"
proof -
  obtain i j where ij: "i < length bss" "j < length (bss ! i)" "concat bss ! k = bss ! i ! j"
      "take k (concat bss) = concat (take i bss) @ take j (bss ! i)"
    using concat_nth_ex [OF k] by blast
  have i: "i < length segs" using s ij(1) by (auto simp: segs_store_def dest: list_all2_lengthD)
  note seg = segs_store_nth [OF s i]
  have off: "bh_offset (ab_header (concat bss ! k)) = span_of C (take k (concat bss))"
    using contiguous_nth [of C 0 "concat bss" k] s k by (simp add: segs_store_def span_of_def)
  have suc: "span_of C (take (Suc k) (concat bss)) = span_of C (take k (concat bss)) + length (block_bytes C (concat bss ! k))"
    using k by (simp add: take_Suc_conv_app_nth)
  have "take j (bss ! i) @ [bss ! i ! j] @ drop (Suc j) (bss ! i) = bss ! i"
    using ij(2) by (simp add: Cons_nth_drop_Suc)
  from arg_cong [OF this, of "span_of C"]
  have "span_of C (take j (bss ! i)) + length (block_bytes C (bss ! i ! j)) \<le> span_of C (bss ! i)" by simp
  moreover have "seg_next_block_offset (segs ! i) = seg_first_block_offset (segs ! i) + span_of C (bss ! i)"
    using seg(1) by (simp add: seg_stores_def span_of_def)
  ultimately have "span_of C (take (Suc k) (concat bss)) \<le> seg_next_block_offset (segs ! i)"
    using suc ij(3,4) seg(2) by simp
  moreover have "seg_first_block_offset (segs ! i) \<le> span_of C (take k (concat bss))"
    using seg(2) ij(4) by simp
  ultimately show ?thesis using i ij(2,3) seg(1) off suc by blast
qed

lemma on_segment_ok:
  assumes "i < length (ds_segments st)" and "\<And>t. \<exists>b t' seg'. m (t, ds_segments st ! i) = (Ok b, (t', seg')) \<and> P b \<and> same_segment (ds_segments st ! i) seg'"
  shows "\<exists>b st'. on_segment i m st = (Ok b, st') \<and> P b \<and> same_store st st'"
proof -
  obtain b t' seg' where m: "m (ds_tracker st, ds_segments st ! i) = (Ok b, (t', seg'))" "P b" "same_segment (ds_segments st ! i) seg'"
    using assms(2) by blast
  have "list_all2 same_segment (ds_segments st) ((ds_segments st)[i := seg'])"
    using m(3) assms(1) by (auto simp: list_all2_conv_all_nth nth_list_update)
  with m assms(1) show ?thesis by (simp add: on_segment_def same_store_def)
qed

lemma segs_store_same:
  assumes "segs_store C (ds_segments st) bss" and "same_store st st'"
  shows "segs_store C (ds_segments st') bss"
proof -
  have a: "list_all2 (seg_stores C) (ds_segments st) bss" and b: "list_all2 same_segment (ds_segments st) (ds_segments st')"
    using assms by (simp_all add: segs_store_def same_store_def)
  have "list_all2 (seg_stores C) (ds_segments st') bss"
    using a b seg_stores_same by (fastforce simp: list_all2_conv_all_nth)
  with assms(1) show ?thesis by (simp add: segs_store_def)
qed

lemma dir_get_block_reads:
  assumes s: "segs_store C (ds_segments st) bss" and k: "k < length (concat bss)"
  shows "\<exists>b st'. dir_get_block C (bh_offset (ab_header (concat bss ! k))) st = (Ok b, st')
    \<and> block_is C b (concat bss ! k) \<and> same_store st st'"
proof -
  obtain i j where i: "i < length (ds_segments st)" "j < length (bss ! i)" "concat bss ! k = bss ! i ! j"
      "seg_stores C (ds_segments st ! i) (bss ! i)"
      "bh_offset (ab_header (concat bss ! k)) = span_of C (take k (concat bss))"
      "seg_first_block_offset (ds_segments st ! i) \<le> span_of C (take k (concat bss))"
      "span_of C (take (Suc k) (concat bss)) = span_of C (take k (concat bss)) + length (block_bytes C (concat bss ! k))"
      "span_of C (take (Suc k) (concat bss)) \<le> seg_next_block_offset (ds_segments st ! i)"
    using block_segment [OF s k] by blast
  have "0 < length (block_bytes C (concat bss ! k))" by (rule block_bytes_nonempty)
  then have "span_of C (take k (concat bss)) < seg_next_block_offset (ds_segments st ! i)" using i(7,8) by linarith
  with i have "get_segment_index_for_block_offset st (bh_offset (ab_header (concat bss ! k))) = Some i"
    by (simp only: segment_index_iff [OF s])
  moreover have "\<exists>b st'. on_segment i (segment_get_block C (bh_offset (ab_header (concat bss ! k)))) st = (Ok b, st')
      \<and> block_is C b (concat bss ! k) \<and> same_store st st'"
    by (rule on_segment_ok [OF i(1)]) (use segment_get_block_reads [OF i(4,2)] i(3) in simp)
  ultimately show ?thesis by (simp add: dir_get_block_def)
qed

lemma dir_get_block_out:
  assumes s: "segs_store C (ds_segments st) bss" and off: "span_of C (concat bss) \<le> off"
  shows "dir_get_block C off st = (Err OutOfBound, st)"
proof -
  have "get_segment_index_for_block_offset st off \<noteq> Some i" for i
  proof
    assume "get_segment_index_for_block_offset st off = Some i"
    then have i: "i < length (ds_segments st)" "off < seg_next_block_offset (ds_segments st ! i)"
      using segment_index_iff [OF s] by simp_all
    have "Suc i \<le> length bss" using segs_store_nth(4) [OF s i(1)] by simp
    from span_of_take_mono [OF this, of C bss] segs_store_nth(3) [OF s i(1)] i(2) off show False by simp
  qed
  then show ?thesis by (cases "get_segment_index_for_block_offset st off") (auto simp: dir_get_block_def)
qed

lemma dir_get_block_from_next_reads:
  assumes s: "segs_store C (ds_segments st) bss" and k: "k < length (concat bss)"
  shows "\<exists>b st'. dir_get_block_from_next_offset C (bh_offset (ab_header (concat bss ! k))
      + length (block_bytes C (concat bss ! k))) st = (Ok b, st') \<and> block_is C b (concat bss ! k) \<and> same_store st st'"
proof -
  obtain i j where i: "i < length (ds_segments st)" "j < length (bss ! i)" "concat bss ! k = bss ! i ! j"
      "seg_stores C (ds_segments st ! i) (bss ! i)"
      "bh_offset (ab_header (concat bss ! k)) = span_of C (take k (concat bss))"
      "seg_first_block_offset (ds_segments st ! i) \<le> span_of C (take k (concat bss))"
      "span_of C (take (Suc k) (concat bss)) = span_of C (take k (concat bss)) + length (block_bytes C (concat bss ! k))"
      "span_of C (take (Suc k) (concat bss)) \<le> seg_next_block_offset (ds_segments st ! i)"
    using block_segment [OF s k] by blast
  let ?n = "bh_offset (ab_header (concat bss ! k)) + length (block_bytes C (concat bss ! k))"
  have pos: "0 < length (block_bytes C (concat bss ! k))" by (rule block_bytes_nonempty)
  then have "seg_first_block_offset (ds_segments st ! i) \<le> ?n - 1" "?n - 1 < seg_next_block_offset (ds_segments st ! i)"
    using i(5-8) by linarith+
  with i(1) pos have "get_segment_index_for_next_block_offset st ?n = Some i"
    by (simp add: get_segment_index_for_next_block_offset_def segment_index_iff [OF s])
  moreover have "\<exists>b st'. on_segment i (segment_get_block_from_next_offset C ?n) st = (Ok b, st')
      \<and> block_is C b (concat bss ! k) \<and> same_store st st'"
    by (rule on_segment_ok [OF i(1)]) (use segment_get_block_from_next_reads [OF i(4,2)] i(3) in simp)
  ultimately show ?thesis by (simp add: dir_get_block_from_next_offset_def)
qed

lemma dir_get_last_block_reads:
  assumes s: "segs_store C (ds_segments st) bss"
  shows "if concat bss = [] then dir_get_last_block C st = (Ok None, st)
    else (\<exists>b st'. dir_get_last_block C st = (Ok (Some b), st') \<and> block_is C b (last (concat bss)) \<and> same_store st st')"
proof (cases "ds_segments st = []")
  case True
  then have "bss = []" using s by (simp add: segs_store_def)
  with True show ?thesis by (simp add: dir_get_last_block_def)
next
  case False
  let ?i = "length (ds_segments st) - 1"
  have i: "?i < length (ds_segments st)" using False by simp
  note seg = segs_store_nth [OF s i]
  let ?as = "bss ! ?i" and ?j = "length (bss ! ?i) - 1"
  have len: "length bss = length (ds_segments st)" using s by (auto simp: segs_store_def dest: list_all2_lengthD)
  have ne: "?as \<noteq> []" using seg(1) by (simp add: seg_stores_def)
  have bss: "bss = butlast bss @ [?as]" using seg(4) len by (metis append_butlast_last_id last_conv_nth length_0_conv not_less0)
  have "concat bss = concat (butlast bss) @ ?as" using arg_cong [OF bss, of concat] by simp
  then have last: "last (concat bss) = ?as ! ?j" using ne last_conv_nth [OF ne] by simp
  have "bh_offset (ab_header (?as ! ?j)) + length (block_bytes C (?as ! ?j)) = seg_next_block_offset (ds_segments st ! ?i)"
    using seg(1) ne contiguous_nth [of C "seg_first_block_offset (ds_segments st ! ?i)" ?as ?j]
      chain_bytes_split [of ?j ?as C] by (auto simp: seg_stores_def)
  then have "\<exists>b st'. on_segment ?i (segment_get_block_from_next_offset C (seg_next_block_offset (last (ds_segments st)))) st = (Ok b, st')
      \<and> block_is C b (last (concat bss)) \<and> same_store st st'"
    by (intro on_segment_ok [OF i]) (use segment_get_block_from_next_reads [OF seg(1), of ?j] ne False in \<open>simp add: last last_conv_nth\<close>)
  moreover have "concat bss \<noteq> []" using ne seg(4) by (auto intro: nth_mem)
  ultimately show ?thesis using False by (auto simp: dir_get_last_block_def)
qed

section \<open>Iterating\<close>

text \<open>The iterator stands before the \<open>k\<close>-th block.\<close>

definition iter_at :: "('c) codec_scheme \<Rightarrow> segment list \<Rightarrow> ablock list list \<Rightarrow> nat \<Rightarrow> dir_iter \<Rightarrow> bool" where
  "iter_at C segs bss k it \<longleftrightarrow>
     k \<le> length (concat bss) \<and> \<not> it_done it \<and> it_current_offset it = span_of C (take k (concat bss)) \<and>
     (\<forall>i. it_current_segment it = Some i \<longrightarrow> i < length segs \<and>
        seg_first_block_offset (segs ! i) \<le> it_current_offset it \<and> it_current_offset it < seg_next_block_offset (segs ! i))"

lemma same_store_offsets:
  assumes "same_store st st'"
  shows "length (ds_segments st') = length (ds_segments st)"
    and "i < length (ds_segments st) \<Longrightarrow> seg_first_block_offset (ds_segments st' ! i) = seg_first_block_offset (ds_segments st ! i)"
    and "i < length (ds_segments st) \<Longrightarrow> seg_next_block_offset (ds_segments st' ! i) = seg_next_block_offset (ds_segments st ! i)"
  using assms by (auto simp: same_store_def list_all2_conv_all_nth same_segment_def)

lemma iter_next_block:
  assumes s: "segs_store C (ds_segments st) bss" and it: "iter_at C (ds_segments st) bss k it" and k: "k < length (concat bss)"
  shows "\<exists>b it' st'. iter_next C it st = (Some (Ok b), it', st') \<and> block_is C b (concat bss ! k)
    \<and> same_store st st' \<and> iter_at C (ds_segments st') bss (Suc k) it'"
proof -
  let ?off = "it_current_offset it" and ?a = "concat bss ! k"
  obtain i j where i: "i < length (ds_segments st)" "j < length (bss ! i)" "?a = bss ! i ! j"
      "seg_stores C (ds_segments st ! i) (bss ! i)"
      "bh_offset (ab_header ?a) = span_of C (take k (concat bss))"
      "seg_first_block_offset (ds_segments st ! i) \<le> span_of C (take k (concat bss))"
      "span_of C (take (Suc k) (concat bss)) = span_of C (take k (concat bss)) + length (block_bytes C ?a)"
      "span_of C (take (Suc k) (concat bss)) \<le> seg_next_block_offset (ds_segments st ! i)"
    using block_segment [OF s k] by blast
  have pos: "0 < length (block_bytes C ?a)" by (rule block_bytes_nonempty)
  have off: "?off = bh_offset (ab_header ?a)" using it i(5) by (simp add: iter_at_def)
  have idx: "get_segment_index_for_block_offset st ?off = Some i' \<longleftrightarrow> i' = i" for i'
  proof -
    have "get_segment_index_for_block_offset st ?off = Some i"
      unfolding segment_index_iff [OF s] using i(1,5-8) off pos by (intro conjI) linarith+
    then show ?thesis by auto
  qed
  let ?it1 = "it\<lparr>it_current_segment := Some i\<rparr>"
  have it1: "(case it_current_segment it of
        None \<Rightarrow> it\<lparr>it_current_segment := get_segment_index_for_block_offset st ?off\<rparr> | Some _ \<Rightarrow> it) = ?it1"
  proof (cases "it_current_segment it")
    case None
    have "get_segment_index_for_block_offset st ?off = Some i" by (simp add: idx)
    with None show ?thesis by simp
  next
    case (Some i')
    then have "get_segment_index_for_block_offset st ?off = Some i'"
      using it by (simp only: segment_index_iff [OF s]) (simp add: iter_at_def)
    with idx Some show ?thesis by simp
  qed
  obtain b st' where b: "on_segment i (segment_get_block C ?off) st = (Ok b, st')" "block_is C b ?a" "same_store st st'"
    using on_segment_ok [OF i(1), of "segment_get_block C ?off" "\<lambda>b. block_is C b ?a"] segment_get_block_reads [OF i(4,2)] i(3) off
    by auto
  note so = same_store_offsets [OF b(3)]
  let ?n = "length (block_bytes C ?a)"
  let ?it2 = "(if ?off + ?n \<ge> seg_next_block_offset (ds_segments st' ! i) then ?it1\<lparr>it_current_segment := None\<rparr> else ?it1)
      \<lparr>it_current_offset := ?off + ?n\<rparr>"
  have "iter_next C it st = (Some (Ok b), ?it2, st')"
    using it b(1) unfolding iter_next_def Let_def it1
    by (simp add: iter_at_def block_is_total_size [OF b(2)])
  moreover have "iter_at C (ds_segments st') bss (Suc k) ?it2"
    using k it i so off by (auto simp: iter_at_def)
  ultimately show ?thesis using b(2,3) by blast
qed

lemma iter_next_end:
  assumes s: "segs_store C (ds_segments st) bss" and it: "iter_at C (ds_segments st) bss (length (concat bss)) it"
  shows "\<exists>it'. iter_next C it st = (None, it', st)"
proof -
  have off: "it_current_offset it = span_of C (concat bss)" using it by (simp add: iter_at_def)
  have none: "get_segment_index_for_block_offset st (it_current_offset it) = None"
  proof (rule ccontr)
    assume "get_segment_index_for_block_offset st (it_current_offset it) \<noteq> None"
    then obtain i where i: "i < length (ds_segments st)" "it_current_offset it < seg_next_block_offset (ds_segments st ! i)"
      using segment_index_iff [OF s] by auto
    have "Suc i \<le> length bss" using segs_store_nth(4) [OF s i(1)] by simp
    from span_of_take_mono [OF this, of C bss] segs_store_nth(3) [OF s i(1)] i(2) off show False by simp
  qed
  have "it_current_segment it = None"
  proof (cases "it_current_segment it")
    case (Some i)
    then have "get_segment_index_for_block_offset st (it_current_offset it) = Some i"
      using it by (simp only: segment_index_iff [OF s]) (simp add: iter_at_def)
    with none show ?thesis by simp
  qed simp
  with none it show ?thesis by (simp add: iter_next_def iter_at_def)
qed

lemma collect_blocks_reads:
  assumes "segs_store C (ds_segments st) bss" and "iter_at C (ds_segments st) bss k it"
  shows "\<exists>bs st'. collect_blocks C it st = (Ok bs, st') \<and> list_all2 (block_is C) bs (drop k (concat bss)) \<and> same_store st st'"
  using assms
proof (induction "length (concat bss) - k" arbitrary: k it st)
  case 0
  then have k: "k = length (concat bss)" by (simp add: iter_at_def)
  obtain it' where "iter_next C it st = (None, it', st)" using iter_next_end 0 k by blast
  then have "collect_blocks C it st = (Ok [], st)" by (subst collect_blocks.simps) simp
  with k show ?case by simp
next
  case (Suc n)
  then have k: "k < length (concat bss)" by simp
  obtain b it' st' where 1: "iter_next C it st = (Some (Ok b), it', st')" "block_is C b (concat bss ! k)"
      "same_store st st'" "iter_at C (ds_segments st') bss (Suc k) it'"
    using iter_next_block [OF Suc.prems k] by blast
  have "n = length (concat bss) - Suc k" using Suc.hyps(2) by linarith
  then obtain bs st'' where 2: "collect_blocks C it' st' = (Ok bs, st'')"
      "list_all2 (block_is C) bs (drop (Suc k) (concat bss))" "same_store st' st''"
    using Suc.hyps(1) [of "Suc k" st' it'] segs_store_same [OF Suc.prems(1) 1(3)] 1(4) by blast
  have "collect_blocks C it st = (Ok (b # bs), st'')"
    using 1(1) 2(1) by (subst collect_blocks.simps) simp
  moreover have "drop k (concat bss) = concat bss ! k # drop (Suc k) (concat bss)"
    using k by (simp add: Cons_nth_drop_Suc)
  ultimately show ?case using 1(2,3) 2(2,3) same_store_trans by (metis list_all2_Cons)
qed

end
