(* ===== verification/Exo_Directory_Write.thy ===== *)
theory Exo_Directory_Write
  imports Exo_Directory_Facts
begin

text \<open>Writing to the directory store: the store after it holds the chain with the new block.\<close>

section \<open>What the store holds\<close>

text \<open>A chain is a list of blocks, each with the operations it holds.\<close>

type_synonym chain = "(ablock \<times> chain_operation list) list"

definition chain_entries :: "('c) codec_scheme \<Rightarrow> chain \<Rightarrow> iblock list" where
  "chain_entries C ch = map (\<lambda>(a, ms). iblock_of C a ms) ch"

abbreviation blocks_of :: "chain \<Rightarrow> ablock list" where
  "blocks_of ch \<equiv> map fst ch"

definition chain_ok :: "('c) codec_scheme \<Rightarrow> chain \<Rightarrow> bool" where
  "chain_ok C ch \<longleftrightarrow>
     contiguous C 0 (blocks_of ch) \<and> (\<forall>(a, ms) \<in> set ch. ablock_wf C a \<and> block_holds C a ms) \<and>
     unique_ids (chain_entries C ch)"

definition dir_holds :: "('c) codec_scheme \<Rightarrow> 'r ext_index \<Rightarrow> 'r dir_store \<Rightarrow> chain \<Rightarrow> bool" where
  "dir_holds C E st ch \<longleftrightarrow>
     chain_ok C ch \<and>
     (\<exists>bss. concat bss = blocks_of ch \<and> segs_store C (ds_segments st) bss) \<and>
     (ds_segments st \<noteq> [] \<longrightarrow>
        seg_next_file_offset (last (ds_segments st)) =
          seg_next_block_offset (last (ds_segments st)) - seg_first_block_offset (last (ds_segments st)) \<and>
        sf_mmap (seg_file (last (ds_segments st))) = MmapWrite) \<and>
     set (ds_files st) = (\<lambda>s. sf_path (seg_file s)) ` set (ds_segments st) \<and>
     (\<exists>ix ps mem. ds_index st = Some ix \<and> index_holds E ix ps mem \<and> concat ps @ mem = chain_entries C ch)"

lemma dir_holds_same:
  assumes h: "dir_holds C E st ch" and same: "same_store st st'"
  shows "dir_holds C E st' ch"
proof -
  have l: "list_all2 same_segment (ds_segments st) (ds_segments st')"
    using same by (simp add: same_store_def)
  then have p: "map (\<lambda>s. sf_path (seg_file s)) (ds_segments st') = map (\<lambda>s. sf_path (seg_file s)) (ds_segments st)"
    by (induction rule: list_all2_induct) (auto simp: same_segment_def same_file_def)
  have "same_segment (last (ds_segments st)) (last (ds_segments st'))" if "ds_segments st \<noteq> []"
    using l that by (metis last_conv_nth length_greater_0_conv list_all2_conv_all_nth diff_less zero_less_one length_0_conv)
  moreover have "ds_segments st' = [] \<longleftrightarrow> ds_segments st = []" using l by (auto simp: list_all2_Nil list_all2_Nil2)
  moreover have "segs_store C (ds_segments st') bss" if "segs_store C (ds_segments st) bss" for bss
    using segs_store_same [OF that same] .
  ultimately show ?thesis
    using h same arg_cong [OF p, of set]
    by (fastforce simp: dir_holds_def same_store_def same_segment_def same_file_def)
qed

lemma segment_path_inject [simp]: "segment_path m = segment_path n \<longleftrightarrow> m = n"
  by (simp add: segment_path_def)

lemma segs_store_end:
  assumes "segs_store C segs bss" and "segs \<noteq> []"
  shows "seg_next_block_offset (last segs) = span_of C (concat bss)" and "seg_stores C (last segs) (last bss)"
    and "bss \<noteq> []"
proof -
  have i: "length segs - 1 < length segs" using assms(2) by simp
  have l: "length bss = length segs" using assms(1) by (auto simp: segs_store_def dest: list_all2_lengthD)
  note n = segs_store_nth [OF assms(1) i]
  show "seg_next_block_offset (last segs) = span_of C (concat bss)"
    using n(3) l assms(2) by (simp add: last_conv_nth)
  show ne: "bss \<noteq> []" using l assms(2) by auto
  show "seg_stores C (last segs) (last bss)"
    using n(1) l assms(2) ne by (simp add: last_conv_nth)
qed

lemma segs_store_snoc:
  assumes "segs_store C segs bss" and "seg_stores C seg bs" and "contiguous C (span_of C (concat bss)) bs"
  shows "segs_store C (segs @ [seg]) (bss @ [bs])"
  using assms by (simp add: segs_store_def list_all2_appendI span_of_def)

lemma segs_store_replace_last:
  assumes s: "segs_store C segs bss" and ne: "segs \<noteq> []" and "seg_stores C seg (last bss @ bs)"
    and "contiguous C (span_of C (concat bss)) bs"
  shows "segs_store C (butlast segs @ [seg]) (butlast bss @ [last bss @ bs])"
proof -
  have b: "bss \<noteq> []" using segs_store_end [OF s ne] by blast
  have "list_all2 (seg_stores C) (butlast segs) (butlast bss)"
    using s ne b by (metis append_butlast_last_id list_all2_append2 list_all2_lengthD segs_store_def
        length_butlast list_all2_append)
  moreover have eq: "concat (butlast bss @ [last bss @ bs]) = concat bss @ bs"
    using arg_cong [OF append_butlast_last_id [OF b], of concat] by simp
  moreover have "contiguous C 0 (concat bss @ bs)"
    using s assms(4) by (simp add: segs_store_def span_of_def)
  ultimately show ?thesis using assms(3) by (simp only: segs_store_def) (simp add: list_all2_appendI)
qed

section \<open>The two ways a block is written\<close>

text \<open>What holds of the segments after the write, before the block is indexed.\<close>

definition segs_written :: "('c) codec_scheme \<Rightarrow> 'r dir_store \<Rightarrow> ablock list \<Rightarrow> 'r dir_store \<Rightarrow> bool" where
  "segs_written C st as st' \<longleftrightarrow>
     (\<exists>bss. concat bss = as \<and> segs_store C (ds_segments st') bss) \<and> ds_segments st' \<noteq> [] \<and>
     seg_next_file_offset (last (ds_segments st')) =
       seg_next_block_offset (last (ds_segments st')) - seg_first_block_offset (last (ds_segments st')) \<and>
     sf_mmap (seg_file (last (ds_segments st'))) = MmapWrite \<and>
     set (ds_files st') = (\<lambda>s. sf_path (seg_file s)) ` set (ds_segments st') \<and>
     ds_index st' = ds_index st \<and> ds_config st' = ds_config st"

lemma seg_holds_next_file:
  "seg_holds C seg as \<longleftrightarrow> seg_stores C seg as \<and>
     seg_next_file_offset seg = seg_next_block_offset seg - seg_first_block_offset seg"
  by (auto simp: seg_holds_def seg_stores_def)

lemma seg_stores_close: "seg_stores C (segment_close_write seg) as \<longleftrightarrow> seg_stores C seg as"
  by (simp add: seg_stores_def segment_close_write_def sf_close_write_def)

lemma close_last_segments:
  assumes "segs_store C segs bss" and "segs \<noteq> []"
  shows "segs_store C (butlast segs @ [segment_close_write (last segs)]) bss"
    and "(\<lambda>s. sf_path (seg_file s)) ` set (butlast segs @ [segment_close_write (last segs)]) = (\<lambda>s. sf_path (seg_file s)) ` set segs"
proof -
  have b: "bss \<noteq> []" and l: "seg_stores C (last segs) (last bss)" using segs_store_end [OF assms] by blast+
  have "segs_store C (butlast segs @ [segment_close_write (last segs)]) (butlast bss @ [last bss @ []])"
    by (rule segs_store_replace_last [OF assms]) (use l in \<open>simp_all add: seg_stores_close\<close>)
  with b show "segs_store C (butlast segs @ [segment_close_write (last segs)]) bss" by simp
  have p: "sf_path (seg_file (segment_close_write s)) = sf_path (seg_file s)" for s
    by (simp add: segment_close_write_def sf_close_write_def)
  have "set segs = insert (last segs) (set (butlast segs))"
    using arg_cong [OF append_butlast_last_id [OF assms(2)], of set] by simp
  then show "(\<lambda>s. sf_path (seg_file s)) ` set (butlast segs @ [segment_close_write (last segs)]) = (\<lambda>s. sf_path (seg_file s)) ` set segs"
    by (simp add: p)
qed

lemma path_fresh:
  assumes s: "segs_store C segs bss"
  shows "segment_path (span_of C (concat bss)) \<notin> (\<lambda>s. sf_path (seg_file s)) ` set segs"
proof
  assume "segment_path (span_of C (concat bss)) \<in> (\<lambda>s. sf_path (seg_file s)) ` set segs"
  then obtain i where i: "i < length segs" "sf_path (seg_file (segs ! i)) = segment_path (span_of C (concat bss))"
    by (auto simp: in_set_conv_nth)
  note n = segs_store_nth [OF s i(1)]
  have "seg_first_block_offset (segs ! i) = span_of C (concat bss)" using n(1) i(2) by (simp add: seg_stores_def)
  moreover have "seg_next_block_offset (segs ! i) \<le> span_of C (concat bss)"
    using n(3,4) span_of_take_mono [of "Suc i" "length bss" C bss] by simp
  ultimately show False using segs_range(1) [OF s i(1) i(1)] by simp
qed

lemma segment_open_write_ok:
  assumes "writable (seg_file seg)"
  shows "\<exists>t' seg'. segment_open_write (t, seg) = (Ok (), (t', seg')) \<and> same_segment seg seg'
    \<and> sf_mmap (seg_file seg') = MmapWrite"
proof -
  obtain t' sf' where "maybe_mmap_write (t, seg_file seg) = (Ok (), (t', sf'))" "same_file (seg_file seg) sf'" "sf_mmap sf' = MmapWrite"
    using maybe_mmap_write_ok [OF assms] by metis
  then show ?thesis by (simp add: segment_open_write_def on_file_def same_segment_def)
qed

lemma dir_new_segment_ok:
  assumes s: "segs_store C (ds_segments st) bss" and b: "block_is C b a" and wf: "ablock_wf C a"
    and off: "bh_offset (ab_header a) = span_of C (concat bss)"
    and files: "set (ds_files st) = (\<lambda>s. sf_path (seg_file s)) ` set (ds_segments st)"
  shows "\<exists>st'. dir_new_segment b st = (Ok (), st') \<and> segs_written C st (concat bss @ [a]) st'"
proof -
  let ?segs = "if ds_segments st = [] then [] else butlast (ds_segments st) @ [segment_close_write (last (ds_segments st))]"
  have s1: "segs_store C ?segs bss" and p1: "(\<lambda>s. sf_path (seg_file s)) ` set ?segs = (\<lambda>s. sf_path (seg_file s)) ` set (ds_segments st)"
    using s close_last_segments [OF s] by (auto split: if_splits)
  obtain t1 seg where 1: "segment_create (ds_config st) (ds_files st) b (ds_tracker st) = (Ok seg, t1)"
      "seg_holds C seg [a]" "writable (seg_file seg)"
    using segment_create_ok [OF b wf] path_fresh [OF s] off files by metis
  obtain t2 seg2 where 2: "segment_open_write (t1, seg) = (Ok (), (t2, seg2))" "same_segment seg seg2"
      "sf_mmap (seg_file seg2) = MmapWrite"
    using segment_open_write_ok [OF 1(3)] by blast
  have h2: "seg_holds C seg2 [a]" by (rule seg_holds_same [OF 1(2) 2(2)])
  let ?st = "save_metadata (st\<lparr>ds_tracker := t2, ds_segments := ?segs @ [seg2],
      ds_files := ds_files st @ [sf_path (seg_file seg)]\<rparr>)"
  have "dir_new_segment b st = (Ok (), ?st)"
    using 1(1) 2(1) by (simp add: dir_new_segment_def Let_def save_metadata_def butlast_append)
  moreover have "segs_store C (?segs @ [seg2]) (bss @ [[a]])"
    using segs_store_snoc [OF s1, of seg2 "[a]"] h2 off by (simp add: seg_holds_def)
  moreover have "sf_path (seg_file seg2) = sf_path (seg_file seg)"
    using 2(2) by (simp add: same_segment_def same_file_def)
  ultimately show ?thesis
    using h2 2(3) files p1
    by (intro exI [of _ ?st]) (auto simp: segs_written_def save_metadata_def seg_holds_next_file intro!: exI [of _ "bss @ [[a]]"])
qed

lemma dir_append_ok:
  assumes s: "segs_store C (ds_segments st) bss" and ne: "ds_segments st \<noteq> []" and b: "block_is C b a" and wf: "ablock_wf C a"
    and off: "bh_offset (ab_header a) = span_of C (concat bss)"
    and nf: "seg_next_file_offset (last (ds_segments st)) =
        seg_next_block_offset (last (ds_segments st)) - seg_first_block_offset (last (ds_segments st))"
    and w: "sf_mmap (seg_file (last (ds_segments st))) = MmapWrite"
    and files: "set (ds_files st) = (\<lambda>s. sf_path (seg_file s)) ` set (ds_segments st)"
  shows "\<exists>st'. on_segment (length (ds_segments st) - 1) (segment_write_block (ds_config st) b) st = (Ok (), st')
    \<and> segs_written C st (concat bss @ [a]) st'"
proof -
  let ?seg = "last (ds_segments st)"
  note e = segs_store_end [OF s ne]
  have h: "seg_holds C ?seg (last bss)" using e(2) nf by (simp add: seg_holds_next_file)
  obtain t' seg' where 1: "segment_write_block (ds_config st) b (ds_tracker st, ?seg) = (Ok (), (t', seg'))"
      "seg_holds C seg' (last bss @ [a])" "seg_first_block_offset seg' = seg_first_block_offset ?seg"
      "sf_mmap (seg_file seg') = MmapWrite"
    using segment_write_block_ok [OF h _ b wf, of "ds_config st" "ds_tracker st"] w e(1) off by auto
  let ?st = "st\<lparr>ds_tracker := t', ds_segments := butlast (ds_segments st) @ [seg']\<rparr>"
  have "(ds_segments st)[length (ds_segments st) - 1 := seg'] = butlast (ds_segments st) @ [seg']"
    using ne by (metis append_butlast_last_id length_butlast list_update_length)
  then have "on_segment (length (ds_segments st) - 1) (segment_write_block (ds_config st) b) st = (Ok (), ?st)"
    using 1(1) ne by (simp add: on_segment_def last_conv_nth)
  moreover have "segs_store C (butlast (ds_segments st) @ [seg']) (butlast bss @ [last bss @ [a]])"
    using segs_store_replace_last [OF s ne, of seg' "[a]"] 1(2) off by (simp add: seg_holds_def)
  moreover have "concat (butlast bss @ [last bss @ [a]]) = concat bss @ [a]"
    using arg_cong [OF append_butlast_last_id [OF e(3)], of concat] by simp
  moreover have "set (ds_segments st) = insert ?seg (set (butlast (ds_segments st)))"
    using arg_cong [OF append_butlast_last_id [OF ne], of set] by simp
  moreover have "sf_path (seg_file seg') = sf_path (seg_file ?seg)"
    using 1(2,3) h by (simp add: seg_holds_def seg_stores_def)
  ultimately show ?thesis
    using 1(2,4) files unfolding segs_written_def
    by (intro exI [of _ ?st] conjI exI [of _ "butlast bss @ [last bss @ [a]]"]) (simp_all add: seg_holds_next_file)
qed

section \<open>Writing a block\<close>

lemma chain_ok_snoc:
  assumes "chain_ok C (ch @ [(a, ms)])"
  shows "chain_ok C ch" and "bh_offset (ab_header a) = span_of C (blocks_of ch)" and "ablock_wf C a"
    and "block_holds C a ms"
  using assms by (auto simp: chain_ok_def chain_entries_def span_of_def unique_ids_def ids_of_append)

lemma dir_write_block_ok:
  assumes E: "ext_index_ok E" and h: "dir_holds C E st ch" and b: "block_is C b a" and ok: "chain_ok C (ch @ [(a, ms)])"
  shows "\<exists>st'. dir_write_block C E b st = (Ok (span_of C (blocks_of ch @ [a])), st') \<and> dir_holds C E st' (ch @ [(a, ms)])"
proof -
  note a = chain_ok_snoc [OF ok]
  obtain bss ix ps mem where bss: "concat bss = blocks_of ch" and s: "segs_store C (ds_segments st) bss"
    and files: "set (ds_files st) = (\<lambda>s. sf_path (seg_file s)) ` set (ds_segments st)"
    and ix: "ds_index st = Some ix" "index_holds E ix ps mem" "concat ps @ mem = chain_entries C ch"
    using h by (auto simp: dir_holds_def)
  let ?w = "if need_new_segment st (length (block_bytes C a)) then dir_new_segment b
      else on_segment (length (ds_segments st) - 1) (segment_write_block (ds_config st) b)"
  obtain st1 where 1: "?w st = (Ok (), st1)" "segs_written C st (blocks_of ch @ [a]) st1"
  proof (cases "need_new_segment st (length (block_bytes C a))")
    case True
    then show thesis using dir_new_segment_ok [OF s b a(3) _ files] a(2) bss that by fastforce
  next
    case False
    then have ne: "ds_segments st \<noteq> []" by (simp add: need_new_segment_def)
    with False show thesis
      using dir_append_ok [OF s ne b a(3) _ _ _ files] a(2) bss h that by (fastforce simp: dir_holds_def)
  qed
  have n: "oi_next_expected_offset ix = bh_offset (ab_header a)"
  proof -
    have "oi_next_expected_offset ix = end_of 0 (chain_entries C ch)"
      using ix(2,3) by (simp add: index_holds_def)
    also have "\<dots> = span_of C (blocks_of ch)"
      using a(1)
    proof (induction ch rule: rev_induct)
      case (snoc x xs)
      obtain a' ms' where x: "x = (a', ms')" by (cases x)
      note a' = chain_ok_snoc [OF snoc.prems [unfolded x]]
      show ?case using a'(2) by (simp add: x chain_entries_def iblock_of_def)
    qed (simp add: chain_entries_def)
    finally show ?thesis using a(2) by simp
  qed
  obtain ix' ps' mem' where 2: "index_block C E (ds_config st1) b ix = (Ok (), ix')" "index_holds E ix' ps' mem'"
      "concat ps' @ mem' = concat ps @ mem @ [iblock_of C a ms]"
    using index_block_adds [OF E ix(2) b a(4) n [symmetric]] by blast
  have ne1: "ds_segments st1 \<noteq> []" using 1(2) by (simp add: segs_written_def)
  have e: "seg_next_block_offset (last (ds_segments st1)) = span_of C (blocks_of ch @ [a])"
  proof -
    obtain bss' where "concat bss' = blocks_of ch @ [a]" "segs_store C (ds_segments st1) bss'"
      using 1(2) by (auto simp: segs_written_def)
    then show ?thesis using segs_store_end(1) [OF _ ne1] by fastforce
  qed
  have "dir_write_block C E b st = (Ok (span_of C (blocks_of ch @ [a])), st1\<lparr>ds_index := Some ix'\<rparr>)"
    using 1 2(1) ix(1) e by (simp add: dir_write_block_def block_is_total_size [OF b] segs_written_def)
  moreover have "concat ps' @ mem' = chain_entries C (ch @ [(a, ms)])"
    using 2(3) ix(3) by (simp add: chain_entries_def)
  ultimately show ?thesis
    using 1(2) 2(2) ok by (auto simp: dir_holds_def segs_written_def)
qed

end
