(* ===== verification/Exo_Chain_Store.thy ===== *)
theory Exo_Chain_Store
  imports Exo_Directory_Write Exo_Segment_Props
begin

text \<open>
  The contract of a chain store (the trait \<open>ChainStore\<close> of \<open>chain/src/chain/mod.rs\<close>) as the
  locale \<open>chain_store\<close> over the chain of blocks a store holds, and its interpretation on the
  directory store. Iterating backwards is here too.
\<close>

section \<open>Iterating backwards\<close>

lemma header_before_size:
  assumes "read_header_frame_from_next_offset C f off = Ok h" and "whole_data_size (tf_frame h) = Ok n"
  shows "8 \<le> n"
proof -
  obtain g m where g: "sized_new_from_next_offset f off = Ok g" and m: "multihash_new g = Ok m"
    and h: "typed_capnp_new (dec_header C) m = Ok h"
    using assms(1) by (auto simp: read_header_frame_from_next_offset_def result_simps)
  obtain o' k where "g = SizedFrame f o' k" using g by (auto simp: sized_new_from_next_offset_def result_simps)
  moreover have "m = MultihashFrame g" using m by (auto simp: multihash_new_def result_simps)
  ultimately show ?thesis
    using assms(2) typed_capnp_new_frame [OF h] by (auto simp: whole_data_size_def result_simps)
qed

lemma data_block_before_size:
  assumes "data_block_new_from_next_offset C d n = Ok b" and "total_size b = Ok k"
  shows "8 \<le> k"
proof -
  obtain f off h where "read_header_frame_from_next_offset C f off = Ok h" "db_header b = h"
    using assms(1) by (auto simp: data_block_new_from_next_offset_def result_simps Let_def split: if_splits)
  then show ?thesis
    using header_before_size [of C f off h] assms(2) by (auto simp: total_size_def result_simps)
qed

lemma sf_get_block_from_next_size:
  assumes "sf_get_block_from_next C off s = (Ok b, s')" and "total_size b = Ok n"
  shows "8 \<le> n"
proof -
  have "(\<exists>d k. data_block_new_from_next_offset C d k = Ok b) \<or> (\<exists>d. data_block_new C d = Ok b)"
    using assms(1)
    by (auto simp: sf_get_block_from_next_def sbind_def copied_block_def result_simps
        split: prod.splits result.splits seg_mmap.splits if_splits)
  then show ?thesis using data_block_new_size data_block_before_size assms(2) by blast
qed

lemma iter_reverse_progress:
  assumes "iter_next_reverse C it st = (Some (Ok b), it', st')"
  shows "\<not> it_done it" and "it_done it' \<or> it_current_offset it' < it_current_offset it"
proof -
  show "\<not> it_done it" using assms by (auto simp: iter_next_reverse_def)
  obtain i n where g: "on_segment i (segment_get_block_from_next_offset C (it_current_offset it)) st = (Ok b, st')"
    and n: "total_size b = Ok n"
    and it': "it_done it' \<or> n \<le> it_current_offset it \<and> it_current_offset it' = it_current_offset it - n"
    using assms
    by (auto simp: iter_next_reverse_def Let_def result_simps not_less
        split: if_splits option.splits prod.splits result.splits)
  have "8 \<le> n"
    using g n sf_get_block_from_next_size
    by (fastforce simp: on_segment_def segment_get_block_from_next_offset_def on_file_def split: if_splits prod.splits)
  with it' show "it_done it' \<or> it_current_offset it' < it_current_offset it" by auto
qed

definition iter_rank :: "dir_iter \<Rightarrow> nat" where
  "iter_rank it = (if it_done it then 0 else Suc (it_current_offset it))"

lemma iter_reverse_rank:
  "(Some (Ok b), it', st') = iter_next_reverse C it st \<Longrightarrow> iter_rank it' < iter_rank it"
  using iter_reverse_progress [of C it st b it' st'] by (auto simp: iter_rank_def)

function collect_blocks_reverse ::
  "('c) codec_scheme \<Rightarrow> dir_iter \<Rightarrow> 'r dir_store \<Rightarrow> (chain_error, data_block list) result \<times> 'r dir_store" where
  "collect_blocks_reverse C it st =
     (case iter_next_reverse C it st of
        (None, it', st') \<Rightarrow> (Ok [], st')
      | (Some (Ok block), it', st') \<Rightarrow>
          (case collect_blocks_reverse C it' st' of (r, st'') \<Rightarrow> (and_then r (\<lambda>bs. Ok (block # bs)), st''))
      | (Some (Err e), it', st') \<Rightarrow> (Err e, st')
      | (Some Panic, it', st') \<Rightarrow> (Panic, st'))"
  by pat_completeness auto
termination
  by (relation "measure (\<lambda>(C, it, st). iter_rank it)") (auto intro: iter_reverse_rank)

declare collect_blocks_reverse.simps [simp del]

text \<open>The reverse iterator stands after the first \<open>k\<close> blocks.\<close>

definition iter_after :: "('c) codec_scheme \<Rightarrow> segment list \<Rightarrow> ablock list list \<Rightarrow> nat \<Rightarrow> dir_iter \<Rightarrow> bool" where
  "iter_after C segs bss k it \<longleftrightarrow>
     k \<le> length (concat bss) \<and> \<not> it_done it \<and> it_current_offset it = span_of C (take k (concat bss)) \<and>
     (\<forall>i. it_current_segment it = Some i \<longrightarrow> i < length segs \<and>
        seg_first_block_offset (segs ! i) < it_current_offset it \<and> it_current_offset it \<le> seg_next_block_offset (segs ! i))"

lemma next_segment_index_iff:
  assumes s: "segs_store C (ds_segments st) bss"
  shows "get_segment_index_for_next_block_offset st off = Some i \<longleftrightarrow>
     i < length (ds_segments st) \<and> seg_first_block_offset (ds_segments st ! i) < off \<and> off \<le> seg_next_block_offset (ds_segments st ! i)"
  by (cases off) (auto simp: get_segment_index_for_next_block_offset_def segment_index_iff [OF s])

lemma iter_reverse_block:
  assumes s: "segs_store C (ds_segments st) bss" and it: "iter_after C (ds_segments st) bss (Suc k) it"
  shows "\<exists>b it' st'. iter_next_reverse C it st = (Some (Ok b), it', st') \<and> block_is C b (concat bss ! k)
    \<and> same_store st st' \<and> iter_after C (ds_segments st') bss k it'"
proof -
  let ?off = "it_current_offset it" and ?a = "concat bss ! k"
  have k: "k < length (concat bss)" using it by (simp add: iter_after_def)
  obtain i j where i: "i < length (ds_segments st)" "j < length (bss ! i)" "?a = bss ! i ! j"
      "seg_stores C (ds_segments st ! i) (bss ! i)"
      "bh_offset (ab_header ?a) = span_of C (take k (concat bss))"
      "seg_first_block_offset (ds_segments st ! i) \<le> span_of C (take k (concat bss))"
      "span_of C (take (Suc k) (concat bss)) = span_of C (take k (concat bss)) + length (block_bytes C ?a)"
      "span_of C (take (Suc k) (concat bss)) \<le> seg_next_block_offset (ds_segments st ! i)"
    using block_segment [OF s k] by blast
  let ?n = "length (block_bytes C ?a)"
  have pos: "0 < ?n" by (rule block_bytes_nonempty)
  have off: "?off = bh_offset (ab_header ?a) + ?n" using it i(5,7) by (simp add: iter_after_def)
  have idx: "get_segment_index_for_next_block_offset st ?off = Some i"
    unfolding next_segment_index_iff [OF s] using i(1,5-8) off pos by (intro conjI) linarith+
  let ?it1 = "it\<lparr>it_current_segment := Some i\<rparr>"
  have it1: "(case it_current_segment it of
        None \<Rightarrow> it\<lparr>it_current_segment := get_segment_index_for_next_block_offset st ?off\<rparr> | Some _ \<Rightarrow> it) = ?it1"
  proof (cases "it_current_segment it")
    case (Some i')
    then have "get_segment_index_for_next_block_offset st ?off = Some i'"
      using it by (simp only: next_segment_index_iff [OF s]) (simp add: iter_after_def)
    with idx Some show ?thesis by simp
  qed (simp add: idx)
  obtain b st' where b: "on_segment i (segment_get_block_from_next_offset C ?off) st = (Ok b, st')" "block_is C b ?a" "same_store st st'"
    using on_segment_ok [OF i(1), of "segment_get_block_from_next_offset C ?off" "\<lambda>b. block_is C b ?a"]
      segment_get_block_from_next_reads [OF i(4,2)] i(3) off
    by auto
  note so = same_store_offsets [OF b(3)]
  let ?it2 = "(if ?n + 1 > ?off \<or> ?off - ?n - 1 < seg_first_block_offset (ds_segments st' ! i)
      then ?it1\<lparr>it_current_segment := None\<rparr> else ?it1)\<lparr>it_current_offset := ?off - ?n\<rparr>"
  have "iter_next_reverse C it st = (Some (Ok b), ?it2, st')"
    using it b(1) off unfolding iter_next_reverse_def Let_def it1
    by (simp add: iter_after_def block_is_total_size [OF b(2)])
  moreover have "iter_after C (ds_segments st') bss k ?it2"
    using k it i so off by (auto simp: iter_after_def)
  ultimately show ?thesis using b(2,3) by blast
qed

lemma collect_reverse_reads:
  assumes "segs_store C (ds_segments st) bss" and "iter_after C (ds_segments st) bss k it"
  shows "\<exists>bs st'. collect_blocks_reverse C it st = (Ok bs, st') \<and>
    list_all2 (block_is C) bs (rev (take k (concat bss))) \<and> same_store st st'"
  using assms
proof (induction k arbitrary: it st)
  case 0
  then have "get_segment_index_for_next_block_offset st (it_current_offset it) = None" "it_current_segment it = None"
    by (auto simp: iter_after_def get_segment_index_for_next_block_offset_def)
  then have "collect_blocks_reverse C it st = (Ok [], st)"
    using 0 by (subst collect_blocks_reverse.simps) (simp add: iter_next_reverse_def iter_after_def)
  then show ?case by simp
next
  case (Suc k)
  obtain b it' st' where 1: "iter_next_reverse C it st = (Some (Ok b), it', st')" "block_is C b (concat bss ! k)"
      "same_store st st'" "iter_after C (ds_segments st') bss k it'"
    using iter_reverse_block [OF Suc.prems] by blast
  obtain bs st'' where 2: "collect_blocks_reverse C it' st' = (Ok bs, st'')"
      "list_all2 (block_is C) bs (rev (take k (concat bss)))" "same_store st' st''"
    using Suc.IH [OF segs_store_same [OF Suc.prems(1) 1(3)] 1(4)] by blast
  have "collect_blocks_reverse C it st = (Ok (b # bs), st'')"
    using 1(1) 2(1) by (subst collect_blocks_reverse.simps) simp
  moreover have "rev (take (Suc k) (concat bss)) = concat bss ! k # rev (take k (concat bss))"
    using Suc.prems(2) by (simp add: iter_after_def take_Suc_conv_app_nth)
  ultimately show ?case using 1(2) 2(2) same_store_trans [OF 1(3) 2(3)] by (intro exI [of _ "b # bs"] exI [of _ st'']) simp
qed

section \<open>The contract\<close>

abbreviation block_at :: "chain \<Rightarrow> nat \<Rightarrow> ablock" where
  "block_at ch k \<equiv> fst (ch ! k)"

abbreviation offset_at :: "chain \<Rightarrow> nat \<Rightarrow> nat" where
  "offset_at ch k \<equiv> bh_offset (ab_header (block_at ch k))"

definition chain_end :: "('c) codec_scheme \<Rightarrow> chain \<Rightarrow> nat" where
  "chain_end C ch = span_of C (blocks_of ch)"

definition holds_operation :: "nat \<Rightarrow> ablock \<times> chain_operation list \<Rightarrow> bool" where
  "holds_operation i e \<longleftrightarrow> i \<in> set (block_ids (fst e) (snd e))"

locale chain_store =
  fixes C :: "('c) codec_scheme"
    and holds :: "'s \<Rightarrow> chain \<Rightarrow> bool"
    and append_block :: "data_block \<Rightarrow> ('s, chain_error, nat) sop"
    and get_block :: "nat \<Rightarrow> ('s, chain_error, data_block) sop"
    and get_before :: "nat \<Rightarrow> ('s, chain_error, data_block) sop"
    and get_last :: "('s, chain_error, data_block option) sop"
    and get_by_operation :: "nat \<Rightarrow> ('s, chain_error, data_block option) sop"
    and blocks_from :: "nat \<Rightarrow> ('s, chain_error, data_block list) sop"
    and blocks_before :: "nat \<Rightarrow> ('s, chain_error, data_block list) sop"
  assumes holds_ok: "holds st ch \<Longrightarrow> chain_ok C ch"
    and write_ok: "holds st ch \<Longrightarrow> block_is C b a \<Longrightarrow> chain_ok C (ch @ [(a, ms)]) \<Longrightarrow>
      \<exists>st'. append_block b st = (Ok (chain_end C (ch @ [(a, ms)])), st') \<and> holds st' (ch @ [(a, ms)])"
    and get_ok: "holds st ch \<Longrightarrow> k < length ch \<Longrightarrow>
      \<exists>b st'. get_block (offset_at ch k) st = (Ok b, st') \<and> block_is C b (block_at ch k) \<and> holds st' ch"
    and get_out: "holds st ch \<Longrightarrow> chain_end C ch \<le> off \<Longrightarrow> get_block off st = (Err OutOfBound, st)"
    and get_before_ok: "holds st ch \<Longrightarrow> k < length ch \<Longrightarrow>
      \<exists>b st'. get_before (offset_at ch k + length (block_bytes C (block_at ch k))) st = (Ok b, st') \<and>
        block_is C b (block_at ch k) \<and> holds st' ch"
    and get_last_ok: "holds st ch \<Longrightarrow>
      \<exists>r st'. get_last st = (Ok r, st') \<and> holds st' ch \<and>
        (case r of None \<Rightarrow> ch = [] | Some b \<Rightarrow> ch \<noteq> [] \<and> block_is C b (fst (last ch)))"
    and by_operation_ok: "holds st ch \<Longrightarrow>
      \<exists>r st'. get_by_operation i st = (Ok r, st') \<and> holds st' ch \<and>
        (case r of None \<Rightarrow> (\<forall>e \<in> set ch. \<not> holds_operation i e)
         | Some b \<Rightarrow> \<exists>e \<in> set ch. holds_operation i e \<and> block_is C b (fst e))"
    and blocks_from_ok: "holds st ch \<Longrightarrow> k \<le> length ch \<Longrightarrow>
      \<exists>bs st'. blocks_from (chain_end C (take k ch)) st = (Ok bs, st') \<and> holds st' ch \<and>
        list_all2 (block_is C) bs (drop k (blocks_of ch))"
    and blocks_before_ok: "holds st ch \<Longrightarrow> k \<le> length ch \<Longrightarrow>
      \<exists>bs st'. blocks_before (chain_end C (take k ch)) st = (Ok bs, st') \<and> holds st' ch \<and>
        list_all2 (block_is C) bs (rev (take k (blocks_of ch)))"
begin

text \<open>Writing a series of blocks appends all of them.\<close>

lemma writes_ok:
  assumes "holds st ch" and "list_all2 (block_is C) bs (blocks_of new)" and "chain_ok C (ch @ new)"
    and pre: "\<And>xs ys. xs @ ys = ch @ new \<Longrightarrow> chain_ok C xs"
  shows "holds (fold (\<lambda>b st. snd (append_block b st)) bs st) (ch @ new)"
  using assms
proof (induction new arbitrary: bs ch st)
  case (Cons e new)
  obtain a ms where e: "e = (a, ms)" by (cases e)
  obtain b bs' where b: "bs = b # bs'" "block_is C b a" "list_all2 (block_is C) bs' (blocks_of new)"
    using Cons.prems(2) e by (auto simp: list_all2_Cons2)
  have "chain_ok C (ch @ [(a, ms)])" using Cons.prems(4) [of "ch @ [(a, ms)]" new] e by simp
  then obtain st' where st': "append_block b st = (Ok (chain_end C (ch @ [(a, ms)])), st')" "holds st' (ch @ [(a, ms)])"
    using write_ok [OF Cons.prems(1) b(2)] by blast
  have "holds (fold (\<lambda>b st. snd (append_block b st)) bs' st') ((ch @ [(a, ms)]) @ new)"
    using Cons.prems(3,4) e by (intro Cons.IH st'(2) b(3)) simp_all
  with st'(1) b(1) e show ?case by simp
qed simp

text \<open>What was stored stays readable after more blocks are written.\<close>

lemma get_after_write:
  assumes "holds st ch" and "block_is C b a" and "chain_ok C (ch @ [(a, ms)])" and "k < length ch"
  shows "\<exists>st' x st''. append_block b st = (Ok (chain_end C (ch @ [(a, ms)])), st') \<and>
    get_block (offset_at ch k) st' = (Ok x, st'') \<and> block_is C x (block_at ch k)"
proof -
  obtain st' where st': "append_block b st = (Ok (chain_end C (ch @ [(a, ms)])), st')" "holds st' (ch @ [(a, ms)])"
    using write_ok [OF assms(1-3)] by blast
  have "k < length (ch @ [(a, ms)])" "(ch @ [(a, ms)]) ! k = ch ! k" using assms(4) by (simp_all add: nth_append)
  with get_ok [OF st'(2), of k] st'(1) show ?thesis by auto
qed

text \<open>The block just written is the last one, and its operations are found in it.\<close>

lemma written_found:
  assumes "holds st ch" and "block_is C b a" and "chain_ok C (ch @ [(a, ms)])" and "i \<in> set (block_ids a ms)"
  shows "\<exists>st' x st'' y st3. append_block b st = (Ok (chain_end C (ch @ [(a, ms)])), st') \<and>
    get_last st' = (Ok (Some x), st'') \<and> block_is C x a \<and>
    get_by_operation i st'' = (Ok (Some y), st3) \<and> (\<exists>e \<in> set (ch @ [(a, ms)]). holds_operation i e \<and> block_is C y (fst e))"
proof -
  obtain st' where st': "append_block b st = (Ok (chain_end C (ch @ [(a, ms)])), st')" "holds st' (ch @ [(a, ms)])"
    using write_ok [OF assms(1-3)] by blast
  obtain r st'' where l: "get_last st' = (Ok r, st'')" "holds st'' (ch @ [(a, ms)])"
      "case r of None \<Rightarrow> ch @ [(a, ms)] = [] | Some x \<Rightarrow> ch @ [(a, ms)] \<noteq> [] \<and> block_is C x (fst (last (ch @ [(a, ms)])))"
    using get_last_ok [OF st'(2)] by blast
  obtain q st3 where o: "get_by_operation i st'' = (Ok q, st3)"
      "case q of None \<Rightarrow> (\<forall>e \<in> set (ch @ [(a, ms)]). \<not> holds_operation i e)
       | Some y \<Rightarrow> \<exists>e \<in> set (ch @ [(a, ms)]). holds_operation i e \<and> block_is C y (fst e)"
    using by_operation_ok [OF l(2)] by blast
  have "holds_operation i (a, ms)" using assms(4) by (simp add: holds_operation_def)
  with st'(1) l o show ?thesis by (cases r; cases q) auto
qed

end

section \<open>The directory store meets the contract\<close>

definition dir_store_holds :: "('c) codec_scheme \<Rightarrow> 'r ext_index \<Rightarrow> 'r dir_store \<Rightarrow> chain \<Rightarrow> bool" where
  "dir_store_holds C E st ch \<longleftrightarrow> ext_index_ok E \<and> dir_holds C E st ch"

lemma dir_store_segments:
  assumes "dir_store_holds C E st ch"
  obtains bss where "concat bss = blocks_of ch" "segs_store C (ds_segments st) bss"
  using assms by (auto simp: dir_store_holds_def dir_holds_def)

lemma dir_store_holds_same: "dir_store_holds C E st ch \<Longrightarrow> same_store st st' \<Longrightarrow> dir_store_holds C E st' ch"
  using dir_holds_same by (auto simp: dir_store_holds_def)

lemma ids_of_chain:
  "(i, off) \<in> set (ids_of (chain_entries C ch)) \<longleftrightarrow> (\<exists>e \<in> set ch. holds_operation i e \<and> off = bh_offset (ab_header (fst e)))"
  by (induction ch) (auto simp: ids_of_def chain_entries_def iblock_of_def holds_operation_def)

lemma dir_get_by_operation_reads:
  assumes h: "dir_store_holds C E st ch"
  shows "\<exists>r st'. dir_get_block_by_operation_id C E i st = (Ok r, st') \<and> dir_store_holds C E st' ch \<and>
    (case r of None \<Rightarrow> (\<forall>e \<in> set ch. \<not> holds_operation i e)
     | Some b \<Rightarrow> \<exists>e \<in> set ch. holds_operation i e \<and> block_is C b (fst e))"
proof -
  obtain ix ps mem where ix: "ds_index st = Some ix" "index_holds E ix ps mem" "concat ps @ mem = chain_entries C ch"
    and u: "unique_ids (chain_entries C ch)"
    using h by (auto simp: dir_store_holds_def dir_holds_def chain_ok_def)
  have found: "get_operation_block E ix i = Some off \<longleftrightarrow>
      (\<exists>e \<in> set ch. holds_operation i e \<and> off = bh_offset (ab_header (fst e)))" for off
    using get_operation_block_iff [OF ix(2)] u by (simp add: ix(3) ids_of_chain)
  show ?thesis
  proof (cases "get_operation_block E ix i")
    case None
    with found have "\<forall>e \<in> set ch. \<not> holds_operation i e" by auto
    with None ix(1) h show ?thesis by (simp add: dir_get_block_by_operation_id_def)
  next
    case (Some off)
    then obtain e where e: "e \<in> set ch" "holds_operation i e" "off = bh_offset (ab_header (fst e))" using found by blast
    then obtain k where k: "k < length ch" "e = ch ! k" by (auto simp: in_set_conv_nth)
    obtain bss where bss: "concat bss = blocks_of ch" "segs_store C (ds_segments st) bss" by (rule dir_store_segments [OF h])
    have kb: "k < length (concat bss)" "concat bss ! k = fst e" using k bss(1) by simp_all
    then obtain b st' where b: "dir_get_block C off st = (Ok b, st')" "block_is C b (fst e)" "same_store st st'"
      using dir_get_block_reads [OF bss(2) kb(1)] e(3) by auto
    have "dir_get_block_by_operation_id C E i st = (Ok (Some b), st')"
      using Some ix(1) b(1) by (simp add: dir_get_block_by_operation_id_def)
    with e(1,2) b(2) dir_store_holds_same [OF h b(3)] show ?thesis by auto
  qed
qed

interpretation dir: chain_store C "dir_store_holds C E" "dir_write_block C E" "dir_get_block C"
  "dir_get_block_from_next_offset C" "dir_get_last_block C" "dir_get_block_by_operation_id C E"
  "\<lambda>off. collect_blocks C (blocks_iter off)" "\<lambda>off. collect_blocks_reverse C (blocks_iter_reverse off)"
  for C :: "('c) codec_scheme" and E :: "'r ext_index"
proof unfold_locales
  fix st :: "'r dir_store" and ch
  assume h: "dir_store_holds C E st ch"
  then show "chain_ok C ch" by (simp add: dir_store_holds_def dir_holds_def)
  obtain bss where bss: "concat bss = blocks_of ch" and s: "segs_store C (ds_segments st) bss" by (rule dir_store_segments [OF h])
  note same = dir_store_holds_same [OF h]
  have at: "concat bss ! k = block_at ch k" "k < length (concat bss)" if "k < length ch" for k
    using that bss by simp_all
  show "\<exists>b st'. dir_get_block C (offset_at ch k) st = (Ok b, st') \<and> block_is C b (block_at ch k) \<and> dir_store_holds C E st' ch"
    if "k < length ch" for k
    using dir_get_block_reads [OF s at(2) [OF that]] at(1) [OF that] same by metis
  show "\<exists>b st'. dir_get_block_from_next_offset C (offset_at ch k + length (block_bytes C (block_at ch k))) st = (Ok b, st') \<and>
      block_is C b (block_at ch k) \<and> dir_store_holds C E st' ch" if "k < length ch" for k
    using dir_get_block_from_next_reads [OF s at(2) [OF that]] at(1) [OF that] same by metis
  show "dir_get_block C off st = (Err OutOfBound, st)" if "chain_end C ch \<le> off" for off
    using dir_get_block_out [OF s] that bss by (simp add: chain_end_def)
  show "\<exists>r st'. dir_get_last_block C st = (Ok r, st') \<and> dir_store_holds C E st' ch \<and>
      (case r of None \<Rightarrow> ch = [] | Some b \<Rightarrow> ch \<noteq> [] \<and> block_is C b (fst (last ch)))"
    using dir_get_last_block_reads [OF s] bss h same
    by (cases "ch = []") (force simp: last_map)+
  have off: "chain_end C (take k ch) = span_of C (take k (concat bss))" for k
    by (simp add: chain_end_def bss take_map)
  show "\<exists>bs st'. collect_blocks C (blocks_iter (chain_end C (take k ch))) st = (Ok bs, st') \<and> dir_store_holds C E st' ch \<and>
      list_all2 (block_is C) bs (drop k (blocks_of ch))" if "k \<le> length ch" for k
  proof -
    have "iter_at C (ds_segments st) bss k (blocks_iter (chain_end C (take k ch)))"
      using that by (simp add: iter_at_def blocks_iter_def off) (simp add: bss)
    from collect_blocks_reads [OF s this] show ?thesis using same unfolding bss by blast
  qed
  show "\<exists>bs st'. collect_blocks_reverse C (blocks_iter_reverse (chain_end C (take k ch))) st = (Ok bs, st') \<and>
      dir_store_holds C E st' ch \<and> list_all2 (block_is C) bs (rev (take k (blocks_of ch)))" if "k \<le> length ch" for k
  proof -
    have "iter_after C (ds_segments st) bss k (blocks_iter_reverse (chain_end C (take k ch)))"
      using that by (simp add: iter_after_def blocks_iter_reverse_def off) (simp add: bss)
    from collect_reverse_reads [OF s this] show ?thesis using same unfolding bss by blast
  qed
  have eh: "ext_index_ok E" "dir_holds C E st ch" using h by (simp_all add: dir_store_holds_def)
  show "\<exists>st'. dir_write_block C E b st = (Ok (chain_end C (ch @ [(a, ms)])), st') \<and> dir_store_holds C E st' (ch @ [(a, ms)])"
    if "block_is C b a" "chain_ok C (ch @ [(a, ms)])" for b a ms
    using dir_write_block_ok [OF eh that] eh(1) by (simp add: dir_store_holds_def chain_end_def)
qed (rule dir_get_by_operation_reads)

lemma dir_create_holds:
  assumes "ext_index_ok E" and "dir_create config [] = Ok st"
  shows "dir_store_holds C E st []"
  using assms index_create_holds [of E]
  by (auto simp: dir_store_holds_def dir_create_def dir_holds_def chain_ok_def segs_store_def chain_entries_def
      unique_ids_def ids_of_def intro!: exI [of _ "[]"])

lemma example_chain_ok: "chain_ok example_codec [(example_genesis, example_ops)]"
  using example_genesis_wf example_genesis_holds example_unique
  by (simp add: chain_ok_def chain_entries_def)

lemma example_dir_store:
  obtains st b where "dir_create dir_config_default [] = Ok st" "dir_store_holds example_codec example_ext st []"
    "block_is example_codec b example_genesis"
proof -
  obtain b where b: "block_is example_codec b example_genesis" by (rule example_genesis_built)
  define st :: "(nat \<times> nat) list dir_store" where
    "st = \<lparr>ds_config = dir_config_default, ds_segments = [], ds_tracker = tracker_new (segment_max_open_mmap dir_config_default),
               ds_index = Some index_create, ds_metadata = [], ds_files = []\<rparr>"
  have "dir_create dir_config_default [] = Ok st" by (simp add: dir_create_def st_def)
  with b dir_create_holds [OF example_ext_ok this] that show thesis by blast
qed

section \<open>Properties\<close>

text \<open>
  (C2) The directory store refines a list of blocks. A created store holds the empty chain, and
  writing a block that extends the chain at its end appends it, whichever segment it goes to,
  and returns the offset of the next block. Blocks already stored are read back afterwards.
\<close>

theorem dir_store_appends:
  assumes "dir_store_holds C E st ch" and "block_is C b a" and "chain_ok C (ch @ [(a, ms)])"
  shows "\<exists>st'. dir_write_block C E b st = (Ok (chain_end C (ch @ [(a, ms)])), st') \<and>
    dir_store_holds C E st' (ch @ [(a, ms)]) \<and>
    (\<forall>k < Suc (length ch). \<exists>x st''. dir_get_block C (offset_at (ch @ [(a, ms)]) k) st' = (Ok x, st'') \<and>
       block_is C x (block_at (ch @ [(a, ms)]) k))"
proof -
  obtain st' where st': "dir_write_block C E b st = (Ok (chain_end C (ch @ [(a, ms)])), st')"
      "dir_store_holds C E st' (ch @ [(a, ms)])"
    using dir.write_ok [OF assms] by blast
  have "\<exists>x st''. dir_get_block C (offset_at (ch @ [(a, ms)]) k) st' = (Ok x, st'') \<and>
       block_is C x (block_at (ch @ [(a, ms)]) k)" if "k < Suc (length ch)" for k
    using dir.get_ok [OF st'(2), of k] that by auto
  with st' show ?thesis by blast
qed

theorem dir_store_appends_witness:
  "\<exists>st b st'. dir_create dir_config_default [] = Ok st \<and>
     dir_write_block example_codec example_ext b st =
       (Ok (chain_end example_codec [(example_genesis, example_ops)]), st') \<and>
     dir_store_holds example_codec example_ext st' [(example_genesis, example_ops)]"
proof -
  obtain st b where st: "dir_create dir_config_default [] = Ok st" "dir_store_holds example_codec example_ext st []"
    and b: "block_is example_codec b example_genesis" by (rule example_dir_store)
  have "chain_ok example_codec ([] @ [(example_genesis, example_ops)])" using example_chain_ok by simp
  from dir_store_appends [OF st(2) b this] st(1) show ?thesis by (metis append_Nil)
qed

text \<open>
  (C16) Every way to read a store that holds a chain gives the blocks of the chain: by the offset
  of a block, by the offset that follows it, as the last block, iterating forwards from a block
  to the end, and backwards from a block to the beginning; an offset after the end is refused.
\<close>

theorem dir_store_reads:
  assumes "dir_store_holds C E st ch" and "k < length ch"
  shows "(\<exists>b st'. dir_get_block C (offset_at ch k) st = (Ok b, st') \<and> block_is C b (block_at ch k)) \<and>
    (\<exists>b st'. dir_get_block_from_next_offset C (offset_at ch k + length (block_bytes C (block_at ch k))) st = (Ok b, st') \<and>
       block_is C b (block_at ch k)) \<and>
    (\<exists>b st'. dir_get_last_block C st = (Ok (Some b), st') \<and> block_is C b (fst (last ch))) \<and>
    (\<exists>bs st'. collect_blocks C (blocks_iter (chain_end C (take k ch))) st = (Ok bs, st') \<and>
       list_all2 (block_is C) bs (drop k (blocks_of ch))) \<and>
    (\<exists>bs st'. collect_blocks_reverse C (blocks_iter_reverse (chain_end C (take k ch))) st = (Ok bs, st') \<and>
       list_all2 (block_is C) bs (rev (take k (blocks_of ch)))) \<and>
    dir_get_block C (chain_end C ch) st = (Err OutOfBound, st)"
proof -
  have l: "\<exists>b st'. dir_get_last_block C st = (Ok (Some b), st') \<and> block_is C b (fst (last ch))"
    using dir.get_last_ok [OF assms(1)] assms(2) by (auto split: option.splits)
  show ?thesis
    using dir.get_ok [OF assms] dir.get_before_ok [OF assms] l dir.blocks_from_ok [OF assms(1), of k]
      dir.blocks_before_ok [OF assms(1), of k] dir.get_out [OF assms(1), of "chain_end C ch"] assms(2)
    by (intro conjI) (blast, blast, blast, force, force, simp)
qed

theorem dir_store_reads_witness:
  "\<exists>st b. dir_store_holds example_codec example_ext st [(example_genesis, example_ops)] \<and>
     dir_get_block example_codec (chain_end example_codec [(example_genesis, example_ops)]) st = (Err OutOfBound, st) \<and>
     (\<exists>st'. dir_get_block example_codec 0 st = (Ok b, st')) \<and> block_is example_codec b example_genesis"
proof -
  obtain st b where st: "dir_store_holds example_codec example_ext st []" and b: "block_is example_codec b example_genesis"
    by (rule example_dir_store)
  have "chain_ok example_codec ([] @ [(example_genesis, example_ops)])" using example_chain_ok by simp
  from dir.write_ok [OF st b this] obtain st' where
    "dir_store_holds example_codec example_ext st' [(example_genesis, example_ops)]" by auto
  from this dir_store_reads [OF this, of 0] show ?thesis by (auto simp: example_offset_0)
qed

text \<open>
  A block at another offset than the end of the chain is refused by a segment, but a store that has to
  open a new segment does not look at the offset: the segment with the block is created, kept
  and saved before the operation index refuses the block, and the refused block is the last
  block of the store.
\<close>

lemma misplaced_block_stored:
  assumes "dir_create config [] = Ok st" and "block_is C b a" and "ablock_wf C a" and "bh_offset (ab_header a) \<noteq> 0"
  shows "\<exists>st'. dir_write_block C E b st = (Err ChainIntegrity, st') \<and>
    dir_segments st' = [(bh_offset (ab_header a), bh_offset (ab_header a) + length (block_bytes C a))]"
proof -
  have st: "ds_segments st = []" "ds_files st = []" "ds_index st = Some index_create" "ds_config st = config"
    using assms(1) by (auto simp: dir_create_def)
  obtain t1 seg where 1: "segment_create config [] b (ds_tracker st) = (Ok seg, t1)" "seg_holds C seg [a]"
      "seg_first_block_offset seg = bh_offset (ab_header a)" "writable (seg_file seg)"
    using segment_create_ok [OF assms(2,3), of "[]" config "ds_tracker st"] by auto
  obtain t2 seg2 where 2: "segment_open_write (t1, seg) = (Ok (), (t2, seg2))" "same_segment seg seg2"
    using segment_open_write_ok [OF 1(4), of t1] by blast
  have n: "seg_next_block_offset seg = bh_offset (ab_header a) + length (block_bytes C a)"
    using 1(2,3) by (simp add: seg_holds_def seg_stores_def)
  have x: "index_block C E config b index_create = (Err ChainIntegrity, index_create)"
    by (rule index_block_refuses [OF assms(2)]) (simp add: index_create_def write_metadata_def assms(4))
  let ?st = "save_metadata (st\<lparr>ds_files := [sf_path (seg_file seg)], ds_tracker := t2, ds_segments := [seg2]\<rparr>)"
  have new: "dir_new_segment b st = (Ok (), ?st)"
    using 1(1) 2(1) by (simp add: dir_new_segment_def st)
  have "dir_write_block C E b st = (Err ChainIntegrity, ?st\<lparr>ds_index := Some index_create\<rparr>)"
    using x by (simp add: dir_write_block_def block_is_total_size [OF assms(2)] need_new_segment_def st new)
      (simp add: save_metadata_def st)
  moreover have "dir_segments (?st\<lparr>ds_index := Some index_create\<rparr>) =
      [(bh_offset (ab_header a), bh_offset (ab_header a) + length (block_bytes C a))]"
    using 2(2) 1(3) n by (simp add: dir_segments_def save_metadata_def same_segment_def)
  ultimately show ?thesis by blast
qed

end
