(* ===== verification/Exo_Pending.thy ===== *)
theory Exo_Pending
  imports Exo_Block Exo_Maps
begin

text \<open>
  The store of pending operations (\<open>chain/src/pending/mod.rs\<close>, \<open>memory.rs\<close>). The trait
  \<open>PendingStore\<close> is the locale \<open>pending_ops\<close>: what its clients may rely on, as laws over
  \<open>get_operation\<close>. The in-memory store keeps the group of every operation in a timeline
  and the operations in their groups; it is the interpretation of the locale.
\<close>

section \<open>Data\<close>

datatype commit_status = StatusUnknown | Committed nat nat

record stored_operation =
  so_group_id :: nat
  so_operation_id :: nat
  so_operation_type :: operation_type
  so_commit_status :: commit_status
  so_frame :: operation_frame

record stored_group =
  sg_group_id :: nat
  sg_operations :: "stored_operation list"

datatype pending_error = PendingOperation op_error | PendingNotFound

record group_operation =
  go_operation_id :: nat
  go_operation_type :: operation_type
  go_commit_status :: commit_status
  go_frame :: operation_frame

type_synonym group_operations = "(nat \<times> group_operation) list"

record pending_store =
  ps_timeline :: "(nat \<times> nat) list"
  ps_groups :: "(nat \<times> group_operations) list"

definition pending_new :: pending_store where
  "pending_new = \<lparr>ps_timeline = [], ps_groups = []\<rparr>"

section \<open>Operations of the store\<close>

definition pending_put :: "new_operation \<Rightarrow> pending_store \<Rightarrow> bool \<times> pending_store" where
  "pending_put operation st =
     (let group_id = op_get_group_id (no_frame operation);
          operation_id = op_get_id (no_frame operation);
          group_operations = (case map_of (ps_groups st) group_id of Some g \<Rightarrow> g | None \<Rightarrow> []);
          group_operation =
            \<lparr>go_operation_id = operation_id, go_operation_type = op_get_type (no_frame operation),
             go_commit_status = StatusUnknown, go_frame = no_frame operation\<rparr>;
          existed = (map_of (ps_timeline st) operation_id \<noteq> None) in
      (existed,
       st\<lparr>ps_groups := hm_insert group_id (bt_insert operation_id group_operation group_operations) (ps_groups st),
          ps_timeline := bt_insert operation_id group_id (ps_timeline st)\<rparr>))"

definition pending_update_status ::
  "nat \<Rightarrow> commit_status \<Rightarrow> pending_store \<Rightarrow> (pending_error, unit) result \<times> pending_store" where
  "pending_update_status operation_id status st =
     (case map_of (ps_timeline st) operation_id of
        None \<Rightarrow> (Err PendingNotFound, st)
      | Some group_id \<Rightarrow>
          (case map_of (ps_groups st) group_id of
             None \<Rightarrow> (Err PendingNotFound, st)
           | Some group_ops \<Rightarrow>
               (case map_of group_ops operation_id of
                  None \<Rightarrow> (Err PendingNotFound, st)
                | Some op \<Rightarrow>
                    (Ok (), st\<lparr>ps_groups :=
                       hm_insert group_id (bt_insert operation_id (op\<lparr>go_commit_status := status\<rparr>) group_ops)
                         (ps_groups st)\<rparr>))))"

definition stored_of :: "nat \<Rightarrow> nat \<Rightarrow> group_operation \<Rightarrow> stored_operation" where
  "stored_of group_id operation_id op =
     \<lparr>so_group_id = group_id, so_operation_id = operation_id, so_operation_type = go_operation_type op,
      so_commit_status = go_commit_status op, so_frame = go_frame op\<rparr>"

definition get_group_operation :: "pending_store \<Rightarrow> nat \<Rightarrow> nat \<Rightarrow> group_operation option" where
  "get_group_operation st group_id operation_id =
     Option.bind (map_of (ps_groups st) group_id) (\<lambda>group_ops. map_of group_ops operation_id)"

definition pending_get :: "pending_store \<Rightarrow> nat \<Rightarrow> stored_operation option" where
  "pending_get st operation_id =
     Option.bind (map_of (ps_timeline st) operation_id) (\<lambda>group_id.
       map_option (\<lambda>op. stored_of group_id (go_operation_id op) op) (get_group_operation st group_id operation_id))"

definition pending_get_group :: "pending_store \<Rightarrow> nat \<Rightarrow> stored_group option" where
  "pending_get_group st group_id =
     map_option (\<lambda>group_ops.
        \<lparr>sg_group_id = group_id,
         sg_operations = map (\<lambda>(_, op). stored_of group_id (go_operation_id op) op) group_ops\<rparr>)
       (map_of (ps_groups st) group_id)"

text \<open>The iterator ends at the first identifier whose group does not hold it.\<close>

fun pending_iter_ids :: "pending_store \<Rightarrow> (nat \<times> nat) list \<Rightarrow> stored_operation list" where
  "pending_iter_ids st [] = []"
| "pending_iter_ids st ((operation_id, group_id) # ids) =
     (case get_group_operation st group_id operation_id of
        None \<Rightarrow> []
      | Some op \<Rightarrow> stored_of group_id operation_id op # pending_iter_ids st ids)"

definition pending_iter ::
  "nat bound \<times> nat bound \<Rightarrow> pending_store \<Rightarrow> (pending_error, stored_operation list) result" where
  "pending_iter bounds st =
     and_then (bt_range bounds (ps_timeline st)) (\<lambda>ids. Ok (pending_iter_ids st ids))"

definition pending_count :: "pending_store \<Rightarrow> nat" where
  "pending_count st = length (ps_timeline st)"

definition pending_delete :: "nat \<Rightarrow> pending_store \<Rightarrow> pending_store" where
  "pending_delete operation_id st =
     (case map_of (ps_groups st) operation_id of
        Some group_ops \<Rightarrow>
          (let timeline = fold bt_remove (map fst group_ops) (ps_timeline st) in
           st\<lparr>ps_timeline := bt_remove operation_id timeline,
              ps_groups := hm_remove operation_id (ps_groups st)\<rparr>)
      | None \<Rightarrow>
          (let st1 = (case map_of (ps_timeline st) operation_id of
                        Some group_id \<Rightarrow>
                          (case map_of (ps_groups st) group_id of
                             Some group_ops \<Rightarrow>
                               st\<lparr>ps_groups := hm_insert group_id (bt_remove operation_id group_ops) (ps_groups st)\<rparr>
                           | None \<Rightarrow> st)
                      | None \<Rightarrow> st) in
           st1\<lparr>ps_timeline := bt_remove operation_id (ps_timeline st1)\<rparr>))"

section \<open>The contract of a pending store\<close>

definition new_stored :: "new_operation \<Rightarrow> stored_operation" where
  "new_stored operation =
     \<lparr>so_group_id = op_get_group_id (no_frame operation), so_operation_id = op_get_id (no_frame operation),
      so_operation_type = op_get_type (no_frame operation), so_commit_status = StatusUnknown,
      so_frame = no_frame operation\<rparr>"

definition group_ids :: "stored_group option \<Rightarrow> nat set" where
  "group_ids g = (case g of None \<Rightarrow> {} | Some grp \<Rightarrow> so_operation_id ` set (sg_operations grp))"

definition ops_within :: "(nat \<rightharpoonup> stored_operation) \<Rightarrow> nat bound \<times> nat bound \<Rightarrow> stored_operation list" where
  "ops_within m r = map (\<lambda>i. the (m i)) (sorted_list_of_set {i \<in> dom m. in_range r i})"

locale pending_ops =
  fixes inv :: "'s \<Rightarrow> bool"
    and new :: "'s"
    and put :: "new_operation \<Rightarrow> 's \<Rightarrow> bool \<times> 's"
    and update :: "nat \<Rightarrow> commit_status \<Rightarrow> 's \<Rightarrow> (pending_error, unit) result \<times> 's"
    and get :: "'s \<Rightarrow> nat \<Rightarrow> stored_operation option"
    and get_group :: "'s \<Rightarrow> nat \<Rightarrow> stored_group option"
    and iter :: "nat bound \<times> nat bound \<Rightarrow> 's \<Rightarrow> (pending_error, stored_operation list) result"
    and count :: "'s \<Rightarrow> nat"
    and delete :: "nat \<Rightarrow> 's \<Rightarrow> 's"
  assumes inv_new: "inv new"
    and inv_put: "inv s \<Longrightarrow> inv (snd (put op s))"
    and inv_update: "inv s \<Longrightarrow> inv (snd (update i c s))"
    and inv_delete: "inv s \<Longrightarrow> inv (delete i s)"
    and finite_get: "inv s \<Longrightarrow> finite (dom (get s))"
    and get_new: "get new = Map.empty"
    and get_id: "inv s \<Longrightarrow> get s i = Some sop \<Longrightarrow> so_operation_id sop = i"
    and put_existed: "inv s \<Longrightarrow> fst (put op s) = (op_get_id (no_frame op) \<in> dom (get s))"
    and get_put: "inv s \<Longrightarrow> get (snd (put op s)) = (get s)(op_get_id (no_frame op) \<mapsto> new_stored op)"
    and update_missing: "inv s \<Longrightarrow> get s i = None \<Longrightarrow> update i c s = (Err PendingNotFound, s)"
    and update_found: "inv s \<Longrightarrow> get s i = Some sop \<Longrightarrow>
          fst (update i c s) = Ok () \<and> get (snd (update i c s)) = (get s)(i \<mapsto> sop\<lparr>so_commit_status := c\<rparr>)"
    and iter_within: "inv s \<Longrightarrow> range_ok r \<Longrightarrow> iter r s = Ok (ops_within (get s) r)"
    and count_dom: "inv s \<Longrightarrow> count s = card (dom (get s))"
    and get_group_mem: "inv s \<Longrightarrow> get s i = Some sop \<Longrightarrow> i \<in> group_ids (get_group s (so_group_id sop))"
    and get_delete: "inv s \<Longrightarrow> get (delete i s) = get s |` (- insert i (group_ids (get_group s i)))"
begin

lemma inv_puts: "inv s \<Longrightarrow> inv (fold (\<lambda>op s. snd (put op s)) ops s)"
  by (induction ops arbitrary: s) (simp_all add: inv_put)

lemma inv_deletes: "inv s \<Longrightarrow> inv (fold delete is s)"
  by (induction "is" arbitrary: s) (simp_all add: inv_delete)

text \<open>Putting a series of operations: the last one with an identifier is kept.\<close>

lemma get_puts:
  assumes "inv s"
  shows "get (fold (\<lambda>op s. snd (put op s)) ops s) =
     get s ++ map_of (rev (map (\<lambda>op. (op_get_id (no_frame op), new_stored op)) ops))"
  using assms
proof (induction ops arbitrary: s)
  case (Cons op ops)
  then show ?case
    by (simp add: inv_put get_put map_add_def fun_eq_iff split: option.split)
qed simp

text \<open>The iteration over the whole store counts its operations and visits each of them once.\<close>

lemma iter_all:
  assumes "inv s"
  shows "\<exists>ops. iter (Unbounded, Unbounded) s = Ok ops \<and> length ops = count s \<and> distinct ops \<and>
           set ops = ran (get s) \<and> sorted_wrt (<) (map so_operation_id ops)"
proof -
  have all: "{i \<in> dom (get s). in_range (Unbounded, Unbounded) i} = dom (get s)" by simp
  let ?is = "sorted_list_of_set (dom (get s))" and ?ops = "ops_within (get s) (Unbounded, Unbounded)"
  have ops: "?ops = map (\<lambda>i. the (get s i)) ?is" by (simp only: ops_within_def all)
  have "so_operation_id (the (get s i)) = i" if "i \<in> dom (get s)" for i
    using that get_id [OF assms] by auto
  then have ids: "map so_operation_id ?ops = ?is"
    using finite_get [OF assms] by (auto simp: ops intro: map_idI)
  have "set ?ops = ran (get s)"
    using finite_get [OF assms] by (force simp: ops ran_def image_def)
  moreover have "distinct ?ops"
    using ids distinct_map by (metis distinct_sorted_list_of_set)
  moreover have "sorted_wrt (<) (map so_operation_id ?ops)"
    by (simp add: ids)
  moreover have "length ?ops = count s"
    using finite_get [OF assms] by (simp add: ops count_dom [OF assms])
  ultimately show ?thesis using iter_within [OF assms, of "(Unbounded, Unbounded)"] by auto
qed

text \<open>The iteration depends on the operations of the store only.\<close>

lemma iter_cong:
  "inv s \<Longrightarrow> inv s' \<Longrightarrow> get s = get s' \<Longrightarrow> range_ok r \<Longrightarrow> iter r s = iter r s'"
  by (simp add: iter_within)

end

section \<open>The in-memory store meets the contract\<close>

definition pending_inv :: "pending_store \<Rightarrow> bool" where
  "pending_inv st \<longleftrightarrow>
     bt_wf (ps_timeline st) \<and> hm_wf (ps_groups st) \<and>
     (\<forall>g ops. map_of (ps_groups st) g = Some ops \<longrightarrow>
        bt_wf ops \<and> (\<forall>x op. map_of ops x = Some op \<longrightarrow> go_operation_id op = x)) \<and>
     (\<forall>x g. map_of (ps_timeline st) x = Some g \<longrightarrow> get_group_operation st g x \<noteq> None)"

lemma pending_invD:
  assumes "pending_inv st"
  shows "bt_wf (ps_timeline st)" and "hm_wf (ps_groups st)"
    and "map_of (ps_groups st) g = Some ops \<Longrightarrow> bt_wf ops"
    and "get_group_operation st g x = Some op \<Longrightarrow> go_operation_id op = x"
    and "map_of (ps_timeline st) x = Some g \<Longrightarrow> \<exists>op. get_group_operation st g x = Some op"
    and "map_of (ps_groups st) g = Some ops \<Longrightarrow> map_of ops x = Some op \<Longrightarrow> go_operation_id op = x"
  using assms by (auto simp: pending_inv_def get_group_operation_def bind_eq_Some_conv)

text \<open>In a store that satisfies the invariant an operation is found in the group of its timeline entry.\<close>

lemma pending_get_eq:
  assumes "pending_inv st"
  shows "pending_get st x =
     (case map_of (ps_timeline st) x of
        None \<Rightarrow> None
      | Some g \<Rightarrow> Some (stored_of g x (the (get_group_operation st g x))))"
  using pending_invD(4,5) [OF assms]
  by (fastforce simp: pending_get_def split: option.split)

lemma dom_pending_get: "pending_inv st \<Longrightarrow> dom (pending_get st) = dom (map_of (ps_timeline st))"
  by (auto simp: pending_get_eq split: option.splits)

lemma group_operation_insert:
  assumes "hm_wf (ps_groups st)"
  shows "get_group_operation (st\<lparr>ps_groups := hm_insert g ops (ps_groups st)\<rparr>) g' x =
     (if g' = g then map_of ops x else get_group_operation st g' x)"
  using assms by (simp add: get_group_operation_def hm_insert_lookup)

lemma group_operation_timeline [simp]:
  "get_group_operation (st\<lparr>ps_timeline := ids\<rparr>) = get_group_operation st"
  "get_group_operation (st\<lparr>ps_groups := gs, ps_timeline := ids\<rparr>) = get_group_operation (st\<lparr>ps_groups := gs\<rparr>)"
  by (simp_all add: get_group_operation_def fun_eq_iff)

lemma pending_new_inv: "pending_inv pending_new"
  by (simp add: pending_inv_def pending_new_def bt_wf_basics hm_wf_basics)

definition put_group :: "new_operation \<Rightarrow> pending_store \<Rightarrow> group_operations" where
  "put_group operation st =
     bt_insert (op_get_id (no_frame operation))
       \<lparr>go_operation_id = op_get_id (no_frame operation), go_operation_type = op_get_type (no_frame operation),
        go_commit_status = StatusUnknown, go_frame = no_frame operation\<rparr>
       (case map_of (ps_groups st) (op_get_group_id (no_frame operation)) of Some g \<Rightarrow> g | None \<Rightarrow> [])"

lemma pending_put_eq:
  "snd (pending_put operation st) =
     st\<lparr>ps_groups := hm_insert (op_get_group_id (no_frame operation)) (put_group operation st) (ps_groups st),
        ps_timeline := bt_insert (op_get_id (no_frame operation)) (op_get_group_id (no_frame operation)) (ps_timeline st)\<rparr>"
  by (simp add: pending_put_def put_group_def Let_def)

lemma map_of_put_group:
  "map_of (put_group operation st) x =
     (if x = op_get_id (no_frame operation)
      then Some \<lparr>go_operation_id = x, go_operation_type = op_get_type (no_frame operation),
                 go_commit_status = StatusUnknown, go_frame = no_frame operation\<rparr>
      else get_group_operation st (op_get_group_id (no_frame operation)) x)"
  by (auto simp: put_group_def bt_insert_lookup get_group_operation_def split: option.split)

lemma pending_put_inv:
  assumes "pending_inv st"
  shows "pending_inv (snd (pending_put operation st))"
proof -
  note inv = pending_invD [OF assms]
  have "bt_wf (put_group operation st)"
    using inv(3) by (auto simp: put_group_def bt_wf_def intro!: bt_insert_wf [unfolded bt_wf_def] split: option.split)
  with inv show ?thesis
    unfolding pending_inv_def pending_put_eq
    by (auto simp: bt_insert_wf hm_insert_wf bt_insert_lookup hm_insert_lookup group_operation_insert
        map_of_put_group dest: inv(6) split: if_splits)
qed

lemma pending_put_get:
  assumes "pending_inv st"
  shows "pending_get (snd (pending_put operation st)) =
     (pending_get st)(op_get_id (no_frame operation) \<mapsto> new_stored operation)"
proof
  fix x
  note inv = pending_invD [OF assms]
  show "pending_get (snd (pending_put operation st)) x =
     ((pending_get st)(op_get_id (no_frame operation) \<mapsto> new_stored operation)) x"
    using inv(2)
    unfolding pending_get_eq [OF pending_put_inv [OF assms]] pending_get_eq [OF assms]
    by (auto simp: pending_put_eq pending_get_eq [OF assms] bt_insert_lookup group_operation_insert map_of_put_group stored_of_def new_stored_def
        split: option.split)
qed

lemma pending_update_cases:
  assumes inv: "pending_inv st"
  shows "pending_get st x = None \<Longrightarrow> pending_update_status x c st = (Err PendingNotFound, st)"
    and "pending_get st x = Some sop \<Longrightarrow> fst (pending_update_status x c st) = Ok ()"
    and "pending_inv (snd (pending_update_status x c st))"
    and "pending_get st x = Some sop \<Longrightarrow>
       pending_get (snd (pending_update_status x c st)) = (pending_get st)(x \<mapsto> sop\<lparr>so_commit_status := c\<rparr>)"
proof -
  note invD = pending_invD [OF inv]
  show none: "pending_get st x = None \<Longrightarrow> pending_update_status x c st = (Err PendingNotFound, st)"
    using invD(5) [of x] by (auto simp: pending_get_eq [OF inv] pending_update_status_def split: option.splits)
  define upd where "upd g ops op = st\<lparr>ps_groups := hm_insert g (bt_insert x (op\<lparr>go_commit_status := c\<rparr>) ops) (ps_groups st)\<rparr>"
    for g ops op
  have found: "\<exists>g ops op. map_of (ps_timeline st) x = Some g \<and> map_of (ps_groups st) g = Some ops \<and>
      map_of ops x = Some op \<and> sop = stored_of g x op \<and> pending_update_status x c st = (Ok (), upd g ops op)"
    if "pending_get st x = Some sop" for sop
    using that invD(4,5)
    by (fastforce simp: pending_get_def get_group_operation_def bind_eq_Some_conv pending_update_status_def upd_def)
  have updinv: "pending_inv (upd g ops op)"
    and updget: "pending_get (upd g ops op) = (pending_get st)(x \<mapsto> (stored_of g x op)\<lparr>so_commit_status := c\<rparr>)"
    if "map_of (ps_timeline st) x = Some g" "map_of (ps_groups st) g = Some ops" "map_of ops x = Some op" for g ops op
  proof -
    have grp: "get_group_operation (upd g ops op) g' y =
        (if g' = g \<and> y = x then Some (op\<lparr>go_commit_status := c\<rparr>) else get_group_operation st g' y)" for g' y
      using that invD(2) by (simp add: upd_def bt_insert_lookup hm_insert_lookup get_group_operation_def)
    have id: "go_operation_id op = x"
      using invD(4) [of g x op] that by (simp add: get_group_operation_def)
    have "bt_wf (bt_insert x (op\<lparr>go_commit_status := c\<rparr>) ops)" using invD(3) that by (simp add: bt_insert_wf)
    with inv that id show i: "pending_inv (upd g ops op)"
      unfolding pending_inv_def grp
      by (auto simp: upd_def hm_insert_wf hm_insert_lookup bt_insert_lookup split: if_splits)
    show "pending_get (upd g ops op) = (pending_get st)(x \<mapsto> (stored_of g x op)\<lparr>so_commit_status := c\<rparr>)"
      unfolding pending_get_eq [OF i] grp fun_eq_iff
      using that by (auto simp: pending_get_eq [OF inv] upd_def stored_of_def split: option.split)
  qed
  show "pending_get st x = Some sop \<Longrightarrow> fst (pending_update_status x c st) = Ok ()"
    using found by fastforce
  show "pending_inv (snd (pending_update_status x c st))"
  proof (cases "pending_get st x")
    case None
    with none inv show ?thesis by simp
  next
    case (Some sop)
    with found updinv show ?thesis by fastforce
  qed
  show "pending_get st x = Some sop \<Longrightarrow>
       pending_get (snd (pending_update_status x c st)) = (pending_get st)(x \<mapsto> sop\<lparr>so_commit_status := c\<rparr>)"
    using found updget by fastforce
qed

text \<open>Iterating: the ranges of the timeline are the operations in the order of their identifiers.\<close>

lemma pending_iter_ids_all:
  assumes "pending_inv st" and "\<And>x g. (x, g) \<in> set ids \<Longrightarrow> map_of (ps_timeline st) x = Some g"
  shows "pending_iter_ids st ids = map (\<lambda>x. the (pending_get st x)) (map fst ids)"
  using assms(2)
proof (induction ids)
  case (Cons e ids)
  obtain x g where e: "e = (x, g)" by (cases e)
  then have "map_of (ps_timeline st) x = Some g" using Cons.prems by simp
  moreover obtain op where "get_group_operation st g x = Some op"
    using pending_invD(5) [OF assms(1)] calculation by blast
  ultimately have "pending_get st x = Some (stored_of g x op)"
    by (simp add: pending_get_eq [OF assms(1)])
  then show ?case
    using Cons \<open>get_group_operation st g x = Some op\<close> by (simp add: e)
qed simp

lemma pending_iter_within:
  assumes inv: "pending_inv st" and r: "range_ok r"
  shows "pending_iter r st = Ok (ops_within (pending_get st) r)"
proof -
  note wf = pending_invD(1) [OF inv]
  let ?ids = "filter (\<lambda>e. in_range r (fst e)) (ps_timeline st)"
  have "(x, g) \<in> set ?ids \<Longrightarrow> map_of (ps_timeline st) x = Some g" for x g
    using bt_wf_basics(3) [OF wf] by simp
  then have "pending_iter_ids st ?ids = map (\<lambda>x. the (pending_get st x)) (map fst ?ids)"
    by (rule pending_iter_ids_all [OF inv])
  moreover have "map fst ?ids = sorted_list_of_set {x \<in> dom (pending_get st). in_range r x}"
  proof (rule sorted_distinct_set_unique)
    show "sorted (map fst ?ids)" "distinct (map fst ?ids)"
      using bt_wf_basics(2,3) [OF bt_wf_filter [OF wf]] by auto
    have "finite (dom (pending_get st))"
      by (simp add: dom_pending_get [OF inv] finite_dom_map_of)
    then show "set (map fst ?ids) = set (sorted_list_of_set {x \<in> dom (pending_get st). in_range r x})"
      by (force simp: dom_pending_get [OF inv] dom_map_of_conv_image_fst)
  qed simp_all
  ultimately show ?thesis using r by (simp add: pending_iter_def bt_range_def ops_within_def)
qed

text \<open>Deleting: the operation, and those of its group when it is one.\<close>

lemma bt_removes:
  "map_of (fold bt_remove ks m) = map_of m |` (- set ks)" "bt_wf m \<Longrightarrow> bt_wf (fold bt_remove ks m)"
  by (induction ks arbitrary: m)
    (auto simp: bt_remove_def map_of_filter_neq bt_wf_filter fun_eq_iff restrict_map_def)

lemma group_ids_get:
  assumes "pending_inv st"
  shows "group_ids (pending_get_group st g) = {x. get_group_operation st g x \<noteq> None}"
proof (cases "map_of (ps_groups st) g")
  case None
  then show ?thesis by (simp add: pending_get_group_def group_ids_def get_group_operation_def)
next
  case (Some ops)
  then have "distinct (map fst ops)"
    using bt_wf_basics(3) [OF pending_invD(3) [OF assms Some]] by simp
  then have "(\<lambda>(_, op). go_operation_id op) ` set ops = fst ` set ops"
    using pending_invD(6) [OF assms Some] by (force simp: image_def)
  moreover have "so_operation_id ` (\<lambda>(_, op). stored_of g (go_operation_id op) op) ` set ops =
      (\<lambda>(_, op). go_operation_id op) ` set ops"
    by (force simp: image_iff stored_of_def)
  ultimately show ?thesis
    using Some by (simp add: pending_get_group_def group_ids_def get_group_operation_def
        dom_map_of_conv_image_fst [symmetric] dom_def)
qed

lemma timeline_member:
  assumes "pending_inv st" and "map_of (ps_groups st) g = Some ops" and "map_of (ps_timeline st) x = Some g"
  shows "x \<in> fst ` set ops"
  using pending_invD(5) [OF assms(1,3)] assms(2)
  by (auto simp: get_group_operation_def dest: map_of_SomeD intro: rev_image_eqI)

lemma pending_delete_group:
  assumes inv: "pending_inv st" and g: "map_of (ps_groups st) i = Some ops"
  shows "map_of (ps_timeline (pending_delete i st)) = map_of (ps_timeline st) |` (- insert i (fst ` set ops))"
    and "bt_wf (ps_timeline (pending_delete i st))" and "ps_groups (pending_delete i st) = hm_remove i (ps_groups st)"
    and "get_group_operation (pending_delete i st) h x = (if h = i then None else get_group_operation st h x)"
  using pending_invD(1) [OF inv]
  by (auto simp: pending_delete_def g bt_removes bt_remove_def map_of_filter_neq bt_wf_filter Let_def
      restrict_map_def fun_eq_iff get_group_operation_def hm_remove_def)

definition deleted_groups :: "nat \<Rightarrow> pending_store \<Rightarrow> (nat \<times> group_operations) list" where
  "deleted_groups i st =
     (case map_of (ps_timeline st) i of
        None \<Rightarrow> ps_groups st
      | Some g \<Rightarrow>
          (case map_of (ps_groups st) g of
             Some ops \<Rightarrow> hm_insert g (bt_remove i ops) (ps_groups st)
           | None \<Rightarrow> ps_groups st))"

lemma pending_delete_single:
  assumes "map_of (ps_groups st) i = None"
  shows "pending_delete i st = st\<lparr>ps_groups := deleted_groups i st, ps_timeline := bt_remove i (ps_timeline st)\<rparr>"
  using assms by (auto simp: pending_delete_def deleted_groups_def Let_def split: option.split)

lemma deleted_groups_lookup:
  assumes "pending_inv st"
  shows "hm_wf (deleted_groups i st)"
    and "map_of (deleted_groups i st) h =
      (if map_of (ps_timeline st) i = Some h then map_option (bt_remove i) (map_of (ps_groups st) h)
       else map_of (ps_groups st) h)"
  using pending_invD(2) [OF assms]
  by (auto simp: deleted_groups_def hm_insert_wf hm_insert_lookup split: option.split)

lemma deleted_group_operation:
  assumes "pending_inv st"
  shows "get_group_operation (st\<lparr>ps_groups := deleted_groups i st\<rparr>) h x =
     (if map_of (ps_timeline st) i = Some h \<and> x = i then None else get_group_operation st h x)"
  by (cases "map_of (ps_groups st) h")
    (auto simp: get_group_operation_def deleted_groups_lookup [OF assms] bt_remove_def map_of_filter_neq)

lemma pending_delete_inv:
  assumes inv: "pending_inv st"
  shows "pending_inv (pending_delete i st)"
proof (cases "map_of (ps_groups st) i")
  case (Some ops)
  note d = pending_delete_group [OF inv Some] and invD = pending_invD [OF inv]
  show ?thesis
    unfolding pending_inv_def
  proof (intro conjI allI impI)
    fix h ops' x op
    assume h: "map_of (ps_groups (pending_delete i st)) h = Some ops'"
    then have "map_of (ps_groups st) h = Some ops'"
      by (auto simp: d(3) hm_remove_def map_of_filter_neq split: if_splits)
    with invD(3,6) show "bt_wf ops'" "map_of ops' x = Some op \<Longrightarrow> go_operation_id op = x" by blast+
  next
    fix x h
    assume "map_of (ps_timeline (pending_delete i st)) x = Some h"
    then have x: "map_of (ps_timeline st) x = Some h" "x \<noteq> i" "x \<notin> fst ` set ops"
      by (auto simp: d(1) restrict_map_def split: if_splits)
    with timeline_member [OF inv Some] have "h \<noteq> i" by blast
    with x(1) invD(5) show "get_group_operation (pending_delete i st) h x \<noteq> None" by (auto simp: d(4))
  qed (use d invD in \<open>simp_all add: hm_wf_basics\<close>)
next
  case None
  note invD = pending_invD [OF inv]
  show ?thesis
    unfolding pending_inv_def pending_delete_single [OF None]
    using invD deleted_groups_lookup [OF inv, of i] deleted_group_operation [OF inv, of i]
    by (auto simp: bt_remove_def bt_wf_filter map_of_filter_neq split: if_splits dest: invD(3,6))
qed

lemma pending_delete_get:
  assumes inv: "pending_inv st"
  shows "pending_get (pending_delete i st) =
     pending_get st |` (- insert i (group_ids (pending_get_group st i)))"
proof (cases "map_of (ps_groups st) i")
  case (Some ops)
  note d = pending_delete_group [OF inv Some] and invD = pending_invD [OF inv]
  have ids: "group_ids (pending_get_group st i) = fst ` set ops"
    using Some by (simp add: group_ids_get [OF inv] get_group_operation_def dom_map_of_conv_image_fst [symmetric] dom_def)
  have "map_of (ps_timeline st) x = Some h \<Longrightarrow> x \<notin> fst ` set ops \<Longrightarrow> h \<noteq> i" for x h
    using timeline_member [OF inv Some] by blast
  then show ?thesis
    unfolding ids fun_eq_iff pending_get_eq [OF pending_delete_inv [OF inv]]
    by (auto simp: pending_get_eq [OF inv] d(1,4) restrict_map_def split: option.split)
next
  case None
  then have "group_ids (pending_get_group st i) = {}"
    by (simp add: group_ids_get [OF inv] get_group_operation_def)
  then show ?thesis
    unfolding fun_eq_iff pending_get_eq [OF pending_delete_inv [OF inv]]
    by (auto simp: pending_get_eq [OF inv] pending_delete_single [OF None] bt_remove_def map_of_filter_neq
        deleted_group_operation [OF inv] restrict_map_def split: option.split)
qed

interpretation mem: pending_ops pending_inv pending_new pending_put pending_update_status pending_get
  pending_get_group pending_iter pending_count pending_delete
proof unfold_locales
  fix s :: pending_store and i sop
  assume s: "pending_inv s"
  show "finite (dom (pending_get s))"
    by (simp add: dom_pending_get [OF s] finite_dom_map_of)
  show "pending_count s = card (dom (pending_get s))"
    using bt.count_card [OF pending_invD(1) [OF s]] by (simp add: pending_count_def dom_pending_get [OF s])
  assume i: "pending_get s i = Some sop"
  then show "so_operation_id sop = i"
    by (auto simp: pending_get_eq [OF s] stored_of_def split: option.splits)
  show "i \<in> group_ids (pending_get_group s (so_group_id sop))"
    using i pending_invD(5) [OF s, of i]
    by (auto simp: pending_get_eq [OF s] group_ids_get [OF s] stored_of_def split: option.splits)
next
  fix s :: pending_store and op
  assume s: "pending_inv s"
  show "fst (pending_put op s) = (op_get_id (no_frame op) \<in> dom (pending_get s))"
    by (auto simp: dom_pending_get [OF s] pending_put_def Let_def)
next
  show "pending_get pending_new = Map.empty"
    by (simp add: pending_get_def pending_new_def fun_eq_iff)
qed (simp_all add: pending_new_inv pending_put_inv pending_put_get pending_update_cases pending_iter_within
    pending_delete_inv pending_delete_get)

section \<open>Reachable stores\<close>

inductive pending_step :: "pending_store \<Rightarrow> pending_store \<Rightarrow> bool" where
  step_put: "pending_step st (snd (pending_put operation st))"
| step_update: "pending_step st (snd (pending_update_status operation_id status st))"
| step_delete: "pending_step st (pending_delete operation_id st)"

inductive_cases pending_stepE: "pending_step st st'"

definition pending_reachable :: "pending_store \<Rightarrow> bool" where
  "pending_reachable st \<longleftrightarrow> pending_step\<^sup>*\<^sup>* pending_new st"

lemma pending_step_inv: "pending_step st st' \<Longrightarrow> pending_inv st \<Longrightarrow> pending_inv st'"
  by (erule pending_stepE) (auto intro: mem.inv_put mem.inv_update mem.inv_delete)

lemma pending_reachable_inv: "pending_reachable st \<Longrightarrow> pending_inv st"
  unfolding pending_reachable_def
  by (induction rule: rtranclp_induct) (auto intro: mem.inv_new pending_step_inv)

lemma pending_reachable_put:
  "pending_reachable st \<Longrightarrow> pending_reachable (snd (pending_put operation st))"
  unfolding pending_reachable_def by (meson rtranclp.rtrancl_into_rtrancl step_put)

lemma pending_reachable_new: "pending_reachable pending_new"
  by (simp add: pending_reachable_def)

text \<open>A small store: an entry and a block proposal with its signature, in two groups.\<close>

definition example_pending_op :: "nat \<Rightarrow> nat \<Rightarrow> op_body \<Rightarrow> new_operation" where
  "example_pending_op g i body =
     \<lparr>no_operation_id = i,
      no_frame = \<lparr>tf_frame = RawFrame [], tf_reader = \<lparr>co_operation_id = i, co_group_id = g, co_node_id = ''n1'',
        co_operation = body\<rparr>\<rparr>\<rparr>"

definition example_pending :: pending_store where
  "example_pending =
     fold (\<lambda>op st. snd (pending_put op st))
       [example_pending_op 7 7 (OpBlockPropose []), example_pending_op 5 5 (OpEntry []),
        example_pending_op 7 9 (OpBlockSign ''n1'' [])] pending_new"

lemma example_pending_reachable: "pending_reachable example_pending"
  by (simp add: example_pending_def pending_reachable_put pending_reachable_new)

lemma example_pending_ops:
  "dom (pending_get example_pending) = {5, 7, 9}" "group_ids (pending_get_group example_pending 7) = {7, 9}"
proof -
  show "dom (pending_get example_pending) = {5, 7, 9}"
    unfolding dom_pending_get [OF pending_reachable_inv [OF example_pending_reachable]]
    by (auto simp: example_pending_def example_pending_op_def pending_put_def pending_new_def op_get_id_def
        op_get_group_id_def split: if_splits)
  show "group_ids (pending_get_group example_pending 7) = {7, 9}"
    by (auto simp: example_pending_def example_pending_op_def pending_put_def pending_new_def op_get_id_def
        op_get_group_id_def pending_get_group_def group_ids_def stored_of_def)
qed

section \<open>Properties\<close>

text \<open>
  In every store that \<open>put_operation\<close>, \<open>update_operation_commit_status\<close> and
  \<open>delete_operation\<close> can produce from the empty one, an iteration over all operations never ends
  early: it visits each stored operation exactly once, in the order of the identifiers, and
  there are as many as \<open>operations_count\<close> says.
\<close>

lemma pending_iter_complete:
  assumes "pending_reachable st"
  shows "\<exists>ops. pending_iter (Unbounded, Unbounded) st = Ok ops \<and> length ops = pending_count st \<and>
           distinct ops \<and> set ops = ran (pending_get st) \<and> sorted_wrt (<) (map so_operation_id ops)"
  by (rule mem.iter_all [OF pending_reachable_inv [OF assms]])

text \<open>
  (C4) The in-memory store refines a finite map from identifiers to operations: on every
  reachable store, putting an operation updates the map and reports whether the identifier was
  there, updating a status changes that operation only or reports that it is missing, deleting
  removes the operation and, when it is a group, the operations of the group, and a range of
  operations is the operations of the map in that range, in order.
\<close>

theorem pending_refines_map:
  assumes "pending_reachable st"
  shows "pending_get (snd (pending_put operation st)) =
      (pending_get st)(op_get_id (no_frame operation) \<mapsto> new_stored operation) \<and>
    fst (pending_put operation st) = (pending_get st (op_get_id (no_frame operation)) \<noteq> None) \<and>
    (case pending_get st i of
       None \<Rightarrow> pending_update_status i c st = (Err PendingNotFound, st)
     | Some sop \<Rightarrow> fst (pending_update_status i c st) = Ok () \<and>
         pending_get (snd (pending_update_status i c st)) = (pending_get st)(i \<mapsto> sop\<lparr>so_commit_status := c\<rparr>)) \<and>
    pending_get (pending_delete i st) = pending_get st |` (- insert i (group_ids (pending_get_group st i))) \<and>
    pending_iter r st = (if range_ok r then Ok (ops_within (pending_get st) r) else Panic)"
proof -
  note inv = pending_reachable_inv [OF assms]
  have "fst (pending_put operation st) = (pending_get st (op_get_id (no_frame operation)) \<noteq> None)"
    using mem.put_existed [OF inv] by auto
  moreover have "pending_iter r st = Panic" if "\<not> range_ok r"
    using that by (simp add: pending_iter_def bt_range_def)
  ultimately show ?thesis
    using mem.get_put [OF inv] mem.update_missing [OF inv] mem.update_found [OF inv] mem.get_delete [OF inv]
      mem.iter_within [OF inv] by (auto split: option.split)
qed

theorem pending_refines_map_witness:
  "dom (pending_get (pending_delete 7 example_pending)) = {5} \<and>
   pending_update_status 6 StatusUnknown example_pending = (Err PendingNotFound, example_pending) \<and>
   pending_iter (Excluded 5, Excluded 5) example_pending = Panic"
proof -
  have "pending_get example_pending 6 = None" using example_pending_ops(1) domIff [of 6 "pending_get example_pending"] by simp
  then show ?thesis
    using pending_refines_map [OF example_pending_reachable, of _ 6 StatusUnknown "(Excluded 5, Excluded 5)"]
      pending_refines_map [OF example_pending_reachable, of _ 7]
    by (simp add: example_pending_ops)
qed

end
