(* ===== verification/Exo_Time.thy ===== *)
theory Exo_Time
  imports Exo_Prelude
begin

text \<open>
  Time (\<open>core/src/time/consistent_timestamp.rs\<close>, \<open>clock.rs\<close>), the backoff calculator
  (\<open>core/src/utils/backoff.rs\<close>) and the tracker of requests
  (\<open>chain/src/engine/request_tracker.rs\<close>). Durations and instants are nanoseconds; a
  timestamp is a 64-bit word. \<open>Clock::consistent_time\<close> may be called by several threads: it is
  a step relation over the shared counter.
\<close>

type_synonym duration = nat
type_synonym instant = nat

definition as_secs :: "duration \<Rightarrow> nat" where
  "as_secs d = d div 1000000000"

definition subsec_millis :: "duration \<Rightarrow> nat" where
  "subsec_millis d = d mod 1000000000 div 1000000"

section \<open>Consistent timestamps\<close>

type_synonym timestamp = "64 word"

definition from_context :: "duration \<Rightarrow> nat \<Rightarrow> 16 word \<Rightarrow> timestamp" where
  "from_context unix_elapsed counter node_clock_id =
     of_nat (as_secs unix_elapsed) * 1000 * 1000 * 1000 +
     of_nat (subsec_millis unix_elapsed) * 1000 * 1000 +
     ucast (node_clock_id mod 1000) * 1000 +
     of_nat counter"

definition from_unix_elapsed :: "duration \<Rightarrow> timestamp" where
  "from_unix_elapsed dur = of_nat dur"

definition unix_elapsed_duration :: "timestamp \<Rightarrow> duration" where
  "unix_elapsed_duration t = unat t"

definition timestamp_sub :: "timestamp \<Rightarrow> timestamp \<Rightarrow> duration option" where
  "timestamp_sub t rhs = (if rhs \<le> t then Some (unat (t - rhs)) else None)"

definition timestamp_add_duration :: "timestamp \<Rightarrow> duration \<Rightarrow> timestamp" where
  "timestamp_add_duration t rhs = t + of_nat rhs"

definition timestamp_sub_duration :: "timestamp \<Rightarrow> duration \<Rightarrow> timestamp" where
  "timestamp_sub_duration t rhs = t - of_nat rhs"

text \<open>
  The parts of a timestamp as decimal digits: milliseconds, three digits for the node and three
  for the counter. They do not overflow until the year 2554.
\<close>

definition timestamp_bound :: nat where
  "timestamp_bound = 2 ^ 64 - 1000000"

definition timestamp_digits :: "duration \<Rightarrow> nat \<Rightarrow> 16 word \<Rightarrow> nat" where
  "timestamp_digits d counter node = d div 1000000 * 1000000 + unat node mod 1000 * 1000 + counter"

lemma millis_digits: "as_secs d * 1000000000 + subsec_millis d * 1000000 = d div 1000000 * 1000000"
proof -
  have "d = 1000000 * (d div 1000000000 * 1000) + d mod 1000000000" by simp
  then have "d div 1000000 = (1000000 * (d div 1000000000 * 1000) + d mod 1000000000) div 1000000" by simp
  then have "d div 1000000 = d div 1000000000 * 1000 + d mod 1000000000 div 1000000"
    by (simp only: div_mult_self4 num.distinct numeral_eq_iff)
  then show ?thesis by (simp add: as_secs_def subsec_millis_def algebra_simps)
qed

lemma from_context_unat:
  assumes "d < timestamp_bound" and "counter < 1000"
  shows "unat (from_context d counter node) = timestamp_digits d counter node"
proof -
  have node: "ucast (node mod 1000) = (of_nat (unat node mod 1000) :: timestamp)"
    using of_nat_unat [of "node mod 1000", where ?'a = timestamp] by (simp add: unat_mod)
  have "from_context d counter node =
      of_nat (as_secs d * 1000000000 + subsec_millis d * 1000000 + unat node mod 1000 * 1000 + counter)"
    by (simp add: from_context_def node del: of_nat_unat)
  also have "\<dots> = (of_nat (timestamp_digits d counter node) :: timestamp)"
    unfolding millis_digits timestamp_digits_def ..
  finally have eq: "from_context d counter node = of_nat (timestamp_digits d counter node)" .
  have "d div 1000000 * 1000000 \<le> d" by simp
  moreover have "unat node mod 1000 < 1000" by simp
  ultimately have "timestamp_digits d counter node < 2 ^ 64"
    using assms unfolding timestamp_digits_def timestamp_bound_def by linarith
  then show ?thesis unfolding eq by (simp add: unat_of_nat)
qed

lemma timestamp_digits_parts:
  assumes "counter < 1000"
  shows "timestamp_digits d counter node div 1000000 = d div 1000000"
    and "timestamp_digits d counter node div 1000 mod 1000 = unat node mod 1000"
    and "timestamp_digits d counter node mod 1000 = counter"
proof -
  let ?m = "d div 1000000 * 1000 + unat node mod 1000"
  have n: "unat node mod 1000 < 1000" by simp
  with assms show "timestamp_digits d counter node div 1000000 = d div 1000000"
    unfolding timestamp_digits_def by linarith
  have d: "timestamp_digits d counter node = 1000 * ?m + counter"
    by (simp add: timestamp_digits_def)
  show "timestamp_digits d counter node mod 1000 = counter"
    using assms by (simp only: d mod_mult_self4 mod_less)
  have "timestamp_digits d counter node div 1000 = ?m"
    using assms by (simp only: d) simp
  then show "timestamp_digits d counter node div 1000 mod 1000 = unat node mod 1000"
    by (simp only: mod_mult_self3 mod_mod_trivial)
qed

lemma timestamp_digits_mono:
  "d \<le> d' \<Longrightarrow> c \<le> c' \<Longrightarrow> timestamp_digits d c node \<le> timestamp_digits d' c' node"
  by (simp add: timestamp_digits_def add_mono div_le_mono)

lemma timestamp_digits_next_milli:
  assumes "c < 1000"
  shows "timestamp_digits d c node < (d + 1000000) div 1000000 * 1000000"
proof -
  have "unat node mod 1000 < 1000" by simp
  with assms have "unat node mod 1000 * 1000 + c < 1000000" by linarith
  moreover have "(d + 1000000) div 1000000 = d div 1000000 + 1" by simp
  ultimately show ?thesis by (simp add: timestamp_digits_def algebra_simps)
qed

section \<open>The clock\<close>

text \<open>
  Where a thread stands in \<open>consistent_time\<close>: outside of it or about to take a value of the
  counter, asleep after one that is too high, awake again, or about to read the time.
\<close>

datatype clock_pc = Fetching | Sleeping nat instant | Awake nat | Reading nat

record clock =
  ck_counter :: nat
  ck_now :: duration
  ck_threads :: "nat \<Rightarrow> clock_pc"
  ck_issued :: "timestamp list"

definition consistent_counter_max :: nat where
  "consistent_counter_max = 999"

definition clock_new :: "duration \<Rightarrow> clock" where
  "clock_new now = \<lparr>ck_counter = 0, ck_now = now, ck_threads = (\<lambda>_. Fetching), ck_issued = []\<rparr>"

definition set_pc :: "nat \<Rightarrow> clock_pc \<Rightarrow> clock \<Rightarrow> clock" where
  "set_pc t pc ck = ck\<lparr>ck_threads := (ck_threads ck)(t := pc)\<rparr>"

text \<open>\<open>fetch_add\<close>: a value below the limit is used, another one makes the thread sleep.\<close>

definition clock_fetch :: "nat \<Rightarrow> clock \<Rightarrow> clock" where
  "clock_fetch t ck =
     (let counter = ck_counter ck;
          pc = (if counter < consistent_counter_max then Reading counter
                else Sleeping counter (ck_now ck + 1000000)) in
      set_pc t pc (ck\<lparr>ck_counter := counter + 1\<rparr>))"

text \<open>\<open>compare_exchange\<close>: the counter starts again unless another thread moved it.\<close>

definition clock_exchange :: "nat \<Rightarrow> nat \<Rightarrow> clock \<Rightarrow> clock" where
  "clock_exchange t counter ck =
     (if ck_counter ck = counter + 1 then set_pc t (Reading 0) (ck\<lparr>ck_counter := 1\<rparr>)
      else set_pc t Fetching ck)"

definition clock_read :: "16 word \<Rightarrow> nat \<Rightarrow> nat \<Rightarrow> clock \<Rightarrow> clock" where
  "clock_read node t counter ck =
     set_pc t Fetching (ck\<lparr>ck_issued := from_context (ck_now ck) counter node # ck_issued ck\<rparr>)"

inductive clock_step :: "16 word \<Rightarrow> nat set \<Rightarrow> clock \<Rightarrow> clock \<Rightarrow> bool" for node threads where
  step_fetch: "t \<in> threads \<Longrightarrow> ck_threads ck t = Fetching \<Longrightarrow> clock_step node threads ck (clock_fetch t ck)"
| step_wake: "t \<in> threads \<Longrightarrow> ck_threads ck t = Sleeping counter wake \<Longrightarrow> wake \<le> ck_now ck \<Longrightarrow>
    clock_step node threads ck (set_pc t (Awake counter) ck)"
| step_exchange: "t \<in> threads \<Longrightarrow> ck_threads ck t = Awake counter \<Longrightarrow>
    clock_step node threads ck (clock_exchange t counter ck)"
| step_read: "t \<in> threads \<Longrightarrow> ck_threads ck t = Reading counter \<Longrightarrow>
    clock_step node threads ck (clock_read node t counter ck)"
| step_tick: "ck_now ck \<le> now \<Longrightarrow> clock_step node threads ck (ck\<lparr>ck_now := now\<rparr>)"

inductive_cases clock_stepE: "clock_step node threads ck ck'"

definition clock_run :: "16 word \<Rightarrow> nat set \<Rightarrow> clock \<Rightarrow> bool" where
  "clock_run node threads ck \<longleftrightarrow> (\<exists>now. (clock_step node threads)\<^sup>*\<^sup>* (clock_new now) ck)"

lemma clock_run_step: "clock_run node threads ck \<Longrightarrow> clock_step node threads ck ck' \<Longrightarrow> clock_run node threads ck'"
  unfolding clock_run_def by (meson rtranclp.rtrancl_into_rtrancl)

lemma clock_run_new: "clock_run node threads (clock_new now)"
  by (auto simp: clock_run_def)

lemmas clock_ops = clock_fetch_def clock_exchange_def clock_read_def set_pc_def Let_def consistent_counter_max_def

text \<open>
  With one thread: every timestamp issued is below the next one, and while the thread sleeps,
  below the millisecond it wakes up in.
\<close>

definition clock_ahead :: "16 word \<Rightarrow> nat \<Rightarrow> clock \<Rightarrow> nat" where
  "clock_ahead node t ck =
     (case ck_threads ck t of
        Fetching \<Rightarrow> timestamp_digits (ck_now ck) (ck_counter ck) node
      | Sleeping counter wake \<Rightarrow> wake div 1000000 * 1000000
      | Awake counter \<Rightarrow> ck_now ck div 1000000 * 1000000
      | Reading counter \<Rightarrow> timestamp_digits (ck_now ck) counter node)"

definition clock_pc_ok :: "nat \<Rightarrow> clock \<Rightarrow> bool" where
  "clock_pc_ok t ck =
     (case ck_threads ck t of
        Fetching \<Rightarrow> ck_counter ck \<le> 999
      | Sleeping counter wake \<Rightarrow> counter = 999 \<and> ck_counter ck = 1000
      | Awake counter \<Rightarrow> counter = 999 \<and> ck_counter ck = 1000
      | Reading counter \<Rightarrow> counter < 999 \<and> ck_counter ck = counter + 1)"

definition clock_inv :: "16 word \<Rightarrow> nat \<Rightarrow> clock \<Rightarrow> bool" where
  "clock_inv node t ck \<longleftrightarrow>
     clock_pc_ok t ck \<and> sorted_wrt (>) (map unat (ck_issued ck)) \<and>
     (\<forall>ts \<in> set (ck_issued ck). unat ts < clock_ahead node t ck)"

lemma clock_inv_ahead:
  assumes "clock_inv node t ck" and "ck_issued ck' = ck_issued ck" and "clock_pc_ok t ck'"
    and "clock_ahead node t ck \<le> clock_ahead node t ck'"
  shows "clock_inv node t ck'"
  using assms by (fastforce simp: clock_inv_def)

lemma clock_step_inv:
  assumes "clock_step node {t} ck ck'" and inv: "clock_inv node t ck" and "ck_now ck' < timestamp_bound"
  shows "clock_inv node t ck'"
  using assms(1)
proof cases
  case (step_fetch u)
  with inv show ?thesis
    using timestamp_digits_next_milli [of "ck_counter ck" "ck_now ck" node]
    by (intro clock_inv_ahead [OF inv])
      (auto simp: clock_inv_def clock_pc_ok_def clock_ahead_def clock_ops less_imp_le)
next
  case (step_wake u counter wake)
  with inv show ?thesis
    by (intro clock_inv_ahead [OF inv])
      (auto simp: clock_inv_def clock_pc_ok_def clock_ahead_def clock_ops div_le_mono)
next
  case (step_exchange u counter)
  with inv show ?thesis
    by (intro clock_inv_ahead [OF inv])
      (auto simp: clock_inv_def clock_pc_ok_def clock_ahead_def clock_ops timestamp_digits_def)
next
  case (step_read u counter)
  with inv have "counter < 999" by (auto simp: clock_inv_def clock_pc_ok_def)
  then have "unat (from_context (ck_now ck) counter node) = timestamp_digits (ck_now ck) counter node"
    using step_read assms(3) by (intro from_context_unat) (auto simp: clock_ops)
  moreover have "timestamp_digits (ck_now ck) counter node < timestamp_digits (ck_now ck) (counter + 1) node"
    by (simp add: timestamp_digits_def)
  ultimately show ?thesis
    using step_read inv by (fastforce simp: clock_inv_def clock_pc_ok_def clock_ahead_def clock_ops)
next
  case (step_tick now)
  with inv show ?thesis
    by (intro clock_inv_ahead [OF inv])
      (auto simp: clock_inv_def clock_pc_ok_def clock_ahead_def div_le_mono timestamp_digits_mono split: clock_pc.split)
qed

lemma clock_step_now: "clock_step node threads ck ck' \<Longrightarrow> ck_now ck \<le> ck_now ck'"
  by (erule clock_stepE) (auto simp: clock_ops)

lemma clock_run_inv:
  assumes "clock_run node {t} ck" and "ck_now ck < timestamp_bound"
  shows "clock_inv node t ck"
proof -
  obtain now where "(clock_step node {t})\<^sup>*\<^sup>* (clock_new now) ck" using assms(1) by (auto simp: clock_run_def)
  then show ?thesis using assms(2)
  proof (induction rule: rtranclp_induct)
    case base
    then show ?case by (simp add: clock_inv_def clock_pc_ok_def clock_new_def)
  next
    case (step ck ck')
    then show ?case using clock_step_now [OF step(2)] clock_step_inv [OF step(2)] by simp
  qed
qed

text \<open>Two threads: one that stops before it reads the time, and one that goes round the counter.\<close>

definition clock_lap :: "duration \<Rightarrow> nat \<Rightarrow> clock \<Rightarrow> bool" where
  "clock_lap now n ck \<longleftrightarrow> ck_counter ck = n \<and> ck_now ck = now \<and> ck_threads ck 0 = Reading 0 \<and> ck_threads ck 1 = Fetching"

lemma clock_lap_ex:
  assumes "1 \<le> n" and "n \<le> 999"
  shows "\<exists>ck. clock_run node {0, 1} ck \<and> clock_lap now n ck"
  using assms
proof (induction n rule: dec_induct)
  case base
  have "clock_run node {0, 1} (clock_fetch 0 (clock_new now))"
    by (rule clock_run_step [OF clock_run_new step_fetch]) (simp_all add: clock_new_def)
  then show ?case by (intro exI) (auto simp: clock_lap_def clock_ops clock_new_def)
next
  case (step n)
  then obtain ck where ck: "clock_run node {0, 1} ck" "clock_lap now n ck" by auto
  have "clock_step node {0, 1} ck (clock_fetch 1 ck)"
    using ck(2) by (intro step_fetch) (simp_all add: clock_lap_def)
  with ck(1) have "clock_run node {0, 1} (clock_fetch 1 ck)" by (rule clock_run_step)
  moreover have "ck_threads (clock_fetch 1 ck) 1 = Reading n"
    using ck(2) step by (simp add: clock_lap_def clock_ops)
  ultimately have "clock_run node {0, 1} (clock_read node 1 n (clock_fetch 1 ck))"
    by (meson clock_run_step step_read insertI1 insertI2)
  then show ?case using ck(2) by (intro exI) (auto simp: clock_lap_def clock_ops)
qed

lemma clock_duplicate:
  "\<exists>ck. clock_run node {0, 1} ck \<and> \<not> distinct (ck_issued ck)"
proof -
  obtain ck where ck: "clock_run node {0, 1} ck" and lap: "clock_lap 0 999 ck"
    using clock_lap_ex [of 999 node 0] by auto
  define a where "a = clock_fetch 1 ck"
  define b where "b = a\<lparr>ck_now := 1000000\<rparr>"
  define c where "c = set_pc 1 (Awake 999) b"
  define d where "d = clock_exchange 1 999 c"
  define e where "e = clock_read node 1 0 d"
  note defs = a_def b_def c_def d_def e_def clock_ops
  have a: "clock_run node {0, 1} a"
    unfolding a_def by (rule clock_run_step [OF ck step_fetch]) (use lap in \<open>simp_all add: clock_lap_def\<close>)
  have b: "clock_run node {0, 1} b"
    unfolding b_def by (rule clock_run_step [OF a step_tick]) (use lap in \<open>simp add: clock_lap_def a_def clock_ops\<close>)
  have c: "clock_run node {0, 1} c"
    unfolding c_def
    by (rule clock_run_step [OF b step_wake [where wake = 1000000]])
      (use lap in \<open>simp_all add: clock_lap_def a_def b_def clock_ops\<close>)
  have d: "clock_run node {0, 1} d"
    unfolding d_def by (rule clock_run_step [OF c step_exchange]) (simp_all add: c_def clock_ops)
  have c1000: "ck_counter c = 1000" using lap by (simp add: clock_lap_def a_def b_def c_def clock_ops)
  have e: "clock_run node {0, 1} e"
    unfolding e_def by (rule clock_run_step [OF d step_read]) (simp_all add: d_def clock_exchange_def c1000 set_pc_def)
  have t0: "ck_threads e 0 = Reading 0" using lap by (simp add: clock_lap_def defs)
  have now: "ck_now e = ck_now d" by (simp add: e_def clock_ops)
  have "clock_run node {0, 1} (clock_read node 0 0 e)"
    by (rule clock_run_step [OF e step_read]) (simp_all add: t0)
  moreover have "\<not> distinct (ck_issued (clock_read node 0 0 e))"
    by (simp add: clock_read_def set_pc_def now) (simp add: e_def clock_read_def set_pc_def)
  ultimately show ?thesis by blast
qed

section \<open>Backoff\<close>

text \<open>
  Every configuration of the source sets the exponential base to \<open>2.0\<close>, whose powers are exact;
  the conversion to \<open>u32\<close> saturates. The exponent is the failure count less one, read as a
  signed integer.
\<close>

record backoff_config =
  bc_normal_constant :: duration
  bc_failure_constant :: duration
  bc_failure_exp_multiplier :: duration
  bc_failure_maximum :: duration

record backoff =
  bk_config :: backoff_config
  bk_consecutive_failures_count :: "32 word"
  bk_next_execution_allow :: "instant option"

definition backoff_new :: "backoff_config \<Rightarrow> backoff" where
  "backoff_new config =
     \<lparr>bk_config = config, bk_consecutive_failures_count = 0, bk_next_execution_allow = None\<rparr>"

definition powi_u32 :: "int \<Rightarrow> nat" where
  "powi_u32 e = (if e < 0 then 0 else if e < 32 then 2 ^ nat e else 2 ^ 32 - 1)"

definition backoff_duration :: "backoff \<Rightarrow> duration" where
  "backoff_duration bk =
     (if bk_consecutive_failures_count bk = 0 then bc_normal_constant (bk_config bk)
      else let multiplier = powi_u32 (sint (bk_consecutive_failures_count bk - 1));
               dur = bc_failure_constant (bk_config bk) + bc_failure_exp_multiplier (bk_config bk) * multiplier in
           min dur (bc_failure_maximum (bk_config bk)))"

definition next_execution_time :: "backoff \<Rightarrow> instant \<Rightarrow> instant" where
  "next_execution_time bk now = (case bk_next_execution_allow bk of Some t \<Rightarrow> t | None \<Rightarrow> now)"

definition can_execute_now :: "backoff \<Rightarrow> instant \<Rightarrow> bool" where
  "can_execute_now bk now \<longleftrightarrow> bk_consecutive_failures_count bk = 0 \<or> next_execution_time bk now \<le> now"

definition increment_failure :: "instant \<Rightarrow> backoff \<Rightarrow> backoff" where
  "increment_failure now bk =
     (let bk1 = bk\<lparr>bk_consecutive_failures_count := bk_consecutive_failures_count bk + 1\<rparr> in
      bk1\<lparr>bk_next_execution_allow := Some (now + backoff_duration bk1)\<rparr>)"

definition backoff_reset :: "backoff \<Rightarrow> backoff" where
  "backoff_reset bk = bk\<lparr>bk_consecutive_failures_count := 0, bk_next_execution_allow := None\<rparr>"

section \<open>Request tracker\<close>

record request_tracker_config =
  rc_min_interval :: duration
  rc_max_interval :: duration

definition request_tracker_config_default :: request_tracker_config where
  "request_tracker_config_default = \<lparr>rc_min_interval = 5 * 1000000000, rc_max_interval = 30 * 1000000000\<rparr>"

record request_tracker =
  rt_backoff :: backoff
  rt_last_request_send :: "instant option"
  rt_last_response_receive :: "instant option"
  rt_force_next_request :: "bool option"

definition request_tracker_new :: "request_tracker_config \<Rightarrow> request_tracker" where
  "request_tracker_new config =
     \<lparr>rt_backoff = backoff_new
        \<lparr>bc_normal_constant = rc_min_interval config, bc_failure_constant = rc_min_interval config,
         bc_failure_exp_multiplier = 5 * 1000000000, bc_failure_maximum = rc_max_interval config\<rparr>,
      rt_last_request_send = None, rt_last_response_receive = None, rt_force_next_request = None\<rparr>"

definition set_last_send_now :: "instant \<Rightarrow> request_tracker \<Rightarrow> request_tracker" where
  "set_last_send_now now rt = rt\<lparr>rt_last_request_send := Some now\<rparr>"

definition set_last_responded_now :: "instant \<Rightarrow> request_tracker \<Rightarrow> request_tracker" where
  "set_last_responded_now now rt =
     rt\<lparr>rt_last_response_receive := Some now, rt_backoff := backoff_reset (rt_backoff rt)\<rparr>"

definition has_responded_last_request :: "request_tracker \<Rightarrow> bool" where
  "has_responded_last_request rt =
     (case (rt_last_request_send rt, rt_last_response_receive rt) of
        (Some send, Some resp) \<Rightarrow> resp > send
      | _ \<Rightarrow> False)"

definition can_send_request :: "instant \<Rightarrow> request_tracker \<Rightarrow> bool \<times> request_tracker" where
  "can_send_request now rt =
     (case rt_force_next_request rt of
        Some _ \<Rightarrow> (True, rt\<lparr>rt_force_next_request := None\<rparr>)
      | None \<Rightarrow>
          (let should_send_request =
                 (case rt_last_request_send rt of
                    None \<Rightarrow> True
                  | Some send_time \<Rightarrow> now - send_time \<ge> backoff_duration (rt_backoff rt)) in
           if should_send_request then
             (if rt_last_request_send rt \<noteq> None \<and> \<not> has_responded_last_request rt
              then (True, rt\<lparr>rt_backoff := increment_failure now (rt_backoff rt)\<rparr>)
              else (True, rt))
           else (False, rt)))"

definition force_next_request :: "request_tracker \<Rightarrow> request_tracker" where
  "force_next_request rt = rt\<lparr>rt_force_next_request := Some True\<rparr>"

definition request_tracker_reset :: "request_tracker \<Rightarrow> request_tracker" where
  "request_tracker_reset rt =
     rt\<lparr>rt_last_request_send := None, rt_last_response_receive := None, rt_force_next_request := None\<rparr>"

definition response_failure_count :: "request_tracker \<Rightarrow> nat" where
  "response_failure_count rt = unat (bk_consecutive_failures_count (rt_backoff rt))"

inductive tracker_reach :: "request_tracker_config \<Rightarrow> request_tracker \<Rightarrow> bool" for config where
  reach_new: "tracker_reach config (request_tracker_new config)"
| reach_send: "tracker_reach config rt \<Longrightarrow> tracker_reach config (set_last_send_now now rt)"
| reach_responded: "tracker_reach config rt \<Longrightarrow> tracker_reach config (set_last_responded_now now rt)"
| reach_can_send: "tracker_reach config rt \<Longrightarrow> tracker_reach config (snd (can_send_request now rt))"
| reach_force: "tracker_reach config rt \<Longrightarrow> tracker_reach config (force_next_request rt)"
| reach_reset: "tracker_reach config rt \<Longrightarrow> tracker_reach config (request_tracker_reset rt)"

lemma tracker_reach_config:
  "tracker_reach config rt \<Longrightarrow> bk_config (rt_backoff rt) =
     \<lparr>bc_normal_constant = rc_min_interval config, bc_failure_constant = rc_min_interval config,
      bc_failure_exp_multiplier = 5 * 1000000000, bc_failure_maximum = rc_max_interval config\<rparr>"
proof (induction rule: tracker_reach.induct)
  case reach_new
  show ?case by (simp add: request_tracker_new_def backoff_new_def)
next
  case (reach_can_send rt now)
  then show ?case by (simp add: can_send_request_def increment_failure_def Let_def split: option.split)
qed (simp_all add: set_last_send_now_def set_last_responded_now_def backoff_reset_def
    force_next_request_def request_tracker_reset_def)

lemma backoff_duration_bounds:
  assumes "tracker_reach config rt" and "rc_min_interval config \<le> rc_max_interval config"
  shows "rc_min_interval config \<le> backoff_duration (rt_backoff rt)"
    and "backoff_duration (rt_backoff rt) \<le> rc_max_interval config"
  using tracker_reach_config [OF assms(1)] assms(2) by (auto simp: backoff_duration_def Let_def)

section \<open>Properties\<close>

text \<open>
  (C29) The timestamps one thread takes from the clock of a node strictly increase, across the
  reset of the counter too, as long as the time of the system does not go back and a millisecond
  of sleep takes a millisecond (until the year 2554, when nanoseconds overflow 64 bits).
\<close>

theorem timestamps_increase:
  assumes "clock_run node {t} ck" and "ck_now ck < timestamp_bound"
  shows "sorted_wrt (>) (map unat (ck_issued ck))"
  using clock_run_inv [OF assms] by (simp add: clock_inv_def)

theorem timestamps_increase_witness:
  "\<exists>ck. clock_run 7 {0} ck \<and> length (ck_issued ck) = 2 \<and> sorted_wrt (>) (map unat (ck_issued ck))"
proof -
  define a where "a = clock_fetch 0 (clock_new 5)"
  define b where "b = clock_read 7 0 0 a"
  define c where "c = clock_fetch 0 b"
  define d where "d = clock_read 7 0 1 c"
  have a: "clock_run 7 {0} a"
    unfolding a_def by (rule clock_run_step [OF clock_run_new step_fetch]) (simp_all add: clock_new_def)
  have b: "clock_run 7 {0} b"
    unfolding b_def by (rule clock_run_step [OF a step_read]) (simp_all add: a_def clock_new_def clock_ops)
  have c: "clock_run 7 {0} c"
    unfolding c_def by (rule clock_run_step [OF b step_fetch]) (simp_all add: b_def clock_ops)
  have d: "clock_run 7 {0} d"
    unfolding d_def by (rule clock_run_step [OF c step_read]) (simp_all add: a_def b_def c_def clock_new_def clock_ops)
  have "ck_now d < timestamp_bound"
    by (simp add: a_def b_def c_def d_def clock_new_def clock_ops timestamp_bound_def)
  moreover have "length (ck_issued d) = 2"
    by (simp add: a_def b_def c_def d_def clock_new_def clock_ops)
  ultimately show ?thesis using timestamps_increase [OF d] d by blast
qed

text \<open>
  Two threads of a node can be given the same timestamp: one takes the value 0 of the counter and
  is stopped before it reads the time, the other takes every value up to the limit, sleeps,
  resets the counter, takes 0 again, and both read the same millisecond.
\<close>

lemma timestamps_not_unique:
  "\<exists>ck. clock_run node {0, 1} ck \<and> \<not> distinct (ck_issued ck)"
  by (rule clock_duplicate)

text \<open>
  A timestamp is the decimal digits of the millisecond, of the node's clock number and of the
  counter, with no overflow: two nodes whose clock numbers differ modulo 1000 never build the
  same one.
\<close>

lemma from_context_digits:
  assumes "d < timestamp_bound" and "counter < 1000"
  shows "unat (from_context d counter node) div 1000000 = d div 1000000 \<and>
    unat (from_context d counter node) div 1000 mod 1000 = unat node mod 1000 \<and>
    unat (from_context d counter node) mod 1000 = counter"
  using timestamp_digits_parts [OF assms(2)] by (simp add: from_context_unat [OF assms])

text \<open>
  (C32) A tracker of requests, whatever happened to it, refuses a request before the minimum interval since the
  last one unless it is forced, and allows one once the maximum interval has passed: the backoff
  delays requests and never stops them.
\<close>

theorem request_interval:
  assumes "tracker_reach config rt" and "rc_min_interval config \<le> rc_max_interval config"
    and "rt_last_request_send rt = Some send" and "rt_force_next_request rt = None"
  shows "(now - send < rc_min_interval config \<longrightarrow> \<not> fst (can_send_request now rt)) \<and>
    (rc_max_interval config \<le> now - send \<longrightarrow> fst (can_send_request now rt))"
  using backoff_duration_bounds [OF assms(1,2)] assms(3,4) by (auto simp: can_send_request_def Let_def)

theorem request_interval_witness:
  "let rt = set_last_send_now 7 (request_tracker_new request_tracker_config_default) in
   \<not> fst (can_send_request 8 rt) \<and> fst (can_send_request 30000000007 rt)"
proof -
  let ?rt = "set_last_send_now 7 (request_tracker_new request_tracker_config_default)"
  have "tracker_reach request_tracker_config_default ?rt" by (intro tracker_reach.intros)
  moreover have "rt_last_request_send ?rt = Some 7" "rt_force_next_request ?rt = None"
    by (simp_all add: set_last_send_now_def request_tracker_new_def)
  ultimately show ?thesis
    using request_interval [of request_tracker_config_default ?rt 7 8]
      request_interval [of request_tracker_config_default ?rt 7 30000000007]
    by (simp add: request_tracker_config_default_def)
qed

end
