(* ===== verification/Exo_Sync_Context.thy ===== *)
theory Exo_Sync_Context
  imports Exo_Pending Exo_Segment Exo_Time Exo_Cell
begin

text \<open>
  The errors of the engine (\<open>chain/src/engine/error.rs\<close> and the errors of its parts), the
  messages the synchronisers exchange (the Cap'n Proto messages of
  \<open>protos/capn/data_transport.capnp\<close> as records of their fields), and the context in which
  a handler collects messages and events (\<open>chain/src/engine/sync_context.rs\<close>).
\<close>

section \<open>Errors\<close>

datatype pending_sync_error = PsInvalidSyncState | PsInvalidSyncRequest

datatype chain_sync_error = CsInvalidSyncRequest | CsInvalidSyncResponse | CsDiverged | CsOther

datatype commit_manager_error = MissingOperation nat

datatype engine_error =
    EngTransport
  | EngPendingStore pending_error
  | EngChainStore chain_error
  | EngPendingSync pending_sync_error
  | EngChainSync chain_sync_error
  | EngCommitManager commit_manager_error
  | EngBlock block_error
  | EngOperation op_error
  | OutOfSync
  | UninitializedChain
  | EngSerialization
  | EngNotInSchema nat
  | MyNodeNotFound
  | NodeNotFound node_id
  | InnerUpgrade
  | EngPoisoned
  | EngFatal
  | EngOther

definition chain_sync_is_fatal :: "chain_sync_error \<Rightarrow> bool" where
  "chain_sync_is_fatal e \<longleftrightarrow> e = CsDiverged"

fun engine_is_fatal :: "engine_error \<Rightarrow> bool" where
  "engine_is_fatal (EngChainStore inner) = chain_is_fatal inner"
| "engine_is_fatal (EngChainSync inner) = chain_sync_is_fatal inner"
| "engine_is_fatal MyNodeNotFound = True"
| "engine_is_fatal InnerUpgrade = True"
| "engine_is_fatal EngPoisoned = True"
| "engine_is_fatal EngFatal = True"
| "engine_is_fatal _ = False"

definition recover_non_fatal_error :: "engine_error \<Rightarrow> (engine_error, unit) result" where
  "recover_non_fatal_error e = (if \<not> engine_is_fatal e then Ok () else Err e)"

section \<open>Messages\<close>

record op_header_msg =
  om_group_id :: nat
  om_operation_id :: nat
  om_operation_signature :: bytes

text \<open>
  A range of pending operations. The two lists may be absent from the message, which is not the same
  as empty.
\<close>

record sync_range_msg =
  rm_from_operation :: nat
  rm_from_included :: bool
  rm_to_operation :: nat
  rm_to_included :: bool
  rm_operations_hash :: bytes
  rm_operations_count :: nat
  rm_operations_headers :: "op_header_msg list option"
  rm_operations_frames :: "bytes list option"

record pending_sync_request =
  pr_from_block_height :: nat
  pr_ranges :: "sync_range_msg list"

datatype requested_details = RequestHeaders | RequestBlocks

record chain_sync_request =
  cq_from_offset :: nat
  cq_to_offset :: nat
  cq_requested_details :: requested_details

record block_metadata =
  bm_offset :: nat
  bm_height :: nat
  bm_hash :: bytes
  bm_previous_offset :: nat
  bm_previous_hash :: bytes
  bm_block_size :: nat
  bm_operations_size :: nat
  bm_signatures_size :: nat

record chain_sync_response =
  cr_from_offset :: nat
  cr_to_offset :: nat
  cr_headers :: "block_metadata list option"
  cr_blocks :: "bytes list option"

datatype sync_message =
    PendingSyncRequest node_id pending_sync_request
  | ChainSyncRequest node_id chain_sync_request
  | ChainSyncResponse node_id chain_sync_response

fun dest_node :: "sync_message \<Rightarrow> node_id" where
  "dest_node (PendingSyncRequest to_node _) = to_node"
| "dest_node (ChainSyncRequest to_node _) = to_node"
| "dest_node (ChainSyncResponse to_node _) = to_node"

text \<open>\<open>into_out_message\<close>: the node the message goes to has to be in the cell.\<close>

definition into_out_message :: "cell \<Rightarrow> sync_message \<Rightarrow> (engine_error, cell_node \<times> sync_message) result" where
  "into_out_message c msg =
     and_then (ok_or (NodeNotFound (dest_node msg)) (get_node c (dest_node msg))) (\<lambda>n. Ok (n, msg))"

text \<open>The nodes a synchroniser talks to: the other nodes of the cell that have the chain role.\<close>

definition chain_nodes_except_local :: "cell \<Rightarrow> cell_node list" where
  "chain_nodes_except_local c = filter (\<lambda>cn. has_role cn ChainRole) (all_except_local c)"

section \<open>The context\<close>

datatype engine_event =
    Started
  | StreamDiscontinuity
  | NewPendingOperation nat
  | NewChainBlock nat
  | ChainDiverged nat

record sync_state =
  pending_last_cleanup_block :: "(nat \<times> nat) option"

record sync_context =
  sc_events :: "engine_event list"
  sc_messages :: "sync_message list"
  sc_sync_state :: sync_state

definition sync_context_new :: "sync_state \<Rightarrow> sync_context" where
  "sync_context_new st = \<lparr>sc_events = [], sc_messages = [], sc_sync_state = st\<rparr>"

definition push_message :: "sync_message \<Rightarrow> sync_context \<Rightarrow> sync_context" where
  "push_message msg sc = sc\<lparr>sc_messages := sc_messages sc @ [msg]\<rparr>"

definition push_pending_sync_request :: "node_id \<Rightarrow> pending_sync_request \<Rightarrow> sync_context \<Rightarrow> sync_context" where
  "push_pending_sync_request n req = push_message (PendingSyncRequest n req)"

definition push_chain_sync_request :: "node_id \<Rightarrow> chain_sync_request \<Rightarrow> sync_context \<Rightarrow> sync_context" where
  "push_chain_sync_request n req = push_message (ChainSyncRequest n req)"

definition push_chain_sync_response :: "node_id \<Rightarrow> chain_sync_response \<Rightarrow> sync_context \<Rightarrow> sync_context" where
  "push_chain_sync_response n resp = push_message (ChainSyncResponse n resp)"

definition push_event :: "engine_event \<Rightarrow> sync_context \<Rightarrow> sync_context" where
  "push_event ev sc = sc\<lparr>sc_events := sc_events sc @ [ev]\<rparr>"

lemmas push_defs = push_pending_sync_request_def push_chain_sync_request_def push_chain_sync_response_def
  push_message_def push_event_def

end
