(* ===== verification/Exo_Pending_Sync.thy ===== *)
theory Exo_Pending_Sync
  imports Exo_Sync_Context Exo_Block_Facts
begin

text \<open>
  The synchroniser of pending operations (\<open>chain/src/engine/pending_sync\<close>): the ranges of
  operations a node describes to another (\<open>sync_range.rs\<close>), and the handlers that compare a
  description with the local store and answer it (\<open>mod.rs\<close>). The time of a handler is the
  instant at which it is called.
\<close>

section \<open>Configuration\<close>

record pending_sync_config =
  pc_max_operations_per_range :: nat
  pc_request_tracker_config :: request_tracker_config
  pc_operations_depth_after_cleanup :: nat

definition pending_sync_config_default :: pending_sync_config where
  "pending_sync_config_default =
     \<lparr>pc_max_operations_per_range = 30, pc_request_tracker_config = request_tracker_config_default,
      pc_operations_depth_after_cleanup = 2\<rparr>"

datatype details_level = DetailsHeader | DetailsFull | DetailsNone

section \<open>Ranges\<close>

text \<open>A hasher is the bytes that were given to it.\<close>

record sync_range =
  sr_from_operation :: "nat bound"
  sr_to_operation :: "nat bound"
  sr_operations :: "stored_operation list"
  sr_operations_headers :: "stored_operation list"
  sr_operations_count :: nat
  sr_hasher :: "bytes option"
  sr_hash :: "bytes option"

definition sync_range_new :: "nat bound \<Rightarrow> nat bound \<Rightarrow> sync_range" where
  "sync_range_new from_operation to_operation =
     \<lparr>sr_from_operation = from_operation, sr_to_operation = to_operation, sr_operations = [],
      sr_operations_headers = [], sr_operations_count = 0, sr_hasher = Some [], sr_hash = None\<rparr>"

definition sync_range_new_hashed :: "nat bound \<times> nat bound \<Rightarrow> bytes \<Rightarrow> nat \<Rightarrow> sync_range" where
  "sync_range_new_hashed operations_range operations_hash ops_count =
     \<lparr>sr_from_operation = fst operations_range, sr_to_operation = snd operations_range, sr_operations = [],
      sr_operations_headers = [], sr_operations_count = ops_count, sr_hasher = None,
      sr_hash = Some operations_hash\<rparr>"

text \<open>The multihash of the frame of an operation; slicing panics out of range.\<close>

definition frame_multihash :: "operation_frame \<Rightarrow> (engine_error, bytes) result" where
  "frame_multihash f = (case typed_multihash f of Ok mh \<Rightarrow> Ok mh | _ \<Rightarrow> Panic)"

definition range_push_operation ::
  "stored_operation \<Rightarrow> details_level \<Rightarrow> sync_range \<Rightarrow> (engine_error, sync_range) result" where
  "range_push_operation operation details rng =
     (let rng1 = rng\<lparr>sr_to_operation := Included (so_operation_id operation),
                         sr_operations_count := sr_operations_count rng + 1\<rparr> in
      and_then (case sr_hasher rng1 of
                  Some hashed \<Rightarrow> and_then (frame_multihash (so_frame operation)) (\<lambda>mh.
                    Ok (rng1\<lparr>sr_hasher := Some (hashed @ mh)\<rparr>))
                | None \<Rightarrow> Ok rng1) (\<lambda>rng2.
        Ok (case details of
              DetailsFull \<Rightarrow> rng2\<lparr>sr_operations := sr_operations rng2 @ [operation]\<rparr>
            | DetailsHeader \<Rightarrow> rng2\<lparr>sr_operations_headers := sr_operations_headers rng2 @ [operation]\<rparr>
            | DetailsNone \<Rightarrow> rng2)))"

fun bound_fields :: "nat bound \<Rightarrow> bool \<times> nat" where
  "bound_fields (Included b) = (True, b)"
| "bound_fields (Excluded b) = (False, b)"
| "bound_fields Unbounded = (False, 0)"

fun header_msgs :: "stored_operation list \<Rightarrow> (engine_error, op_header_msg list) result" where
  "header_msgs [] = Ok []"
| "header_msgs (operation # ops) =
     and_then (frame_multihash (so_frame operation)) (\<lambda>mh.
     and_then (header_msgs ops) (\<lambda>rest.
       Ok (\<lparr>om_group_id = so_group_id operation, om_operation_id = so_operation_id operation,
            om_operation_signature = mh\<rparr> # rest)))"

fun frame_msgs :: "stored_operation list \<Rightarrow> (engine_error, bytes list) result" where
  "frame_msgs [] = Ok []"
| "frame_msgs (operation # ops) =
     (case whole_data (tf_frame (so_frame operation)) of
        Ok d \<Rightarrow> and_then (frame_msgs ops) (\<lambda>rest. Ok (d # rest))
      | _ \<Rightarrow> Panic)"

definition write_into_sync_range :: "('c) codec_scheme \<Rightarrow> sync_range \<Rightarrow> (engine_error, sync_range_msg) result" where
  "write_into_sync_range C rng =
     and_then (header_msgs (sr_operations_headers rng)) (\<lambda>headers.
     and_then (frame_msgs (sr_operations rng)) (\<lambda>frames.
       Ok \<lparr>rm_from_operation = snd (bound_fields (sr_from_operation rng)),
           rm_from_included = fst (bound_fields (sr_from_operation rng)),
           rm_to_operation = snd (bound_fields (sr_to_operation rng)),
           rm_to_included = fst (bound_fields (sr_to_operation rng)),
           rm_operations_hash = (case (sr_hash rng, sr_hasher rng) of
               (Some h, _) \<Rightarrow> h
             | (None, Some hashed) \<Rightarrow> digest C hashed
             | (None, None) \<Rightarrow> []),
           rm_operations_count = sr_operations_count rng,
           rm_operations_headers = (if sr_operations_headers rng = [] then None else Some headers),
           rm_operations_frames = (if sr_operations rng = [] then None else Some frames)\<rparr>))"

section \<open>Collections of ranges\<close>

definition push_new_range :: "nat bound \<Rightarrow> sync_range list \<Rightarrow> sync_range list" where
  "push_new_range bound_from ranges = ranges @ [sync_range_new bound_from Unbounded]"

definition push_range :: "sync_range \<Rightarrow> sync_range list \<Rightarrow> sync_range list" where
  "push_range rng ranges = ranges @ [rng]"

definition set_last_range_to_bound :: "nat bound \<Rightarrow> sync_range list \<Rightarrow> sync_range list" where
  "set_last_range_to_bound bound_to ranges =
     (if ranges = [] then [] else butlast ranges @ [(last ranges)\<lparr>sr_to_operation := bound_to\<rparr>])"

definition ranges_push_operation ::
  "pending_sync_config \<Rightarrow> stored_operation \<Rightarrow> details_level \<Rightarrow> sync_range list \<Rightarrow> (engine_error, sync_range list) result" where
  "ranges_push_operation config operation details ranges =
     and_then
       (if ranges = [] then Ok (push_new_range Unbounded ranges)
        else if sr_operations_count (last ranges) > pc_max_operations_per_range config then
          (case sr_to_operation (last ranges) of
             Included to \<Rightarrow> Ok (push_new_range (Excluded to) ranges)
           | _ \<Rightarrow> Panic)
        else Ok ranges)
       (\<lambda>ranges1. and_then (range_push_operation operation details (last ranges1)) (\<lambda>rng.
          Ok (butlast ranges1 @ [rng])))"

fun ranges_push_operations ::
  "pending_sync_config \<Rightarrow> (stored_operation \<Rightarrow> details_level) \<Rightarrow> stored_operation list \<Rightarrow> sync_range list
     \<Rightarrow> (engine_error, sync_range list) result" where
  "ranges_push_operations config details [] ranges = Ok ranges"
| "ranges_push_operations config details (operation # ops) ranges =
     and_then (ranges_push_operation config operation (details operation) ranges)
       (ranges_push_operations config details ops)"

fun write_ranges :: "('c) codec_scheme \<Rightarrow> sync_range list \<Rightarrow> (engine_error, sync_range_msg list) result" where
  "write_ranges C [] = Ok []"
| "write_ranges C (rng # ranges) =
     and_then (write_into_sync_range C rng) (\<lambda>m. and_then (write_ranges C ranges) (\<lambda>ms. Ok (m # ms)))"

fun extract_bound :: "nat \<Rightarrow> bool \<Rightarrow> nat bound" where
  "extract_bound b included =
     (if b = 0 \<and> \<not> included then Unbounded else if included then Included b else Excluded b)"

definition extract_sync_bounds :: "sync_range_msg \<Rightarrow> (nat bound \<times> nat bound) \<times> nat \<times> nat" where
  "extract_sync_bounds m =
     ((extract_bound (rm_from_operation m) (rm_from_included m),
       extract_bound (rm_to_operation m) (rm_to_included m)),
      rm_from_operation m, rm_to_operation m)"

section \<open>The synchroniser\<close>

record pending_sync =
  py_config :: pending_sync_config
  py_cell :: cell
  py_nodes_info :: "(node_id \<times> request_tracker) list"

definition pending_sync_new :: "pending_sync_config \<Rightarrow> cell \<Rightarrow> pending_sync" where
  "pending_sync_new config c = \<lparr>py_config = config, py_cell = c, py_nodes_info = []\<rparr>"

definition get_or_create_pending_node :: "node_id \<Rightarrow> pending_sync \<Rightarrow> request_tracker" where
  "get_or_create_pending_node n py =
     (case map_of (py_nodes_info py) n of
        Some info \<Rightarrow> info
      | None \<Rightarrow> request_tracker_new (pc_request_tracker_config (py_config py)))"

fun committed_from :: "nat option \<Rightarrow> commit_status \<Rightarrow> bool" where
  "committed_from None _ = True"
| "committed_from (Some from_height) StatusUnknown = True"
| "committed_from (Some from_height) (Committed _ op_height) = (op_height \<ge> from_height)"

definition operations_iter_from_height ::
  "pending_store \<Rightarrow> nat bound \<times> nat bound \<Rightarrow> nat option \<Rightarrow> (engine_error, stored_operation list) result" where
  "operations_iter_from_height store bounds from_block_height =
     and_then (map_err EngPendingStore (pending_iter bounds store)) (\<lambda>ops.
       Ok (filter (\<lambda>op. committed_from from_block_height (so_commit_status op)) ops))"

definition get_from_block_height ::
  "pending_sync \<Rightarrow> sync_context \<Rightarrow> pending_sync_request option \<Rightarrow> nat option" where
  "get_from_block_height py sc incoming =
     (case incoming of
        Some req \<Rightarrow> if pr_from_block_height req \<noteq> 0 then Some (pr_from_block_height req)
          else map_option (\<lambda>(_, height). height + pc_operations_depth_after_cleanup (py_config py))
                 (pending_last_cleanup_block (sc_sync_state sc))
      | None \<Rightarrow> map_option (\<lambda>(_, height). height + pc_operations_depth_after_cleanup (py_config py))
                 (pending_last_cleanup_block (sc_sync_state sc)))"

fun hash_stored :: "stored_operation list \<Rightarrow> bytes \<Rightarrow> (engine_error, bytes) result" where
  "hash_stored [] hashed = Ok hashed"
| "hash_stored (operation # ops) hashed =
     and_then (frame_multihash (so_frame operation)) (\<lambda>mh. hash_stored ops (hashed @ mh))"

definition local_store_range_info ::
  "('c) codec_scheme \<Rightarrow> pending_store \<Rightarrow> nat bound \<times> nat bound \<Rightarrow> nat option \<Rightarrow> (engine_error, bytes \<times> nat) result" where
  "local_store_range_info C store bounds from_height =
     and_then (operations_iter_from_height store bounds from_height) (\<lambda>ops.
     and_then (hash_stored ops []) (\<lambda>hashed. Ok (digest C hashed, length ops)))"

definition create_sync_request_for_range ::
  "('c) codec_scheme \<Rightarrow> pending_sync \<Rightarrow> sync_context \<Rightarrow> pending_store \<Rightarrow> nat bound \<times> nat bound
     \<Rightarrow> (stored_operation \<Rightarrow> details_level) \<Rightarrow> (engine_error, pending_sync_request) result" where
  "create_sync_request_for_range C py sc store bounds details =
     (let ranges = push_new_range (fst bounds) [];
          from_height = get_from_block_height py sc None in
      and_then (operations_iter_from_height store bounds from_height) (\<lambda>ops.
      and_then (ranges_push_operations (py_config py) details ops ranges) (\<lambda>ranges1.
      let ranges2 = (if snd bounds = Unbounded then set_last_range_to_bound Unbounded ranges1 else ranges1) in
      and_then (write_ranges C ranges2) (\<lambda>msgs.
        Ok \<lparr>pr_from_block_height = (case from_height of Some h \<Rightarrow> h | None \<Rightarrow> 0), pr_ranges = msgs\<rparr>))))"

fun pending_tick_nodes ::
  "('c) codec_scheme \<Rightarrow> instant \<Rightarrow> pending_store \<Rightarrow> cell_node list \<Rightarrow> pending_sync \<times> sync_context
     \<Rightarrow> (engine_error, unit) result \<times> pending_sync \<times> sync_context" where
  "pending_tick_nodes C now store [] s = (Ok (), s)"
| "pending_tick_nodes C now store (cn # cns) (py, sc) =
     (let (send, info) = can_send_request now (get_or_create_pending_node (cn_id cn) py);
          info1 = (if send then set_last_send_now now info else info);
          py1 = py\<lparr>py_nodes_info := hm_insert (cn_id cn) info1 (py_nodes_info py)\<rparr> in
      if send then
        (case create_sync_request_for_range C py1 sc store (Unbounded, Unbounded) (\<lambda>_. DetailsNone) of
           Ok request \<Rightarrow> pending_tick_nodes C now store cns (py1, push_pending_sync_request (cn_id cn) request sc)
         | Err e \<Rightarrow> (Err e, (py1, sc))
         | Panic \<Rightarrow> (Panic, (py1, sc)))
      else pending_tick_nodes C now store cns (py1, sc))"

definition pending_tick ::
  "('c) codec_scheme \<Rightarrow> instant \<Rightarrow> pending_store \<Rightarrow> pending_sync \<times> sync_context
     \<Rightarrow> (engine_error, unit) result \<times> pending_sync \<times> sync_context" where
  "pending_tick C now store s = pending_tick_nodes C now store (chain_nodes_except_local (py_cell (fst s))) s"

fun send_new_operation ::
  "('c) codec_scheme \<Rightarrow> pending_sync \<Rightarrow> pending_store \<Rightarrow> nat \<Rightarrow> cell_node list \<Rightarrow> sync_context
     \<Rightarrow> (engine_error, unit) result \<times> sync_context" where
  "send_new_operation C py store operation_id [] sc = (Ok (), sc)"
| "send_new_operation C py store operation_id (cn # cns) sc =
     (case create_sync_request_for_range C py sc store (Included operation_id, Unbounded)
             (\<lambda>op. if so_operation_id op = operation_id then DetailsFull else DetailsNone) of
        Ok request \<Rightarrow>
          send_new_operation C py store operation_id cns (push_pending_sync_request (cn_id cn) request sc)
      | Err e \<Rightarrow> (Err e, sc)
      | Panic \<Rightarrow> (Panic, sc))"

definition handle_new_operation ::
  "('c) codec_scheme \<Rightarrow> pending_sync \<Rightarrow> new_operation \<Rightarrow> pending_store \<times> sync_context
     \<Rightarrow> (engine_error, unit) result \<times> pending_store \<times> sync_context" where
  "handle_new_operation C py operation s =
     (let (store, sc) = s;
          operation_id = op_get_id (no_frame operation);
          store1 = snd (pending_put operation store);
          sc1 = push_event (NewPendingOperation operation_id) sc;
          (r, sc2) = send_new_operation C py store1 operation_id (chain_nodes_except_local (py_cell py)) sc1 in
      (r, (store1, sc2)))"

section \<open>Incoming ranges\<close>

definition typed_to_owned :: "(bytes \<Rightarrow> 'm option) \<Rightarrow> 'm typed_frame \<Rightarrow> (engine_error, 'm typed_frame) result" where
  "typed_to_owned dec t =
     (case to_owned_frame (tf_frame t) of
        Ok f \<Rightarrow> (case exposed_data f of
            Ok d \<Rightarrow> (case dec d of Some m \<Rightarrow> Ok \<lparr>tf_frame = f, tf_reader = m\<rparr> | None \<Rightarrow> Panic)
          | _ \<Rightarrow> Panic)
      | _ \<Rightarrow> Panic)"

text \<open>The operations included in a range: each one is put in the store before the next is read.\<close>

fun store_included ::
  "('c) codec_scheme \<Rightarrow> bytes list \<Rightarrow> nat list \<Rightarrow> pending_store \<times> sync_context
     \<Rightarrow> (engine_error, nat list) result \<times> pending_store \<times> sync_context" where
  "store_included C [] included s = (Ok included, s)"
| "store_included C (data # datas) included (store, sc) =
     (case and_then (map_err EngOperation (read_operation_frame C (RawFrame data))) (typed_to_owned (dec_op C)) of
        Ok frame \<Rightarrow>
          (let operation_id = op_get_id frame;
               (existed, store1) = pending_put \<lparr>no_operation_id = operation_id, no_frame = frame\<rparr> store;
               sc1 = (if existed then sc else push_event (NewPendingOperation operation_id) sc) in
           store_included C datas (operation_id # included) (store1, sc1))
      | Err e \<Rightarrow> (Err e, (store, sc))
      | Panic \<Rightarrow> (Panic, (store, sc)))"

datatype ('a, 'b) either_or_both = LeftOnly 'a | RightOnly 'b | BothSides 'a 'b

fun merge_join :: "op_header_msg list \<Rightarrow> stored_operation list \<Rightarrow> (op_header_msg, stored_operation) either_or_both list" where
  "merge_join [] ls = map RightOnly ls"
| "merge_join rs [] = map LeftOnly rs"
| "merge_join (r # rs) (l # ls) =
     (if om_operation_id r < so_operation_id l then LeftOnly r # merge_join rs (l # ls)
      else if om_operation_id r = so_operation_id l then BothSides r l # merge_join rs ls
      else RightOnly l # merge_join (r # rs) ls)"

fun diff_merged ::
  "pending_sync_config \<Rightarrow> nat list \<Rightarrow> (op_header_msg, stored_operation) either_or_both list
     \<Rightarrow> bool \<times> sync_range list \<Rightarrow> (engine_error, bool \<times> sync_range list) result" where
  "diff_merged config included [] acc = Ok acc"
| "diff_merged config included (LeftOnly r # ms) (diff, out) = diff_merged config included ms (True, out)"
| "diff_merged config included (RightOnly l # ms) (diff, out) =
     (if so_operation_id l \<notin> set included then
        and_then (ranges_push_operation config l DetailsFull out) (\<lambda>out1. diff_merged config included ms (True, out1))
      else
        and_then (ranges_push_operation config l DetailsHeader out) (\<lambda>out1. diff_merged config included ms (diff, out1)))"
| "diff_merged config included (BothSides r l # ms) (diff, out) =
     and_then (ranges_push_operation config l DetailsHeader out) (\<lambda>out1. diff_merged config included ms (diff, out1))"

definition diff_local_remote_range ::
  "pending_sync_config \<Rightarrow> nat list \<Rightarrow> op_header_msg list \<Rightarrow> stored_operation list \<Rightarrow> sync_range list
     \<Rightarrow> (engine_error, sync_range list) result" where
  "diff_local_remote_range config included remote local out =
     and_then (diff_merged config included (merge_join remote local) (False, out)) (\<lambda>(diff, out1).
       if diff then Ok out1 else Err (EngPendingSync PsInvalidSyncState))"

text \<open>What is answered to a range that differs from the local one.\<close>

definition answer_range ::
  "pending_sync_config \<Rightarrow> sync_range_msg \<Rightarrow> nat list \<Rightarrow> stored_operation list \<Rightarrow> sync_range list
     \<Rightarrow> (engine_error, sync_range list) result" where
  "answer_range config m included ops out =
     (if rm_operations_count m = 0 then ranges_push_operations config (\<lambda>_. DetailsFull) ops out
      else if rm_operations_headers m = None \<and> rm_operations_frames m = None then
        ranges_push_operations config (\<lambda>_. DetailsHeader) ops out
      else diff_local_remote_range config included
             (case rm_operations_headers m of Some hs \<Rightarrow> hs | None \<Rightarrow> []) ops out)"

definition handle_incoming_range ::
  "('c) codec_scheme \<Rightarrow> pending_sync_config \<Rightarrow> nat option \<Rightarrow> sync_range_msg
     \<Rightarrow> bool \<times> sync_range list \<Rightarrow> pending_store \<times> sync_context
     \<Rightarrow> (engine_error, bool \<times> sync_range list) result \<times> pending_store \<times> sync_context" where
  "handle_incoming_range C config from_height m acc s =
     (let (bounds, from_numeric, to_numeric) = extract_sync_bounds m; (changes, out) = acc in
      if to_numeric \<noteq> 0 \<and> to_numeric < from_numeric then (Err (EngPendingSync PsInvalidSyncRequest), s)
      else sbind (store_included C (case rm_operations_frames m of Some fs \<Rightarrow> fs | None \<Rightarrow> []) [])
        (\<lambda>included (store, sc).
          (and_then (local_store_range_info C store bounds from_height) (\<lambda>(local_hash, local_count).
           and_then (ok_or (EngPendingSync PsInvalidSyncRequest) (mh_decode C (rm_operations_hash m))) (\<lambda>remote_hash.
             if remote_hash = local_hash \<and> local_count = rm_operations_count m then
               Ok (changes, push_range (sync_range_new_hashed bounds local_hash (local_count mod 2 ^ 32)) out)
             else
               and_then (operations_iter_from_height store bounds from_height) (\<lambda>ops.
               and_then (answer_range config m included ops (push_new_range (fst bounds) out)) (\<lambda>out1.
                 Ok (True, set_last_range_to_bound (snd bounds) out1))))), (store, sc))) s)"

fun handle_incoming_sync_ranges ::
  "('c) codec_scheme \<Rightarrow> pending_sync_config \<Rightarrow> nat option \<Rightarrow> sync_range_msg list
     \<Rightarrow> bool \<times> sync_range list \<Rightarrow> pending_store \<times> sync_context
     \<Rightarrow> (engine_error, sync_range list option) result \<times> pending_store \<times> sync_context" where
  "handle_incoming_sync_ranges C config from_height [] (changes, out) s =
     (Ok (if changes then Some out else None), s)"
| "handle_incoming_sync_ranges C config from_height (m # ms) acc s =
     sbind (handle_incoming_range C config from_height m acc) (handle_incoming_sync_ranges C config from_height ms) s"

definition handle_incoming_sync_request ::
  "('c) codec_scheme \<Rightarrow> pending_sync \<Rightarrow> node_id \<Rightarrow> pending_sync_request \<Rightarrow> pending_store \<times> sync_context
     \<Rightarrow> (engine_error, unit) result \<times> pending_store \<times> sync_context" where
  "handle_incoming_sync_request C py from_node request s =
     (let from_height = get_from_block_height py (snd s) (Some request) in
      sbind (handle_incoming_sync_ranges C (py_config py) from_height (pr_ranges request) (False, []))
        (\<lambda>out (store, sc).
           case out of
             None \<Rightarrow> (Ok (), (store, sc))
           | Some ranges \<Rightarrow>
               (case write_ranges C ranges of
                  Ok msgs \<Rightarrow>
                    (Ok (), (store, push_pending_sync_request from_node
                       \<lparr>pr_from_block_height = (case from_height of Some h \<Rightarrow> h | None \<Rightarrow> 0), pr_ranges = msgs\<rparr> sc))
                | Err e \<Rightarrow> (Err e, (store, sc))
                | Panic \<Rightarrow> (Panic, (store, sc)))) s)"

end
