(* ===== verification/Exo_Pending_Sync_Facts.thy ===== *)
theory Exo_Pending_Sync_Facts
  imports Exo_Pending_Sync
begin

text \<open>
  What the ranges of a request describe: they split the operations of a store into consecutive
  chunks, each with its bounds, its number of operations and its hash.
\<close>

section \<open>Frames of stored operations\<close>

definition op_mh :: "stored_operation \<Rightarrow> bytes" where
  "op_mh op = (case typed_multihash (so_frame op) of Ok m \<Rightarrow> m | _ \<Rightarrow> [])"

definition frame_ok :: "('c) codec_scheme \<Rightarrow> stored_operation \<Rightarrow> bool" where
  "frame_ok C op \<longleftrightarrow> (\<exists>m. op_codec_ok C m \<and> op_is C (so_frame op) m \<and> so_operation_id op = co_operation_id m)"

lemma frame_multihash_ok: "frame_ok C op \<Longrightarrow> frame_multihash (so_frame op) = Ok (op_mh op)"
  by (auto simp: frame_ok_def op_is_def frame_multihash_def op_mh_def)

lemma whole_frame_ok: "frame_ok C op \<Longrightarrow> \<exists>d. whole_data (tf_frame (so_frame op)) = Ok d"
  by (auto simp: frame_ok_def op_is_def)

lemma hash_stored_ok:
  "\<forall>op \<in> set ops. frame_ok C op \<Longrightarrow> hash_stored ops h = Ok (h @ concat (map op_mh ops))"
  by (induction ops arbitrary: h) (auto simp: frame_multihash_ok)

lemma header_msgs_ok:
  "\<forall>op \<in> set ops. frame_ok C op \<Longrightarrow>
     header_msgs ops = Ok (map (\<lambda>op. \<lparr>om_group_id = so_group_id op, om_operation_id = so_operation_id op,
        om_operation_signature = op_mh op\<rparr>) ops)"
  by (induction ops) (auto simp: frame_multihash_ok)

lemma frame_msgs_ok:
  "\<forall>op \<in> set ops. frame_ok C op \<Longrightarrow>
     \<exists>ds. frame_msgs ops = Ok ds \<and> list_all2 (\<lambda>op d. whole_data (tf_frame (so_frame op)) = Ok d) ops ds"
proof (induction ops)
  case (Cons op ops)
  then obtain d ds where "whole_data (tf_frame (so_frame op)) = Ok d" "frame_msgs ops = Ok ds"
      "list_all2 (\<lambda>op d. whole_data (tf_frame (so_frame op)) = Ok d) ops ds"
    using whole_frame_ok by fastforce
  then show ?case by simp
qed simp

section \<open>Chunks\<close>

definition range_holds :: "(stored_operation \<Rightarrow> details_level) \<Rightarrow> sync_range \<Rightarrow> stored_operation list \<Rightarrow> bool" where
  "range_holds d r ch \<longleftrightarrow>
     sr_operations_count r = length ch \<and> sr_hasher r = Some (concat (map op_mh ch)) \<and> sr_hash r = None \<and>
     sr_operations r = filter (\<lambda>op. d op = DetailsFull) ch \<and>
     sr_operations_headers r = filter (\<lambda>op. d op = DetailsHeader) ch \<and>
     (ch \<noteq> [] \<longrightarrow> sr_to_operation r = Included (so_operation_id (last ch)))"

lemma range_push_holds:
  assumes "range_holds d r ch" and "frame_ok C op"
  shows "\<exists>r'. range_push_operation op (d op) r = Ok r' \<and> range_holds d r' (ch @ [op]) \<and>
    sr_from_operation r' = sr_from_operation r"
  using assms(1)
  by (cases "d op") (auto simp: frame_multihash_ok [OF assms(2)] range_push_operation_def range_holds_def Let_def)

lemma range_new_holds: "range_holds d (sync_range_new lo hi) []"
  by (simp add: range_holds_def sync_range_new_def)

definition chunk_from :: "nat bound \<Rightarrow> stored_operation list list \<Rightarrow> nat \<Rightarrow> nat bound" where
  "chunk_from lo chs i = (if i = 0 then lo else Excluded (so_operation_id (last (chs ! (i - 1)))))"

definition ranges_hold ::
  "(stored_operation \<Rightarrow> details_level) \<Rightarrow> nat \<Rightarrow> nat bound \<Rightarrow> sync_range list \<Rightarrow> stored_operation list list \<Rightarrow> bool" where
  "ranges_hold d n lo rs chs \<longleftrightarrow>
     rs \<noteq> [] \<and> length chs = length rs \<and>
     (\<forall>i < length rs. range_holds d (rs ! i) (chs ! i) \<and> length (chs ! i) \<le> n + 1 \<and>
        sr_from_operation (rs ! i) = chunk_from lo chs i \<and> (Suc i < length rs \<longrightarrow> chs ! i \<noteq> []))"

lemma ranges_hold_new: "ranges_hold d n lo (push_new_range lo []) [[]]"
  by (simp add: ranges_hold_def push_new_range_def range_new_holds chunk_from_def) (simp add: sync_range_new_def)

lemma ranges_hold_last:
  assumes "ranges_hold d n lo rs chs"
  shows "rs \<noteq> []" and "chs \<noteq> []" and "length chs = length rs" and "last rs = rs ! (length rs - 1)"
    and "last chs = chs ! (length rs - 1)" and "range_holds d (last rs) (last chs)"
proof -
  show l: "rs \<noteq> []" "length chs = length rs" using assms by (auto simp: ranges_hold_def)
  then show c: "chs \<noteq> []" by auto
  show "last rs = rs ! (length rs - 1)" "last chs = chs ! (length rs - 1)"
    using last_conv_nth [OF l(1)] last_conv_nth [OF c] l(2) by simp_all
  then show "range_holds d (last rs) (last chs)" using assms l by (simp add: ranges_hold_def)
qed

lemma ranges_hold_snoc:
  assumes "ranges_hold d n lo rs chs" and "last chs \<noteq> []"
  shows "ranges_hold d n lo (rs @ [sync_range_new (Excluded (so_operation_id (last (last chs)))) Unbounded]) (chs @ [[]])"
proof -
  note l = ranges_hold_last [OF assms(1)]
  have f: "chunk_from lo (chs @ [[]]) i = chunk_from lo chs i" if "i < length rs" for i
    using that l(3) by (auto simp: chunk_from_def nth_append)
  have e: "chunk_from lo (chs @ [[]]) (length rs) = Excluded (so_operation_id (last (last chs)))"
    using l by (cases "length rs") (auto simp: chunk_from_def nth_append)
  show ?thesis
    unfolding ranges_hold_def
  proof (intro conjI allI impI)
    fix i assume i: "i < length (rs @ [sync_range_new (Excluded (so_operation_id (last (last chs)))) Unbounded])"
    show "range_holds d ((rs @ [sync_range_new (Excluded (so_operation_id (last (last chs)))) Unbounded]) ! i) ((chs @ [[]]) ! i)"
      "length ((chs @ [[]]) ! i) \<le> n + 1"
      "sr_from_operation ((rs @ [sync_range_new (Excluded (so_operation_id (last (last chs)))) Unbounded]) ! i) =
         chunk_from lo (chs @ [[]]) i"
      using i assms(1) l f e
      by (cases "i < length rs"; auto simp: ranges_hold_def nth_append range_new_holds sync_range_new_def
          less_Suc_eq range_new_holds [unfolded sync_range_new_def])+
    show "(chs @ [[]]) ! i \<noteq> []" if "Suc i < length (rs @ [sync_range_new (Excluded (so_operation_id (last (last chs)))) Unbounded])"
      using that assms l by (cases "Suc i = length rs") (auto simp: ranges_hold_def nth_append dest!: sym [of "Suc i"])
  qed (use l in simp_all)
qed

lemma ranges_hold_extend:
  assumes h: "ranges_hold d n lo rs chs" and r: "range_holds d r (last chs @ [op])"
    and f: "sr_from_operation r = sr_from_operation (last rs)" and n: "length (last chs) \<le> n"
  shows "ranges_hold d n lo (butlast rs @ [r]) (butlast chs @ [last chs @ [op]])"
proof -
  note l = ranges_hold_last [OF h]
  have c: "(butlast chs @ [last chs @ [op]]) ! i = (if Suc i = length rs then last chs @ [op] else chs ! i)"
    "(butlast rs @ [r]) ! i = (if Suc i = length rs then r else rs ! i)" if "i < length rs" for i
    using that l by (auto simp: nth_append nth_butlast)
  have "chunk_from lo (butlast chs @ [last chs @ [op]]) i = chunk_from lo chs i" if "i < length rs" for i
    using that l c(1) [of "i - 1"] by (auto simp: chunk_from_def)
  then show ?thesis
    using h r f n l c by (auto simp: ranges_hold_def split: if_splits dest!: sym [of "Suc _"])
qed

lemma ranges_push_holds:
  assumes h: "ranges_hold d (pc_max_operations_per_range cfg) lo rs chs" and op: "frame_ok C op"
  shows "\<exists>rs' chs'. ranges_push_operation cfg op (d op) rs = Ok rs' \<and>
    ranges_hold d (pc_max_operations_per_range cfg) lo rs' chs' \<and> concat chs' = concat chs @ [op]"
proof -
  let ?n = "pc_max_operations_per_range cfg"
  note ne = ranges_hold_last(1,2) [OF h] and l = ranges_hold_last(6) [OF h]
  have cat: "concat (butlast xs @ [last xs @ [op]]) = concat xs @ [op]" if "xs \<noteq> []" for xs :: "stored_operation list list"
    using arg_cong [OF append_butlast_last_id [OF that], of concat] by simp
  show ?thesis
  proof (cases "sr_operations_count (last rs) > ?n")
    case False
    then have n: "length (last chs) \<le> ?n" using l by (simp add: range_holds_def)
    obtain r where r: "range_push_operation op (d op) (last rs) = Ok r" "range_holds d r (last chs @ [op])"
        "sr_from_operation r = sr_from_operation (last rs)"
      using range_push_holds [OF l op] by blast
    have "ranges_push_operation cfg op (d op) rs = Ok (butlast rs @ [r])"
      using ne False r(1) by (simp add: ranges_push_operation_def)
    with ranges_hold_extend [OF h r(2,3) n] cat [OF ne(2)] show ?thesis by blast
  next
    case True
    then have lc: "last chs \<noteq> []" using l by (auto simp: range_holds_def)
    let ?r0 = "sync_range_new (Excluded (so_operation_id (last (last chs)))) Unbounded"
    have to: "sr_to_operation (last rs) = Included (so_operation_id (last (last chs)))"
      using l lc by (simp add: range_holds_def)
    note h1 = ranges_hold_snoc [OF h lc]
    obtain r where r: "range_push_operation op (d op) ?r0 = Ok r" "range_holds d r ([] @ [op])"
        "sr_from_operation r = sr_from_operation ?r0"
      using range_push_holds [OF range_new_holds op] by blast
    have "ranges_push_operation cfg op (d op) rs = Ok (rs @ [r])"
      using ne True r(1) to by (simp add: ranges_push_operation_def push_new_range_def)
    moreover have "ranges_hold d ?n lo (rs @ [r]) (chs @ [[op]])"
      using ranges_hold_extend [OF h1, of r op] r by simp
    ultimately show ?thesis by (intro exI [of _ "rs @ [r]"] exI [of _ "chs @ [[op]]"]) simp
  qed
qed

lemma ranges_push_all_holds:
  assumes "ranges_hold d (pc_max_operations_per_range cfg) lo rs chs" and "\<forall>op \<in> set ops. frame_ok C op"
  shows "\<exists>rs' chs'. ranges_push_operations cfg d ops rs = Ok rs' \<and>
    ranges_hold d (pc_max_operations_per_range cfg) lo rs' chs' \<and> concat chs' = concat chs @ ops"
  using assms
proof (induction ops arbitrary: rs chs)
  case (Cons op ops)
  then obtain rs1 chs1 where 1: "ranges_push_operation cfg op (d op) rs = Ok rs1"
      "ranges_hold d (pc_max_operations_per_range cfg) lo rs1 chs1" "concat chs1 = concat chs @ [op]"
    using ranges_push_holds by fastforce
  from Cons.IH [OF 1(2)] Cons.prems(2) 1(1,3) show ?case by auto
qed auto

section \<open>The ranges tile the operations\<close>

definition chunk_to :: "nat bound \<Rightarrow> stored_operation list list \<Rightarrow> nat \<Rightarrow> nat bound" where
  "chunk_to hi chs i = (if Suc i < length chs then Included (so_operation_id (last (chs ! i))) else hi)"

definition ids_increase :: "stored_operation list \<Rightarrow> bool" where
  "ids_increase ops \<longleftrightarrow> sorted_wrt (\<lambda>a b. so_operation_id a < so_operation_id b) ops"

lemma ids_increase_append:
  "ids_increase (xs @ ys) \<longleftrightarrow> ids_increase xs \<and> ids_increase ys \<and>
     (\<forall>a \<in> set xs. \<forall>b \<in> set ys. so_operation_id a < so_operation_id b)"
  by (simp add: ids_increase_def sorted_wrt_append)

lemma ids_increase_last:
  assumes "ids_increase xs" and "x \<in> set xs"
  shows "so_operation_id x \<le> so_operation_id (last xs)"
proof -
  have "xs \<noteq> []" using assms(2) by auto
  then have "x \<in> set (butlast xs) \<or> x = last xs"
    using assms(2) append_butlast_last_id [of xs] by (metis Un_iff set_append set_ConsD empty_iff empty_set)
  moreover have "ids_increase (butlast xs @ [last xs])" using assms(1) \<open>xs \<noteq> []\<close> by simp
  ultimately show ?thesis by (auto simp: ids_increase_append less_imp_le)
qed

lemma chunks_split:
  assumes "i < length chs"
  shows "concat chs = concat (take i chs) @ chs ! i @ concat (drop (Suc i) chs)"
  using arg_cong [OF id_take_nth_drop [OF assms], of concat] by simp

lemma chunk_from_separates:
  assumes inc: "ids_increase (concat chs)" and i: "i < length chs" and ne: "0 < i \<Longrightarrow> chs ! (i - 1) \<noteq> []"
    and lo: "\<And>op. op \<in> set (concat chs) \<Longrightarrow> from_bound lo (so_operation_id op)"
  shows "op \<in> set (concat (take i chs)) \<Longrightarrow> \<not> from_bound (chunk_from lo chs i) (so_operation_id op)"
    and "op \<in> set (chs ! i @ concat (drop (Suc i) chs)) \<Longrightarrow> from_bound (chunk_from lo chs i) (so_operation_id op)"
proof -
  note split = chunks_split [OF i]
  have inc': "ids_increase (concat (take i chs))"
    "\<And>a b. a \<in> set (concat (take i chs)) \<Longrightarrow> b \<in> set (chs ! i @ concat (drop (Suc i) chs)) \<Longrightarrow> so_operation_id a < so_operation_id b"
    using inc unfolding split ids_increase_append by blast+
  have last: "last (concat (take i chs)) = last (chs ! (i - 1))" "last (chs ! (i - 1)) \<in> set (concat (take i chs))" if pos: "0 < i"
  proof -
    obtain j where j: "i = Suc j" using pos by (cases i) auto
    then have "concat (take i chs) = concat (take j chs) @ chs ! j" using i by (simp add: take_Suc_conv_app_nth)
    then show "last (concat (take i chs)) = last (chs ! (i - 1))" "last (chs ! (i - 1)) \<in> set (concat (take i chs))"
      using ne [OF pos] j by simp_all
  qed
  show "\<not> from_bound (chunk_from lo chs i) (so_operation_id op)" if "op \<in> set (concat (take i chs))"
  proof -
    have "0 < i" using that by (cases i) auto
    with ids_increase_last [OF inc'(1) that] last show ?thesis by (simp add: chunk_from_def)
  qed
  show "from_bound (chunk_from lo chs i) (so_operation_id op)" if "op \<in> set (chs ! i @ concat (drop (Suc i) chs))"
  proof (cases "i = 0")
    case True
    have "op \<in> set (concat chs)" using that unfolding split by auto
    with lo True show ?thesis by (simp add: chunk_from_def)
  next
    case False
    with inc'(2) [OF last(2) that] show ?thesis by (simp add: chunk_from_def)
  qed
qed

lemma chunk_to_separates:
  assumes inc: "ids_increase (concat chs)" and i: "i < length chs" and ne: "Suc i < length chs \<Longrightarrow> chs ! i \<noteq> []"
    and hi: "\<And>op. op \<in> set (concat chs) \<Longrightarrow> to_bound hi (so_operation_id op)"
  shows "op \<in> set (chs ! i) \<Longrightarrow> to_bound (chunk_to hi chs i) (so_operation_id op)"
    and "op \<in> set (concat (drop (Suc i) chs)) \<Longrightarrow> \<not> to_bound (chunk_to hi chs i) (so_operation_id op)"
proof -
  note split = chunks_split [OF i]
  have inc': "ids_increase (chs ! i)"
    "\<And>a b. a \<in> set (chs ! i) \<Longrightarrow> b \<in> set (concat (drop (Suc i) chs)) \<Longrightarrow> so_operation_id a < so_operation_id b"
    using inc unfolding split ids_increase_append by blast+
  show "to_bound (chunk_to hi chs i) (so_operation_id op)" if "op \<in> set (chs ! i)"
  proof (cases "Suc i < length chs")
    case True
    with ids_increase_last [OF inc'(1) that] show ?thesis by (simp add: chunk_to_def)
  next
    case False
    have "op \<in> set (concat chs)" using that unfolding split by auto
    with hi False show ?thesis by (simp add: chunk_to_def)
  qed
  show "\<not> to_bound (chunk_to hi chs i) (so_operation_id op)" if "op \<in> set (concat (drop (Suc i) chs))"
  proof -
    have s: "Suc i < length chs" using that by (cases "Suc i < length chs") auto
    with inc'(2) [OF last_in_set [OF ne [OF s]] that] show ?thesis by (simp add: chunk_to_def)
  qed
qed

lemma chunk_filter:
  assumes "ids_increase (concat chs)" and "i < length chs" and "\<And>j. Suc j < length chs \<Longrightarrow> chs ! j \<noteq> []"
    and "\<And>op. op \<in> set (concat chs) \<Longrightarrow> in_range (lo, hi) (so_operation_id op)"
  shows "filter (\<lambda>op. in_range (chunk_from lo chs i, chunk_to hi chs i) (so_operation_id op)) (concat chs) = chs ! i"
proof -
  have ne: "chs ! (i - 1) \<noteq> []" if "0 < i" using assms(2) assms(3) [of "i - 1"] that by auto
  have lo: "from_bound lo (so_operation_id op)" and hi: "to_bound hi (so_operation_id op)" if "op \<in> set (concat chs)" for op
    using assms(4) [OF that] by (simp_all add: in_range_def)
  note f = chunk_from_separates [OF assms(1,2) ne lo] and t = chunk_to_separates [OF assms(1,2,3) hi]
  have "filter (\<lambda>op. in_range (chunk_from lo chs i, chunk_to hi chs i) (so_operation_id op)) (concat (take i chs)) = []"
    "filter (\<lambda>op. in_range (chunk_from lo chs i, chunk_to hi chs i) (so_operation_id op)) (chs ! i) = chs ! i"
    "filter (\<lambda>op. in_range (chunk_from lo chs i, chunk_to hi chs i) (so_operation_id op)) (concat (drop (Suc i) chs)) = []"
    using f t assms(2) unfolding filter_empty_conv filter_id_conv in_range_def by auto
  then show ?thesis by (subst chunks_split [OF assms(2)]) simp
qed

text \<open>The operations of a store that a synchronisation looks at.\<close>

definition sync_ops :: "nat option \<Rightarrow> pending_store \<Rightarrow> stored_operation list" where
  "sync_ops h store = filter (\<lambda>op. committed_from h (so_commit_status op)) (ops_within (pending_get store) (Unbounded, Unbounded))"

lemma sorted_list_of_set_filter:
  assumes "finite A"
  shows "sorted_list_of_set {x \<in> A. P x} = filter P (sorted_list_of_set A)"
  by (rule sorted_distinct_set_unique) (use assms in \<open>auto simp: sorted_wrt_filter\<close>)

lemma ops_within_filter:
  assumes "pending_inv store"
  shows "ops_within (pending_get store) r =
    filter (\<lambda>op. in_range r (so_operation_id op)) (ops_within (pending_get store) (Unbounded, Unbounded))"
proof -
  have fin: "finite (dom (pending_get store))" by (rule mem.finite_get [OF assms])
  have id: "so_operation_id (the (pending_get store i)) = i" if "i \<in> dom (pending_get store)" for i
    using that mem.get_id [OF assms] by auto
  have "filter (\<lambda>op. in_range r (so_operation_id op)) (map (\<lambda>i. the (pending_get store i)) (sorted_list_of_set (dom (pending_get store))))
      = map (\<lambda>i. the (pending_get store i)) (filter (in_range r) (sorted_list_of_set (dom (pending_get store))))"
    unfolding filter_map using id fin by (intro arg_cong [of _ _ "map _"] filter_cong) auto
  then show ?thesis
    by (simp add: ops_within_def sorted_list_of_set_filter [OF fin])
qed

lemma operations_iter_sync:
  assumes "pending_inv store" and "range_ok r"
  shows "operations_iter_from_height store r h = Ok (filter (\<lambda>op. in_range r (so_operation_id op)) (sync_ops h store))"
  using assms mem.iter_within [OF assms] ops_within_filter [OF assms(1), of r]
  by (simp add: operations_iter_from_height_def sync_ops_def conj_commute)

lemma set_ops_within: "pending_inv store \<Longrightarrow> set (ops_within (pending_get store) (Unbounded, Unbounded)) = ran (pending_get store)"
  using mem.iter_all [of store] mem.iter_within [of store "(Unbounded, Unbounded)"] by auto

lemma sync_ops_increase:
  assumes "pending_inv store"
  shows "ids_increase (sync_ops h store)"
proof -
  have "sorted_wrt (<) (map so_operation_id (ops_within (pending_get store) (Unbounded, Unbounded)))"
    using mem.iter_all [OF assms] mem.iter_within [OF assms, of "(Unbounded, Unbounded)"] by auto
  then show ?thesis by (simp add: ids_increase_def sync_ops_def sorted_wrt_map sorted_wrt_filter)
qed

lemma extract_bound_fields: "b \<noteq> Excluded 0 \<Longrightarrow> extract_bound (snd (bound_fields b)) (fst (bound_fields b)) = b"
  by (cases b) auto

end
