(* ===== verification/Exo_Pending_Sync_Props.thy ===== *)
theory Exo_Pending_Sync_Props
  imports Exo_Pending_Sync_Facts Exo_Example
begin

text \<open>Properties of the synchroniser of pending operations.\<close>

section \<open>The messages of a list of ranges\<close>

definition range_msg ::
  "('c) codec_scheme \<Rightarrow> (stored_operation \<Rightarrow> details_level) \<Rightarrow> nat bound \<Rightarrow> nat bound \<Rightarrow> stored_operation list list
     \<Rightarrow> nat \<Rightarrow> sync_range_msg \<Rightarrow> bool" where
  "range_msg C d lo hi chs i m \<longleftrightarrow>
     (rm_from_included m, rm_from_operation m) = bound_fields (chunk_from lo chs i) \<and>
     (rm_to_included m, rm_to_operation m) = bound_fields (chunk_to hi chs i) \<and>
     rm_operations_hash m = digest C (concat (map op_mh (chs ! i))) \<and>
     rm_operations_count m = length (chs ! i) \<and>
     map_option (map om_operation_id) (rm_operations_headers m) =
       (let hs = filter (\<lambda>op. d op = DetailsHeader) (chs ! i) in if hs = [] then None else Some (map so_operation_id hs)) \<and>
     (let fs = filter (\<lambda>op. d op = DetailsFull) (chs ! i) in
      if fs = [] then rm_operations_frames m = None
      else \<exists>ds. rm_operations_frames m = Some ds \<and> list_all2 (\<lambda>op x. whole_data (tf_frame (so_frame op)) = Ok x) fs ds)"

lemma write_ranges_nth:
  assumes "\<And>i. i < length rs \<Longrightarrow> \<exists>m. write_into_sync_range C (rs ! i) = Ok m \<and> P i m"
  shows "\<exists>ms. write_ranges C rs = Ok ms \<and> length ms = length rs \<and> (\<forall>i < length rs. P i (ms ! i))"
  using assms
proof (induction rs arbitrary: P)
  case (Cons r rs)
  obtain m where m: "write_into_sync_range C r = Ok m" "P 0 m" using Cons.prems [of 0] by auto
  obtain ms where ms: "write_ranges C rs = Ok ms" "length ms = length rs" "\<forall>i < length rs. P (Suc i) (ms ! i)"
    using Cons.IH [of "\<lambda>i. P (Suc i)"] Cons.prems [of "Suc _"] by auto
  have "P i ((m # ms) ! i)" if "i < length (r # rs)" for i
    using that m(2) ms(3) by (cases i) auto
  with m(1) ms(1,2) show ?case by (intro exI [of _ "m # ms"]) simp
qed simp

lemma write_range_msg:
  assumes h: "range_holds d r ch" and ok: "\<forall>op \<in> set ch. frame_ok C op"
    and "sr_from_operation r' = chunk_from lo chs i" and "sr_to_operation r' = chunk_to hi chs i" and "chs ! i = ch"
    and "r' = r\<lparr>sr_to_operation := to\<rparr>"
  shows "\<exists>m. write_into_sync_range C r' = Ok m \<and> range_msg C d lo hi chs i m"
proof -
  let ?hs = "filter (\<lambda>op. d op = DetailsHeader) ch" and ?fs = "filter (\<lambda>op. d op = DetailsFull) ch"
  have hs: "header_msgs ?hs = Ok (map (\<lambda>op. \<lparr>om_group_id = so_group_id op, om_operation_id = so_operation_id op,
        om_operation_signature = op_mh op\<rparr>) ?hs)"
    by (rule header_msgs_ok) (use ok in auto)
  obtain ds where fs: "frame_msgs ?fs = Ok ds" "list_all2 (\<lambda>op x. whole_data (tf_frame (so_frame op)) = Ok x) ?fs ds"
    using frame_msgs_ok [of ?fs C] ok by auto
  show ?thesis
    using assms hs fs
    by (auto simp: write_into_sync_range_def range_holds_def range_msg_def Let_def comp_def)
qed

lemma finished_ranges:
  assumes h: "ranges_hold d n lo rs chs" and ok: "\<forall>op \<in> set (concat chs). frame_ok C op"
  shows "\<exists>ms. write_ranges C (set_last_range_to_bound hi rs) = Ok ms \<and> length ms = length chs \<and>
    (\<forall>i < length chs. range_msg C d lo hi chs i (ms ! i))"
proof -
  note l = ranges_hold_last [OF h]
  let ?rs = "set_last_range_to_bound hi rs"
  have len: "length ?rs = length rs" using l(1) by (simp add: set_last_range_to_bound_def)
  have at: "?rs ! i = (if Suc i = length rs then (rs ! i)\<lparr>sr_to_operation := hi\<rparr> else rs ! i)" if "i < length rs" for i
    using that l by (auto simp: set_last_range_to_bound_def nth_append nth_butlast dest!: sym [of "Suc i"])
  have "\<exists>m. write_into_sync_range C (?rs ! i) = Ok m \<and> range_msg C d lo hi chs i m" if "i < length ?rs" for i
  proof -
    have i: "i < length rs" using that len by simp
    then have r: "range_holds d (rs ! i) (chs ! i)" "sr_from_operation (rs ! i) = chunk_from lo chs i"
        "Suc i < length rs \<longrightarrow> chs ! i \<noteq> []"
      using h by (auto simp: ranges_hold_def)
    have "chs ! i \<in> set chs" using i l(3) by simp
    then have ok': "\<forall>op \<in> set (chs ! i). frame_ok C op" using ok by auto
    have to: "sr_to_operation (?rs ! i) = chunk_to hi chs i"
      using at [OF i] i r l(3) by (auto simp: chunk_to_def range_holds_def)
    show ?thesis
      by (rule write_range_msg [OF r(1) ok' _ to refl, where to = "sr_to_operation (?rs ! i)"])
        (use at [OF i] r(2) in auto)
  qed
  from write_ranges_nth [OF this] show ?thesis using len l(3) by auto
qed

section \<open>A request\<close>

definition frames_ok :: "('c) codec_scheme \<Rightarrow> pending_store \<Rightarrow> bool" where
  "frames_ok C store \<longleftrightarrow> (\<forall>op \<in> ran (pending_get store). frame_ok C op \<and> 0 < so_operation_id op)"

lemma sync_ops_ok:
  assumes "pending_inv store" and "frames_ok C store" and "op \<in> set (sync_ops h store)"
  shows "frame_ok C op" and "0 < so_operation_id op"
  using assms set_ops_within [OF assms(1)] by (auto simp: sync_ops_def frames_ok_def)

lemma request_ranges:
  assumes inv: "pending_inv store" and ok: "frames_ok C store"
  shows "\<exists>ms chs. create_sync_request_for_range C py sc store (lo, Unbounded) d =
      Ok \<lparr>pr_from_block_height = (case get_from_block_height py sc None of Some h \<Rightarrow> h | None \<Rightarrow> 0), pr_ranges = ms\<rparr> \<and>
    concat chs = filter (\<lambda>op. in_range (lo, Unbounded) (so_operation_id op)) (sync_ops (get_from_block_height py sc None) store) \<and>
    chs \<noteq> [] \<and> length ms = length chs \<and> (\<forall>i < length chs. range_msg C d lo Unbounded chs i (ms ! i) \<and>
      length (chs ! i) \<le> pc_max_operations_per_range (py_config py) + 1 \<and> (Suc i < length chs \<longrightarrow> chs ! i \<noteq> []))"
proof -
  let ?h = "get_from_block_height py sc None"
  let ?ops = "filter (\<lambda>op. in_range (lo, Unbounded) (so_operation_id op)) (sync_ops ?h store)"
  have "range_ok (lo, Unbounded)" by (cases lo) auto
  note ops = operations_iter_sync [OF inv this, of ?h]
  have fr: "\<forall>op \<in> set ?ops. frame_ok C op" using sync_ops_ok [OF inv ok] by auto
  obtain rs chs where 1: "ranges_push_operations (py_config py) d ?ops (push_new_range lo []) = Ok rs"
      "ranges_hold d (pc_max_operations_per_range (py_config py)) lo rs chs" "concat chs = ?ops"
    using ranges_push_all_holds [OF ranges_hold_new fr] by force
  obtain ms where 2: "write_ranges C (set_last_range_to_bound Unbounded rs) = Ok ms" "length ms = length chs"
      "\<forall>i < length chs. range_msg C d lo Unbounded chs i (ms ! i)"
    using finished_ranges [OF 1(2), of C Unbounded] fr unfolding 1(3) by blast
  have "create_sync_request_for_range C py sc store (lo, Unbounded) d =
      Ok \<lparr>pr_from_block_height = (case ?h of Some h \<Rightarrow> h | None \<Rightarrow> 0), pr_ranges = ms\<rparr>"
    using ops 1(1) 2(1) by (simp add: create_sync_request_for_range_def Let_def)
  with 1 2 ranges_hold_last(2,3) [OF 1(2)] show ?thesis by (fastforce simp: ranges_hold_def)
qed

section \<open>Handling a range that matches\<close>

lemma last_in_concat: "x \<in> set xs \<Longrightarrow> x \<noteq> [] \<Longrightarrow> last x \<in> set (concat xs)"
  by (auto intro!: bexI [of _ x])

lemma chunk_last_less:
  assumes inc: "ids_increase (concat chs)" and i: "i < length chs" and j: "j < i"
    and "chs ! j \<noteq> []" and "chs ! i \<noteq> []"
  shows "so_operation_id (last (chs ! j)) < so_operation_id (last (chs ! i))"
proof -
  have "chs ! j \<in> set (take i chs)" using i j by (auto simp: in_set_conv_nth intro!: exI [of _ j])
  with assms(4) have "last (chs ! j) \<in> set (concat (take i chs))" by (rule last_in_concat [rotated])
  moreover have "last (chs ! i) \<in> set (chs ! i @ concat (drop (Suc i) chs))" using assms(5) by simp
  moreover have "\<forall>a \<in> set (concat (take i chs)). \<forall>b \<in> set (chs ! i @ concat (drop (Suc i) chs)).
      so_operation_id a < so_operation_id b"
    using inc chunks_split [OF i] by (simp only: ids_increase_append simp_thms) blast
  ultimately show ?thesis by blast
qed

lemma chunk_bounds:
  assumes inc: "ids_increase (concat chs)" and i: "i < length chs" and ne: "\<And>j. Suc j < length chs \<Longrightarrow> chs ! j \<noteq> []"
    and pos: "\<And>op. op \<in> set (concat chs) \<Longrightarrow> 0 < so_operation_id op"
    and m: "range_msg C d Unbounded Unbounded chs i m"
  shows "fst (extract_sync_bounds m) = (chunk_from Unbounded chs i, chunk_to Unbounded chs i)"
    and "range_ok (chunk_from Unbounded chs i, chunk_to Unbounded chs i)"
    and "\<not> (rm_to_operation m \<noteq> 0 \<and> rm_to_operation m < rm_from_operation m)"
proof -
  have last_pos: "0 < so_operation_id (last (chs ! j))" if "Suc j < length chs" for j
  proof (rule pos)
    have "chs ! j \<in> set chs" using that by simp
    from last_in_concat [OF this ne [OF that]] show "last (chs ! j) \<in> set (concat chs)" .
  qed
  have f: "chunk_from Unbounded chs i \<noteq> Excluded 0" and t: "chunk_to Unbounded chs i \<noteq> Excluded 0"
    using last_pos [of "i - 1"] i by (auto simp: chunk_from_def chunk_to_def)
  show "fst (extract_sync_bounds m) = (chunk_from Unbounded chs i, chunk_to Unbounded chs i)"
    using m extract_bound_fields [OF f] extract_bound_fields [OF t]
    by (simp add: range_msg_def extract_sync_bounds_def del: extract_bound.simps) (metis fst_conv snd_conv)
  have less: "so_operation_id (last (chs ! (i - 1))) < so_operation_id (last (chs ! i))" if "0 < i" "Suc i < length chs"
    using that ne [of "i - 1"] ne [of i] by (intro chunk_last_less [OF inc i]) auto
  show "range_ok (chunk_from Unbounded chs i, chunk_to Unbounded chs i)"
    using less by (auto simp: chunk_from_def chunk_to_def)
  show "\<not> (rm_to_operation m \<noteq> 0 \<and> rm_to_operation m < rm_from_operation m)"
    using m less by (auto simp: range_msg_def chunk_from_def chunk_to_def split: if_splits)
qed

text \<open>The bounds of the chunks split the identifiers, each of which is between the bounds of exactly one.\<close>

lemma chunks_partition:
  assumes inc: "ids_increase (concat chs)" and "chs \<noteq> []" and ne: "\<And>j. Suc j < length chs \<Longrightarrow> chs ! j \<noteq> []"
  shows "\<exists>!i. i < length chs \<and> in_range (chunk_from Unbounded chs i, chunk_to Unbounded chs i) k"
proof -
  let ?bound = "\<lambda>i. so_operation_id (last (chs ! i))"
  have mono: "?bound i < ?bound j" if "i < j" "Suc j < length chs" for i j
    using that ne by (intro chunk_last_less [OF inc]) auto
  have at: "in_range (chunk_from Unbounded chs i, chunk_to Unbounded chs i) k \<longleftrightarrow>
      (0 < i \<longrightarrow> ?bound (i - 1) < k) \<and> (Suc i < length chs \<longrightarrow> k \<le> ?bound i)" for i
    by (auto simp: in_range_def chunk_from_def chunk_to_def)
  define i where "i = (LEAST i. Suc i < length chs \<longrightarrow> k \<le> ?bound i)"
  have i: "Suc i < length chs \<longrightarrow> k \<le> ?bound i" unfolding i_def by (rule LeastI [of _ "length chs"]) simp
  have less: "Suc j < length chs \<and> ?bound j < k" if "j < i" for j
    using not_less_Least [of j "\<lambda>i. Suc i < length chs \<longrightarrow> k \<le> ?bound i"] that by (simp add: i_def)
  show ?thesis
  proof (intro ex1I conjI)
    show "i < length chs" using less [of "i - 1"] assms(2) by (cases i) auto
    show "in_range (chunk_from Unbounded chs i, chunk_to Unbounded chs i) k" unfolding at using i less by simp
  next
    fix j assume j: "j < length chs \<and> in_range (chunk_from Unbounded chs j, chunk_to Unbounded chs j) k"
    show "j = i"
    proof (cases j i rule: linorder_cases)
      case less
      with \<open>\<And>j. j < i \<Longrightarrow> _\<close> [of j] j show ?thesis by (auto simp: at)
    next
      case greater
      then have "?bound (j - 1) < k" "k \<le> ?bound i" using j i by (auto simp: at)
      moreover have "i = j - 1 \<or> i < j - 1" using greater by auto
      then have "?bound i \<le> ?bound (j - 1)" using mono [of i "j - 1"] greater j by (elim disjE) auto
      ultimately show ?thesis by simp
    qed
  qed
qed

lemma matching_range_quiet:
  assumes inv: "pending_inv store" and ok: "frames_ok C store" and H: "hash_lib_ok C"
    and eq: "concat chs = sync_ops h store" and i: "i < length chs"
    and ne: "\<And>j. Suc j < length chs \<Longrightarrow> chs ! j \<noteq> []"
    and m: "range_msg C (\<lambda>_. DetailsNone) Unbounded Unbounded chs i m"
  shows "\<exists>out'. handle_incoming_range C cfg h m (changes, out) (store, sc) = (Ok (changes, out'), (store, sc))"
proof -
  let ?r = "(chunk_from Unbounded chs i, chunk_to Unbounded chs i)"
  have inc: "ids_increase (concat chs)" unfolding eq by (rule sync_ops_increase [OF inv])
  have fr: "frame_ok C op" "0 < so_operation_id op" if "op \<in> set (concat chs)" for op
    using that sync_ops_ok [OF inv ok] unfolding eq by blast+
  note b = chunk_bounds [OF inc i ne fr(2) m]
  have ops: "operations_iter_from_height store ?r h = Ok (chs ! i)"
    using operations_iter_sync [OF inv b(2), of h] chunk_filter [OF inc i ne, of Unbounded Unbounded]
    by (simp add: eq)
  have "chs ! i \<in> set chs" using i by simp
  then have "hash_stored (chs ! i) [] = Ok (concat (map op_mh (chs ! i)))"
    using fr(1) by (subst hash_stored_ok [of _ C]) auto
  then have info: "local_store_range_info C store ?r h = Ok (digest C (concat (map op_mh (chs ! i))), length (chs ! i))"
    using ops by (simp add: local_store_range_info_def)
  obtain n n' where ex: "extract_sync_bounds m = (?r, n, n')" "n = rm_from_operation m" "n' = rm_to_operation m"
    using b(1) by (auto simp: extract_sync_bounds_def)
  show ?thesis
    using m ex b(3) info digest_decodes [OF H]
    by (auto simp: handle_incoming_range_def range_msg_def)
qed

lemma matching_ranges_quiet:
  assumes "\<And>m changes out. m \<in> set ms \<Longrightarrow>
      \<exists>out'. handle_incoming_range C cfg h m (changes, out) s = (Ok (changes, out'), s)"
  shows "\<exists>out'. handle_incoming_sync_ranges C cfg h ms (changes, out) s = (Ok (if changes then Some out' else None), s)"
  using assms
proof (induction ms arbitrary: out)
  case (Cons m ms)
  obtain out1 where 1: "handle_incoming_range C cfg h m (changes, out) s = (Ok (changes, out1), s)"
    using Cons.prems [of m] by auto
  obtain out2 where "handle_incoming_sync_ranges C cfg h ms (changes, out1) s = (Ok (if changes then Some out2 else None), s)"
    using Cons.IH [of out1] Cons.prems by auto
  with 1 show ?case by auto
qed auto

section \<open>Comparing a range with its headers\<close>

abbreviation local_ids :: "stored_operation list \<Rightarrow> nat set" where
  "local_ids ls \<equiv> so_operation_id ` set ls"

abbreviation remote_ids :: "op_header_msg list \<Rightarrow> nat set" where
  "remote_ids rs \<equiv> om_operation_id ` set rs"

definition missing_details :: "nat set \<Rightarrow> stored_operation \<Rightarrow> details_level" where
  "missing_details known op = (if so_operation_id op \<in> known then DetailsHeader else DetailsFull)"

lemma ranges_push_cong:
  "(\<And>op. op \<in> set ls \<Longrightarrow> d op = d' op) \<Longrightarrow> ranges_push_operations cfg d ls out = ranges_push_operations cfg d' ls out"
  by (induction ls arbitrary: out) (auto intro!: and_then_cong)

lemma diff_merged_pushes:
  assumes "sorted_wrt (<) (map om_operation_id rs)" and "ids_increase ls"
    and "\<And>op. op \<in> set ls \<Longrightarrow> d op = missing_details (remote_ids rs \<union> set inc) op"
  shows "diff_merged cfg inc (merge_join rs ls) (df, out) =
    and_then (ranges_push_operations cfg d ls out) (\<lambda>out'.
      Ok (df \<or> \<not> remote_ids rs \<subseteq> local_ids ls \<or> \<not> local_ids ls \<subseteq> remote_ids rs \<union> set inc, out'))"
  using assms
proof (induction rs ls arbitrary: df out rule: merge_join.induct)
  case (1 ls)
  then show ?case
    by (induction ls arbitrary: df out)
      (auto simp: missing_details_def ids_increase_def and_then_assoc intro!: and_then_cong)
next
  case (2 r rs)
  then show ?case by (induction rs arbitrary: r df) auto
next
  case (3 r rs l ls)
  let ?d = "missing_details (remote_ids (r # rs) \<union> set inc)"
  have d: "d l = ?d l" "\<And>op. op \<in> set ls \<Longrightarrow> d op = ?d op" using 3(6) by auto
  have rs: "sorted_wrt (<) (map om_operation_id rs)" "\<forall>x \<in> remote_ids rs. om_operation_id r < x" using 3(4) by auto
  have ls: "ids_increase ls" "\<forall>x \<in> local_ids ls. so_operation_id l < x" using 3(5) by (auto simp: ids_increase_def)
  consider (lt) "om_operation_id r < so_operation_id l" | (eq) "om_operation_id r = so_operation_id l"
    | (gt) "so_operation_id l < om_operation_id r" by linarith
  then show ?case
  proof cases
    case lt
    have "d op = missing_details (remote_ids rs \<union> set inc) op" if "op \<in> set (l # ls)" for op
      using that lt 3(6) [OF that] ls(2) by (auto simp: missing_details_def)
    note IH = 3(1) [OF lt rs(1) 3(5) this, of True out]
    have "\<not> remote_ids (r # rs) \<subseteq> local_ids (l # ls)" using lt ls(2) by fastforce
    with lt IH show ?thesis by simp
  next
    case eq
    have "d op = missing_details (remote_ids rs \<union> set inc) op" if "op \<in> set ls" for op
      using that eq d(2) [OF that] ls(2) by (auto simp: missing_details_def)
    note IH = 3(2) [OF _ eq rs(1) ls(1) this]
    have "so_operation_id l \<notin> remote_ids rs" "so_operation_id l \<notin> local_ids ls" using eq rs(2) ls(2) by fastforce+
    then have "remote_ids (r # rs) \<subseteq> local_ids (l # ls) \<longleftrightarrow> remote_ids rs \<subseteq> local_ids ls"
      "local_ids (l # ls) \<subseteq> remote_ids (r # rs) \<union> set inc \<longleftrightarrow> local_ids ls \<subseteq> remote_ids rs \<union> set inc"
      using eq by (simp_all add: subset_insert)
    with eq d(1) IH show ?thesis
      by (simp add: missing_details_def and_then_assoc)
  next
    case gt
    note IH = 3(3) [OF _ _ 3(4) ls(1) d(2)]
    have new: "so_operation_id l \<notin> remote_ids (r # rs)" using gt rs(2) by fastforce
    have "remote_ids (r # rs) \<subseteq> local_ids (l # ls) \<longleftrightarrow> remote_ids (r # rs) \<subseteq> local_ids ls"
      "local_ids (l # ls) \<subseteq> remote_ids (r # rs) \<union> set inc \<longleftrightarrow>
         so_operation_id l \<in> set inc \<and> local_ids ls \<subseteq> remote_ids (r # rs) \<union> set inc"
      using subset_insert [OF new, of "local_ids ls"] new
      by (simp_all only: list.set(2) [of l ls] image_insert insert_subset Un_iff simp_thms)
    with gt d(1) IH new show ?thesis
      by (auto simp: missing_details_def and_then_assoc)
  qed
qed

section \<open>An example\<close>

definition example_sync_op :: "nat \<Rightarrow> chain_operation" where
  "example_sync_op k = \<lparr>co_operation_id = k, co_group_id = k, co_node_id = ''a'', co_operation = OpEntry [1, 2]\<rparr>"

definition example_sync :: pending_sync where
  "example_sync = pending_sync_new pending_sync_config_default example_cell"

definition example_context :: sync_context where
  "example_context = sync_context_new \<lparr>pending_last_cleanup_block = None\<rparr>"

lemma example_sync_store:
  obtains store op where "pending_reachable store" "frames_ok example_codec store" "pending_get store = [3 \<mapsto> op]"
    "so_operation_id op = 3" "so_commit_status op = StatusUnknown"
proof -
  have ok: "op_codec_ok example_codec (example_sync_op 3)"
    by (rule op_codec_example) (simp add: example_sync_op_def example_lengths)
  then obtain f where f: "op_is example_codec f (example_sync_op 3)" using read_operation_reads by blast
  let ?n = "\<lparr>no_operation_id = 3, no_frame = f\<rparr>"
  let ?s = "snd (pending_put ?n pending_new)"
  have r: "pending_reachable ?s" by (simp add: pending_reachable_put pending_reachable_new)
  have id: "op_get_id f = 3" using f by (simp add: op_is_def op_get_id_def example_sync_op_def)
  have "pending_get pending_new = Map.empty"
    by (rule ext) (simp add: pending_get_def pending_new_def)
  then have g: "pending_get ?s = [3 \<mapsto> new_stored ?n]"
    using mem.get_put [OF pending_reachable_inv [OF pending_reachable_new], of ?n] id by simp
  have n: "so_operation_id (new_stored ?n) = 3" "so_commit_status (new_stored ?n) = StatusUnknown" "so_frame (new_stored ?n) = f"
    using id by (simp_all add: new_stored_def)
  have "frame_ok example_codec (new_stored ?n)"
    unfolding frame_ok_def n using ok f by (intro exI [of _ "example_sync_op 3"]) (simp add: example_sync_op_def)
  then have "frames_ok example_codec ?s" using n(1) by (simp add: frames_ok_def g)
  from that [OF r this g n(1,2)] show ?thesis .
qed

section \<open>Properties\<close>

text \<open>
  (C28) The ranges of a synchronisation request split the operations of the store: every identifier is
  between the bounds of exactly one range, and the operations between the bounds of the ranges, one range
  after the other, are all the operations of the store that are to be synchronised, each once and in order. Each
  range announces the number and the hash of its operations, of which it has at most one above the
  configured maximum.
\<close>

theorem request_ranges_tile:
  assumes "pending_reachable store" and "frames_ok C store" and "h = get_from_block_height py sc None"
  shows "\<exists>req opss. create_sync_request_for_range C py sc store (Unbounded, Unbounded) (\<lambda>_. DetailsNone) = Ok req \<and>
    list_all2 (\<lambda>m ops. operations_iter_from_height store (fst (extract_sync_bounds m)) h = Ok ops \<and>
         rm_operations_count m = length ops \<and> length ops \<le> pc_max_operations_per_range (py_config py) + 1 \<and>
         rm_operations_hash m = digest C (concat (map op_mh ops))) (pr_ranges req) opss \<and>
    concat opss = sync_ops h store \<and>
    (\<forall>k. \<exists>!i. i < length (pr_ranges req) \<and> in_range (fst (extract_sync_bounds (pr_ranges req ! i))) k)"
proof -
  have inv: "pending_inv store" by (rule pending_reachable_inv [OF assms(1)])
  obtain ms chs where req: "create_sync_request_for_range C py sc store (Unbounded, Unbounded) (\<lambda>_. DetailsNone) =
        Ok \<lparr>pr_from_block_height = (case h of Some h \<Rightarrow> h | None \<Rightarrow> 0), pr_ranges = ms\<rparr>"
      and chs: "concat chs = sync_ops h store" "length ms = length chs" "chs \<noteq> []"
      and ms: "\<And>i. i < length chs \<Longrightarrow> range_msg C (\<lambda>_. DetailsNone) Unbounded Unbounded chs i (ms ! i)"
        "\<And>i. i < length chs \<Longrightarrow> length (chs ! i) \<le> pc_max_operations_per_range (py_config py) + 1"
        "\<And>j. Suc j < length chs \<Longrightarrow> chs ! j \<noteq> []"
    using request_ranges [OF inv assms(2), of py sc Unbounded "\<lambda>_. DetailsNone"]
    by (fastforce simp: assms(3))
  have inc: "ids_increase (concat chs)" unfolding chs(1) by (rule sync_ops_increase [OF inv])
  have pos: "0 < so_operation_id op" if "op \<in> set (concat chs)" for op
    using that sync_ops_ok [OF inv assms(2)] unfolding chs(1) by blast
  have b: "fst (extract_sync_bounds (ms ! i)) = (chunk_from Unbounded chs i, chunk_to Unbounded chs i)"
      "range_ok (chunk_from Unbounded chs i, chunk_to Unbounded chs i)" if "i < length chs" for i
    using chunk_bounds(1,2) [OF inc that _ _ ms(1) [OF that]] ms(3) pos by blast+
  have "operations_iter_from_height store (fst (extract_sync_bounds (ms ! i))) h = Ok (chs ! i)" if "i < length chs" for i
    using operations_iter_sync [OF inv b(2) [OF that], of h] chunk_filter [OF inc that, of Unbounded Unbounded] ms(3)
    by (simp add: b(1) [OF that] flip: chs(1))
  then have "list_all2 (\<lambda>m ops. operations_iter_from_height store (fst (extract_sync_bounds m)) h = Ok ops \<and>
         rm_operations_count m = length ops \<and> length ops \<le> pc_max_operations_per_range (py_config py) + 1 \<and>
         rm_operations_hash m = digest C (concat (map op_mh ops))) ms chs"
    using ms(1,2) chs(2) by (intro list_all2_all_nthI) (auto simp: range_msg_def)
  moreover have "\<exists>!i. i < length ms \<and> in_range (fst (extract_sync_bounds (ms ! i))) k" for k
    using chunks_partition [OF inc chs(3) ms(3), of k] b(1) chs(2) by (metis (no_types, lifting))
  ultimately show ?thesis
    using req chs(1) by (intro exI [of _ "\<lparr>pr_from_block_height = (case h of Some h \<Rightarrow> h | None \<Rightarrow> 0), pr_ranges = ms\<rparr>"]
        exI [of _ chs]) simp
qed

theorem request_ranges_tile_witness:
  "\<exists>store req. pending_get store 3 \<noteq> None \<and>
     create_sync_request_for_range example_codec example_sync example_context store (Unbounded, Unbounded) (\<lambda>_. DetailsNone) = Ok req \<and>
     (\<exists>!i. i < length (pr_ranges req) \<and> in_range (fst (extract_sync_bounds (pr_ranges req ! i))) 3) \<and>
     sum_list (map rm_operations_count (pr_ranges req)) = 1"
proof -
  obtain store op where st: "pending_reachable store" "frames_ok example_codec store" "pending_get store = [3 \<mapsto> op]"
    "so_operation_id op = 3" "so_commit_status op = StatusUnknown" by (rule example_sync_store)
  have one: "sync_ops None store = [op]" using st by (simp add: sync_ops_def ops_within_def)
  have h: "None = get_from_block_height example_sync example_context None"
    by (simp add: get_from_block_height_def example_context_def sync_context_new_def)
  obtain req opss where req: "create_sync_request_for_range example_codec example_sync example_context store (Unbounded, Unbounded)
        (\<lambda>_. DetailsNone) = Ok req"
      "list_all2 (\<lambda>m ops. operations_iter_from_height store (fst (extract_sync_bounds m)) None = Ok ops \<and>
         rm_operations_count m = length ops \<and> length ops \<le> pc_max_operations_per_range (py_config example_sync) + 1 \<and>
         rm_operations_hash m = digest example_codec (concat (map op_mh ops))) (pr_ranges req) opss"
      "concat opss = [op]" "\<forall>k. \<exists>!i. i < length (pr_ranges req) \<and> in_range (fst (extract_sync_bounds (pr_ranges req ! i))) k"
    using request_ranges_tile [OF st(1,2) h] one by auto
  have "map rm_operations_count (pr_ranges req) = map length opss"
    using req(2) by (induction rule: list_all2_induct) simp_all
  then have count: "sum_list (map rm_operations_count (pr_ranges req)) = 1"
    using arg_cong [OF req(3), of length] by (simp add: length_concat)
  show ?thesis
    by (intro exI [of _ store] exI [of _ req] conjI req(1) spec [OF req(4)] count) (simp add: st(3))
qed

text \<open>
  (C27) Two nodes with the same pending operations, each with the same commit status on both, have nothing to say
  to each other: a request made from one store and handled against the other leaves that store as it is,
  emits no event and answers nothing. The request carries the height from which operations are compared, when
  the node that makes it has cleaned up its store; when it has not, the node that handles it takes its
  own, and the property needs that this one has not cleaned up either. The configurations may differ.
\<close>

theorem synchronised_stores_quiet:
  assumes "pending_reachable a" and "pending_reachable b" and "pending_get a = pending_get b" and "frames_ok C a"
    and "hash_lib_ok C" and "h = get_from_block_height py sc None" and "h = None \<or> h = Some 0 \<Longrightarrow> get_from_block_height py' sc' None = h"
  shows "\<exists>req. create_sync_request_for_range C py sc a (Unbounded, Unbounded) (\<lambda>_. DetailsNone) = Ok req \<and>
    handle_incoming_sync_request C py' n req (b, sc') = (Ok (), (b, sc'))"
proof -
  have inv: "pending_inv a" "pending_inv b" using assms(1,2) pending_reachable_inv by blast+
  obtain ms chs where req: "create_sync_request_for_range C py sc a (Unbounded, Unbounded) (\<lambda>_. DetailsNone) =
        Ok \<lparr>pr_from_block_height = (case h of Some h \<Rightarrow> h | None \<Rightarrow> 0), pr_ranges = ms\<rparr>"
      and chs: "concat chs = sync_ops h a" "length ms = length chs"
      and ms: "\<And>i. i < length chs \<Longrightarrow> range_msg C (\<lambda>_. DetailsNone) Unbounded Unbounded chs i (ms ! i)"
        "\<And>j. Suc j < length chs \<Longrightarrow> chs ! j \<noteq> []"
    using request_ranges [OF inv(1) assms(4), of py sc Unbounded "\<lambda>_. DetailsNone"] by (fastforce simp: assms(6))
  let ?req = "\<lparr>pr_from_block_height = (case h of Some h \<Rightarrow> h | None \<Rightarrow> 0), pr_ranges = ms\<rparr>"
  have same_height: "get_from_block_height py' sc' (Some ?req) = h"
    using assms(7) by (cases h) (auto simp: get_from_block_height_def)
  have ok: "frames_ok C b" and eq: "concat chs = sync_ops h b"
    using assms(3,4) chs(1) by (simp_all add: frames_ok_def sync_ops_def)
  have "\<exists>out'. handle_incoming_range C (py_config py') h m (changes, out) (b, sc') = (Ok (changes, out'), (b, sc'))"
    if mm: "m \<in> set ms" for m changes out
  proof -
    obtain i where i: "i < length chs" "m = ms ! i" using mm chs(2) by (auto simp: in_set_conv_nth)
    show ?thesis unfolding i(2) by (rule matching_range_quiet [OF inv(2) ok assms(5) eq i(1) ms(2) ms(1) [OF i(1)]])
  qed
  then have "handle_incoming_sync_ranges C (py_config py') h ms (False, []) (b, sc') = (Ok None, (b, sc'))"
    using matching_ranges_quiet [of ms C "py_config py'" h "(b, sc')" False "[]"] by auto
  with same_height have "handle_incoming_sync_request C py' n ?req (b, sc') = (Ok (), (b, sc'))"
    by (simp add: handle_incoming_sync_request_def)
  with req show ?thesis by blast
qed

theorem synchronised_stores_quiet_witness:
  "\<exists>store req. pending_get store 3 \<noteq> None \<and>
     create_sync_request_for_range example_codec example_sync (sync_context_new \<lparr>pending_last_cleanup_block = Some (0, 4)\<rparr>) store
       (Unbounded, Unbounded) (\<lambda>_. DetailsNone) = Ok req \<and>
     handle_incoming_sync_request example_codec example_sync ''b'' req (store, example_context) = (Ok (), (store, example_context))"
proof -
  obtain store op where st: "pending_reachable store" "frames_ok example_codec store" "pending_get store = [3 \<mapsto> op]"
    by (rule example_sync_store)
  let ?sc = "sync_context_new \<lparr>pending_last_cleanup_block = Some (0, 4)\<rparr>"
  have h: "get_from_block_height example_sync ?sc None = Some 6"
    by (simp add: get_from_block_height_def sync_context_new_def example_sync_def pending_sync_new_def pending_sync_config_default_def)
  from synchronised_stores_quiet [OF st(1,1) refl st(2) example_codec_hash refl, of example_sync ?sc example_sync example_context "''b''"] st(3) h
  show ?thesis by (intro exI [of _ store]) auto
qed

text \<open>
  A request from another node whose range starts and ends after the same operation, or that ends at
  the operation 0, passes the check of its bounds and panics in the ordered map of the store.
\<close>

lemma hostile_range_panics:
  assumes "k \<noteq> 0" and "rm_from_operation m = k" and "rm_operations_frames m = None"
    and "\<not> rm_from_included m \<and> rm_to_operation m = k \<and> \<not> rm_to_included m \<or> rm_to_operation m = 0 \<and> rm_to_included m"
  shows "handle_incoming_sync_request C py n \<lparr>pr_from_block_height = hh, pr_ranges = [m]\<rparr> (store, sc) = (Panic, (store, sc))"
proof -
  have "\<not> range_ok (fst (extract_sync_bounds m))"
    using assms by (cases "rm_from_included m") (auto simp: extract_sync_bounds_def)
  then have "operations_iter_from_height store (fst (extract_sync_bounds m)) h = Panic" for h
    by (simp add: operations_iter_from_height_def pending_iter_def bt_range_def)
  then have p: "local_store_range_info C store (fst (extract_sync_bounds m)) h = Panic" for h
    by (simp add: local_store_range_info_def)
  obtain bounds where b: "extract_sync_bounds m = (bounds, k, rm_to_operation m)" "fst (extract_sync_bounds m) = bounds"
    using assms(2) by (simp add: extract_sync_bounds_def)
  have "\<not> (rm_to_operation m \<noteq> 0 \<and> rm_to_operation m < k)" using assms by auto
  with p b assms(3) show ?thesis
    by (auto simp: handle_incoming_sync_request_def handle_incoming_range_def)
qed

text \<open>
  (C14) When a range comes with the headers of its operations, in order, the operations that are only
  local and did not come with the request are sent whole and the others as headers, in one pass over
  both sides; when neither side has an operation the other does not know, the two nodes disagree
  on a hash of the same operations and the request is refused.
\<close>

theorem diff_sends_missing:
  assumes "sorted_wrt (<) (map om_operation_id remote)" and "ids_increase ops"
  shows "diff_local_remote_range config included remote ops out =
    and_then (ranges_push_operations config (missing_details (remote_ids remote \<union> set included)) ops out) (\<lambda>out'.
      if remote_ids remote \<subseteq> local_ids ops \<and> local_ids ops \<subseteq> remote_ids remote \<union> set included
      then Err (EngPendingSync PsInvalidSyncState) else Ok out')"
proof -
  let ?d = "missing_details (remote_ids remote \<union> set included)"
  show ?thesis
    unfolding diff_local_remote_range_def diff_merged_pushes [OF assms refl] and_then_assoc
    by (rule and_then_cong [OF refl]) auto
qed

theorem diff_sends_missing_witness:
  "\<exists>op. diff_local_remote_range pending_sync_config_default [] [] [op] [] =
       ranges_push_operations pending_sync_config_default (\<lambda>_. DetailsFull) [op] []
     \<and> so_operation_id op = 3"
proof -
  obtain op :: stored_operation where op: "so_operation_id op = 3" by (rule example_sync_store)
  have d: "missing_details {} op = DetailsFull" by (simp add: missing_details_def)
  have "diff_local_remote_range pending_sync_config_default [] [] [op] [] =
      ranges_push_operations pending_sync_config_default (\<lambda>_. DetailsFull) [op] []"
    using diff_sends_missing [of "[]" "[op]" pending_sync_config_default "[]" "[]"]
    by (cases "ranges_push_operation pending_sync_config_default op DetailsFull []") (simp_all add: ids_increase_def d)
  with op show ?thesis by blast
qed

end
