(* ===== verification/Exo_Chain_Sync.thy ===== *)
theory Exo_Chain_Sync
  imports Exo_Sync_Context Exo_Chain_Store
begin

text \<open>
  The synchroniser of chains (\<open>chain/src/engine/chain_sync\<close>): the metadata of blocks a node
  sends to another (\<open>meta.rs\<close>), what it knows of another node (\<open>node_info.rs\<close>), and the
  handlers of \<open>mod.rs\<close>. The chain store is the directory store, the only one of the
  repository; reading it may change which of its segments are mapped, so a handler returns the
  store too. Heights and offsets are natural numbers; a subtraction that would underflow panics.
\<close>

section \<open>Configuration\<close>

record chain_sync_config =
  cc_request_tracker :: request_tracker_config
  cc_meta_sync_max_failures :: nat
  cc_metadata_sync_begin_count :: nat
  cc_metadata_sync_end_count :: nat
  cc_metadata_sync_sampled_count :: nat
  cc_metadata_sync_segments_boundaries_threshold :: nat
  cc_blocks_max_send_size :: nat
  cc_max_leader_common_block_height_delta :: nat

definition chain_sync_config_default :: chain_sync_config where
  "chain_sync_config_default =
     \<lparr>cc_request_tracker = request_tracker_config_default, cc_meta_sync_max_failures = 2,
      cc_metadata_sync_begin_count = 5, cc_metadata_sync_end_count = 5, cc_metadata_sync_sampled_count = 10,
      cc_metadata_sync_segments_boundaries_threshold = 5, cc_blocks_max_send_size = 2 * 1024 * 1024,
      cc_max_leader_common_block_height_delta = 5\<rparr>"

section \<open>Metadata of blocks\<close>

text \<open>A call on the chain store from the engine: its errors become errors of the engine.\<close>

definition on_chain :: "('s, chain_error, 'a) sop \<Rightarrow> ('s, engine_error, 'a) sop" where
  "on_chain m st = (case m st of (r, st') \<Rightarrow> (map_err EngChainStore r, st'))"

definition from_stored_block :: "data_block \<Rightarrow> (engine_error, block_metadata) result" where
  "from_stored_block b =
     (let h = tf_reader (db_header b) in
      and_then (expect_ok (typed_multihash (db_header b))) (\<lambda>block_signature.
      and_then (expect_ok (whole_data_size (tf_frame (db_header b)))) (\<lambda>block_size.
        Ok \<lparr>bm_offset = db_offset b, bm_height = bh_height h, bm_hash = block_signature,
            bm_previous_offset = bh_previous_offset h, bm_previous_hash = bh_previous_hash h,
            bm_block_size = block_size mod 2 ^ 32, bm_operations_size = bh_operations_size h,
            bm_signatures_size = bh_signatures_size h\<rparr>)))"

definition metadata_next_offset :: "block_metadata \<Rightarrow> nat" where
  "metadata_next_offset m = bm_offset m + bm_block_size m + bm_operations_size m + bm_signatures_size m"

text \<open>The metadata of at most \<open>n\<close> blocks of an iterator.\<close>

fun take_metadata ::
  "('c) codec_scheme \<Rightarrow> nat \<Rightarrow> dir_iter \<Rightarrow> 'r dir_store \<Rightarrow> (engine_error, block_metadata list) result \<times> 'r dir_store" where
  "take_metadata C 0 it st = (Ok [], st)"
| "take_metadata C (Suc n) it st =
     (case iter_next C it st of
        (None, it', st') \<Rightarrow> (Ok [], st')
      | (Some r, it', st') \<Rightarrow>
          (case and_then (map_err EngChainStore r) from_stored_block of
             Ok m \<Rightarrow> (case take_metadata C n it' st' of (ms, st'') \<Rightarrow> (and_then ms (\<lambda>ms. Ok (m # ms)), st''))
           | Err e \<Rightarrow> (Err e, st')
           | Panic \<Rightarrow> (Panic, st')))"

definition not_after :: "nat \<Rightarrow> block_metadata list \<Rightarrow> bool" where
  "not_after offset blocks_meta \<longleftrightarrow> blocks_meta \<noteq> [] \<and> offset \<le> bm_offset (last blocks_meta)"

fun add_segment_boundaries ::
  "('c) codec_scheme \<Rightarrow> segment_range list \<Rightarrow> block_metadata list
     \<Rightarrow> ('r dir_store, engine_error, block_metadata list) sop" where
  "add_segment_boundaries C [] blocks_meta st = (Ok blocks_meta, st)"
| "add_segment_boundaries C (seg # segs) blocks_meta st =
     (if not_after (fst seg) blocks_meta then add_segment_boundaries C segs blocks_meta st
      else sbind (on_chain (dir_get_block C (fst seg))) (\<lambda>block.
           sbind (slift (from_stored_block block)) (\<lambda>m.
             add_segment_boundaries C segs (blocks_meta @ [m]))) st)"

text \<open>At most \<open>n\<close> items of a reverse iterator, which goes on after an error.\<close>

fun take_reverse ::
  "('c) codec_scheme \<Rightarrow> nat \<Rightarrow> dir_iter \<Rightarrow> 'r dir_store \<Rightarrow> (chain_error, data_block) result list \<times> 'r dir_store" where
  "take_reverse C 0 it st = ([], st)"
| "take_reverse C (Suc n) it st =
     (case iter_next_reverse C it st of
        (None, it', st') \<Rightarrow> ([], st')
      | (Some r, it', st') \<Rightarrow> (case take_reverse C n it' st' of (rs, st'') \<Rightarrow> (r # rs, st'')))"

fun add_reversed ::
  "(chain_error, data_block) result list \<Rightarrow> block_metadata list \<Rightarrow> (engine_error, block_metadata list) result" where
  "add_reversed [] blocks_meta = Ok blocks_meta"
| "add_reversed (r # rs) blocks_meta =
     and_then (and_then (map_err EngChainStore r) from_stored_block) (\<lambda>m.
       add_reversed rs (if not_after (bm_offset m) blocks_meta then blocks_meta else blocks_meta @ [m]))"

definition from_segment_boundaries ::
  "('c) codec_scheme \<Rightarrow> segment_range list \<Rightarrow> nat option \<Rightarrow> nat option \<Rightarrow> chain_sync_config
     \<Rightarrow> ('r dir_store, engine_error, block_metadata list) sop" where
  "from_segment_boundaries C range_segments from_offset to_offset config =
     sbind (take_metadata C (cc_metadata_sync_begin_count config)
              (blocks_iter (case from_offset of Some o' \<Rightarrow> o' | None \<Rightarrow> 0))) (\<lambda>blocks_meta.
     sbind (add_segment_boundaries C range_segments blocks_meta) (\<lambda>blocks_meta.
     sbind (on_chain (dir_get_last_block C)) (\<lambda>last_chain_block.
     sbind (slift (case to_offset of
                     Some o' \<Rightarrow> Ok o'
                   | None \<Rightarrow> (case last_chain_block of
                       Some b \<Rightarrow> expect_ok (next_offset b)
                     | None \<Rightarrow> Err (EngChainSync CsInvalidSyncRequest)))) (\<lambda>to_offset st.
       (case dir_get_block_from_next_offset C to_offset st of
          (Ok _, st') \<Rightarrow>
            (case take_reverse C (cc_metadata_sync_end_count config) (blocks_iter_reverse to_offset) st' of
               (blocks, st'') \<Rightarrow>
                 (if Panic \<in> set blocks then Panic else add_reversed (rev blocks) blocks_meta, st''))
        | (Err e, st') \<Rightarrow> (Ok blocks_meta, st')
        | (Panic, st') \<Rightarrow> (Panic, st'))))))"

text \<open>
  The loop over the sampled range: \<open>n\<close> items are left to visit, of which the next one has
  been read, and \<open>keep\<close> says which positions are included.
\<close>

fun sample_blocks ::
  "('c) codec_scheme \<Rightarrow> (nat \<Rightarrow> bool) \<Rightarrow> nat \<Rightarrow> nat \<Rightarrow> 'r iter_step
     \<Rightarrow> (engine_error, block_metadata list) result \<times> 'r dir_store" where
  "sample_blocks C keep i 0 (item, it, st) = (Ok [], st)"
| "sample_blocks C keep i (Suc n) (None, it, st) = (Ok [], st)"
| "sample_blocks C keep i (Suc n) (Some r, it, st) =
     (case and_then (map_err EngChainStore r) (\<lambda>b.
             if keep i then and_then (from_stored_block b) (\<lambda>m. Ok [m]) else Ok []) of
        Ok m \<Rightarrow>
          (case (if n = 0 then (Ok [], st) else sample_blocks C keep (Suc i) n (iter_next C it st)) of
             (ms, st') \<Rightarrow> (and_then ms (\<lambda>ms. Ok (m @ ms)), st'))
      | Err e \<Rightarrow> (Err e, st)
      | Panic \<Rightarrow> (Panic, st))"

definition sample_keep :: "chain_sync_config \<Rightarrow> nat \<Rightarrow> nat \<Rightarrow> bool" where
  "sample_keep config range_blocks_count blocks_count \<longleftrightarrow>
     (let range_blocks_skip = max (range_blocks_count div cc_metadata_sync_sampled_count config) 1;
          range_blocks_lasts = (if cc_metadata_sync_end_count config \<le> range_blocks_count
            then range_blocks_count - cc_metadata_sync_end_count config else range_blocks_count) in
      blocks_count < cc_metadata_sync_begin_count config \<or> blocks_count > range_blocks_lasts
      \<or> blocks_count mod range_blocks_skip = 0)"

definition sampled_last_block ::
  "('c) codec_scheme \<Rightarrow> nat option \<Rightarrow> ('r dir_store, engine_error, data_block) sop" where
  "sampled_last_block C to_offset =
     sbind (on_chain (\<lambda>st. case to_offset of
              Some o' \<Rightarrow> (case dir_get_block C o' st of
                  (Ok b, st') \<Rightarrow> (Ok (Some b), st')
                | (Err e, st') \<Rightarrow> dir_get_last_block C st'
                | (Panic, st') \<Rightarrow> (Panic, st'))
            | None \<Rightarrow> dir_get_last_block C st))
       (\<lambda>b. slift (ok_or (EngChainSync CsOther) b))"

definition from_sampled_chain_slice ::
  "('c) codec_scheme \<Rightarrow> nat option \<Rightarrow> nat option \<Rightarrow> chain_sync_config
     \<Rightarrow> ('r dir_store, engine_error, block_metadata list) sop" where
  "from_sampled_chain_slice C from_offset to_offset config =
     sbind (sampled_last_block C to_offset) (\<lambda>last_block st.
     let last_block_height = get_height last_block; from_offset = (case from_offset of Some o' \<Rightarrow> o' | None \<Rightarrow> 0) in
     case (case dir_get_block C from_offset st of
             (Ok _, st') \<Rightarrow> (Ok from_offset, st')
           | (Err e, st') \<Rightarrow> (if chain_is_fatal e then Err (EngChainStore e) else Ok 0, st')
           | (Panic, st') \<Rightarrow> (Panic, st')) of
       (Ok start, st') \<Rightarrow>
         (case iter_next C (blocks_iter start) st' of
            (None, it, st'') \<Rightarrow> (Err EngOther, st'')
          | (Some (Err e), it, st'') \<Rightarrow> (Err (EngChainStore e), st'')
          | (Some Panic, it, st'') \<Rightarrow> (Panic, st'')
          | (Some (Ok first_block), it, st'') \<Rightarrow>
              (if last_block_height < get_height first_block \<or> cc_metadata_sync_sampled_count config = 0 then (Panic, st'')
               else (let range_blocks_count = last_block_height - get_height first_block in
                     sample_blocks C (sample_keep config range_blocks_count) 0 (range_blocks_count + 1)
                       (Some (Ok first_block), it, st''))))
     | (Err e, st') \<Rightarrow> (Err e, st')
     | (Panic, st') \<Rightarrow> (Panic, st'))"

definition metadata_from_store ::
  "('c) codec_scheme \<Rightarrow> nat option \<Rightarrow> nat option \<Rightarrow> chain_sync_config
     \<Rightarrow> ('r dir_store, engine_error, block_metadata list) sop" where
  "metadata_from_store C from_offset to_offset config st =
     (let range_segments = filter_in_range from_offset to_offset (dir_segments st) in
      if range_segments = [] then (Ok [], st)
      else if length range_segments > cc_metadata_sync_segments_boundaries_threshold config then
        from_segment_boundaries C range_segments from_offset to_offset config st
      else from_sampled_chain_slice C from_offset to_offset config st)"

section \<open>What is known of a node\<close>

datatype node_status = NodeUnknown | NodeSynchronized

record node_sync_info =
  ni_config :: chain_sync_config
  ni_node_id :: node_id
  ni_last_common_block :: "block_metadata option"
  ni_last_common_is_known :: bool
  ni_last_known_block :: "block_metadata option"
  ni_request_tracker :: request_tracker

definition node_sync_info_new :: "node_id \<Rightarrow> chain_sync_config \<Rightarrow> node_sync_info" where
  "node_sync_info_new n config =
     \<lparr>ni_config = config, ni_node_id = n, ni_last_common_block = None, ni_last_common_is_known = False,
      ni_last_known_block = None, ni_request_tracker = request_tracker_new (cc_request_tracker config)\<rparr>"

definition ni_status :: "node_sync_info \<Rightarrow> node_status" where
  "ni_status info = (if ni_last_common_is_known info then NodeSynchronized else NodeUnknown)"

definition ni_check_status :: "node_sync_info \<Rightarrow> node_status \<times> node_sync_info" where
  "ni_check_status info =
     (let is_failed = response_failure_count (ni_request_tracker info) \<ge> cc_meta_sync_max_failures (ni_config info) in
      if ni_last_common_is_known info \<and> \<not> is_failed then (NodeSynchronized, info)
      else (NodeUnknown, info\<lparr>ni_last_common_is_known := False\<rparr>))"

definition chain_fully_downloaded :: "node_sync_info \<Rightarrow> bool" where
  "chain_fully_downloaded info \<longleftrightarrow>
     ni_last_known_block info \<noteq> None \<and>
     map_option bm_offset (ni_last_known_block info) = map_option bm_offset (ni_last_common_block info)"

definition common_blocks_height_delta :: "node_sync_info \<Rightarrow> (engine_error, nat option) result" where
  "common_blocks_height_delta info =
     (case (ni_last_common_block info, ni_last_known_block info) of
        (Some common, Some known) \<Rightarrow>
          (if bm_height known < bm_height common then Panic else Ok (Some (bm_height known - bm_height common)))
      | _ \<Rightarrow> Ok None)"

definition is_divergent :: "('c) codec_scheme \<Rightarrow> node_sync_info \<Rightarrow> ('r dir_store, engine_error, bool) sop" where
  "is_divergent C info =
     (case ni_last_common_block info of
        Some last_common_block \<Rightarrow>
          (case ni_last_known_block info of
             None \<Rightarrow> sreturn False
           | Some last_known_block \<Rightarrow>
               sbind (on_chain (dir_get_last_block C)) (\<lambda>b.
               sbind (slift (ok_or EngOther b)) (\<lambda>last_local_block.
                 sreturn (get_height last_local_block > bm_height last_common_block \<and>
                          bm_height last_known_block > bm_height last_common_block))))
      | None \<Rightarrow>
          sbind (on_chain (dir_get_last_block C)) (\<lambda>last_local_block.
            sreturn (last_local_block \<noteq> None \<and> ni_last_known_block info \<noteq> None)))"

section \<open>The synchroniser\<close>

datatype chain_sync_status = SyncUnknown | SyncDownloading | SyncSynchronized

record chain_sync =
  cy_config :: chain_sync_config
  cy_cell :: cell
  cy_nodes_info :: "(node_id \<times> node_sync_info) list"
  cy_status :: chain_sync_status
  cy_leader :: "node_id option"

definition chain_sync_new :: "chain_sync_config \<Rightarrow> cell \<Rightarrow> chain_sync" where
  "chain_sync_new config c =
     \<lparr>cy_config = config, cy_cell = c, cy_nodes_info = [], cy_status = SyncUnknown, cy_leader = None\<rparr>"

definition get_or_create_node_info :: "node_id \<Rightarrow> chain_sync \<Rightarrow> node_sync_info" where
  "get_or_create_node_info n cy =
     (case map_of (cy_nodes_info cy) n of
        Some info \<Rightarrow> info
      | None \<Rightarrow> node_sync_info_new n (cy_config cy))"

definition set_node_info :: "node_id \<Rightarrow> node_sync_info \<Rightarrow> chain_sync \<Rightarrow> chain_sync" where
  "set_node_info n info cy = cy\<lparr>cy_nodes_info := hm_insert n info (cy_nodes_info cy)\<rparr>"

definition is_leader :: "chain_sync \<Rightarrow> node_id \<Rightarrow> bool" where
  "is_leader cy n \<longleftrightarrow> cy_leader cy = Some n"

definition im_leader :: "chain_sync \<Rightarrow> bool" where
  "im_leader cy = is_leader cy (local_node_id (cy_cell cy))"

definition reset_state :: "chain_sync \<Rightarrow> chain_sync" where
  "reset_state cy = cy\<lparr>cy_status := SyncUnknown, cy_nodes_info := [], cy_leader := None\<rparr>"

fun check_nodes :: "cell_node list \<Rightarrow> nat \<Rightarrow> chain_sync \<Rightarrow> nat \<times> chain_sync" where
  "check_nodes [] nodes_metadata_sync cy = (nodes_metadata_sync, cy)"
| "check_nodes (cn # cns) nodes_metadata_sync cy =
     (if cn_id cn = local_node_id (cy_cell cy) then check_nodes cns (nodes_metadata_sync + 1) cy
      else (let (status, info) = ni_check_status (get_or_create_node_info (cn_id cn) cy);
                cy1 = set_node_info (cn_id cn) info cy in
            check_nodes cns (if status = NodeSynchronized then nodes_metadata_sync + 1 else nodes_metadata_sync) cy1))"

definition check_nodes_status :: "chain_sync \<Rightarrow> (nat \<times> nat) \<times> chain_sync" where
  "check_nodes_status cy =
     (let nodes = with_role (cy_cell cy) ChainRole; (nodes_metadata_sync, cy1) = check_nodes nodes 0 cy in
      ((nodes_metadata_sync, length nodes), cy1))"

definition create_sync_request :: "node_sync_info \<Rightarrow> requested_details \<Rightarrow> nat option \<Rightarrow> chain_sync_request" where
  "create_sync_request info details to_offset =
     \<lparr>cq_from_offset = (case ni_last_common_block info of
          None \<Rightarrow> 0
        | Some b \<Rightarrow> if details = RequestHeaders then bm_offset b else metadata_next_offset b),
      cq_to_offset = (case to_offset of Some o' \<Rightarrow> o' | None \<Rightarrow> 0),
      cq_requested_details = details\<rparr>"

fun synchronize_nodes_metadata ::
  "instant \<Rightarrow> cell_node list \<Rightarrow> chain_sync \<times> sync_context \<Rightarrow> chain_sync \<times> sync_context" where
  "synchronize_nodes_metadata now [] s = s"
| "synchronize_nodes_metadata now (cn # cns) (cy, sc) =
     (let info = get_or_create_node_info (cn_id cn) cy;
          (send, rt) = can_send_request now (ni_request_tracker info);
          info1 = info\<lparr>ni_request_tracker := if send then set_last_send_now now rt else rt\<rparr>;
          sc1 = (if send then push_chain_sync_request (cn_id cn) (create_sync_request info RequestHeaders None) sc
                 else sc) in
      synchronize_nodes_metadata now cns (set_node_info (cn_id cn) info1 cy, sc1))"

text \<open>\<open>max_by\<close> keeps the last of several greatest elements.\<close>

fun max_height :: "(node_sync_info \<times> nat) list \<Rightarrow> (node_sync_info \<times> nat) option" where
  "max_height [] = None"
| "max_height (x # xs) =
     (case max_height xs of None \<Rightarrow> Some x | Some y \<Rightarrow> if snd x > snd y then Some x else Some y)"

definition leader_candidates :: "chain_sync \<Rightarrow> (node_sync_info \<times> nat) list" where
  "leader_candidates cy =
     List.map_filter (\<lambda>(_, info). case ni_last_known_block info of
         Some b \<Rightarrow> if ni_status info = NodeSynchronized then Some (info, bm_height b) else None
       | None \<Rightarrow> None) (cy_nodes_info cy)"

definition find_leader_node :: "('c) codec_scheme \<Rightarrow> (chain_sync \<times> 'r dir_store, engine_error, unit) sop" where
  "find_leader_node C s =
     (let (cy, st) = s in
      case on_chain (dir_get_last_block C) st of
        (Ok last_local_block, st') \<Rightarrow>
          (let leader = (case (max_height (leader_candidates cy), last_local_block) of
                 (Some (info, height), Some b) \<Rightarrow>
                   if get_height b > height then Some (local_node_id (cy_cell cy)) else Some (ni_node_id info)
               | (None, Some b) \<Rightarrow> Some (local_node_id (cy_cell cy))
               | (Some (info, _), None) \<Rightarrow> Some (ni_node_id info)
               | (None, None) \<Rightarrow> None) in
           (Ok (), (cy\<lparr>cy_leader := leader\<rparr>, st')))
      | (Err e, st') \<Rightarrow> (Err e, (cy, st'))
      | (Panic, st') \<Rightarrow> (Panic, (cy, st')))"

type_synonym 'r sync_world = "chain_sync \<times> sync_context \<times> 'r dir_store"

definition start_leader_downloading ::
  "('c) codec_scheme \<Rightarrow> instant \<Rightarrow> ('r sync_world, engine_error, unit) sop" where
  "start_leader_downloading C now s =
     (let (cy, sc, st) = s in
      if im_leader cy then (Ok (), (cy\<lparr>cy_status := SyncSynchronized\<rparr>, sc, st))
      else case cy_leader cy of
        None \<Rightarrow> (Ok (), s)
      | Some leader \<Rightarrow>
          (let info = get_or_create_node_info leader cy; cy1 = set_node_info leader info cy in
           if chain_fully_downloaded info then (Ok (), (cy1\<lparr>cy_status := SyncSynchronized\<rparr>, sc, st))
           else case sbind (is_divergent C info) (\<lambda>divergent.
                       if divergent then on_chain (dir_get_last_block C) else sreturn None) st of
             (Ok (Some last_block), st') \<Rightarrow> (Err (EngChainSync CsDiverged), (cy1, sc, st'))
           | (Ok None, st') \<Rightarrow>
               (let (send, rt) = can_send_request now (ni_request_tracker info);
                    cy2 = set_node_info leader (info\<lparr>ni_request_tracker := rt\<rparr>) cy1 in
                if \<not> send then (Ok (), (cy2, sc, st'))
                else case get_node (cy_cell cy) leader of
                  None \<Rightarrow> (Err (EngChainSync CsOther), (cy2, sc, st'))
                | Some leader_node \<Rightarrow>
                    (let to_offset = (case ni_last_known_block info of Some b \<Rightarrow> bm_offset b | None \<Rightarrow> 0);
                         request = create_sync_request info RequestBlocks (Some to_offset);
                         cy3 = set_node_info leader (info\<lparr>ni_request_tracker := set_last_send_now now rt\<rparr>) cy1 in
                     (Ok (), (cy3\<lparr>cy_status := SyncDownloading\<rparr>,
                              push_chain_sync_request (cn_id leader_node) request sc, st'))))
           | (Err e, st') \<Rightarrow> (Err e, (cy1, sc, st'))
           | (Panic, st') \<Rightarrow> (Panic, (cy1, sc, st'))))"

section \<open>The tick\<close>

text \<open>The status is lost with the majority, or with a leader that is out of reach or too far ahead.\<close>

definition check_leader :: "bool \<Rightarrow> chain_sync \<Rightarrow> (engine_error, chain_sync) result" where
  "check_leader majority cy =
     (let cy1 = (if cy_status cy = SyncSynchronized \<and> \<not> majority
                 then cy\<lparr>cy_status := SyncUnknown, cy_leader := None\<rparr> else cy) in
      case cy_leader cy1 of
        Some leader \<Rightarrow>
          (if cy_status cy1 = SyncSynchronized \<and> \<not> im_leader cy1 then
             (let info = get_or_create_node_info leader cy1; cy2 = set_node_info leader info cy1 in
              and_then (common_blocks_height_delta info) (\<lambda>delta.
                let common_block_delta = (case delta of Some d \<Rightarrow> d | None \<Rightarrow> 0) in
                Ok (if ni_status info \<noteq> NodeSynchronized
                       \<or> common_block_delta > cc_max_leader_common_block_height_delta (cy_config cy)
                    then cy2\<lparr>cy_leader := None, cy_status := SyncUnknown\<rparr> else cy2)))
           else Ok cy1)
      | None \<Rightarrow> Ok cy1)"

definition reset_trackers :: "chain_sync \<Rightarrow> chain_sync" where
  "reset_trackers cy =
     cy\<lparr>cy_nodes_info := map (\<lambda>(n, info).
          (n, info\<lparr>ni_request_tracker := request_tracker_reset (ni_request_tracker info)\<rparr>)) (cy_nodes_info cy)\<rparr>"

fun count_non_divergent ::
  "('c) codec_scheme \<Rightarrow> cell_node list \<Rightarrow> nat \<Rightarrow> (chain_sync \<times> 'r dir_store, engine_error, nat) sop" where
  "count_non_divergent C [] k s = (Ok k, s)"
| "count_non_divergent C (cn # cns) k (cy, st) =
     (let info = get_or_create_node_info (cn_id cn) cy; cy1 = set_node_info (cn_id cn) info cy in
      case is_divergent C info st of
        (Ok divergent, st') \<Rightarrow> count_non_divergent C cns (if divergent then k else k + 1) (cy1, st')
      | (Err e, st') \<Rightarrow> (Err e, (cy1, st'))
      | (Panic, st') \<Rightarrow> (Panic, (cy1, st')))"

definition with_context :: "(chain_sync \<times> 'r dir_store, engine_error, 'a) sop \<Rightarrow> ('r sync_world, engine_error, 'a) sop" where
  "with_context m s = (case s of (cy, sc, st) \<Rightarrow> (case m (cy, st) of (r, (cy', st')) \<Rightarrow> (r, (cy', sc, st'))))"

definition elect_and_download :: "('c) codec_scheme \<Rightarrow> instant \<Rightarrow> ('r sync_world, engine_error, unit) sop" where
  "elect_and_download C now s =
     (let c = cy_cell (fst s) in
      sbind (with_context (count_non_divergent C (chain_nodes_except_local c) 1)) (\<lambda>nb_non_divergent s.
        if has_quorum c nb_non_divergent (Some ChainRole) then
          sbind (if cy_leader (fst s) = None then with_context (find_leader_node C) else sreturn ())
            (\<lambda>_. start_leader_downloading C now) s
        else (Err (EngChainSync CsDiverged), s)) s)"

definition chain_sync_tick :: "('c) codec_scheme \<Rightarrow> instant \<Rightarrow> ('r sync_world, engine_error, unit) sop" where
  "chain_sync_tick C now s =
     (let (cy, sc, st) = s;
          status_start = cy_status cy;
          ((nb_nodes_metadata_sync, nb_nodes), cy1) = check_nodes_status cy;
          majority = has_quorum (cy_cell cy) nb_nodes_metadata_sync (Some ChainRole) in
      case on_chain (dir_get_last_block C) st of
        (Ok _, st1) \<Rightarrow>
          (case check_leader majority cy1 of
             Ok cy2 \<Rightarrow>
               (let cy3 = (if status_start = SyncSynchronized \<and> cy_status cy2 \<noteq> SyncSynchronized
                           then reset_trackers cy2 else cy2) in
                sbind (if cy_status cy3 \<noteq> SyncSynchronized \<and> majority then elect_and_download C now else sreturn ())
                  (\<lambda>_ (cy4, sc4, st4).
                     case synchronize_nodes_metadata now (chain_nodes_except_local (cy_cell cy)) (cy4, sc4) of
                       (cy5, sc5) \<Rightarrow> (Ok (), (cy5, sc5, st4))) (cy3, sc, st1))
           | Err e \<Rightarrow> (Err e, (cy1, sc, st1))
           | Panic \<Rightarrow> (Panic, (cy1, sc, st1)))
      | (Err e, st1) \<Rightarrow> (Err e, (cy1, sc, st1))
      | (Panic, st1) \<Rightarrow> (Panic, (cy1, sc, st1)))"

section \<open>Requests\<close>

text \<open>
  The blocks sent in a response: those up to the requested offset, until the size that was
  collected before a block reaches the limit.
\<close>

function collect_response_blocks ::
  "('c) codec_scheme \<Rightarrow> chain_sync_config \<Rightarrow> nat \<Rightarrow> nat \<Rightarrow> dir_iter \<Rightarrow> 'r dir_store
     \<Rightarrow> (engine_error, data_block list) result \<times> 'r dir_store" where
  "collect_response_blocks C config to_offset data_size it st =
     (case iter_next C it st of
        (None, it', st') \<Rightarrow> (Ok [], st')
      | (Some (Ok block), it', st') \<Rightarrow>
          (if \<not> (to_offset = 0 \<or> db_offset block \<le> to_offset) then
             collect_response_blocks C config to_offset data_size it' st'
           else case total_size block of
             Ok n \<Rightarrow>
               (if data_size < cc_blocks_max_send_size config then
                  (case collect_response_blocks C config to_offset (data_size + n) it' st' of
                     (r, st'') \<Rightarrow> (and_then r (\<lambda>bs. Ok (block # bs)), st''))
                else (Ok [], st'))
           | _ \<Rightarrow> (Panic, st'))
      | (Some (Err e), it', st') \<Rightarrow> (Err (EngChainStore e), st')
      | (Some Panic, it', st') \<Rightarrow> (Panic, st'))"
  by pat_completeness auto
termination
  by (relation "measure (\<lambda>(C, config, to_offset, data_size, it, st). dir_end st - it_current_offset it)")
    (auto intro: iter_next_measure)

declare collect_response_blocks.simps [simp del]

fun blocks_data :: "data_block list \<Rightarrow> (engine_error, bytes list) result" where
  "blocks_data [] = Ok []"
| "blocks_data (b # bs) =
     and_then (expect_ok (as_data_vec b)) (\<lambda>d. and_then (blocks_data bs) (\<lambda>ds. Ok (d # ds)))"

definition create_sync_response_for_metadata :: "nat \<Rightarrow> nat \<Rightarrow> block_metadata list \<Rightarrow> chain_sync_response" where
  "create_sync_response_for_metadata from_offset to_offset blocks_metadata =
     \<lparr>cr_from_offset = from_offset, cr_to_offset = to_offset, cr_headers = Some blocks_metadata, cr_blocks = None\<rparr>"

definition create_sync_response_for_blocks ::
  "('c) codec_scheme \<Rightarrow> chain_sync_config \<Rightarrow> nat \<Rightarrow> nat \<Rightarrow> ('r dir_store, engine_error, chain_sync_response) sop" where
  "create_sync_response_for_blocks C config from_offset to_offset =
     sbind (collect_response_blocks C config to_offset 0 (blocks_iter from_offset)) (\<lambda>blocks.
     sbind (slift (blocks_data blocks)) (\<lambda>datas.
       sreturn \<lparr>cr_from_offset = from_offset, cr_to_offset = to_offset, cr_headers = None,
                cr_blocks = if blocks = [] then None else Some datas\<rparr>))"

definition offset_opt :: "nat \<Rightarrow> nat option" where
  "offset_opt off = (if off \<noteq> 0 then Some off else None)"

definition touch_node :: "instant \<Rightarrow> node_id \<Rightarrow> chain_sync \<Rightarrow> chain_sync" where
  "touch_node now n cy =
     (let info = get_or_create_node_info n cy in
      set_node_info n (info\<lparr>ni_request_tracker := set_last_responded_now now (ni_request_tracker info)\<rparr>) cy)"

definition handle_chain_sync_request ::
  "('c) codec_scheme \<Rightarrow> instant \<Rightarrow> node_id \<Rightarrow> chain_sync_request \<Rightarrow> ('r sync_world, engine_error, unit) sop" where
  "handle_chain_sync_request C now from_node req s =
     (let (cy, sc, st) = s;
          cy1 = touch_node now from_node cy;
          from_offset = cq_from_offset req; to_offset = cq_to_offset req in
      case (case cq_requested_details req of
              RequestHeaders \<Rightarrow>
                sbind (metadata_from_store C (offset_opt from_offset) (offset_opt to_offset) (cy_config cy))
                  (\<lambda>ms. sreturn (create_sync_response_for_metadata from_offset to_offset ms)) st
            | RequestBlocks \<Rightarrow> create_sync_response_for_blocks C (cy_config cy) from_offset to_offset st) of
        (Ok response, st') \<Rightarrow> (Ok (), (cy1, push_chain_sync_response from_node response sc, st'))
      | (Err e, st') \<Rightarrow> (Err e, (cy1, sc, st'))
      | (Panic, st') \<Rightarrow> (Panic, (cy1, sc, st')))"

section \<open>Responses\<close>

text \<open>What the loop over the metadata of a response keeps.\<close>

record meta_scan =
  ms_info :: node_sync_info
  ms_has_new_common_block :: bool
  ms_first_non_common_block :: "nat option"
  ms_last_block_height :: "nat option"
  ms_all_contiguous :: bool

definition meta_scan_new :: "node_sync_info \<Rightarrow> meta_scan" where
  "meta_scan_new info =
     \<lparr>ms_info = info, ms_has_new_common_block = False, ms_first_non_common_block = None,
      ms_last_block_height = None, ms_all_contiguous = True\<rparr>"

definition scan_height :: "nat \<Rightarrow> meta_scan \<Rightarrow> meta_scan" where
  "scan_height height ms =
     ms\<lparr>ms_all_contiguous := ms_all_contiguous ms \<and>
          (case ms_last_block_height ms of Some h \<Rightarrow> height = h + 1 | None \<Rightarrow> True),
        ms_last_block_height := Some height\<rparr>"

definition later_offset :: "block_metadata option \<Rightarrow> nat \<Rightarrow> bool" where
  "later_offset b offset \<longleftrightarrow> (case b of None \<Rightarrow> True | Some b \<Rightarrow> bm_offset b < offset)"

definition scan_common ::
  "('c) codec_scheme \<Rightarrow> block_metadata \<Rightarrow> meta_scan \<Rightarrow> ('r dir_store, engine_error, meta_scan) sop" where
  "scan_common C m ms st =
     (if ms_first_non_common_block ms \<noteq> None then (Ok ms, st)
      else case dir_get_block C (bm_offset m) st of
        (Ok local_block, st') \<Rightarrow>
          (and_then (expect_ok (typed_multihash (db_header local_block))) (\<lambda>local_signature.
             Ok (if bm_hash m = local_signature then
                   (if later_offset (ni_last_common_block (ms_info ms)) (bm_offset m)
                    then ms\<lparr>ms_info := (ms_info ms)\<lparr>ni_last_common_block := Some m\<rparr>, ms_has_new_common_block := True\<rparr>
                    else ms)
                 else ms\<lparr>ms_first_non_common_block := Some (bm_offset m)\<rparr>)), st')
      | (Err e, st') \<Rightarrow>
          (if chain_is_fatal e then Err (EngChainStore e)
           else Ok (ms\<lparr>ms_first_non_common_block := Some (bm_offset m)\<rparr>), st')
      | (Panic, st') \<Rightarrow> (Panic, st'))"

definition scan_known :: "block_metadata \<Rightarrow> meta_scan \<Rightarrow> meta_scan" where
  "scan_known m ms =
     (if later_offset (ni_last_known_block (ms_info ms)) (bm_offset m)
      then ms\<lparr>ms_info := (ms_info ms)\<lparr>ni_last_known_block := Some m\<rparr>\<rparr> else ms)"

text \<open>The information of the node is updated in place, so an error keeps what was found before it.\<close>

fun scan_metadata ::
  "('c) codec_scheme \<Rightarrow> block_metadata list \<Rightarrow> (meta_scan \<times> 'r dir_store, engine_error, unit) sop" where
  "scan_metadata C [] s = (Ok (), s)"
| "scan_metadata C (m # rest) (ms, st) =
     (let ms1 = scan_height (bm_height m) ms in
      case scan_common C m ms1 st of
        (Ok ms2, st') \<Rightarrow> scan_metadata C rest (scan_known m ms2, st')
      | (Err e, st') \<Rightarrow> (Err e, (ms1, st'))
      | (Panic, st') \<Rightarrow> (Panic, (ms1, st')))"

definition finish_metadata :: "meta_scan \<Rightarrow> sync_context \<Rightarrow> node_sync_info \<times> sync_context" where
  "finish_metadata ms sc =
     (let info = ms_info ms in
      if ms_has_new_common_block ms \<and> \<not> ms_all_contiguous ms then
        (info, push_chain_sync_request (ni_node_id info)
                 (create_sync_request info RequestHeaders (ms_first_non_common_block ms)) sc)
      else if \<not> ni_last_common_is_known info then
        (info\<lparr>ni_last_common_is_known := True,
              ni_request_tracker := force_next_request (ni_request_tracker info)\<rparr>, sc)
      else (info, sc))"

definition handle_sync_response_metadata ::
  "('c) codec_scheme \<Rightarrow> node_id \<Rightarrow> block_metadata list \<Rightarrow> ('r sync_world, engine_error, unit) sop" where
  "handle_sync_response_metadata C from_node headers s =
     (let (cy, sc, st) = s; info = get_or_create_node_info from_node cy in
      case scan_metadata C headers (meta_scan_new info, st) of
        (Ok _, (ms, st')) \<Rightarrow>
          (let (info', sc') = finish_metadata ms sc in (Ok (), (set_node_info from_node info' cy, sc', st')))
      | (Err e, (ms, st')) \<Rightarrow> (Err e, (set_node_info from_node (ms_info ms) cy, sc, st'))
      | (Panic, (ms, st')) \<Rightarrow> (Panic, (set_node_info from_node (ms_info ms) cy, sc, st')))"

fun write_response_blocks ::
  "('c) codec_scheme \<Rightarrow> 'r ext_index \<Rightarrow> bytes list \<Rightarrow> block_metadata option
     \<Rightarrow> (sync_context \<times> 'r dir_store, engine_error, block_metadata option) sop" where
  "write_response_blocks C E [] last_local_block s = (Ok last_local_block, s)"
| "write_response_blocks C E (data # datas) last_local_block (sc, st) =
     (case map_err EngBlock (data_block_new C (ref_data_new data)) of
        Ok block \<Rightarrow>
          (let next_local_offset = (case last_local_block of Some m \<Rightarrow> metadata_next_offset m | None \<Rightarrow> 0) in
           if db_offset block = next_local_offset then
             (let sc1 = push_event (NewChainBlock (db_offset block)) sc in
              case sbind (on_chain (dir_write_block C E block)) (\<lambda>_. slift (from_stored_block block)) st of
                (Ok m, st') \<Rightarrow> write_response_blocks C E datas (Some m) (sc1, st')
              | (Err e, st') \<Rightarrow> (Err e, (sc1, st'))
              | (Panic, st') \<Rightarrow> (Panic, (sc1, st')))
           else (Err (EngChainSync CsInvalidSyncResponse), (sc, st)))
      | Err e \<Rightarrow> (Err e, (sc, st))
      | Panic \<Rightarrow> (Panic, (sc, st)))"

definition handle_sync_response_blocks ::
  "('c) codec_scheme \<Rightarrow> 'r ext_index \<Rightarrow> instant \<Rightarrow> node_id \<Rightarrow> bytes list \<Rightarrow> ('r sync_world, engine_error, unit) sop" where
  "handle_sync_response_blocks C E now from_node datas s =
     (let (cy, sc, st) = s in
      if \<not> is_leader cy from_node then (Err EngOther, s)
      else
        let info = get_or_create_node_info from_node cy; cy1 = set_node_info from_node info cy in
        case sbind (on_chain (dir_get_last_block C)) (\<lambda>b. slift (case b of
                 None \<Rightarrow> Ok None
               | Some b \<Rightarrow> and_then (from_stored_block b) (\<lambda>m. Ok (Some m)))) st of
          (Ok last_local_block, st1) \<Rightarrow>
            (case write_response_blocks C E datas last_local_block (sc, st1) of
               (Ok last_block, (sc2, st2)) \<Rightarrow>
                 (let info1 = info\<lparr>ni_last_common_block := last_block\<rparr> in
                  if chain_fully_downloaded info1 then
                    (Ok (), ((set_node_info from_node info1 cy)\<lparr>cy_status := SyncSynchronized\<rparr>, sc2, st2))
                  else
                    (let to_offset = (case ni_last_known_block info1 of Some b \<Rightarrow> bm_offset b | None \<Rightarrow> 0);
                         request = create_sync_request info1 RequestBlocks (Some to_offset);
                         info2 = info1\<lparr>ni_request_tracker := set_last_send_now now (ni_request_tracker info1)\<rparr> in
                     (Ok (), (set_node_info from_node info2 cy,
                              push_chain_sync_request (ni_node_id info1) request sc2, st2))))
             | (Err e, (sc2, st2)) \<Rightarrow> (Err e, (cy1, sc2, st2))
             | (Panic, (sc2, st2)) \<Rightarrow> (Panic, (cy1, sc2, st2)))
        | (Err e, st1) \<Rightarrow> (Err e, (cy1, sc, st1))
        | (Panic, st1) \<Rightarrow> (Panic, (cy1, sc, st1)))"

definition handle_chain_sync_response ::
  "('c) codec_scheme \<Rightarrow> 'r ext_index \<Rightarrow> instant \<Rightarrow> node_id \<Rightarrow> chain_sync_response
     \<Rightarrow> ('r sync_world, engine_error, unit) sop" where
  "handle_chain_sync_response C E now from_node resp =
     sbind (case (cr_blocks resp, cr_headers resp) of
              (Some datas, _) \<Rightarrow> handle_sync_response_blocks C E now from_node datas
            | (None, Some headers) \<Rightarrow> handle_sync_response_metadata C from_node headers
            | (None, None) \<Rightarrow> sreturn ())
       (\<lambda>_ (cy, sc, st). (Ok (), (touch_node now from_node cy, sc, st)))"

end
