(* ===== verification/Exo_Chain_Sync_Props.thy ===== *)
theory Exo_Chain_Sync_Props
  imports Exo_Chain_Sync
begin

text \<open>Properties of the synchroniser of chains.\<close>

section \<open>Metadata of a stored block\<close>

definition header_fits :: "('c) codec_scheme \<Rightarrow> ablock \<Rightarrow> bool" where
  "header_fits C a \<longleftrightarrow> length (header_bytes C (ab_header a)) < 2 ^ 32"

definition block_meta :: "('c) codec_scheme \<Rightarrow> ablock \<Rightarrow> block_metadata" where
  "block_meta C a =
     \<lparr>bm_offset = bh_offset (ab_header a), bm_height = bh_height (ab_header a),
      bm_hash = digest C (enc_header C (ab_header a)), bm_previous_offset = bh_previous_offset (ab_header a),
      bm_previous_hash = bh_previous_hash (ab_header a), bm_block_size = length (header_bytes C (ab_header a)),
      bm_operations_size = bh_operations_size (ab_header a), bm_signatures_size = bh_signatures_size (ab_header a)\<rparr>"

definition last_meta :: "('c) codec_scheme \<Rightarrow> chain \<Rightarrow> block_metadata option" where
  "last_meta C ch = (if ch = [] then None else Some (block_meta C (fst (last ch))))"

lemma from_stored_block_is: "block_is C b a \<Longrightarrow> header_fits C a \<Longrightarrow> from_stored_block b = Ok (block_meta C a)"
  by (auto simp: from_stored_block_def Let_def whole_data_size_def block_meta_def header_fits_def block_is_def header_is_def)

lemma metadata_next_offset_meta [simp]:
  "ablock_wf C a \<Longrightarrow> metadata_next_offset (block_meta C a) = bh_offset (ab_header a) + length (block_bytes C a)"
  by (simp add: metadata_next_offset_def block_meta_def ablock_wf_def block_bytes_def)

section \<open>Prefixes of a chain\<close>

lemma chain_ok_prefix:
  assumes "chain_ok C (xs @ ys)"
  shows "chain_ok C xs"
  using assms by (auto simp: chain_ok_def chain_entries_def unique_ids_def ids_of_append)

lemma chain_end_append: "chain_end C (xs @ [(a, ms)]) = chain_end C xs + length (block_bytes C a)"
  by (simp add: chain_end_def)

lemma offset_at_end:
  assumes "chain_ok C (xs @ (a, ms) # ys)"
  shows "bh_offset (ab_header a) = chain_end C xs"
  using assms by (simp add: chain_ok_def chain_end_def span_of_def)

lemma last_meta_end:
  assumes "chain_ok C ch"
  shows "(case last_meta C ch of Some m \<Rightarrow> metadata_next_offset m | None \<Rightarrow> 0) = chain_end C ch"
proof (cases ch rule: rev_cases)
  case (snoc xs e)
  obtain a ms where e: "e = (a, ms)" by (cases e)
  have "ablock_wf C a" using assms snoc e by (auto simp: chain_ok_def)
  with offset_at_end [of C xs a ms "[]"] assms snoc e show ?thesis by (simp add: last_meta_def chain_end_append)
qed (simp add: last_meta_def chain_end_def)

section \<open>Writing the blocks of a response\<close>

lemma write_response_ok:
  assumes "dir_store_holds C E st ch" and "chain_ok C (ch @ new)" and "\<forall>a \<in> set (blocks_of new). header_fits C a"
  shows "\<exists>st'. write_response_blocks C E (map (block_bytes C) (blocks_of new)) (last_meta C ch) (sc, st) =
      (Ok (last_meta C (ch @ new)),
       (sc\<lparr>sc_events := sc_events sc @ map (\<lambda>a. NewChainBlock (bh_offset (ab_header a))) (blocks_of new)\<rparr>, st')) \<and>
    dir_store_holds C E st' (ch @ new)"
  using assms
proof (induction new arbitrary: ch st sc)
  case (Cons e new)
  obtain a ms where e: "e = (a, ms)" by (cases e)
  have ok: "chain_ok C (ch @ [(a, ms)])" using chain_ok_prefix [of C "ch @ [(a, ms)]" new] Cons.prems(2) e by simp
  have wf: "ablock_wf C a" and off: "bh_offset (ab_header a) = chain_end C ch"
    using ok offset_at_end [OF ok] by (simp_all add: chain_ok_def)
  obtain b where b: "data_block_new C (ref_data_new (block_bytes C a)) = Ok b" "block_is C b a"
    using data_block_new_reads [OF wf, of "ref_data_new (block_bytes C a)" "[]"] by auto
  obtain st1 where w: "dir_write_block C E b st = (Ok (chain_end C (ch @ [(a, ms)])), st1)"
      "dir_store_holds C E st1 (ch @ [(a, ms)])"
    using dir.write_ok [OF Cons.prems(1) b(2) ok] by blast
  have m: "from_stored_block b = Ok (block_meta C a)"
    by (rule from_stored_block_is [OF b(2)]) (use Cons.prems(3) e in simp)
  have l: "last_meta C (ch @ [(a, ms)]) = Some (block_meta C a)" by (simp add: last_meta_def)
  have o: "(case last_meta C ch of Some m \<Rightarrow> metadata_next_offset m | None \<Rightarrow> 0) = chain_end C ch"
    by (rule last_meta_end) (use ok chain_ok_prefix in blast)
  have IH: "\<exists>st'. write_response_blocks C E (map (block_bytes C) (blocks_of new)) (last_meta C (ch @ [(a, ms)])) (sc1, st1) =
      (Ok (last_meta C ((ch @ [(a, ms)]) @ new)),
       (sc1\<lparr>sc_events := sc_events sc1 @ map (\<lambda>a. NewChainBlock (bh_offset (ab_header a))) (blocks_of new)\<rparr>, st')) \<and>
    dir_store_holds C E st' ((ch @ [(a, ms)]) @ new)" for sc1
    by (rule Cons.IH [OF w(2)]) (use Cons.prems(2,3) e in simp_all)
  have "write_response_blocks C E (map (block_bytes C) (blocks_of (e # new))) (last_meta C ch) (sc, st) =
      write_response_blocks C E (map (block_bytes C) (blocks_of new)) (Some (block_meta C a))
        (push_event (NewChainBlock (bh_offset (ab_header a))) sc, st1)"
    using b(1) w(1) m off o block_is_offset [OF b(2)] by (simp add: e on_chain_def)
  with IH [of "push_event (NewChainBlock (bh_offset (ab_header a))) sc"] show ?case
    by (simp add: e l push_event_def)
qed simp

section \<open>The blocks of a response\<close>

lemma collect_response_reads:
  assumes "segs_store C (ds_segments st) bss" and "iter_at C (ds_segments st) bss k it"
    and to: "\<forall>a \<in> set (concat bss). bh_offset (ab_header a) \<le> to"
  shows "\<exists>n bs st'. collect_response_blocks C cfg to sz it st = (Ok bs, st') \<and> k \<le> n \<and> n \<le> length (concat bss) \<and>
    list_all2 (block_is C) bs (take (n - k) (drop k (concat bss))) \<and> same_store st st' \<and>
    (sz < cc_blocks_max_send_size cfg \<and> k < length (concat bss) \<longrightarrow> k < n)"
  using assms(1,2)
proof (induction "length (concat bss) - k" arbitrary: k it st sz)
  case 0
  then have k: "k = length (concat bss)" by (simp add: iter_at_def)
  obtain it' where "iter_next C it st = (None, it', st)" using iter_next_end 0 k by blast
  then have "collect_response_blocks C cfg to sz it st = (Ok [], st)" by (subst collect_response_blocks.simps) simp
  with k show ?case by (intro exI [of _ k]) simp
next
  case (Suc m)
  then have k: "k < length (concat bss)" by simp
  obtain b it' st' where 1: "iter_next C it st = (Some (Ok b), it', st')" "block_is C b (concat bss ! k)"
      "same_store st st'" "iter_at C (ds_segments st') bss (Suc k) it'"
    using iter_next_block [OF Suc.prems k] by blast
  have within: "db_offset b \<le> to" using to k block_is_offset [OF 1(2)] by (metis nth_mem)
  note eq = collect_response_blocks.simps [of C cfg to sz it st]
  show ?case
  proof (cases "sz < cc_blocks_max_send_size cfg")
    case True
    have "m = length (concat bss) - Suc k" using Suc.hyps(2) by linarith
    then obtain n bs st'' where 2: "collect_response_blocks C cfg to (sz + length (block_bytes C (concat bss ! k))) it' st' = (Ok bs, st'')"
        "Suc k \<le> n" "n \<le> length (concat bss)" "list_all2 (block_is C) bs (take (n - Suc k) (drop (Suc k) (concat bss)))" "same_store st' st''"
      using Suc.hyps(1) [of "Suc k" st' it'] segs_store_same [OF Suc.prems(1) 1(3)] 1(4) by blast
    have "collect_response_blocks C cfg to sz it st = (Ok (b # bs), st'')"
      using 1(1) 2(1) True within by (simp add: eq block_is_total_size [OF 1(2)])
    moreover have "take (n - k) (drop k (concat bss)) = (concat bss ! k) # take (n - Suc k) (drop (Suc k) (concat bss))"
      using k 2(2) by (simp add: Cons_nth_drop_Suc [symmetric] Suc_diff_le take_Cons')
    ultimately show ?thesis using 1(2,3) 2(2-5) same_store_trans by (intro exI [of _ n]) fastforce
  next
    case False
    then have "collect_response_blocks C cfg to sz it st = (Ok [], st')"
      using 1(1) within by (simp add: eq block_is_total_size [OF 1(2)])
    with False k 1(3) show ?thesis by (intro exI [of _ k]) simp
  qed
qed

lemma blocks_data_is: "list_all2 (block_is C) bs as \<Longrightarrow> blocks_data bs = Ok (map (block_bytes C) as)"
  by (induction bs as rule: list_all2_induct) (simp_all add: block_simps)

lemma contiguous_offset_less:
  assumes "contiguous C off (xs @ a # ys)" and "b \<in> set ys"
  shows "bh_offset (ab_header a) < bh_offset (ab_header b)"
proof -
  obtain us vs where ys: "ys = us @ b # vs" using assms(2) by (auto simp: in_set_conv_decomp)
  show ?thesis using assms(1) block_bytes_nonempty [of C a] unfolding ys by simp
qed

lemma contiguous_offset_last:
  assumes "contiguous C off as" and "a \<in> set as"
  shows "bh_offset (ab_header a) \<le> bh_offset (ab_header (last as))"
proof -
  obtain us vs where as: "as = us @ a # vs" using assms(2) by (auto simp: in_set_conv_decomp)
  show ?thesis
    using contiguous_offset_less [of C off us a vs "last vs"] assms(1) unfolding as by (cases "vs = []") auto
qed

text \<open>The answer to a request for the blocks that follow a prefix.\<close>

lemma response_for_blocks:
  assumes h: "dir_store_holds C E st ch" and k: "k < length ch" and "0 < cc_blocks_max_send_size cfg"
  shows "\<exists>n st'. k < n \<and> n \<le> length ch \<and> dir_store_holds C E st' ch \<and>
    create_sync_response_for_blocks C cfg (chain_end C (take k ch)) (offset_at ch (length ch - 1)) st =
      (Ok \<lparr>cr_from_offset = chain_end C (take k ch), cr_to_offset = offset_at ch (length ch - 1), cr_headers = None,
           cr_blocks = Some (map (block_bytes C) (blocks_of (take (n - k) (drop k ch))))\<rparr>, st')"
proof -
  obtain bss where bss: "concat bss = blocks_of ch" and s: "segs_store C (ds_segments st) bss"
    by (rule dir_store_segments [OF h])
  have it: "iter_at C (ds_segments st) bss k (blocks_iter (chain_end C (take k ch)))"
    using k by (simp add: iter_at_def blocks_iter_def chain_end_def bss take_map)
  have "contiguous C 0 (blocks_of ch)" using dir.holds_ok [OF h] by (simp add: chain_ok_def)
  then have "\<forall>a \<in> set (concat bss). bh_offset (ab_header a) \<le> offset_at ch (length ch - 1)"
    unfolding bss using k contiguous_offset_last [of C 0 "blocks_of ch"] last_conv_nth [of ch] last_map [of ch fst]
    by fastforce
  from collect_response_reads [OF s it this, of cfg 0] assms(3) k
  obtain n bs st' where n: "collect_response_blocks C cfg (offset_at ch (length ch - 1)) 0 (blocks_iter (chain_end C (take k ch))) st = (Ok bs, st')"
      "k < n" "n \<le> length ch" "list_all2 (block_is C) bs (take (n - k) (drop k (blocks_of ch)))" "same_store st st'"
    unfolding bss by auto
  have "bs \<noteq> []" using n(2-4) k by (auto simp: list_all2_conv_all_nth)
  moreover have "blocks_data bs = Ok (map (block_bytes C) (blocks_of (take (n - k) (drop k ch))))"
    using blocks_data_is [OF n(4)] by (simp add: take_map drop_map)
  ultimately show ?thesis
    using n dir_store_holds_same [OF h n(5)]
    by (intro exI [of _ n] exI [of _ st']) (simp add: create_sync_response_for_blocks_def)
qed

section \<open>A round of the download\<close>

lemma node_info_set [simp]:
  "get_or_create_node_info n (set_node_info n info cy) = info"
  "cy_status (set_node_info n info cy) = cy_status cy" "cy_leader (set_node_info n info cy) = cy_leader cy"
  "cy_config (set_node_info n info cy) = cy_config cy"
  by (simp_all add: get_or_create_node_info_def set_node_info_def hm_insert_lookup)

lemma node_info_status [simp]: "get_or_create_node_info n (cy\<lparr>cy_status := x\<rparr>) = get_or_create_node_info n cy"
  by (simp add: get_or_create_node_info_def split: option.split)

lemma touch_node_simps [simp]:
  "cy_status (touch_node now n cy) = cy_status cy" "cy_leader (touch_node now n cy) = cy_leader cy"
  "cy_config (touch_node now n cy) = cy_config cy"
  "ni_last_common_block (get_or_create_node_info n (touch_node now n cy)) = ni_last_common_block (get_or_create_node_info n cy)"
  "ni_last_known_block (get_or_create_node_info n (touch_node now n cy)) = ni_last_known_block (get_or_create_node_info n cy)"
  "ni_node_id (get_or_create_node_info n (touch_node now n cy)) = ni_node_id (get_or_create_node_info n cy)"
  by (simp_all add: touch_node_def Let_def)

text \<open>
  The leader \<open>n\<close> handles the last request the follower \<open>me\<close> sent, and the follower handles the
  response.
\<close>

inductive download_round ::
  "('c) codec_scheme \<Rightarrow> 'r ext_index \<Rightarrow> instant \<Rightarrow> node_id \<Rightarrow> node_id
     \<Rightarrow> 'r sync_world \<times> 'r sync_world \<Rightarrow> 'r sync_world \<times> 'r sync_world \<Rightarrow> bool"
  for C E now me n where
  "\<lbrakk>sc_messages (fst (snd F)) = msgs @ [ChainSyncRequest n req];
    handle_chain_sync_request C now me req L = (Ok (), L');
    sc_messages (fst (snd L')) = msgs' @ [ChainSyncResponse me resp];
    handle_chain_sync_response C E now n resp F = (Ok (), F')\<rbrakk>
   \<Longrightarrow> download_round C E now me n (F, L) (F', L')"

definition blocks_request :: "('c) codec_scheme \<Rightarrow> chain \<Rightarrow> nat \<Rightarrow> chain_sync_request" where
  "blocks_request C ch k =
     \<lparr>cq_from_offset = chain_end C (take k ch), cq_to_offset = offset_at ch (length ch - 1),
      cq_requested_details = RequestBlocks\<rparr>"

text \<open>The follower knows the leader's chain \<open>ch\<close>, has its first \<open>k\<close> blocks, and asked for the others.\<close>

fun downloading ::
  "('c) codec_scheme \<Rightarrow> 'r ext_index \<Rightarrow> node_id \<Rightarrow> chain \<Rightarrow> nat \<Rightarrow> 'r sync_world \<times> 'r sync_world \<Rightarrow> bool" where
  "downloading C E n ch k ((cy, sc, st), (cy', sc', st')) \<longleftrightarrow>
     (let info = get_or_create_node_info n cy in
      is_leader cy n \<and> ni_node_id info = n \<and> ni_last_common_block info = last_meta C (take k ch) \<and>
      ni_last_known_block info = last_meta C ch \<and>
      (\<exists>msgs. sc_messages sc = msgs @ [ChainSyncRequest n (blocks_request C ch k)]) \<and>
      dir_store_holds C E st (take k ch) \<and> dir_store_holds C E st' ch \<and> 0 < cc_blocks_max_send_size (cy_config cy'))"

lemma request_blocks_next:
  assumes "chain_ok C (take k ch)" and "ni_last_common_block info = last_meta C (take k ch)"
  shows "create_sync_request info RequestBlocks (Some (offset_at ch (length ch - 1))) = blocks_request C ch k"
  using last_meta_end [OF assms(1)] assms(2) by (simp add: create_sync_request_def blocks_request_def split: option.splits)

lemma fully_downloaded_iff:
  assumes "chain_ok C ch" and "j \<le> length ch" and "ch \<noteq> []"
    and "ni_last_common_block info = last_meta C (take j ch)" and "ni_last_known_block info = last_meta C ch"
  shows "chain_fully_downloaded info \<longleftrightarrow> j = length ch"
proof -
  have "bh_offset (ab_header (fst (last (take j ch)))) < bh_offset (ab_header (fst (last ch)))" if "j < length ch" "0 < j"
  proof -
    have t: "take j ch = take (j - 1) ch @ [ch ! (j - 1)]" using that by (metis Suc_diff_1 less_imp_diff_less take_Suc_conv_app_nth)
    then have b: "blocks_of ch = blocks_of (take (j - 1) ch) @ block_at ch (j - 1) # blocks_of (drop j ch)"
      by (metis append_take_drop_id append.assoc append_Cons append_Nil list.map map_append)
    have l: "fst (last ch) \<in> set (blocks_of (drop j ch))"
      using that by (metis drop_eq_Nil imageI last_drop last_in_set leD list.set_map)
    have "contiguous C 0 (blocks_of ch)" using assms(1) by (simp add: chain_ok_def)
    from contiguous_offset_less [OF this [unfolded b] l] show ?thesis by (simp add: t)
  qed
  then have "j \<noteq> length ch \<Longrightarrow> 0 < j \<Longrightarrow> bh_offset (ab_header (fst (last (take j ch)))) \<noteq> bh_offset (ab_header (fst (last ch)))"
    using assms(2) by simp
  with assms(3-5) show ?thesis
    by (cases "j = length ch"; cases "j = 0") (simp_all add: chain_fully_downloaded_def last_meta_def block_meta_def)
qed

lemma response_blocks_handled:
  assumes h: "dir_store_holds C E st xs" and ok: "chain_ok C (xs @ new)"
    and fits: "\<forall>a \<in> set (blocks_of (xs @ new)). header_fits C a" and l: "is_leader cy n"
  shows "\<exists>st' cy'. handle_sync_response_blocks C E now n (map (block_bytes C) (blocks_of new)) (cy, sc, st) =
      (let info = (get_or_create_node_info n cy)\<lparr>ni_last_common_block := last_meta C (xs @ new)\<rparr>;
           sc1 = sc\<lparr>sc_events := sc_events sc @ map (\<lambda>a. NewChainBlock (bh_offset (ab_header a))) (blocks_of new)\<rparr> in
       if chain_fully_downloaded info then
         (Ok (), ((set_node_info n info cy)\<lparr>cy_status := SyncSynchronized\<rparr>, sc1, st'))
       else
         (Ok (), (set_node_info n (info\<lparr>ni_request_tracker := set_last_send_now now (ni_request_tracker info)\<rparr>) cy,
            push_chain_sync_request (ni_node_id info)
              (create_sync_request info RequestBlocks
                 (Some (case ni_last_known_block info of Some b \<Rightarrow> bm_offset b | None \<Rightarrow> 0))) sc1, st')))
    \<and> dir_store_holds C E st' (xs @ new)"
proof -
  obtain r st1 where r: "dir_get_last_block C st = (Ok r, st1)" "dir_store_holds C E st1 xs"
      "case r of None \<Rightarrow> xs = [] | Some b \<Rightarrow> xs \<noteq> [] \<and> block_is C b (fst (last xs))"
    using dir.get_last_ok [OF h] by blast
  have m: "(case r of None \<Rightarrow> Ok None | Some b \<Rightarrow> and_then (from_stored_block b) (\<lambda>m. Ok (Some m))) = Ok (last_meta C xs)"
    using r(3) fits by (auto simp: last_meta_def from_stored_block_is split: option.splits)
  obtain st' where w: "write_response_blocks C E (map (block_bytes C) (blocks_of new)) (last_meta C xs) (sc, st1) =
      (Ok (last_meta C (xs @ new)),
       (sc\<lparr>sc_events := sc_events sc @ map (\<lambda>a. NewChainBlock (bh_offset (ab_header a))) (blocks_of new)\<rparr>, st'))"
      "dir_store_holds C E st' (xs @ new)"
    using write_response_ok [OF r(2) ok, of sc] fits by auto
  show ?thesis
    using l r(1) m w by (intro exI [of _ st']) (simp add: handle_sync_response_blocks_def Let_def on_chain_def)
qed

lemma download_round_progress:
  assumes d: "downloading C E n ch k (F, L)" and k: "k < length ch" and fits: "\<forall>a \<in> set (blocks_of ch). header_fits C a"
  shows "\<exists>j F' L'. k < j \<and> j \<le> length ch \<and> download_round C E now me n (F, L) (F', L') \<and>
    dir_store_holds C E (snd (snd F')) (take j ch) \<and>
    (if j = length ch then cy_status (fst F') = SyncSynchronized else downloading C E n ch j (F', L'))"
proof -
  obtain cy sc st cyl scl stl where FL: "F = (cy, sc, st)" "L = (cyl, scl, stl)" by (cases F, cases L)
  let ?info = "get_or_create_node_info n cy"
  obtain msgs where f: "is_leader cy n" "ni_node_id ?info = n" "ni_last_known_block ?info = last_meta C ch"
      "sc_messages sc = msgs @ [ChainSyncRequest n (blocks_request C ch k)]"
      "dir_store_holds C E st (take k ch)" "dir_store_holds C E stl ch" "0 < cc_blocks_max_send_size (cy_config cyl)"
    using d FL by (auto simp: Let_def)
  have ok: "chain_ok C ch" by (rule dir.holds_ok [OF f(6)])
  have pre: "chain_ok C (take i ch)" for i using ok chain_ok_prefix [of C "take i ch" "drop i ch"] by simp
  obtain j stl' where j: "k < j" "j \<le> length ch" "dir_store_holds C E stl' ch"
      and resp: "create_sync_response_for_blocks C (cy_config cyl) (chain_end C (take k ch)) (offset_at ch (length ch - 1)) stl =
        (Ok \<lparr>cr_from_offset = chain_end C (take k ch), cr_to_offset = offset_at ch (length ch - 1), cr_headers = None,
             cr_blocks = Some (map (block_bytes C) (blocks_of (take (j - k) (drop k ch))))\<rparr>, stl')"
    using response_for_blocks [OF f(6) k f(7)] by blast
  let ?resp = "\<lparr>cr_from_offset = chain_end C (take k ch), cr_to_offset = offset_at ch (length ch - 1), cr_headers = None,
             cr_blocks = Some (map (block_bytes C) (blocks_of (take (j - k) (drop k ch))))\<rparr>"
  have tj: "take k ch @ take (j - k) (drop k ch) = take j ch" using j(1) by (metis le_add_diff_inverse less_imp_le take_add)
  let ?L' = "(touch_node now me cyl, push_chain_sync_response me ?resp scl, stl')"
  have L': "handle_chain_sync_request C now me (blocks_request C ch k) L = (Ok (), ?L')"
    using resp FL by (simp add: handle_chain_sync_request_def blocks_request_def Let_def)
  let ?new = "take (j - k) (drop k ch)"
  let ?i1 = "?info\<lparr>ni_last_common_block := last_meta C (take j ch)\<rparr>"
  have full: "chain_fully_downloaded ?i1 \<longleftrightarrow> j = length ch"
    by (rule fully_downloaded_iff [OF ok j(2)]) (use f(3) k in auto)
  have kn: "(case ni_last_known_block ?i1 of Some b \<Rightarrow> bm_offset b | None \<Rightarrow> 0) = offset_at ch (length ch - 1)"
    using f(3) k by (auto simp: last_meta_def block_meta_def last_conv_nth)
  have req: "create_sync_request ?i1 RequestBlocks (Some (offset_at ch (length ch - 1))) = blocks_request C ch j"
    by (rule request_blocks_next [OF pre]) simp
  have fits': "\<forall>a \<in> set (blocks_of (take k ch @ ?new)). header_fits C a"
    unfolding tj using fits by (auto dest: in_set_takeD)
  obtain cy1 sc1 st1 where h: "handle_sync_response_blocks C E now n (map (block_bytes C) (blocks_of ?new)) (cy, sc, st) = (Ok (), (cy1, sc1, st1))"
      "dir_store_holds C E st1 (take j ch)"
      and e: "if j = length ch then cy_status cy1 = SyncSynchronized
         else is_leader cy1 n \<and> ni_last_common_block (get_or_create_node_info n cy1) = last_meta C (take j ch) \<and>
           ni_last_known_block (get_or_create_node_info n cy1) = last_meta C ch \<and> ni_node_id (get_or_create_node_info n cy1) = n \<and>
           sc_messages sc1 = sc_messages sc @ [ChainSyncRequest n (blocks_request C ch j)]"
    using response_blocks_handled [OF f(5) _ fits' f(1), unfolded tj, OF pre, of now sc] full kn req f(1-3)
    by (fastforce simp: Let_def is_leader_def push_defs)
  let ?F' = "(touch_node now n cy1, sc1, st1)"
  have "handle_chain_sync_response C E now n ?resp F = (Ok (), ?F')"
    using h(1) FL by (simp add: handle_chain_sync_response_def)
  then have "download_round C E now me n (F, L) (?F', ?L')"
    using L' f(4) FL by (intro download_round.intros) (auto simp: push_defs)
  moreover have "downloading C E n ch j (?F', ?L')" if "j \<noteq> length ch"
    using e that h(2) j(3) f(7) by (auto simp: Let_def is_leader_def)
  ultimately show ?thesis
    using j(1,2) h(2) e by (intro exI [of _ j] exI [of _ ?F'] exI [of _ ?L']) simp
qed

section \<open>Electing a leader\<close>

text \<open>A node of which the last common block is known, and the height of its last known block.\<close>

definition synchronised_at :: "chain_sync \<Rightarrow> node_id \<Rightarrow> nat \<Rightarrow> bool" where
  "synchronised_at cy n h \<longleftrightarrow>
     (\<exists>info \<in> snd ` set (cy_nodes_info cy). ni_node_id info = n \<and> ni_last_common_is_known info \<and>
        map_option bm_height (ni_last_known_block info) = Some h)"

lemma candidates_synchronised: "synchronised_at cy n h \<longleftrightarrow> (\<exists>info. (info, h) \<in> set (leader_candidates cy) \<and> ni_node_id info = n)"
  by (force simp: synchronised_at_def leader_candidates_def List.map_filter_def ni_status_def split: option.splits if_splits)

lemma max_height_None: "max_height xs = None \<longleftrightarrow> xs = []"
  by (cases xs) (auto split: option.splits)

lemma max_height_Some: "max_height xs = Some x \<Longrightarrow> x \<in> set xs \<and> (\<forall>y \<in> set xs. snd y \<le> snd x)"
proof (induction xs arbitrary: x)
  case (Cons y ys)
  show ?case
  proof (cases "max_height ys")
    case None
    with Cons.prems show ?thesis by (auto simp: max_height_None)
  next
    case (Some z)
    with Cons.IH [OF Some] Cons.prems show ?thesis by (fastforce split: if_splits)
  qed
qed simp

section \<open>Examples\<close>

lemma example_genesis_fits: "header_fits example_codec example_genesis"
  by (simp add: header_fits_def header_bytes_def example_genesis_def example_block_simps)

text \<open>A block after the genesis block that does not name its hash.\<close>

definition example_forged :: ablock where
  "example_forged = built_ablock example_codec example_cell (length (block_bytes example_codec example_genesis))
     1 0 [] 9 (ops_of example_codec [example_op 7])"

lemma example_op_7: "op_codec_ok example_codec (example_op 7)"
  by (rule op_codec_example; simp add: example_block_simps)

lemma example_forged_buildable: "buildable example_codec example_forged"
  unfolding example_forged_def buildable_def
  by (intro conjI header_codec_example sigs_codec_example)
    (simp_all add: example_block_simps example_genesis_def block_bytes_def header_bytes_def sigs_bytes_def)

lemma example_forged_facts:
  "header_fits example_codec example_forged" "bh_previous_hash (ab_header example_forged) = []"
  "bh_offset (ab_header example_forged) = length (block_bytes example_codec example_genesis)"
  "block_holds example_codec example_forged [example_op 7]" "block_ids example_forged [example_op 7] = [9, 7]"
  using example_op_7
  by (simp_all add: header_fits_def header_bytes_def example_forged_def block_bytes_def sigs_bytes_def example_genesis_def
      example_block_simps block_holds_def block_ids_def)

lemma example_forged_built:
  obtains b where "block_is example_codec b example_forged" "ablock_wf example_codec example_forged"
  using build_with_prev_info_is [OF example_forged_buildable [unfolded example_forged_def]]
  by (auto simp: example_forged_def)

lemma example_forged_chain:
  "chain_ok example_codec ([(example_genesis, example_ops)] @ [(example_forged, [example_op 7])])"
proof -
  obtain b where wf: "ablock_wf example_codec example_forged" by (rule example_forged_built)
  show ?thesis
    using example_chain_ok wf example_forged_facts(3-5) example_genesis_ids
    by (auto simp: chain_ok_def chain_entries_def unique_ids_def ids_of_def iblock_of_def)
qed

section \<open>Properties\<close>

text \<open>
  (C3) A download from the leader comes to its end: from a state in which the follower has the
  first \<open>k\<close> blocks of the leader's chain and has asked for the rest, there are at most as many
  rounds of request and response as there are missing blocks, whatever the limit on the size of a
  response, after which the follower has the whole chain and is synchronised.
\<close>

theorem download_completes:
  assumes "downloading C E n ch k s" and "k < length ch" and "\<forall>a \<in> set (blocks_of ch). header_fits C a"
  shows "\<exists>m F L. m \<le> length ch - k \<and> (download_round C E now me n ^^ m) s (F, L) \<and>
    cy_status (fst F) = SyncSynchronized \<and> dir_store_holds C E (snd (snd F)) ch"
  using assms(1,2)
proof (induction "length ch - k" arbitrary: k s rule: less_induct)
  case less
  obtain F L where s: "s = (F, L)" by (cases s)
  from less.prems s obtain j F' L' where j: "k < j" "j \<le> length ch" "download_round C E now me n s (F', L')"
      "dir_store_holds C E (snd (snd F')) (take j ch)"
      "if j = length ch then cy_status (fst F') = SyncSynchronized else downloading C E n ch j (F', L')"
    using download_round_progress [OF _ less.prems(2) assms(3)] by blast
  show ?case
  proof (cases "j = length ch")
    case True
    with j show ?thesis by (intro exI [of _ 1] exI [of _ F'] exI [of _ L']) auto
  next
    case False
    then have "length ch - j < length ch - k" "downloading C E n ch j (F', L')" "j < length ch" using j by auto
    from less.hyps [OF this] obtain m G K where m: "m \<le> length ch - j"
        "(download_round C E now me n ^^ m) (F', L') (G, K)" "cy_status (fst G) = SyncSynchronized"
        "dir_store_holds C E (snd (snd G)) ch" by blast
    have "(download_round C E now me n ^^ Suc m) s (G, K)" using relpowp_Suc_I2 [of _ s "(F', L')" m "(G, K)", OF j(3) m(2)] .
    moreover have "Suc m \<le> length ch - k" using m(1) j(1,2) by linarith
    ultimately show ?thesis using m(3,4) by blast
  qed
qed

theorem download_completes_witness:
  "\<exists>(s :: (nat \<times> nat) list sync_world \<times> (nat \<times> nat) list sync_world) m F L.
     downloading example_codec example_ext ''b'' [(example_genesis, example_ops)] 0 s \<and>
     (download_round example_codec example_ext 0 ''a'' ''b'' ^^ m) s (F, L) \<and>
     cy_status (fst F) = SyncSynchronized \<and> dir_store_holds example_codec example_ext (snd (snd F)) [(example_genesis, example_ops)]"
proof -
  let ?ch = "[(example_genesis, example_ops)]"
  obtain st b where st: "dir_store_holds example_codec example_ext st []" and b: "block_is example_codec b example_genesis"
    by (rule example_dir_store)
  have ok: "chain_ok example_codec ([] @ [(example_genesis, example_ops)])" using example_chain_ok by simp
  from dir.write_ok [OF st b ok] obtain st' where st': "dir_store_holds example_codec example_ext st' ?ch" by auto
  define cy where "cy = chain_sync_new chain_sync_config_default example_cell"
  define info where "info = (node_sync_info_new ''b'' chain_sync_config_default)\<lparr>ni_last_known_block := last_meta example_codec ?ch\<rparr>"
  define sc where "sc = push_chain_sync_request ''b'' (blocks_request example_codec ?ch 0) (sync_context_new \<lparr>pending_last_cleanup_block = None\<rparr>)"
  have "downloading example_codec example_ext ''b'' ?ch 0 (((set_node_info ''b'' info cy)\<lparr>cy_leader := Some ''b''\<rparr>, sc, st), (cy, sc, st'))"
    using st st'
    by (simp add: Let_def is_leader_def cy_def info_def sc_def push_defs sync_context_new_def chain_sync_new_def
        node_sync_info_new_def last_meta_def chain_sync_config_default_def get_or_create_node_info_def set_node_info_def)
  with download_completes [OF this] example_genesis_fits show ?thesis by fastforce
qed

text \<open>
  (C24) The leader that is elected has a longest chain among what is known: if it is another node, the last block in
  common with it is known, no other node of which this is known has a higher last block and neither
  has the local chain; the local node elects itself only if its last block is higher than all of
  these; nobody is elected only if the local chain is empty and there is no such node. A node
  whose last common block is not known has no say, however high its chain.
\<close>

theorem elected_leader_longest:
  assumes "dir_store_holds C E st ch"
  shows "\<exists>cy' st'. find_leader_node C (cy, st) = (Ok (), (cy', st')) \<and>
    (case cy_leader cy' of
       None \<Rightarrow> ch = [] \<and> (\<forall>n h. \<not> synchronised_at cy n h)
     | Some l \<Rightarrow>
         l = local_node_id (cy_cell cy) \<and> ch \<noteq> [] \<and>
           (\<forall>n h. synchronised_at cy n h \<longrightarrow> h < bh_height (ab_header (fst (last ch)))) \<or>
         (\<exists>h. synchronised_at cy l h \<and> (\<forall>n h'. synchronised_at cy n h' \<longrightarrow> h' \<le> h) \<and>
            (ch \<noteq> [] \<longrightarrow> bh_height (ab_header (fst (last ch))) \<le> h)))"
proof -
  obtain r st' where r: "dir_get_last_block C st = (Ok r, st')"
      "case r of None \<Rightarrow> ch = [] | Some b \<Rightarrow> ch \<noteq> [] \<and> block_is C b (fst (last ch))"
    using dir.get_last_ok [OF assms] by blast
  show ?thesis
  proof (cases "max_height (leader_candidates cy)")
    case None
    then have "\<not> synchronised_at cy n h" for n h by (auto simp: max_height_None candidates_synchronised)
    with None r show ?thesis by (auto simp: find_leader_node_def on_chain_def split: option.split)
  next
    case (Some x)
    obtain info h where x: "x = (info, h)" by (cases x)
    from max_height_Some [OF Some] x have "synchronised_at cy (ni_node_id info) h"
      "\<forall>n h'. synchronised_at cy n h' \<longrightarrow> h' \<le> h" by (auto simp: candidates_synchronised)
    with Some x r show ?thesis
      by (cases r) (force simp: find_leader_node_def on_chain_def block_is_height)+
  qed
qed

text \<open>A node that is synchronised at height 2, and one at height 9 of which no common block is known.\<close>

definition example_info :: "node_id \<Rightarrow> bool \<Rightarrow> nat \<Rightarrow> node_sync_info" where
  "example_info n known h = (node_sync_info_new n chain_sync_config_default)\<lparr>ni_last_common_is_known := known,
     ni_last_known_block := Some \<lparr>bm_offset = 0, bm_height = h, bm_hash = [], bm_previous_offset = 0, bm_previous_hash = [],
       bm_block_size = 0, bm_operations_size = 0, bm_signatures_size = 0\<rparr>\<rparr>"

definition example_election :: chain_sync where
  "example_election = set_node_info ''c'' (example_info ''c'' False 9)
     (set_node_info ''b'' (example_info ''b'' True 2) (chain_sync_new chain_sync_config_default example_cell))"

theorem elected_leader_longest_witness:
  "\<exists>(st :: (nat \<times> nat) list dir_store) cy' st'.
     dir_store_holds example_codec example_ext st [(example_genesis, example_ops)] \<and>
     find_leader_node example_codec (example_election, st) = (Ok (), (cy', st')) \<and> cy_leader cy' = Some ''b''"
proof -
  obtain st0 b where st0: "dir_store_holds example_codec example_ext st0 []" and b: "block_is example_codec b example_genesis"
    by (rule example_dir_store)
  have ok: "chain_ok example_codec ([] @ [(example_genesis, example_ops)])" using example_chain_ok by simp
  from dir.write_ok [OF st0 b ok] obtain st :: "(nat \<times> nat) list dir_store"
    where st: "dir_store_holds example_codec example_ext st [(example_genesis, example_ops)]" by auto
  have at: "synchronised_at example_election n h \<longleftrightarrow> n = ''b'' \<and> h = 2" for n h
    by (auto simp: synchronised_at_def example_election_def example_info_def set_node_info_def chain_sync_new_def
        node_sync_info_new_def)
  have low: "bh_height (ab_header example_genesis) < 2"
    by (simp add: example_genesis_def built_ablock_def built_header_def)
  from elected_leader_longest [OF st, of example_election] obtain cy' st' where
      "find_leader_node example_codec (example_election, st) = (Ok (), (cy', st'))" "cy_leader cy' = Some ''b''"
    unfolding at using low by (fastforce split: option.splits)
  with st show ?thesis by blast
qed

text \<open>
  (C36) A block received from the leader is not validated before it is written: a block at the
  right offset whose previous hash is not the hash of the block before it, which
  \<open>validate\<close> refuses, becomes part of the chain.
\<close>

theorem unvalidated_block_written:
  assumes "dir_store_holds C E st (ch @ [(pa, pms)])" and "block_is C p pa" and "block_is C b a"
    and "chain_ok C ((ch @ [(pa, pms)]) @ [(a, ms)])" and "\<forall>x \<in> set (blocks_of (ch @ [(pa, pms)]) @ [a]). header_fits C x"
    and "is_leader cy n" and "bh_previous_hash (ab_header a) \<noteq> digest C (enc_header C (ab_header pa))"
    and "cr_blocks resp = Some [block_bytes C a]"
  shows "validate C b (Some p) = Err BlockIntegrity \<and>
    (\<exists>cy' sc' st'. handle_chain_sync_response C E now n resp (cy, sc, st) = (Ok (), (cy', sc', st')) \<and>
       dir_store_holds C E st' (ch @ [(pa, pms), (a, ms)]))"
proof -
  have h: "block_holds C a ms" and H: "hash_lib_ok C" using assms(4) by (auto simp: chain_ok_def)
  have "validate C b (Some p) = Err BlockIntegrity"
    using validate_represented(2) [OF assms(3) H h assms(2)] assms(7) by auto
  moreover obtain cy' sc' st' where "handle_sync_response_blocks C E now n [block_bytes C a] (cy, sc, st) = (Ok (), (cy', sc', st'))"
      "dir_store_holds C E st' (ch @ [(pa, pms), (a, ms)])"
    using response_blocks_handled [OF assms(1,4) _ assms(6), of now sc] assms(5) by (auto simp: Let_def split: if_splits)
  ultimately show ?thesis using assms(8) by (simp add: handle_chain_sync_response_def)
qed

theorem unvalidated_block_written_witness:
  "\<exists>(st :: (nat \<times> nat) list dir_store) b p w.
     dir_store_holds example_codec example_ext st [(example_genesis, example_ops)] \<and> block_is example_codec p example_genesis \<and>
     validate example_codec b (Some p) = Err BlockIntegrity \<and>
     handle_chain_sync_response example_codec example_ext 0 ''b''
       \<lparr>cr_from_offset = 0, cr_to_offset = 0, cr_headers = None, cr_blocks = Some [block_bytes example_codec example_forged]\<rparr>
       ((chain_sync_new chain_sync_config_default example_cell)\<lparr>cy_leader := Some ''b''\<rparr>,
        sync_context_new \<lparr>pending_last_cleanup_block = None\<rparr>, st) = (Ok (), w) \<and>
     dir_store_holds example_codec example_ext (snd (snd w)) [(example_genesis, example_ops), (example_forged, [example_op 7])]"
proof -
  obtain st p where st: "dir_store_holds example_codec example_ext st []" and p: "block_is example_codec p example_genesis"
    by (rule example_dir_store)
  have ok: "chain_ok example_codec ([] @ [(example_genesis, example_ops)])" using example_chain_ok by simp
  from dir.write_ok [OF st p ok] obtain st' where
    st': "dir_store_holds example_codec example_ext st' ([] @ [(example_genesis, example_ops)])" by auto
  obtain b where b: "block_is example_codec b example_forged" by (rule example_forged_built)
  let ?cy = "(chain_sync_new chain_sync_config_default example_cell)\<lparr>cy_leader := Some ''b''\<rparr>"
  have d: "digest example_codec (enc_header example_codec (ab_header example_genesis)) \<noteq> []"
    using digest_example_length by (metis example_codec_fields(1) list.size(3) zero_neq_numeral)
  have "is_leader ?cy ''b''" by (simp add: is_leader_def)
  note u = unvalidated_block_written [OF st' p b _ _ this, of "[example_op 7]"
      "\<lparr>cr_from_offset = 0, cr_to_offset = 0, cr_headers = None, cr_blocks = Some [block_bytes example_codec example_forged]\<rparr>"
      0 "sync_context_new \<lparr>pending_last_cleanup_block = None\<rparr>"]
  have "\<exists>cy' sc' st''. validate example_codec b (Some p) = Err BlockIntegrity \<and>
     handle_chain_sync_response example_codec example_ext 0 ''b''
       \<lparr>cr_from_offset = 0, cr_to_offset = 0, cr_headers = None, cr_blocks = Some [block_bytes example_codec example_forged]\<rparr>
       (?cy, sync_context_new \<lparr>pending_last_cleanup_block = None\<rparr>, st') = (Ok (), (cy', sc', st'')) \<and>
     dir_store_holds example_codec example_ext st'' [(example_genesis, example_ops), (example_forged, [example_op 7])]"
    using u example_forged_chain example_genesis_fits example_forged_facts(1,2) d by auto
  with st' p show ?thesis by fastforce
qed

end
