(* ===== verification/Exo_Pending_Blocks.thy ===== *)
theory Exo_Pending_Blocks
  imports Exo_Pending_Sync Exo_Chain_Sync
begin

text \<open>
  The blocks proposed in the pending store, as the commit manager sees them
  (\<open>chain/src/engine/commit_manager/block.rs\<close>). A hash map is the list of its entries in the
  order of an iteration, a hash set a list without repetition. The time of a call is the
  timestamp the clock issued for it.
\<close>

section \<open>Configuration\<close>

record commit_manager_config =
  cm_operations_cleanup_after_block_depth :: nat
  cm_commit_maximum_pending_store_count :: nat
  cm_commit_maximum_interval :: duration
  cm_block_proposal_timeout :: duration

definition commit_manager_config_default :: commit_manager_config where
  "commit_manager_config_default =
     \<lparr>cm_operations_cleanup_after_block_depth = 6, cm_commit_maximum_pending_store_count = 10,
      cm_commit_maximum_interval = 3 * 1000000000, cm_block_proposal_timeout = 7 * 1000000000\<rparr>"

section \<open>Proposals, signatures and refusals\<close>

datatype block_status = PastRefused | PastCommitted | PastDiverged | NextExpired | NextPotential | NextRefused

record block_proposal =
  pp_node :: "cell_node option"
  pp_offset :: nat
  pp_operation :: stored_operation

record block_signature =
  bg_node_id :: node_id
  bg_signature :: bytes

record pending_block =
  pb_group_id :: nat
  pb_status :: block_status
  pb_proposal :: block_proposal
  pb_refusals :: "node_id list"
  pb_signatures :: "block_signature list"
  pb_has_my_refusal :: bool
  pb_has_my_signature :: bool
  pb_operations :: "nat list"

definition proposed_header :: "('c) codec_scheme \<Rightarrow> bytes \<Rightarrow> (engine_error, header_frame) result" where
  "proposed_header C data = map_err EngBlock (read_header_frame C (RawFrame data))"

definition proposal_get_block :: "('c) codec_scheme \<Rightarrow> block_proposal \<Rightarrow> (engine_error, header_frame) result" where
  "proposal_get_block C p =
     (case co_operation (tf_reader (so_frame (pp_operation p))) of
        OpBlockPropose data \<Rightarrow> proposed_header C data
      | _ \<Rightarrow> Err EngOther)"

definition elapsed_since :: "nat \<Rightarrow> nat \<Rightarrow> duration option" where
  "elapsed_since now operation_id = timestamp_sub (word_of_nat now) (word_of_nat operation_id)"

definition has_expired :: "commit_manager_config \<Rightarrow> nat \<Rightarrow> block_proposal \<Rightarrow> bool" where
  "has_expired config now p =
     (case elapsed_since now (so_operation_id (pp_operation p)) of
        Some elapsed \<Rightarrow> elapsed \<ge> cm_block_proposal_timeout config
      | None \<Rightarrow> False)"

definition refusal_from_operation :: "('c) codec_scheme \<Rightarrow> chain_operation \<Rightarrow> (engine_error, node_id) result" where
  "refusal_from_operation C op =
     (case co_operation op of
        OpBlockRefuse \<Rightarrow> ok_or EngOther (parse_node_id C (co_node_id op))
      | _ \<Rightarrow> Err EngOther)"

definition signature_from_operation :: "('c) codec_scheme \<Rightarrow> chain_operation \<Rightarrow> (engine_error, block_signature) result" where
  "signature_from_operation C op =
     (case co_operation op of
        OpBlockSign _ sig \<Rightarrow>
          and_then (ok_or EngOther (parse_node_id C (co_node_id op))) (\<lambda>n.
            Ok \<lparr>bg_node_id = n, bg_signature = sig\<rparr>)
      | _ \<Rightarrow> Err EngOther)"

definition add_my_signature :: "block_signature \<Rightarrow> pending_block \<Rightarrow> pending_block" where
  "add_my_signature sig b = b\<lparr>pb_signatures := pb_signatures b @ [sig], pb_has_my_signature := True\<rparr>"

definition add_my_refusal :: "node_id \<Rightarrow> pending_block \<Rightarrow> pending_block" where
  "add_my_refusal refusal b = b\<lparr>pb_refusals := pb_refusals b @ [refusal], pb_has_my_refusal := True\<rparr>"

text \<open>\<open>Signature::validate\<close> accepts every signature.\<close>

definition signature_validate :: "bytes \<Rightarrow> cell_node \<Rightarrow> bytes \<Rightarrow> bool" where
  "signature_validate sig node message = True"

definition validate_signature :: "('c) codec_scheme \<Rightarrow> cell \<Rightarrow> pending_block \<Rightarrow> block_signature \<Rightarrow> bool" where
  "validate_signature C c b sig =
     (case get_node c (bg_node_id sig) of
        None \<Rightarrow> False
      | Some node \<Rightarrow>
          (case proposal_get_block C (pb_proposal b) of
             Ok header \<Rightarrow>
               (case typed_multihash header of
                  Ok signature_data \<Rightarrow> signature_validate (bg_signature sig) node signature_data
                | _ \<Rightarrow> False)
           | _ \<Rightarrow> False))"

section \<open>The operations of a group\<close>

record group_scan =
  gs_operations :: "nat list"
  gs_proposal :: "block_proposal option"
  gs_signatures :: "block_signature list"
  gs_refusals :: "node_id list"

definition group_scan_new :: group_scan where
  "group_scan_new = \<lparr>gs_operations = [], gs_proposal = None, gs_signatures = [], gs_refusals = []\<rparr>"

definition scan_operation ::
  "('c) codec_scheme \<Rightarrow> cell \<Rightarrow> stored_operation \<Rightarrow> group_scan \<Rightarrow> (engine_error, group_scan) result" where
  "scan_operation C c operation gs =
     (let reader = tf_reader (so_frame operation) in
      case co_operation reader of
        OpBlockPropose data \<Rightarrow>
          and_then (proposed_header C data) (\<lambda>block_frame.
          and_then (ok_or EngOther (parse_node_id C (co_node_id reader))) (\<lambda>n.
            Ok (gs\<lparr>gs_operations := gs_operations gs @ map oh_operation_id (bh_operations_header (tf_reader block_frame)),
                   gs_proposal := Some \<lparr>pp_node = get_node c n, pp_offset = bh_offset (tf_reader block_frame),
                                        pp_operation = operation\<rparr>\<rparr>)))
      | OpBlockSign _ _ \<Rightarrow>
          and_then (signature_from_operation C reader) (\<lambda>sig. Ok (gs\<lparr>gs_signatures := gs_signatures gs @ [sig]\<rparr>))
      | OpBlockRefuse \<Rightarrow>
          and_then (refusal_from_operation C reader) (\<lambda>n. Ok (gs\<lparr>gs_refusals := gs_refusals gs @ [n]\<rparr>))
      | OpEntry _ \<Rightarrow> Ok gs)"

fun scan_group ::
  "('c) codec_scheme \<Rightarrow> cell \<Rightarrow> stored_operation list \<Rightarrow> group_scan \<Rightarrow> (engine_error, group_scan) result" where
  "scan_group C c [] gs = Ok gs"
| "scan_group C c (operation # ops) gs = and_then (scan_operation C c operation gs) (scan_group C c ops)"

section \<open>The status of a proposed block\<close>

definition next_status :: "bool \<Rightarrow> bool \<Rightarrow> bool \<Rightarrow> nat \<Rightarrow> nat \<Rightarrow> block_status" where
  "next_status has_refusal_quorum has_my_refusal expired proposal_offset expected_next_offset =
     (if has_refusal_quorum \<or> has_my_refusal then NextRefused
      else if expired then NextExpired
      else if proposal_offset < expected_next_offset then PastRefused
      else if proposal_offset \<ge> expected_next_offset then NextPotential
      else NextRefused)"

definition proposal_status ::
  "('c) codec_scheme \<Rightarrow> commit_manager_config \<Rightarrow> cell \<Rightarrow> nat \<Rightarrow> data_block \<Rightarrow> nat \<Rightarrow> group_scan \<Rightarrow> block_proposal
     \<Rightarrow> ('r dir_store, engine_error, block_status) sop" where
  "proposal_status C config c now last_stored_block group_id gs proposal st =
     (let has_my_refusal = local_node_id c \<in> set (gs_refusals gs);
          has_sigs_quorum = has_quorum c (length (gs_signatures gs)) (Some ChainRole);
          has_refusal_quorum = has_quorum c (length (gs_refusals gs)) (Some ChainRole) in
      case dir_get_block C (pp_offset proposal) st of
        (Ok block, st') \<Rightarrow>
          (Ok (if get_proposed_operation_id block = group_id then PastCommitted
               else if has_sigs_quorum then PastDiverged else PastRefused), st')
      | (Err e, st') \<Rightarrow>
          (if chain_is_fatal e then Err (EngChainStore e)
           else and_then (expect_ok (next_offset last_stored_block)) (\<lambda>expected_next_offset.
             Ok (next_status has_refusal_quorum has_my_refusal (has_expired config now proposal)
                   (pp_offset proposal) expected_next_offset)), st')
      | (Panic, st') \<Rightarrow> (Panic, st'))"

section \<open>All proposed blocks\<close>

record pending_blocks =
  bl_blocks :: "(nat \<times> pending_block) list"
  bl_blocks_status :: "(nat \<times> block_status) list"
  bl_operations_blocks :: "(nat \<times> nat list) list"
  bl_entries_operations_count :: nat

fun find_blocks ::
  "('c) codec_scheme \<Rightarrow> commit_manager_config \<Rightarrow> cell \<Rightarrow> nat \<Rightarrow> pending_store \<Rightarrow> data_block \<Rightarrow> nat list
     \<Rightarrow> (nat \<times> pending_block) list \<Rightarrow> ('r dir_store, engine_error, (nat \<times> pending_block) list) sop" where
  "find_blocks C config c now store last_stored_block [] blocks st = (Ok blocks, st)"
| "find_blocks C config c now store last_stored_block (group_id # groups_id) blocks st =
     (case pending_get_group store group_id of
        None \<Rightarrow> find_blocks C config c now store last_stored_block groups_id blocks st
      | Some grp \<Rightarrow>
          sbind (slift (scan_group C c (sg_operations grp) group_scan_new)) (\<lambda>gs.
          sbind (slift (expect (gs_proposal gs))) (\<lambda>proposal.
          sbind (proposal_status C config c now last_stored_block group_id gs proposal) (\<lambda>status.
            find_blocks C config c now store last_stored_block groups_id
              (hm_insert group_id
                 \<lparr>pb_group_id = group_id, pb_status = status, pb_proposal = proposal, pb_refusals = gs_refusals gs,
                  pb_signatures = gs_signatures gs, pb_has_my_refusal = local_node_id c \<in> set (gs_refusals gs),
                  pb_has_my_signature = local_node_id c \<in> set (map bg_node_id (gs_signatures gs)),
                  pb_operations = gs_operations gs\<rparr> blocks)))) st)"

definition map_operations_blocks :: "(nat \<times> pending_block) list \<Rightarrow> (nat \<times> nat list) list" where
  "map_operations_blocks blocks =
     fold (\<lambda>(_, b) m. fold (\<lambda>op m.
         hm_insert op (List.insert (pb_group_id b) (case map_of m op of Some gs \<Rightarrow> gs | None \<Rightarrow> [])) m)
       (pb_operations b) m) blocks []"

definition map_blocks_status :: "(nat \<times> pending_block) list \<Rightarrow> (nat \<times> block_status) list" where
  "map_blocks_status blocks = fold (\<lambda>(g, b) m. hm_insert g (pb_status b) m) blocks []"

definition pending_blocks_new ::
  "('c) codec_scheme \<Rightarrow> commit_manager_config \<Rightarrow> cell \<Rightarrow> nat \<Rightarrow> pending_store
     \<Rightarrow> ('r dir_store, engine_error, pending_blocks) sop" where
  "pending_blocks_new C config c now store =
     sbind (on_chain (dir_get_last_block C)) (\<lambda>last.
     sbind (slift (ok_or UninitializedChain last)) (\<lambda>last_stored_block.
     sbind (slift (map_err EngPendingStore (pending_iter (Unbounded, Unbounded) store))) (\<lambda>ops.
     sbind (find_blocks C config c now store last_stored_block
              (map so_operation_id (filter (\<lambda>op. so_operation_type op = TBlockPropose) ops)) []) (\<lambda>blocks.
       sreturn \<lparr>bl_blocks = blocks, bl_blocks_status = map_blocks_status blocks,
                bl_operations_blocks = map_operations_blocks blocks,
                bl_entries_operations_count = length (filter (\<lambda>op. so_operation_type op = TEntry) ops)\<rparr>))))"

section \<open>The best next block\<close>

definition compare_potential_next_block :: "pending_block \<Rightarrow> pending_block \<Rightarrow> ordering" where
  "compare_potential_next_block a b =
     (if pb_has_my_signature a then Greater
      else if pb_has_my_signature b then Less
      else if length (pb_signatures a) > length (pb_signatures b) then Greater
      else if length (pb_signatures a) < length (pb_signatures b) then Less
      else if pb_group_id a < pb_group_id b then Greater else Less)"

fun reverse_cmp :: "ordering \<Rightarrow> ordering" where
  "reverse_cmp Less = Greater"
| "reverse_cmp Equal = Equal"
| "reverse_cmp Greater = Less"

text \<open>
  A stable sort by a comparison. The comparison above is not antisymmetric when two blocks carry the
  signature of the local node; the order of such blocks is then that of this insertion sort.
\<close>

fun insert_by :: "('a \<Rightarrow> 'a \<Rightarrow> ordering) \<Rightarrow> 'a \<Rightarrow> 'a list \<Rightarrow> 'a list" where
  "insert_by cmp x [] = [x]"
| "insert_by cmp x (y # ys) = (if cmp x y = Greater then y # insert_by cmp x ys else x # y # ys)"

fun sort_by :: "('a \<Rightarrow> 'a \<Rightarrow> ordering) \<Rightarrow> 'a list \<Rightarrow> 'a list" where
  "sort_by cmp [] = []"
| "sort_by cmp (x # xs) = insert_by cmp x (sort_by cmp xs)"

definition potential_next_blocks :: "pending_blocks \<Rightarrow> pending_block list" where
  "potential_next_blocks pbs =
     sort_by (\<lambda>a b. reverse_cmp (compare_potential_next_block a b))
       (filter (\<lambda>b. pb_status b = NextPotential) (map snd (bl_blocks pbs)))"

end
