(* ===== verification/Exo_Commit.thy ===== *)
theory Exo_Commit
  imports Exo_Pending_Blocks "HOL-Library.Char_ord" "HOL-Library.List_Lexorder"
begin

text \<open>
  The commit manager (\<open>chain/src/engine/commit_manager/mod.rs\<close>): proposing a block with the
  pending operations, signing or refusing a proposed one, writing it to the chain when a quorum
  signed it, and deleting the operations of old blocks. The timestamps the clock issues are the
  parameter \<open>T\<close>, from the first call to \<open>consistent_time\<close> on; the state counts the calls.
\<close>

section \<open>The state\<close>

record 'r commit_world =
  w_context :: sync_context
  w_pending :: pending_store
  w_chain :: "'r dir_store"
  w_clock :: nat

type_synonym ('r, 'a) commit_op = "('r commit_world, engine_error, 'a) sop"

record commit_manager =
  cg_config :: commit_manager_config
  cg_cell :: cell

definition on_world_chain :: "('r dir_store, engine_error, 'a) sop \<Rightarrow> ('r, 'a) commit_op" where
  "on_world_chain m w = (case m (w_chain w) of (r, st) \<Rightarrow> (r, w\<lparr>w_chain := st\<rparr>))"

definition consistent_time :: "(nat \<Rightarrow> nat) \<Rightarrow> ('r, nat) commit_op" where
  "consistent_time T w = (Ok (T (w_clock w)), w\<lparr>w_clock := Suc (w_clock w)\<rparr>)"

text \<open>A new operation goes through the pending synchroniser.\<close>

definition put_new_operation :: "('c) codec_scheme \<Rightarrow> pending_sync \<Rightarrow> new_operation \<Rightarrow> ('r, unit) commit_op" where
  "put_new_operation C py operation w =
     (case handle_new_operation C py operation (w_pending w, w_context w) of
        (r, (store, sc)) \<Rightarrow> (r, w\<lparr>w_pending := store, w_context := sc\<rparr>))"

section \<open>Turns\<close>

text \<open>
  Numbers as \<open>f64\<close>: a value is rounded to 53 significant bits, half to even. \<open>f64_div_floor\<close> is
  the floor of the rounded quotient, converted back with saturation.
\<close>

fun bit_length :: "nat \<Rightarrow> nat" where
  "bit_length n = (if n = 0 then 0 else Suc (bit_length (n div 2)))"

declare bit_length.simps [simp del]

definition round_half_even :: "nat \<Rightarrow> nat \<Rightarrow> nat" where
  "round_half_even num den =
     (let q = num div den; r = num mod den in
      if 2 * r < den \<or> 2 * r = den \<and> even q then q else q + 1)"

definition f64_of_nat :: "nat \<Rightarrow> nat" where
  "f64_of_nat n = (let k = bit_length n - 53 in round_half_even n (2 ^ k) * 2 ^ k)"

definition f64_div_floor :: "nat \<Rightarrow> nat \<Rightarrow> nat" where
  "f64_div_floor a b =
     (if b = 0 then (if a = 0 then 0 else 2 ^ 64 - 1)
      else
        let s = 53 + bit_length b - bit_length a;
            s' = (if a * 2 ^ s < b * 2 ^ 53 then s else s - 1);
            k = bit_length a - bit_length b - 53;
            k' = (if a < b * 2 ^ (k + 53) then k else k + 1) in
        min (2 ^ 64 - 1)
          (if bit_length a \<le> 52 + bit_length b then round_half_even (a * 2 ^ s') b div 2 ^ s'
           else round_half_even a (b * 2 ^ k') * 2 ^ k'))"

definition commit_epoch :: "commit_manager_config \<Rightarrow> nat \<Rightarrow> nat" where
  "commit_epoch config now = f64_div_floor (f64_of_nat now) (f64_of_nat (cm_commit_maximum_interval config))"

fun position :: "('a \<Rightarrow> bool) \<Rightarrow> 'a list \<Rightarrow> nat option" where
  "position P [] = None"
| "position P (x # xs) = (if P x then Some 0 else map_option Suc (position P xs))"

definition is_node_commit_turn ::
  "cell \<Rightarrow> node_id \<Rightarrow> nat \<Rightarrow> commit_manager_config \<Rightarrow> (engine_error, bool) result" where
  "is_node_commit_turn c my_node_id now config =
     (let sorted_nodes = sort_key cn_id (with_role c ChainRole) in
      and_then (ok_or MyNodeNotFound (position (\<lambda>cn. cn_id cn = my_node_id) sorted_nodes)) (\<lambda>my_node_position.
        Ok (commit_epoch config now mod length sorted_nodes = my_node_position)))"

section \<open>Checking a proposed block\<close>

definition validate_block_previous_hash ::
  "('c) codec_scheme \<Rightarrow> block_header \<Rightarrow> ('r dir_store, engine_error, unit) sop" where
  "validate_block_previous_hash C header st =
     (if bh_height header > 0 then
        (case dir_get_block C (bh_previous_offset header) st of
           (Ok previous_block, st') \<Rightarrow>
             (and_then (expect_ok (typed_multihash (db_header previous_block))) (\<lambda>prev_hash.
                if prev_hash \<noteq> bh_previous_hash header then Err OutOfSync else Ok ()), st')
         | (Err e, st') \<Rightarrow> (Err OutOfSync, st')
         | (Panic, st') \<Rightarrow> (Panic, st'))
      else (Ok (), st))"

fun fetch_operations :: "pending_store \<Rightarrow> nat list \<Rightarrow> (engine_error, stored_operation list) result" where
  "fetch_operations store [] = Ok []"
| "fetch_operations store (operation # ops) =
     and_then (ok_or (EngCommitManager (MissingOperation operation)) (pending_get store operation)) (\<lambda>op.
     and_then (fetch_operations store ops) (\<lambda>rest. Ok (op # rest)))"

definition get_block_operations :: "pending_block \<Rightarrow> pending_store \<Rightarrow> (engine_error, stored_operation list) result" where
  "get_block_operations block store =
     and_then (fetch_operations store (pb_operations block)) (\<lambda>ops. Ok (sort_key so_operation_id ops))"

text \<open>The blocks an operation is in, then the operations of the block.\<close>

fun check_operation_blocks ::
  "('c) codec_scheme \<Rightarrow> 'r ext_index \<Rightarrow> pending_blocks \<Rightarrow> nat \<Rightarrow> nat list \<Rightarrow> ('r dir_store, engine_error, bool) sop" where
  "check_operation_blocks C E pbs operation_id [] st = (Ok True, st)"
| "check_operation_blocks C E pbs operation_id (block_id # rest) st =
     sbind (slift (expect (map_of (bl_blocks_status pbs) block_id))) (\<lambda>op_block.
       if op_block = PastCommitted then sreturn False
       else sbind (on_chain (dir_get_block_by_operation_id C E operation_id)) (\<lambda>in_chain.
              if in_chain \<noteq> None then sreturn False
              else check_operation_blocks C E pbs operation_id rest)) st"

fun check_not_committed ::
  "('c) codec_scheme \<Rightarrow> 'r ext_index \<Rightarrow> pending_blocks \<Rightarrow> nat list \<Rightarrow> ('r dir_store, engine_error, bool) sop" where
  "check_not_committed C E pbs [] st = (Ok True, st)"
| "check_not_committed C E pbs (operation_id # ops) st =
     sbind (slift (expect (map_of (bl_operations_blocks pbs) operation_id))) (\<lambda>block_ids.
     sbind (check_operation_blocks C E pbs operation_id block_ids) (\<lambda>not_committed.
       if \<not> not_committed then sreturn False else check_not_committed C E pbs ops)) st"

definition check_should_sign_block ::
  "('c) codec_scheme \<Rightarrow> 'r ext_index \<Rightarrow> pending_block \<Rightarrow> pending_blocks \<Rightarrow> pending_store
     \<Rightarrow> ('r dir_store, engine_error, bool) sop" where
  "check_should_sign_block C E block pbs store =
     sbind (slift (proposal_get_block C (pb_proposal block))) (\<lambda>block_frame.
     let block_header = tf_reader block_frame in
     sbind (check_not_committed C E pbs (pb_operations block)) (\<lambda>not_committed.
       if \<not> not_committed then sreturn False
       else
         sbind (validate_block_previous_hash C block_header) (\<lambda>_.
         sbind (slift (get_block_operations block store)) (\<lambda>ops.
         sbind (slift (map_err EngBlock (hash_operations C (map so_frame ops)))) (\<lambda>operations_hash.
           sreturn (mh_decode C (bh_operations_hash block_header) = Some operations_hash))))))"

section \<open>Signing and refusing\<close>

definition create_block_signature ::
  "('c) codec_scheme \<Rightarrow> (nat \<Rightarrow> nat) \<Rightarrow> node_id \<Rightarrow> pending_block \<Rightarrow> ('r, new_operation \<times> pending_block) commit_op" where
  "create_block_signature C T node block =
     sbind (consistent_time T) (\<lambda>operation_id.
     sbind (slift (proposal_get_block C (pb_proposal block))) (\<lambda>_.
     sbind (slift (map_err EngOperation (sign_and_build C
              (new_signature_for_block (pb_group_id block) operation_id node)))) (\<lambda>signature_operation.
     sbind (slift (signature_from_operation C (tf_reader (no_frame signature_operation)))) (\<lambda>sig.
       sreturn (signature_operation, add_my_signature sig block)))))"

definition sign_block ::
  "('c) codec_scheme \<Rightarrow> (nat \<Rightarrow> nat) \<Rightarrow> commit_manager \<Rightarrow> pending_sync \<Rightarrow> pending_block
     \<Rightarrow> ('r, pending_block) commit_op" where
  "sign_block C T cg py block =
     sbind (create_block_signature C T (local_node_id (cg_cell cg)) block) (\<lambda>(operation, block').
     sbind (put_new_operation C py operation) (\<lambda>_. sreturn block'))"

definition refuse_block ::
  "('c) codec_scheme \<Rightarrow> (nat \<Rightarrow> nat) \<Rightarrow> commit_manager \<Rightarrow> pending_sync \<Rightarrow> pending_block
     \<Rightarrow> ('r, pending_block) commit_op" where
  "refuse_block C T cg py block =
     sbind (consistent_time T) (\<lambda>operation_id.
     sbind (slift (map_err EngOperation (sign_and_build C
              (new_refusal (pb_group_id block) operation_id (local_node_id (cg_cell cg)))))) (\<lambda>operation.
     sbind (slift (refusal_from_operation C (tf_reader (no_frame operation)))) (\<lambda>refusal.
     sbind (put_new_operation C py operation) (\<lambda>_. sreturn (add_my_refusal refusal block)))))"

text \<open>
  A check that fails with an error that is neither fatal nor about synchronisation leaves the block
  as it is. The block is updated in place, so the caller sees it afterwards.
\<close>

definition sign_or_refuse_block ::
  "('c) codec_scheme \<Rightarrow> 'r ext_index \<Rightarrow> (nat \<Rightarrow> nat) \<Rightarrow> commit_manager \<Rightarrow> pending_sync \<Rightarrow> pending_block
     \<Rightarrow> pending_blocks \<Rightarrow> ('r, pending_block) commit_op" where
  "sign_or_refuse_block C E T cg py block pbs w =
     (case on_world_chain (check_should_sign_block C E block pbs (w_pending w)) w of
        (Ok should_sign, w') \<Rightarrow> (if should_sign then sign_block C T cg py block else refuse_block C T cg py block) w'
      | (Err e, w') \<Rightarrow> (if e = OutOfSync \<or> engine_is_fatal e then Err e else Ok block, w')
      | (Panic, w') \<Rightarrow> (Panic, w'))"

section \<open>Committing\<close>

fun mark_committed :: "nat \<Rightarrow> nat \<Rightarrow> nat list \<Rightarrow> (pending_store, engine_error, unit) sop" where
  "mark_committed block_offset block_height [] store = (Ok (), store)"
| "mark_committed block_offset block_height (operation_id # ops) store =
     (case pending_update_status operation_id (Committed block_offset block_height) store of
        (Ok _, store') \<Rightarrow> mark_committed block_offset block_height ops store'
      | (Err e, store') \<Rightarrow> (Err (EngPendingStore e), store')
      | (Panic, store') \<Rightarrow> (Panic, store'))"

definition valid_signatures :: "('c) codec_scheme \<Rightarrow> cell \<Rightarrow> pending_block \<Rightarrow> block_signature list" where
  "valid_signatures C c block = filter (validate_signature C c block) (pb_signatures block)"

text \<open>The block that is written, from the proposal, the local operations and the signatures.\<close>

definition committed_block ::
  "('c) codec_scheme \<Rightarrow> cell \<Rightarrow> pending_block \<Rightarrow> header_frame \<Rightarrow> block_operations
     \<Rightarrow> (engine_error, data_block) result" where
  "committed_block C c block block_frame block_operations =
     and_then (map_err EngBlock (to_frame_for_existing_block C
       (map (\<lambda>sig. (bg_node_id sig, bg_signature sig)) (valid_signatures C c block)) (tf_reader block_frame)))
       (\<lambda>signatures_frame.
     and_then (typed_to_owned (dec_header C) block_frame) (\<lambda>header.
       Ok \<lparr>db_offset = pp_offset (pb_proposal block), db_header = header,
           db_operations_data = BytesData (bo_data block_operations), db_signatures = signatures_frame\<rparr>))"

definition write_committed :: "('c) codec_scheme \<Rightarrow> 'r ext_index \<Rightarrow> data_block \<Rightarrow> ('r dir_store, engine_error, unit) sop" where
  "write_committed C E block st =
     (case dir_write_block C E block st of
        (Ok _, st') \<Rightarrow> (Ok (), st')
      | (Err (InvalidNextBlock _ _), st') \<Rightarrow> (Err OutOfSync, st')
      | (Err e, st') \<Rightarrow> (Err (EngChainStore e), st')
      | (Panic, st') \<Rightarrow> (Panic, st'))"

definition commit_block ::
  "('c) codec_scheme \<Rightarrow> 'r ext_index \<Rightarrow> commit_manager \<Rightarrow> pending_block \<Rightarrow> ('r, unit) commit_op" where
  "commit_block C E cg block w =
     sbind (slift (proposal_get_block C (pb_proposal block))) (\<lambda>block_frame.
     let block_header = tf_reader block_frame; block_offset = pp_offset (pb_proposal block) in
     sbind (slift (get_block_operations block (w_pending w))) (\<lambda>ops.
     sbind (slift (ok_or EngFatal (mh_decode C (bh_operations_hash block_header)))) (\<lambda>header_multihash.
     sbind (slift (map_err EngBlock (from_operations C (map so_frame ops)))) (\<lambda>block_operations.
     if bo_hash block_operations \<noteq> header_multihash then slift (Err EngFatal)
     else
       sbind (on_world_chain (validate_block_previous_hash C block_header)) (\<lambda>_.
       sbind (slift (committed_block C (cg_cell cg) block block_frame block_operations)) (\<lambda>chain_block.
       sbind (on_world_chain (write_committed C E chain_block)) (\<lambda>_ w1.
         case mark_committed block_offset (bh_height block_header) (operations_id block_operations) (w_pending w1) of
           (Ok _, store) \<Rightarrow>
             (Ok (), w1\<lparr>w_pending := store, w_context := push_event (NewChainBlock block_offset) (w_context w1)\<rparr>)
         | (Err e, store) \<Rightarrow> (Err e, w1\<lparr>w_pending := store\<rparr>)
         | (Panic, store) \<Rightarrow> (Panic, w1\<lparr>w_pending := store\<rparr>)))))))) w"

definition maybe_commit_block ::
  "('c) codec_scheme \<Rightarrow> 'r ext_index \<Rightarrow> commit_manager \<Rightarrow> pending_block \<Rightarrow> ('r, unit) commit_op" where
  "maybe_commit_block C E cg block =
     (if pb_has_my_signature block \<and>
         has_quorum (cg_cell cg) (length (valid_signatures C (cg_cell cg) block)) (Some ChainRole)
      then commit_block C E cg block else sreturn ())"

section \<open>Proposing\<close>

definition approx_non_committed :: "pending_blocks \<Rightarrow> nat" where
  "approx_non_committed pbs = bl_entries_operations_count pbs - length (bl_operations_blocks pbs)"

definition last_block_or :: "('c) codec_scheme \<Rightarrow> ('r dir_store, engine_error, data_block) sop" where
  "last_block_or C = sbind (on_chain (dir_get_last_block C)) (\<lambda>b. slift (ok_or UninitializedChain b))"

definition should_propose_block ::
  "('c) codec_scheme \<Rightarrow> (nat \<Rightarrow> nat) \<Rightarrow> commit_manager \<Rightarrow> pending_blocks \<Rightarrow> ('r, bool) commit_op" where
  "should_propose_block C T cg pbs =
     (if \<not> local_node_has_role (cg_cell cg) ChainRole then sreturn False
      else
        sbind (consistent_time T) (\<lambda>now.
        sbind (slift (is_node_commit_turn (cg_cell cg) (local_node_id (cg_cell cg)) now (cg_config cg))) (\<lambda>my_turn.
          if \<not> my_turn then sreturn False
          else if approx_non_committed pbs \<ge> cm_commit_maximum_pending_store_count (cg_config cg) then sreturn True
          else
            sbind (on_world_chain (last_block_or C)) (\<lambda>previous_block.
              sreturn (case elapsed_since now (get_proposed_operation_id previous_block) of
                         None \<Rightarrow> False
                       | Some elapsed \<Rightarrow> elapsed \<ge> cm_commit_maximum_interval (cg_config cg))))))"

definition operation_is_committed :: "pending_blocks \<Rightarrow> nat \<Rightarrow> (engine_error, bool) result" where
  "operation_is_committed pbs operation_id =
     (case map_of (bl_operations_blocks pbs) operation_id of
        None \<Rightarrow> Ok False
      | Some blocks \<Rightarrow>
          (case find (\<lambda>b. map_of (bl_blocks_status pbs) b \<in> {None, Some PastCommitted}) blocks of
             None \<Rightarrow> Ok False
           | Some b \<Rightarrow> if map_of (bl_blocks_status pbs) b = None then Panic else Ok True))"

text \<open>The entries of the store that are in no committed block and not in the chain.\<close>

fun proposed_operations ::
  "('c) codec_scheme \<Rightarrow> 'r ext_index \<Rightarrow> pending_blocks \<Rightarrow> stored_operation list
     \<Rightarrow> ('r dir_store, engine_error, stored_operation list) sop" where
  "proposed_operations C E pbs [] st = (Ok [], st)"
| "proposed_operations C E pbs (operation # ops) st =
     sbind (slift (operation_is_committed pbs (so_operation_id operation))) (\<lambda>is_committed st.
       case dir_get_block_by_operation_id C E (so_operation_id operation) st of
         (Panic, st') \<Rightarrow> (Panic, st')
       | (r, st') \<Rightarrow>
           sbind (proposed_operations C E pbs ops) (\<lambda>rest.
             sreturn (if \<not> is_committed \<and> \<not> (\<exists>b. r = Ok (Some b)) then operation # rest else rest)) st') st"

definition propose_block ::
  "('c) codec_scheme \<Rightarrow> 'r ext_index \<Rightarrow> (nat \<Rightarrow> nat) \<Rightarrow> commit_manager \<Rightarrow> pending_sync \<Rightarrow> pending_blocks
     \<Rightarrow> ('r, unit) commit_op" where
  "propose_block C E T cg py pbs w =
     sbind (on_world_chain (last_block_or C)) (\<lambda>previous_block.
     sbind (slift (map_err EngPendingStore (pending_iter (Unbounded, Unbounded) (w_pending w)))) (\<lambda>stored.
     sbind (on_world_chain (proposed_operations C E pbs
              (filter (\<lambda>op. so_operation_type op = TEntry) stored))) (\<lambda>ops.
     sbind (slift (map_err EngBlock (from_operations C (map so_frame (sort_key so_operation_id ops))))) (\<lambda>block_operations.
     sbind (consistent_time T) (\<lambda>block_operation_id.
     sbind (slift (map_err EngBlock (build_with_prev_block C (cg_cell cg) previous_block block_operation_id
              block_operations))) (\<lambda>block.
     sbind (slift (map_err EngBlock (and_then (operations_iter block) (operations_iter_next C)))) (\<lambda>(_, first).
       if first = None then sreturn ()
       else
         sbind (slift (expect_ok (as_data_vec block))) (\<lambda>data.
         sbind (slift (map_err EngOperation (sign_and_build C
                  (new_block_proposal_from_data block_operation_id (local_node_id (cg_cell cg)) data)))) (\<lambda>operation.
           put_new_operation C py operation))))))))) w"

section \<open>Cleaning up\<close>

definition clean_block ::
  "('c) codec_scheme \<Rightarrow> commit_manager_config \<Rightarrow> nat \<Rightarrow> nat \<times> pending_block
     \<Rightarrow> (pending_store \<times> sync_context, engine_error, unit) sop" where
  "clean_block C config last_height entry s =
     (case (entry, s) of ((group_id, block), (store, sc)) \<Rightarrow>
        if pb_status block = PastCommitted \<or> pb_status block = PastRefused then
          sbind (slift (proposal_get_block C (pb_proposal block))) (\<lambda>block_frame.
            let block_offset = bh_offset (tf_reader block_frame); block_height = bh_height (tf_reader block_frame) in
            if last_height - block_height \<ge> cm_operations_cleanup_after_block_depth config then
              \<lambda>(store, sc). (Ok (),
                (if pb_status block = PastCommitted
                 then fold pending_delete (pb_operations block) (pending_delete group_id store)
                 else pending_delete group_id store,
                 sc\<lparr>sc_sync_state := (sc_sync_state sc)\<lparr>pending_last_cleanup_block := Some (block_offset, block_height)\<rparr>\<rparr>))
            else sreturn ()) s
        else (Ok (), s))"

fun clean_blocks ::
  "('c) codec_scheme \<Rightarrow> commit_manager_config \<Rightarrow> nat \<Rightarrow> (nat \<times> pending_block) list
     \<Rightarrow> (pending_store \<times> sync_context, engine_error, unit) sop" where
  "clean_blocks C config last_height [] s = (Ok (), s)"
| "clean_blocks C config last_height (entry # entries) s =
     sbind (clean_block C config last_height entry) (\<lambda>_. clean_blocks C config last_height entries) s"

fun dangling_operations ::
  "('c) codec_scheme \<Rightarrow> 'r ext_index \<Rightarrow> commit_manager_config \<Rightarrow> pending_blocks \<Rightarrow> nat \<Rightarrow> stored_operation list
     \<Rightarrow> ('r dir_store, engine_error, nat list) sop" where
  "dangling_operations C E config pbs last_height [] st = (Ok [], st)"
| "dangling_operations C E config pbs last_height (operation # ops) st =
     (if map_of (bl_operations_blocks pbs) (so_operation_id operation) \<noteq> None
      then dangling_operations C E config pbs last_height ops st
      else
        sbind (on_chain (dir_get_block_by_operation_id C E (so_operation_id operation))) (\<lambda>found.
        sbind (slift (case found of
                 None \<Rightarrow> Ok False
               | Some block \<Rightarrow>
                   if last_height < get_height block then Panic
                   else Ok (last_height - get_height block \<ge> cm_operations_cleanup_after_block_depth config)))
          (\<lambda>deep.
        sbind (dangling_operations C E config pbs last_height ops) (\<lambda>rest.
          sreturn (if deep then so_operation_id operation # rest else rest)))) st)"

definition maybe_cleanup_pending_store ::
  "('c) codec_scheme \<Rightarrow> 'r ext_index \<Rightarrow> commit_manager \<Rightarrow> pending_blocks \<Rightarrow> ('r, unit) commit_op" where
  "maybe_cleanup_pending_store C E cg pbs =
     sbind (on_world_chain (last_block_or C)) (\<lambda>last_stored_block w.
     let last_height = get_height last_stored_block in
     case clean_blocks C (cg_config cg) last_height (bl_blocks pbs) (w_pending w, w_context w) of
       (Ok _, (store, sc)) \<Rightarrow>
         (let w1 = w\<lparr>w_pending := store, w_context := sc\<rparr> in
          if approx_non_committed pbs > 0 then
            sbind (slift (map_err EngPendingStore (pending_iter (Unbounded, Unbounded) store))) (\<lambda>stored.
            sbind (on_world_chain (dangling_operations C E (cg_config cg) pbs last_height stored)) (\<lambda>to_delete w2.
              (Ok (), w2\<lparr>w_pending := fold pending_delete to_delete (w_pending w2)\<rparr>))) w1
          else (Ok (), w1))
     | (Err e, (store, sc)) \<Rightarrow> (Err e, w\<lparr>w_pending := store, w_context := sc\<rparr>)
     | (Panic, (store, sc)) \<Rightarrow> (Panic, w\<lparr>w_pending := store, w_context := sc\<rparr>))"

section \<open>The tick\<close>

definition handle_next_block ::
  "('c) codec_scheme \<Rightarrow> 'r ext_index \<Rightarrow> (nat \<Rightarrow> nat) \<Rightarrow> commit_manager \<Rightarrow> pending_sync \<Rightarrow> pending_blocks
     \<Rightarrow> nat \<Rightarrow> ('r, pending_blocks) commit_op" where
  "handle_next_block C E T cg py pbs next_block_id =
     sbind (slift (expect (map_of (bl_blocks pbs) next_block_id))) (\<lambda>block.
     sbind (if \<not> pb_has_my_signature block \<and> \<not> pb_has_my_refusal block
            then sign_or_refuse_block C E T cg py block pbs else sreturn block) (\<lambda>next_block.
     sbind (maybe_commit_block C E cg next_block) (\<lambda>_.
       sreturn (pbs\<lparr>bl_blocks := hm_insert next_block_id next_block (bl_blocks pbs)\<rparr>))))"

definition commit_tick ::
  "('c) codec_scheme \<Rightarrow> 'r ext_index \<Rightarrow> (nat \<Rightarrow> nat) \<Rightarrow> commit_manager \<Rightarrow> pending_sync \<Rightarrow> ('r, unit) commit_op" where
  "commit_tick C E T cg py =
     sbind (consistent_time T) (\<lambda>now.
     sbind (\<lambda>w. on_world_chain (pending_blocks_new C (cg_config cg) (cg_cell cg) now (w_pending w)) w) (\<lambda>pbs.
     sbind (case potential_next_blocks pbs of
              block # _ \<Rightarrow> handle_next_block C E T cg py pbs (pb_group_id block)
            | [] \<Rightarrow>
                sbind (should_propose_block C T cg pbs) (\<lambda>propose.
                sbind (if propose then propose_block C E T cg py pbs else sreturn ()) (\<lambda>_. sreturn pbs))) (\<lambda>pbs'.
       maybe_cleanup_pending_store C E cg pbs')))"

end
