(* ===== verification/Exo_Commit_Props.thy ===== *)
theory Exo_Commit_Props
  imports Exo_Commit Exo_Chain_Sync_Props
begin

text \<open>
  Properties of the commit manager: whose turn it is to propose a block, what a node checked when it
  signs a proposed block, and what committing a block does to the chain and the pending store.
\<close>

section \<open>Turns\<close>

lemma position_Some:
  "position P xs = Some i \<longleftrightarrow> i < length xs \<and> P (xs ! i) \<and> (\<forall>j < i. \<not> P (xs ! j))"
proof (induction xs arbitrary: i)
  case (Cons x xs)
  show ?case by (cases i) (auto simp: Cons.IH less_Suc_eq_0_disj)
qed simp

lemma position_None: "position P xs = None \<longleftrightarrow> (\<forall>x \<in> set xs. \<not> P x)"
  by (induction xs) auto

lemma position_distinct:
  assumes "distinct (map f xs)" and "i < length xs"
  shows "position (\<lambda>x. f x = f (xs ! i)) xs = Some i"
  using assms by (auto simp: position_Some distinct_conv_nth)

text \<open>The nodes in the order of their turns.\<close>

definition turn_nodes :: "cell \<Rightarrow> cell_node list" where
  "turn_nodes c = sort_key cn_id (with_role c ChainRole)"

lemma turn_nodes_distinct: "cell_wf c \<Longrightarrow> distinct (map cn_id (turn_nodes c))"
  by (auto simp: turn_nodes_def cell_wf_def with_role_def distinct_map distinct_map_filter inj_on_def)

lemma turn_nodes_ids: "cn_id ` set (turn_nodes c) = role_ids c ChainRole"
  by (simp add: turn_nodes_def role_ids_def)

lemma commit_turn_nth:
  assumes "cell_wf c" and "i < length (turn_nodes c)"
  shows "is_node_commit_turn c (cn_id (turn_nodes c ! i)) now config =
    Ok (commit_epoch config now mod length (turn_nodes c) = i)"
  using position_distinct [OF turn_nodes_distinct [OF assms(1)] assms(2)]
  by (simp add: is_node_commit_turn_def Let_def flip: turn_nodes_def)

text \<open>Nodes that know the same members agree on the order of the turns, in whatever order they hold them.\<close>

lemma turn_nodes_sorted:
  assumes "cell_wf c"
  shows "map cn_id (turn_nodes c) = sorted_list_of_set (role_ids c ChainRole)"
proof -
  have "sorted (map cn_id (turn_nodes c))" by (simp add: turn_nodes_def)
  then show ?thesis
    using sorted_list_of_set.idem_if_sorted_distinct [OF _ turn_nodes_distinct [OF assms]] turn_nodes_ids [of c]
    by (metis set_map)
qed

lemma commit_turn_of:
  assumes "cell_wf c" and ids: "role_ids c ChainRole = ids"
  shows "is_node_commit_turn c n now config =
    (if n \<in> ids then Ok (n = sorted_list_of_set ids ! (commit_epoch config now mod card ids)) else Err MyNodeNotFound)"
proof (cases "n \<in> ids")
  case True
  let ?ns = "turn_nodes c"
  note srt = turn_nodes_sorted [OF assms(1), unfolded ids]
  have len: "length ?ns = card ids" using arg_cong [OF srt, of length] by simp
  have at: "cn_id (?ns ! i) = sorted_list_of_set ids ! i" if "i < length ?ns" for i
    using that srt by (metis nth_map)
  obtain i where i: "i < length ?ns" "n = cn_id (?ns ! i)"
    using True ids turn_nodes_ids [of c] by (metis imageE in_set_conv_nth)
  let ?k = "commit_epoch config now mod card ids"
  have k: "?k < length ?ns" using i(1) len by simp
  have "n = sorted_list_of_set ids ! ?k \<longleftrightarrow> ?k = i"
    using at [OF i(1)] at [OF k] i k turn_nodes_distinct [OF assms(1)] nth_eq_iff_index_eq [of "map cn_id ?ns" ?k i] by auto
  then show ?thesis
    using commit_turn_nth [OF assms(1) i(1), of now config] True i(2) len by simp
next
  case False
  then have "position (\<lambda>cn. cn_id cn = n) (turn_nodes c) = None"
    using ids turn_nodes_ids [of c] by (auto simp: position_None)
  then show ?thesis using False by (simp add: is_node_commit_turn_def flip: turn_nodes_def)
qed

text \<open>
  (C25) At every time exactly one node of those that hold the chain has the turn to propose a block, each
  node deciding with its own copy of the members of the cell: \<open>cells n\<close> is the cell as the node \<open>n\<close> has it,
  whose map may be iterated in an order of its own, as long as all have the same chain nodes. For each of
  them the turn is decided without an error, and a node without the role gets one.
\<close>

theorem one_node_has_turn:
  assumes "\<And>n. cell_wf (cells n)" and "\<And>n. role_ids (cells n) ChainRole = ids" and "ids \<noteq> {}"
  shows "(\<exists>!n. n \<in> ids \<and> is_node_commit_turn (cells n) n now config = Ok True) \<and>
    (\<forall>n. if n \<in> ids then \<exists>t. is_node_commit_turn (cells n) n now config = Ok t
         else is_node_commit_turn (cells n) n now config = Err MyNodeNotFound)"
proof -
  let ?m = "sorted_list_of_set ids ! (commit_epoch config now mod card ids)"
  have fin: "finite ids" using assms(2) finite_role_ids by metis
  then have "?m \<in> ids"
    using assms(3) nth_mem [of "commit_epoch config now mod card ids" "sorted_list_of_set ids"] by (simp add: card_gt_0_iff)
  then show ?thesis using commit_turn_of [OF assms(1,2)] by auto
qed

text \<open>The same members, held in another order.\<close>

definition example_cell_of :: "node_id \<Rightarrow> cell" where
  "example_cell_of n = example_cell\<lparr>local_node_id := n,
     cell_nodes := (if n = ''a'' then cell_nodes example_cell else rev (cell_nodes example_cell))\<rparr>"

theorem one_node_has_turn_witness:
  "(\<exists>!n. n \<in> {''a'', ''b'', ''c''} \<and>
      is_node_commit_turn (example_cell_of n) n 12000000000 commit_manager_config_default = Ok True) \<and>
   is_node_commit_turn (example_cell_of ''d'') ''d'' 12000000000 commit_manager_config_default = Err MyNodeNotFound"
proof -
  have wf: "cell_wf (example_cell_of n)" for n by (simp add: cell_wf_def example_cell_of_def example_cell_def)
  have ids: "role_ids (example_cell_of n) ChainRole = {''a'', ''b'', ''c''}" for n
    by (auto simp: role_ids_def with_role_def example_cell_of_def example_cell_def has_role_def)
  note t = one_node_has_turn [of example_cell_of, OF wf ids, of 12000000000 commit_manager_config_default]
  have "is_node_commit_turn (example_cell_of ''d'') ''d'' 12000000000 commit_manager_config_default = Err MyNodeNotFound"
    using spec [OF conjunct2 [OF t], of "''d''"] by simp
  with conjunct1 [OF t] show ?thesis by blast
qed

section \<open>The proposed block\<close>

lemma header_owned:
  assumes ok: "header_codec_ok C h" and hf: "read_header_frame C (RawFrame (header_bytes C h @ r)) = Ok hf"
  shows "\<exists>g. typed_to_owned (dec_header C) hf = Ok g \<and> header_is C g h"
proof -
  let ?d = "enc_header C h @ digest C (enc_header C h)" and ?f = "RawFrame (header_bytes C h @ r)"
  let ?g = "SizedFrame (RawFrame (header_bytes C h)) 0 (length ?d)"
  have H: "hash_lib_ok C" and len: "length ?d < 2 ^ 32"
    using ok by (simp_all add: header_codec_ok_def digest_length)
  note [simp del] = exposed_data.simps(2) whole_data.simps(2)
  have g: "sized_new ?f = Ok (SizedFrame ?f 0 (length ?d))"
    by (rule sized_new_reads) (use len in \<open>simp_all add: header_bytes_def\<close>)
  have e: "exposed_data (SizedFrame ?f 0 (length ?d)) = Ok ?d" "exposed_data ?g = Ok ?d"
    using sized_exposed [of ?f "[]" ?d r] sized_exposed [of "RawFrame (header_bytes C h)" "[]" ?d "[]"]
    by (simp_all add: header_bytes_def)
  have w: "whole_data (SizedFrame ?f 0 (length ?d)) = Ok (header_bytes C h)" "whole_data ?g = Ok (header_bytes C h)"
    using sized_whole [of ?f "[]" ?d r] sized_whole [of "RawFrame (header_bytes C h)" "[]" ?d "[]"]
    by (simp_all add: header_bytes_def)
  have m: "multihash_new (SizedFrame ?f 0 (length ?d)) = Ok (MultihashFrame (SizedFrame ?f 0 (length ?d)))"
    by (rule multihash_reads(1) [OF e(1) digest_length [OF H]])
  have "tf_frame hf = CapnpFrame (MultihashFrame (SizedFrame ?f 0 (length ?d)))"
    using hf g m by (auto simp: read_header_frame_def result_simps dest: typed_capnp_new_frame)
  then have o: "to_owned_frame (tf_frame hf) = Ok (CapnpFrame (MultihashFrame ?g))"
    using w(1) by simp
  note x = multihash_reads(2,3) [OF e(2) digest_length [OF H]]
  have "typed_to_owned (dec_header C) hf = Ok \<lparr>tf_frame = CapnpFrame (MultihashFrame ?g), tf_reader = h\<rparr>"
    using x ok unfolding typed_to_owned_def o by (simp add: header_codec_ok_def exposed_data.simps del: exposed_data.simps(4))
  moreover have "header_is C \<lparr>tf_frame = CapnpFrame (MultihashFrame ?g), tf_reader = h\<rparr> h"
    using x w(2) by (simp add: header_is_def typed_multihash_def del: exposed_data.simps(4))
  ultimately show ?thesis by blast
qed

text \<open>The operation of a proposal carries the bytes of the whole proposed block \<open>p\<close>.\<close>

definition proposes :: "('c) codec_scheme \<Rightarrow> pending_block \<Rightarrow> ablock \<Rightarrow> bool" where
  "proposes C b p \<longleftrightarrow>
     co_operation (tf_reader (so_frame (pp_operation (pb_proposal b)))) = OpBlockPropose (block_bytes C p) \<and>
     pp_offset (pb_proposal b) = bh_offset (ab_header p) \<and> ablock_wf C p"

lemma proposed_block_read:
  assumes "proposes C b p"
  shows "\<exists>hf. proposal_get_block C (pb_proposal b) = Ok hf \<and> header_is C hf (ab_header p) \<and>
    (\<exists>g. typed_to_owned (dec_header C) hf = Ok g \<and> header_is C g (ab_header p))"
proof -
  let ?r = "ab_ops p @ sigs_bytes C (ab_sigs p) (ab_pad p)" and ?h = "ab_header p"
  have ok: "header_codec_ok C ?h" using assms by (simp add: proposes_def ablock_wf_def)
  obtain hf where hf: "read_header_frame C (RawFrame (header_bytes C ?h @ ?r)) = Ok hf" "header_is C hf ?h"
    using read_header_at [OF ok, of "RawFrame (header_bytes C ?h @ ?r)" ?r] by auto
  with header_owned [OF ok hf(1)] assms show ?thesis
    by (simp add: proposes_def proposal_get_block_def proposed_header_def block_bytes_def)
qed

section \<open>The operations of the block\<close>

lemma fetch_operations_Ok:
  "fetch_operations store ids = Ok ops \<longleftrightarrow> map (pending_get store) ids = map Some ops"
proof (induction ids arbitrary: ops)
  case (Cons i ids)
  show ?case
    by (cases "pending_get store i") (auto simp: result_simps Cons.IH Cons_eq_map_conv)
qed auto

text \<open>The pending store holds the operations \<open>ms\<close>.\<close>

definition store_has :: "('c) codec_scheme \<Rightarrow> pending_store \<Rightarrow> chain_operation list \<Rightarrow> bool" where
  "store_has C store ms \<longleftrightarrow> pending_inv store \<and>
     (\<forall>m \<in> set ms. \<exists>sop. pending_get store (co_operation_id m) = Some sop \<and> op_is C (so_frame sop) m)"

lemma block_operations_fetched:
  assumes s: "store_has C store ms" and "pb_operations b = map co_operation_id ms" and "sorted (map co_operation_id ms)"
  shows "\<exists>ops. get_block_operations b store = Ok ops \<and> list_all2 (op_is C) (map so_frame ops) ms"
proof -
  let ?ops = "map (\<lambda>m. the (pending_get store (co_operation_id m))) ms"
  have get: "pending_get store (co_operation_id m) = Some (the (pending_get store (co_operation_id m)))"
    "op_is C (so_frame (the (pending_get store (co_operation_id m)))) m" if "m \<in> set ms" for m
    using s that by (auto simp: store_has_def)
  have f: "fetch_operations store (pb_operations b) = Ok ?ops"
    unfolding fetch_operations_Ok assms(2) using get(1) by simp
  have "so_operation_id (the (pending_get store (co_operation_id m))) = co_operation_id m" if "m \<in> set ms" for m
    using mem.get_id [OF _ get(1) [OF that]] s by (simp add: store_has_def)
  then have "map so_operation_id ?ops = map co_operation_id ms" by simp
  then have "sort_key so_operation_id ?ops = ?ops"
    using assms(3) by (metis sort_key_id_if_sorted)
  moreover have "list_all2 (op_is C) (map so_frame ?ops) ms"
    using get(2) by (auto simp: list_all2_conv_all_nth)
  ultimately show ?thesis by (simp add: get_block_operations_def f)
qed

section \<open>Marking the operations\<close>

lemma mark_committed_ok:
  assumes "pending_inv store" and "set ids \<subseteq> dom (pending_get store)"
  shows "\<exists>store'. mark_committed off height ids store = (Ok (), store') \<and> pending_inv store' \<and>
    pending_get store' = (\<lambda>i. if i \<in> set ids then map_option (so_commit_status_update (\<lambda>_. Committed off height)) (pending_get store i)
                           else pending_get store i)"
  using assms
proof (induction ids arbitrary: store)
  case (Cons i ids)
  obtain sop where sop: "pending_get store i = Some sop" using Cons.prems(2) by auto
  let ?r = "pending_update_status i (Committed off height) store"
  have 1: "fst ?r = Ok ()" "pending_get (snd ?r) = (pending_get store)(i \<mapsto> sop\<lparr>so_commit_status := Committed off height\<rparr>)"
    "pending_inv (snd ?r)"
    using mem.update_found [OF Cons.prems(1) sop] mem.inv_update [OF Cons.prems(1)] by blast+
  then obtain store1 where r: "?r = (Ok (), store1)" by (metis prod.collapse)
  have "set ids \<subseteq> dom (pending_get store1)" using Cons.prems(2) 1(2) r by auto
  from Cons.IH [OF _ this] 1(3) r obtain store' where
    2: "mark_committed off height ids store1 = (Ok (), store')" "pending_inv store'"
      "pending_get store' = (\<lambda>i. if i \<in> set ids then map_option (so_commit_status_update (\<lambda>_. Committed off height)) (pending_get store1 i)
                           else pending_get store1 i)" by auto
  have "pending_get store' = (\<lambda>j. if j \<in> set (i # ids) then map_option (so_commit_status_update (\<lambda>_. Committed off height)) (pending_get store j)
                           else pending_get store j)"
    unfolding 2(3) using 1(2) r sop by (auto simp: fun_eq_iff)
  with 2(1,2) r show ?case by simp
qed simp

section \<open>Committing\<close>

text \<open>The header points at a block of the chain, unless it is that of a genesis block.\<close>

definition linked :: "('c) codec_scheme \<Rightarrow> chain \<Rightarrow> block_header \<Rightarrow> bool" where
  "linked C ch h \<longleftrightarrow> bh_height h = 0 \<or>
     (\<exists>k < length ch. bh_previous_offset h = offset_at ch k \<and>
        bh_previous_hash h = digest C (enc_header C (ab_header (block_at ch k))))"

lemma previous_hash_ok:
  assumes "dir_store_holds C E st ch" and "linked C ch h"
  shows "\<exists>st'. validate_block_previous_hash C h st = (Ok (), st') \<and> dir_store_holds C E st' ch"
proof (cases "bh_height h = 0")
  case False
  then obtain k where k: "k < length ch" "bh_previous_offset h = offset_at ch k"
      "bh_previous_hash h = digest C (enc_header C (ab_header (block_at ch k)))"
    using assms(2) by (auto simp: linked_def)
  obtain b st' where "dir_get_block C (offset_at ch k) st = (Ok b, st')" "block_is C b (block_at ch k)" "dir_store_holds C E st' ch"
    using dir.get_ok [OF assms(1) k(1)] by blast
  with k False show ?thesis by (simp add: validate_block_previous_hash_def block_is_multihash)
qed (use assms in \<open>simp add: validate_block_previous_hash_def\<close>)

text \<open>
  The block that is committed: the proposed one with the valid signatures in place of the empty
  ones, padded to the space the proposal left for them.
\<close>

definition signed_sigs :: "('c) codec_scheme \<Rightarrow> cell \<Rightarrow> pending_block \<Rightarrow> ablock \<Rightarrow> block_sigs" where
  "signed_sigs C c b p =
     \<lparr>bs_operations_size = bh_operations_size (ab_header p),
      bs_signatures = map (\<lambda>sig. (bg_node_id sig, bg_signature sig)) (valid_signatures C c b)\<rparr>"

definition signed_block :: "('c) codec_scheme \<Rightarrow> cell \<Rightarrow> pending_block \<Rightarrow> ablock \<Rightarrow> ablock" where
  "signed_block C c b p =
     p\<lparr>ab_sigs := signed_sigs C c b p,
       ab_pad := bh_signatures_size (ab_header p) - (length (enc_sigs C (signed_sigs C c b p)) + 12)\<rparr>"

lemma signed_block_simps [simp]:
  "ab_header (signed_block C c b p) = ab_header p" "ab_ops (signed_block C c b p) = ab_ops p"
  "ab_sigs (signed_block C c b p) = signed_sigs C c b p"
  by (simp_all add: signed_block_def)

lemma committed_block_is:
  assumes p: "proposes C b p" and wf: "ablock_wf C (signed_block C c b p)"
    and hf: "proposal_get_block C (pb_proposal b) = Ok hf" and ops: "bo_data ops = ab_ops p"
  shows "\<exists>x. committed_block C c b hf ops = Ok x \<and> block_is C x (signed_block C c b p)"
proof -
  let ?h = "ab_header p" and ?s = "signed_sigs C c b p" and ?a = "signed_block C c b p"
  obtain g where g: "header_is C hf ?h" "typed_to_owned (dec_header C) hf = Ok g" "header_is C g ?h"
    using proposed_block_read [OF p] hf by auto
  have r: "tf_reader hf = ?h" using g(1) by (simp add: header_is_def)
  have ok: "sigs_codec_ok C ?s (bh_signatures_size ?h - (length (enc_sigs C ?s) + 12))"
    and le: "length (enc_sigs C ?s) + 12 \<le> bh_signatures_size ?h"
    using wf by (simp_all add: ablock_wf_def signed_block_def)
  obtain f where "to_frame_for_existing_block C (map (\<lambda>sig. (bg_node_id sig, bg_signature sig)) (valid_signatures C c b)) ?h = Ok f"
      "sigs_is C f ?s (bh_signatures_size ?h - (length (enc_sigs C ?s) + 12))"
    using existing_signatures_is [OF ok signed_sigs_def] le by auto
  with g r ops p show ?thesis
    by (simp add: committed_block_def block_is_def proposes_def signed_block_def)
qed

lemma bo_hash_ops_of: "bo_hash (ops_of C ms) = ops_hash C ms"
  by (simp add: ops_of_def)

lemma commit_block_ok:
  assumes chain: "dir_store_holds C E (w_chain w) ch" and store: "store_has C (w_pending w) ms"
    and p: "proposes C b p" and ops: "pb_operations b = map co_operation_id ms"
    and hash: "mh_decode C (bh_operations_hash (ab_header p)) = Some (ops_hash C ms)"
    and link: "linked C ch (ab_header p)" and small: "length (ab_ops p) < 2 ^ 32"
    and ok: "chain_ok C (ch @ [(signed_block C (cg_cell cg) b p, ms)])"
  shows "\<exists>w'. commit_block C E cg b w = (Ok (), w') \<and>
    dir_store_holds C E (w_chain w') (ch @ [(signed_block C (cg_cell cg) b p, ms)]) \<and>
    pending_get (w_pending w') = (\<lambda>i. if i \<in> co_operation_id ` set ms
       then map_option (so_commit_status_update (\<lambda>_. Committed (bh_offset (ab_header p)) (bh_height (ab_header p))))
              (pending_get (w_pending w) i)
       else pending_get (w_pending w) i) \<and>
    w_context w' = push_event (NewChainBlock (bh_offset (ab_header p))) (w_context w)"
proof -
  let ?a = "signed_block C (cg_cell cg) b p" and ?h = "ab_header p" and ?off = "bh_offset (ab_header p)"
  have wf: "ablock_wf C ?a" and holds: "block_holds C p ms"
    using ok by (simp_all add: chain_ok_def block_holds_def)
  obtain hf where hf: "proposal_get_block C (pb_proposal b) = Ok hf" "tf_reader hf = ?h"
    using proposed_block_read [OF p] by (auto simp: header_is_def)
  have srt: "sorted (map co_operation_id ms)" and data: "ab_ops p = ops_bytes C ms" using holds by (simp_all add: block_holds_def)
  obtain sops where sops: "get_block_operations b (w_pending w) = Ok sops" "list_all2 (op_is C) (map so_frame sops) ms"
    using block_operations_fetched [OF store ops srt] by blast
  have fo: "from_operations C (map so_frame sops) = Ok (ops_of C ms)"
    by (rule from_operations_is [OF sops(2) srt]) (use small data in simp)
  obtain st1 where st1: "validate_block_previous_hash C ?h (w_chain w) = (Ok (), st1)" "dir_store_holds C E st1 ch"
    using previous_hash_ok [OF chain link] by blast
  obtain x where x: "committed_block C (cg_cell cg) b hf (ops_of C ms) = Ok x" "block_is C x ?a"
    using committed_block_is [OF p wf hf(1), of "ops_of C ms"] data by (auto simp: ops_of_def)
  obtain st2 where st2: "dir_write_block C E x st1 = (Ok (chain_end C (ch @ [(?a, ms)])), st2)" "dir_store_holds C E st2 (ch @ [(?a, ms)])"
    using dir.write_ok [OF st1(2) x(2) ok] by blast
  have ids: "operations_id (ops_of C ms) = map co_operation_id ms" by (simp add: operations_id_def ops_of_def op_headers_ids)
  have "set (map co_operation_id ms) \<subseteq> dom (pending_get (w_pending w))" using store by (auto simp: store_has_def)
  then obtain store' where m: "mark_committed ?off (bh_height ?h) (map co_operation_id ms) (w_pending w) = (Ok (), store')"
      "pending_get store' = (\<lambda>i. if i \<in> co_operation_id ` set ms
         then map_option (so_commit_status_update (\<lambda>_. Committed ?off (bh_height ?h))) (pending_get (w_pending w) i)
         else pending_get (w_pending w) i)"
    using mark_committed_ok [of "w_pending w" "map co_operation_id ms" ?off "bh_height ?h"] store by (auto simp: store_has_def)
  have "commit_block C E cg b w = (Ok (), w\<lparr>w_chain := st2, w_pending := store',
      w_context := push_event (NewChainBlock ?off) (w_context w)\<rparr>)"
    using hf sops(1) hash fo st1(1) x(1) st2(1) m(1) ids p
    by (simp add: commit_block_def on_world_chain_def write_committed_def proposes_def Let_def bo_hash_ops_of)
  with st2(2) m(2) show ?thesis by simp
qed

section \<open>Signing\<close>

lemma insert_not_Nil: "List.insert x xs \<noteq> []"
  by (cases "x \<in> set xs") (auto simp: List.insert_def)

lemma operation_blocks_map:
  assumes "(g, b) \<in> set blocks" and "i \<in> set (pb_operations b)"
  shows "\<exists>gs. map_of (map_operations_blocks blocks) i = Some gs \<and> gs \<noteq> []"
proof -
  let ?ins = "\<lambda>g op m. hm_insert op (List.insert g (case map_of m op of Some gs \<Rightarrow> gs | None \<Rightarrow> [])) m"
  let ?has = "\<lambda>m :: (nat \<times> nat list) list. \<exists>gs. map_of m i = Some gs \<and> gs \<noteq> []"
  have ins: "?has (?ins g op m)" if "op = i \<or> ?has m" for g op m
    using that by (auto simp: hm_insert_lookup insert_not_Nil)
  have ops: "?has (fold (?ins g) os m)" if "i \<in> set os \<or> ?has m" for g os m
    using that
  proof (induction os arbitrary: m)
    case (Cons x os)
    then show ?case using ins [of x m g] by (auto simp del: ex_simps)
  qed auto
  have "?has (fold (\<lambda>(_, b) m. fold (?ins (pb_group_id b)) (pb_operations b) m) bs m)"
    if "(\<exists>(g, b) \<in> set bs. i \<in> set (pb_operations b)) \<or> ?has m" for bs m
    using that
  proof (induction bs arbitrary: m)
    case (Cons x bs)
    obtain g b where x: "x = (g, b)" by (cases x)
    show ?case
      unfolding x fold_simps prod.case o_apply
      using Cons.prems ops [of "pb_operations b" m "pb_group_id b"] unfolding x by (intro Cons.IH) auto
  qed auto
  with assms show ?thesis unfolding map_operations_blocks_def by fastforce
qed

lemma operation_blocks_checked:
  assumes "dir_store_holds C E st ch" and "check_operation_blocks C E pbs i gs st = (Ok True, st')"
  shows "dir_store_holds C E st' ch" and "gs \<noteq> [] \<Longrightarrow> \<forall>e \<in> set ch. \<not> holds_operation i e"
    and "\<forall>g \<in> set gs. map_of (bl_blocks_status pbs) g \<noteq> Some PastCommitted"
proof -
  have "dir_store_holds C E st' ch \<and> (gs \<noteq> [] \<longrightarrow> (\<forall>e \<in> set ch. \<not> holds_operation i e)) \<and>
    (\<forall>g \<in> set gs. map_of (bl_blocks_status pbs) g \<noteq> Some PastCommitted)"
    using assms
  proof (induction gs arbitrary: st)
    case (Cons g gs)
    obtain r st1 where r: "dir_get_block_by_operation_id C E i st = (Ok r, st1)" "dir_store_holds C E st1 ch"
        "case r of None \<Rightarrow> (\<forall>e \<in> set ch. \<not> holds_operation i e)
         | Some b \<Rightarrow> \<exists>e \<in> set ch. holds_operation i e \<and> block_is C b (fst e)"
      using dir.by_operation_ok [OF Cons.prems(1)] by blast
    obtain s where s: "map_of (bl_blocks_status pbs) g = Some s" "s \<noteq> PastCommitted"
      using Cons.prems(2) by (cases "map_of (bl_blocks_status pbs) g") (auto split: if_splits)
    have n: "r = None" and rest: "check_operation_blocks C E pbs i gs st1 = (Ok True, st')"
      using Cons.prems(2) s r(1) by (auto simp: on_chain_def split: if_splits)
    from Cons.IH [OF r(2) rest] n r(3) s show ?case by auto
  qed simp
  then show "dir_store_holds C E st' ch" and "gs \<noteq> [] \<Longrightarrow> \<forall>e \<in> set ch. \<not> holds_operation i e"
    and "\<forall>g \<in> set gs. map_of (bl_blocks_status pbs) g \<noteq> Some PastCommitted" by blast+
qed

lemma operations_checked:
  assumes "dir_store_holds C E st ch" and "check_not_committed C E pbs ids st = (Ok True, st')"
    and "\<forall>i \<in> set ids. map_of (bl_operations_blocks pbs) i \<noteq> Some []"
  shows "dir_store_holds C E st' ch \<and> (\<forall>i \<in> set ids. \<forall>e \<in> set ch. \<not> holds_operation i e)"
  using assms
proof (induction ids arbitrary: st)
  case (Cons i ids)
  obtain gs where gs: "map_of (bl_operations_blocks pbs) i = Some gs" "gs \<noteq> []"
    using Cons.prems(2,3) by (cases "map_of (bl_operations_blocks pbs) i") auto
  obtain st1 where st1: "check_operation_blocks C E pbs i gs st = (Ok True, st1)"
      and rest: "check_not_committed C E pbs ids st1 = (Ok True, st')"
    using Cons.prems(2) gs(1) by (cases "check_operation_blocks C E pbs i gs st" ) (auto simp: sbind_def split: result.splits if_splits)
  note 1 = operation_blocks_checked [OF Cons.prems(1) st1]
  from Cons.IH [OF 1(1) rest] 1(2) [OF gs(2)] Cons.prems(3) show ?case by auto
qed simp

lemma previous_hash_checked:
  assumes h: "dir_store_holds C E st ch" and v: "validate_block_previous_hash C header st = (Ok (), st')" and "0 < bh_height header"
  shows "bh_previous_offset header < chain_end C ch"
    and "k < length ch \<Longrightarrow> bh_previous_offset header = offset_at ch k \<Longrightarrow>
      bh_previous_hash header = digest C (enc_header C (ab_header (block_at ch k))) \<and> dir_store_holds C E st' ch"
proof -
  show "bh_previous_offset header < chain_end C ch"
  proof (rule ccontr)
    assume "\<not> bh_previous_offset header < chain_end C ch"
    then have "dir_get_block C (bh_previous_offset header) st = (Err OutOfBound, st)"
      using dir.get_out [OF h] by simp
    with v assms(3) show False by (simp add: validate_block_previous_hash_def)
  qed
  show "bh_previous_hash header = digest C (enc_header C (ab_header (block_at ch k))) \<and> dir_store_holds C E st' ch"
    if k: "k < length ch" "bh_previous_offset header = offset_at ch k"
  proof -
    obtain b st1 where b: "dir_get_block C (offset_at ch k) st = (Ok b, st1)" "block_is C b (block_at ch k)" "dir_store_holds C E st1 ch"
      using dir.get_ok [OF h k(1)] by blast
    with v assms(3) k(2) show ?thesis
      by (auto simp: validate_block_previous_hash_def block_is_multihash split: if_splits)
  qed
qed

text \<open>A block that is as the check wants it is signed.\<close>

lemma operation_blocks_pass:
  assumes "dir_store_holds C E st ch" and "\<forall>e \<in> set ch. \<not> holds_operation i e"
    and "\<forall>g \<in> set gs. \<exists>s. map_of (bl_blocks_status pbs) g = Some s \<and> s \<noteq> PastCommitted"
  shows "\<exists>st'. check_operation_blocks C E pbs i gs st = (Ok True, st') \<and> dir_store_holds C E st' ch"
  using assms(1,3)
proof (induction gs arbitrary: st)
  case (Cons g gs)
  obtain r st1 where r: "dir_get_block_by_operation_id C E i st = (Ok r, st1)" "dir_store_holds C E st1 ch"
      "case r of None \<Rightarrow> (\<forall>e \<in> set ch. \<not> holds_operation i e)
       | Some b \<Rightarrow> \<exists>e \<in> set ch. holds_operation i e \<and> block_is C b (fst e)"
    using dir.by_operation_ok [OF Cons.prems(1)] by blast
  have "r = None" using r(3) assms(2) by (auto split: option.splits)
  with Cons.IH [OF r(2)] Cons.prems(2) r(1) show ?case by (auto simp: on_chain_def)
qed simp

lemma operations_pass:
  assumes "dir_store_holds C E st ch" and "\<forall>i \<in> set ids. \<forall>e \<in> set ch. \<not> holds_operation i e"
    and "\<forall>i \<in> set ids. \<exists>gs. map_of (bl_operations_blocks pbs) i = Some gs \<and>
      (\<forall>g \<in> set gs. \<exists>s. map_of (bl_blocks_status pbs) g = Some s \<and> s \<noteq> PastCommitted)"
  shows "\<exists>st'. check_not_committed C E pbs ids st = (Ok True, st') \<and> dir_store_holds C E st' ch"
  using assms
proof (induction ids arbitrary: st)
  case (Cons i ids)
  obtain gs where gs: "map_of (bl_operations_blocks pbs) i = Some gs"
      "\<forall>g \<in> set gs. \<exists>s. map_of (bl_blocks_status pbs) g = Some s \<and> s \<noteq> PastCommitted" using Cons.prems(3) by auto
  obtain st1 where st1: "check_operation_blocks C E pbs i gs st = (Ok True, st1)" "dir_store_holds C E st1 ch"
    using operation_blocks_pass [OF Cons.prems(1) _ gs(2), of i] Cons.prems(2) by auto
  with Cons.IH [OF st1(2)] Cons.prems(2,3) gs(1) show ?case by auto
qed simp

lemma check_signs:
  assumes chain: "dir_store_holds C E st ch" and store: "store_has C store ms"
    and p: "proposes C b p" and ops: "pb_operations b = map co_operation_id ms" and srt: "sorted (map co_operation_id ms)"
    and hash: "mh_decode C (bh_operations_hash (ab_header p)) = Some (ops_hash C ms)" and link: "linked C ch (ab_header p)"
    and new: "\<forall>i \<in> set (pb_operations b). \<forall>e \<in> set ch. \<not> holds_operation i e"
    and pbs: "\<forall>i \<in> set (pb_operations b). \<exists>gs. map_of (bl_operations_blocks pbs) i = Some gs \<and>
      (\<forall>g \<in> set gs. \<exists>s. map_of (bl_blocks_status pbs) g = Some s \<and> s \<noteq> PastCommitted)"
  shows "\<exists>st'. check_should_sign_block C E b pbs store st = (Ok True, st') \<and> dir_store_holds C E st' ch"
proof -
  obtain hf where hf: "proposal_get_block C (pb_proposal b) = Ok hf" "tf_reader hf = ab_header p"
    using proposed_block_read [OF p] by (auto simp: header_is_def)
  obtain sops where sops: "get_block_operations b store = Ok sops" "list_all2 (op_is C) (map so_frame sops) ms"
    using block_operations_fetched [OF store ops srt] by blast
  obtain st1 where 1: "check_not_committed C E pbs (pb_operations b) st = (Ok True, st1)" "dir_store_holds C E st1 ch"
    using operations_pass [OF chain new pbs] by blast
  obtain st2 where 2: "validate_block_previous_hash C (ab_header p) st1 = (Ok (), st2)" "dir_store_holds C E st2 ch"
    using previous_hash_ok [OF 1(2) link] by blast
  from hf sops(1) 1(1) 2 hash_operations_is [OF sops(2)] hash show ?thesis
    by (simp add: check_should_sign_block_def Let_def)
qed

section \<open>A proposed block, for the examples\<close>

definition example_next :: ablock where
  "example_next = built_ablock example_codec example_cell (length (block_bytes example_codec example_genesis))
     1 0 (digest example_codec (enc_header example_codec (ab_header example_genesis))) 9 (ops_of example_codec [example_op 7])"

lemma example_next_buildable: "buildable example_codec example_next"
  unfolding example_next_def buildable_def
  by (intro conjI header_codec_example sigs_codec_example)
    (simp_all add: example_block_simps example_genesis_def block_bytes_def header_bytes_def sigs_bytes_def)

lemma example_next_wf: "ablock_wf example_codec example_next"
  using build_with_prev_info_is [OF example_next_buildable [unfolded example_next_def]]
  by (auto simp: example_next_def)

definition example_proposed :: pending_block where
  "example_proposed =
     \<lparr>pb_group_id = 9, pb_status = NextPotential,
      pb_proposal = \<lparr>pp_node = None, pp_offset = length (block_bytes example_codec example_genesis),
        pp_operation = new_stored (example_pending_op 9 9 (OpBlockPropose (block_bytes example_codec example_next)))\<rparr>,
      pb_refusals = [], pb_signatures = [\<lparr>bg_node_id = ''a'', bg_signature = [1]\<rparr>, \<lparr>bg_node_id = ''a'', bg_signature = [1]\<rparr>],
      pb_has_my_refusal = False, pb_has_my_signature = True, pb_operations = [7]\<rparr>"

lemma example_next_facts:
  "bh_offset (ab_header example_next) = length (block_bytes example_codec example_genesis)"
  "bh_height (ab_header example_next) = 2" "bh_previous_offset (ab_header example_next) = 0"
  "bh_previous_hash (ab_header example_next) = digest example_codec (enc_header example_codec (ab_header example_genesis))"
  "mh_decode example_codec (bh_operations_hash (ab_header example_next)) = Some (ops_hash example_codec [example_op 7])"
  "length (ab_ops example_next) < 2 ^ 32" "block_holds example_codec example_next [example_op 7]"
  "bh_proposed_operation_id (ab_header example_next) = 9"
  using example_op_7 by (simp_all add: example_next_def built_ablock_def built_header_def ops_of_def digest_decodes block_holds_def
      ops_hash_def ops_bytes_def op_bytes_def example_op_def example_lengths)

lemma example_proposes: "proposes example_codec example_proposed example_next"
  using example_next_facts(1) example_next_wf
  by (simp add: proposes_def example_proposed_def new_stored_def example_pending_op_def)

lemma valid_signatures_known:
  assumes "proposes C b p"
  shows "valid_signatures C c b = filter (\<lambda>sig. get_node c (bg_node_id sig) \<noteq> None) (pb_signatures b)"
proof -
  obtain hf where "proposal_get_block C (pb_proposal b) = Ok hf" "header_is C hf (ab_header p)"
    using proposed_block_read [OF assms] by blast
  then have "validate_signature C c b sig \<longleftrightarrow> get_node c (bg_node_id sig) \<noteq> None" for sig
    by (auto simp: validate_signature_def signature_validate_def header_is_def split: option.split)
  then show ?thesis unfolding valid_signatures_def by (intro filter_cong refl)
qed

lemma example_signed:
  "signed_sigs example_codec example_cell example_proposed example_next =
     \<lparr>bs_operations_size = bh_operations_size (ab_header example_next), bs_signatures = [(''a'', [1]), (''a'', [1])]\<rparr>"
  by (simp add: signed_sigs_def valid_signatures_known [OF example_proposes])
    (simp add: example_proposed_def get_node_def example_cell_def)

lemma example_signed_wf: "ablock_wf example_codec (signed_block example_codec example_cell example_proposed example_next)"
proof -
  let ?s = "signed_sigs example_codec example_cell example_proposed example_next"
  have fits: "length (enc_sigs example_codec ?s) + 12 \<le> bh_signatures_size (ab_header example_next)"
    unfolding example_signed by (simp add: example_next_def example_block_simps)
  have "bh_signatures_size (ab_header example_next) < 2 ^ 16"
    using example_next_buildable by (simp add: buildable_def example_next_def built_ablock_def built_header_def)
  then have "sigs_codec_ok example_codec ?s (bh_signatures_size (ab_header example_next) - (length (enc_sigs example_codec ?s) + 12))"
    by (intro sigs_codec_example) (use fits in simp)
  with fits example_next_wf show ?thesis
    by (simp add: ablock_wf_def) (simp add: signed_block_def signed_sigs_def)
qed

lemma example_next_chain:
  "chain_ok example_codec ([(example_genesis, example_ops)] @
     [(signed_block example_codec example_cell example_proposed example_next, [example_op 7])])"
proof -
  let ?a = "signed_block example_codec example_cell example_proposed example_next"
  have "block_ids ?a [example_op 7] = [9, 7]" using example_next_facts(8) by (simp add: block_ids_def example_op_def)
  moreover have "block_holds example_codec ?a [example_op 7]" using example_next_facts(7) by (simp add: block_holds_def)
  ultimately show ?thesis
    using example_chain_ok example_signed_wf example_next_facts(1) example_genesis_ids
    by (auto simp: chain_ok_def chain_entries_def unique_ids_def ids_of_def iblock_of_def)
qed

lemma example_next_linked: "linked example_codec [(example_genesis, example_ops)] (ab_header example_next)"
  using example_next_facts(3,4) example_offset_0 by (auto simp: linked_def)

text \<open>A pending store with the operation of the block.\<close>

lemma example_store_has:
  obtains store where "store_has example_codec store [example_op 7]"
proof -
  obtain f where f: "op_is example_codec f (example_op 7)" using read_operation_reads [OF example_op_7] by blast
  let ?store = "snd (pending_put \<lparr>no_operation_id = 7, no_frame = f\<rparr> pending_new)"
  have "op_get_id f = 7" using f by (simp add: op_is_def op_get_id_def example_op_def)
  then have "pending_get ?store 7 = Some (new_stored \<lparr>no_operation_id = 7, no_frame = f\<rparr>)"
    using mem.get_put [OF mem.inv_new] by simp
  with f have "store_has example_codec ?store [example_op 7]"
    using mem.inv_put [OF mem.inv_new] by (simp add: store_has_def new_stored_def) (simp add: example_op_def)
  with that show thesis by blast
qed

lemma example_chain_held:
  obtains st where "dir_store_holds example_codec example_ext st [(example_genesis, example_ops)]"
proof -
  obtain st b where st: "dir_store_holds example_codec example_ext st []" and b: "block_is example_codec b example_genesis"
    by (rule example_dir_store)
  have "chain_ok example_codec ([] @ [(example_genesis, example_ops)])" using example_chain_ok by simp
  from dir.write_ok [OF st b this] that show thesis by auto
qed

section \<open>Properties of committing\<close>

text \<open>
  (C1) A block that the local node signed and that a quorum of the chain nodes signed is committed:
  it is appended to the chain with the signatures in the space the proposal left, its operations
  become committed at its offset and height, everything else in the pending store is as it was, and
  the event of a new block is emitted. Without the quorum nothing happens.
\<close>

theorem quorum_commits:
  assumes "dir_store_holds C E (w_chain w) ch" and "store_has C (w_pending w) ms"
    and "proposes C b p" and "pb_operations b = map co_operation_id ms"
    and "mh_decode C (bh_operations_hash (ab_header p)) = Some (ops_hash C ms)"
    and "linked C ch (ab_header p)" and "length (ab_ops p) < 2 ^ 32"
    and "chain_ok C (ch @ [(signed_block C (cg_cell cg) b p, ms)])"
  shows "if pb_has_my_signature b \<and> has_quorum (cg_cell cg) (length (valid_signatures C (cg_cell cg) b)) (Some ChainRole)
    then \<exists>w'. maybe_commit_block C E cg b w = (Ok (), w') \<and>
      dir_store_holds C E (w_chain w') (ch @ [(signed_block C (cg_cell cg) b p, ms)]) \<and>
      pending_get (w_pending w') = (\<lambda>i. if i \<in> co_operation_id ` set ms
         then map_option (so_commit_status_update (\<lambda>_. Committed (bh_offset (ab_header p)) (bh_height (ab_header p))))
                (pending_get (w_pending w) i)
         else pending_get (w_pending w) i) \<and>
      w_context w' = push_event (NewChainBlock (bh_offset (ab_header p))) (w_context w)
    else maybe_commit_block C E cg b w = (Ok (), w)"
  using commit_block_ok [OF assms] by (simp add: maybe_commit_block_def)

text \<open>The world, the manager and the block of the examples.\<close>

definition example_manager :: commit_manager where
  "example_manager = \<lparr>cg_config = commit_manager_config_default, cg_cell = example_cell\<rparr>"

lemma example_quorum:
  "has_quorum example_cell (length (valid_signatures example_codec example_cell example_proposed)) (Some ChainRole)"
  by (simp add: valid_signatures_known [OF example_proposes])
    (simp add: example_proposed_def get_node_def example_cell_def has_quorum_Some count_with_role_def has_role_def)

definition example_blocks :: pending_blocks where
  "example_blocks =
     \<lparr>bl_blocks = [(9, example_proposed)], bl_blocks_status = map_blocks_status [(9, example_proposed)],
      bl_operations_blocks = map_operations_blocks [(9, example_proposed)], bl_entries_operations_count = 1\<rparr>"

lemma example_blocks_facts:
  "map_of (bl_operations_blocks example_blocks) 7 = Some [9]" "map_of (bl_blocks_status example_blocks) 9 = Some NextPotential"
  by (simp_all add: example_blocks_def map_operations_blocks_def map_blocks_status_def example_proposed_def)

lemma example_commit:
  obtains st store where "dir_store_holds example_codec example_ext st [(example_genesis, example_ops)]"
    "store_has example_codec store [example_op 7]"
    "pb_operations example_proposed = map co_operation_id [example_op 7]"
    "cg_cell example_manager = example_cell"
  using example_chain_held example_store_has
  by (metis (no_types, lifting) example_manager_def commit_manager.select_convs(2) example_proposed_def pending_block.select_convs(8)
      example_op_def chain_operation.select_convs(1) list.map)

theorem quorum_commits_witness:
  "\<exists>w w'. dir_store_holds example_codec example_ext (w_chain w) [(example_genesis, example_ops)] \<and>
     maybe_commit_block example_codec example_ext example_manager example_proposed w = (Ok (), w') \<and>
     dir_store_holds example_codec example_ext (w_chain w') [(example_genesis, example_ops),
       (signed_block example_codec example_cell example_proposed example_next, [example_op 7])]"
proof -
  obtain st store where s: "dir_store_holds example_codec example_ext st [(example_genesis, example_ops)]"
    "store_has example_codec store [example_op 7]" and o: "pb_operations example_proposed = map co_operation_id [example_op 7]"
    and cg: "cg_cell example_manager = example_cell" by (rule example_commit)
  define w where "w = \<lparr>w_context = sync_context_new \<lparr>pending_last_cleanup_block = None\<rparr>, w_pending = store, w_chain = st, w_clock = 0\<rparr>"
  have "pb_has_my_signature example_proposed" by (simp add: example_proposed_def)
  with quorum_commits [of example_codec example_ext w "[(example_genesis, example_ops)]" "[example_op 7]" example_proposed
      example_next example_manager, OF _ _ example_proposes o example_next_facts(5) example_next_linked example_next_facts(6)]
    s example_next_chain example_quorum cg
  have "\<exists>w'. maybe_commit_block example_codec example_ext example_manager example_proposed w = (Ok (), w') \<and>
     dir_store_holds example_codec example_ext (w_chain w') ([(example_genesis, example_ops)] @
       [(signed_block example_codec example_cell example_proposed example_next, [example_op 7])])"
    by (auto simp: w_def)
  moreover have "dir_store_holds example_codec example_ext (w_chain w) [(example_genesis, example_ops)]" using s(1) by (simp add: w_def)
  ultimately show ?thesis by auto
qed

text \<open>
  (C19) A node signs a proposed block only after it checked it: every operation of the block is in
  its pending store and in no block of its chain, the hash of these operations in the order of their
  identifiers is the one in the header, and a block after the genesis block points into the chain,
  with the hash of the block it points at.
\<close>

theorem signed_block_checked:
  assumes chain: "dir_store_holds C E st ch" and b: "(g, b) \<in> set (bl_blocks pbs)"
    and pbs: "bl_operations_blocks pbs = map_operations_blocks (bl_blocks pbs)"
    and sign: "check_should_sign_block C E b pbs store st = (Ok True, st')"
  shows "\<exists>hf ops h. proposal_get_block C (pb_proposal b) = Ok hf \<and>
    map (pending_get store) (pb_operations b) = map Some ops \<and>
    hash_operations C (map so_frame (sort_key so_operation_id ops)) = Ok h \<and>
    mh_decode C (bh_operations_hash (tf_reader hf)) = Some h \<and>
    (\<forall>i \<in> set (pb_operations b). \<forall>e \<in> set ch. \<not> holds_operation i e) \<and>
    (0 < bh_height (tf_reader hf) \<longrightarrow> bh_previous_offset (tf_reader hf) < chain_end C ch \<and>
       (\<forall>k < length ch. bh_previous_offset (tf_reader hf) = offset_at ch k \<longrightarrow>
          bh_previous_hash (tf_reader hf) = digest C (enc_header C (ab_header (block_at ch k)))))"
proof -
  obtain hf where hf: "proposal_get_block C (pb_proposal b) = Ok hf"
    using sign by (cases "proposal_get_block C (pb_proposal b)") (auto simp: check_should_sign_block_def)
  obtain st1 where c: "check_not_committed C E pbs (pb_operations b) st = (Ok True, st1)"
    using sign hf by (cases "check_not_committed C E pbs (pb_operations b) st")
      (auto simp: check_should_sign_block_def sbind_def Let_def split: result.splits if_splits)
  obtain st2 where v: "validate_block_previous_hash C (tf_reader hf) st1 = (Ok (), st2)"
    using sign hf c by (cases "validate_block_previous_hash C (tf_reader hf) st1")
      (auto simp: check_should_sign_block_def sbind_def Let_def split: result.splits)
  obtain sops h where o: "get_block_operations b store = Ok sops" "hash_operations C (map so_frame sops) = Ok h"
      "mh_decode C (bh_operations_hash (tf_reader hf)) = Some h"
    using sign hf c v
    by (cases "get_block_operations b store"; cases "hash_operations C (map so_frame (case get_block_operations b store of Ok x \<Rightarrow> x))")
      (auto simp: check_should_sign_block_def Let_def)
  obtain ops where ops: "fetch_operations store (pb_operations b) = Ok ops" "sops = sort_key so_operation_id ops"
    using o(1) by (auto simp: get_block_operations_def result_simps)
  have "\<forall>i \<in> set (pb_operations b). map_of (bl_operations_blocks pbs) i \<noteq> Some []"
    using operation_blocks_map [OF b] unfolding pbs by fastforce
  note n = operations_checked [OF chain c this]
  from hf o(2,3) ops n previous_hash_checked [OF conjunct1 [OF n] v] show ?thesis
    by (intro exI [of _ hf] exI [of _ ops] exI [of _ h]) (auto simp: fetch_operations_Ok)
qed

theorem signed_block_checked_witness:
  "\<exists>st store st' hf ops h. check_should_sign_block example_codec example_ext example_proposed example_blocks store st = (Ok True, st') \<and>
     proposal_get_block example_codec (pb_proposal example_proposed) = Ok hf \<and>
     map (pending_get store) [7] = map Some ops \<and>
     hash_operations example_codec (map so_frame (sort_key so_operation_id ops)) = Ok h \<and>
     mh_decode example_codec (bh_operations_hash (tf_reader hf)) = Some h"
proof -
  let ?ch = "[(example_genesis, example_ops)]"
  obtain st store where s: "dir_store_holds example_codec example_ext st ?ch"
    "store_has example_codec store [example_op 7]" and o: "pb_operations example_proposed = map co_operation_id [example_op 7]"
    by (rule example_commit)
  have 7: "pb_operations example_proposed = [7]" by (simp add: example_proposed_def)
  have "\<exists>st'. check_should_sign_block example_codec example_ext example_proposed example_blocks store st = (Ok True, st') \<and>
      dir_store_holds example_codec example_ext st' ?ch"
    by (rule check_signs [OF s example_proposes o _ example_next_facts(5) example_next_linked])
      (simp_all add: 7 example_blocks_facts holds_operation_def example_genesis_ids)
  then obtain st' where c: "check_should_sign_block example_codec example_ext example_proposed example_blocks store st = (Ok True, st')" by blast
  have m: "(9, example_proposed) \<in> set (bl_blocks example_blocks)" by (simp add: example_blocks_def)
  have "bl_operations_blocks example_blocks = map_operations_blocks (bl_blocks example_blocks)" by (simp add: example_blocks_def)
  from signed_block_checked [OF s(1) m this c] c show ?thesis unfolding 7 by blast
qed

text \<open>
  (C35) The quorum counts signature operations, not nodes, and a signature is accepted whatever its
  bytes: the signature operations of a single node of the cell make up a quorum by themselves, and
  the block they sign is committed.
\<close>

theorem one_node_makes_quorum:
  assumes p: "proposes C b p" and mine: "pb_has_my_signature b" and n: "get_node (cg_cell cg) n \<noteq> None"
    and ops: "\<forall>op \<in> set sops. co_operation (tf_reader (so_frame op)) = OpBlockSign x (sig (so_operation_id op)) \<and>
      parse_node_id C (co_node_id (tf_reader (so_frame op))) = Some n"
    and gs: "scan_group C (cg_cell cg) sops group_scan_new = Ok gs" "pb_signatures b = gs_signatures gs"
    and many: "has_quorum (cg_cell cg) (length sops) (Some ChainRole)"
  shows "maybe_commit_block C E cg b = commit_block C E cg b \<and> bg_node_id ` set (pb_signatures b) = {n}"
proof -
  have scan: "scan_group C c os g =
      Ok (g\<lparr>gs_signatures := gs_signatures g @ map (\<lambda>op. \<lparr>bg_node_id = n, bg_signature = sig (so_operation_id op)\<rparr>) os\<rparr>)"
    if "set os \<subseteq> set sops" for c os g
    using that
  proof (induction os arbitrary: g)
    case (Cons op os)
    then have "scan_operation C c op g = Ok (g\<lparr>gs_signatures := gs_signatures g @ [\<lparr>bg_node_id = n, bg_signature = sig (so_operation_id op)\<rparr>]\<rparr>)"
      using ops by (simp add: scan_operation_def signature_from_operation_def)
    with Cons show ?case by simp
  qed simp
  have s: "pb_signatures b = map (\<lambda>op. \<lparr>bg_node_id = n, bg_signature = sig (so_operation_id op)\<rparr>) sops"
    using gs scan [of sops "cg_cell cg" group_scan_new] by (auto simp: group_scan_new_def)
  have "length (valid_signatures C (cg_cell cg) b) = length sops"
    using n by (simp add: valid_signatures_known [OF p] s)
  moreover have "sops \<noteq> []" using many by (auto simp: has_quorum_Some)
  ultimately show ?thesis using mine many by (simp add: maybe_commit_block_def s image_image image_constant_conv)
qed

theorem one_node_makes_quorum_witness:
  "\<exists>ops :: stored_operation list. length ops = 2 \<and> maybe_commit_block example_codec example_ext example_manager example_proposed =
      commit_block example_codec example_ext example_manager example_proposed \<and>
     (\<forall>op \<in> set ops. co_node_id (tf_reader (so_frame op)) = ''a'') \<and>
     bg_node_id ` set (pb_signatures example_proposed) = {''a''} \<and> count_with_role example_cell ChainRole = 3"
proof -
  let ?op = "\<lambda>i. new_stored \<lparr>no_operation_id = i, no_frame = \<lparr>tf_frame = RawFrame [], tf_reader =
    \<lparr>co_operation_id = i, co_group_id = 9, co_node_id = ''a'', co_operation = OpBlockSign ''a'' [1]\<rparr>\<rparr>\<rparr>"
  have gs: "scan_group example_codec (cg_cell example_manager) [?op 10, ?op 11] group_scan_new =
      Ok (group_scan_new\<lparr>gs_signatures := pb_signatures example_proposed\<rparr>)"
    by (simp add: scan_operation_def signature_from_operation_def new_stored_def group_scan_new_def example_proposed_def)
  have n: "get_node (cg_cell example_manager) ''a'' \<noteq> None" and q: "has_quorum (cg_cell example_manager) (length [?op 10, ?op 11]) (Some ChainRole)"
    and c: "count_with_role example_cell ChainRole = 3"
    by (simp_all add: example_manager_def example_cell_def get_node_def has_quorum_Some count_with_role_def has_role_def)
  have mine: "pb_has_my_signature example_proposed" by (simp add: example_proposed_def)
  have "maybe_commit_block example_codec example_ext example_manager example_proposed =
      commit_block example_codec example_ext example_manager example_proposed \<and> bg_node_id ` set (pb_signatures example_proposed) = {''a''}"
    by (rule one_node_makes_quorum [OF example_proposes mine n _ gs _ q, of "''a''" "\<lambda>_. [1]"]) (simp_all add: new_stored_def)
  with c show ?thesis by (intro exI [of _ "[?op 10, ?op 11]"]) (simp add: new_stored_def)
qed

end
