(* ===== verification/Exo_Engine.thy ===== *)
theory Exo_Engine
  imports Exo_Commit
begin

text \<open>
  The engine (\<open>chain/src/engine/mod.rs\<close>) that puts the stores, the synchronisers and the commit
  manager together, and the handle its clients use (\<open>chain/src/engine/handle.rs\<close>). The channels to
  the clients and to the transport are bounded channels of a library: a parameter tells what a
  \<open>try_send\<close> on them does. The lock around the state is poisoned by a panic of a handler.
\<close>

section \<open>Configuration and state\<close>

record engine_config =
  ec_chain_sync_config :: chain_sync_config
  ec_pending_sync_config :: pending_sync_config
  ec_commit_manager_config :: commit_manager_config
  ec_manager_timer_interval :: duration
  ec_events_stream_buffer_size :: nat
  ec_to_transport_channel_size :: nat

definition engine_config_default :: engine_config where
  "engine_config_default =
     \<lparr>ec_chain_sync_config = chain_sync_config_default, ec_pending_sync_config = pending_sync_config_default,
      ec_commit_manager_config = commit_manager_config_default, ec_manager_timer_interval = 1000000000,
      ec_events_stream_buffer_size = 1000, ec_to_transport_channel_size = 3000\<rparr>"

datatype send_outcome = Sent | ChannelFull | ChannelClosed

text \<open>A bounded channel of messages \<open>'m\<close>, with its state \<open>'q\<close>.\<close>

record ('m, 'q) channel_lib =
  ch_new :: "nat \<Rightarrow> 'q"
  ch_try_send :: "'m \<Rightarrow> 'q \<Rightarrow> send_outcome \<times> 'q"

type_synonym out_message = "cell_node \<times> sync_message"

record ('q, 't) engine_libs =
  lib_events :: "(engine_event, 'q) channel_lib"
  lib_transport :: "(out_message, 't) channel_lib"

record ('r, 'q, 't) engine_inner =
  in_config :: engine_config
  in_cell :: cell
  in_pending_store :: pending_store
  in_pending_synchronizer :: pending_sync
  in_chain_store :: "'r dir_store"
  in_chain_synchronizer :: chain_sync
  in_commit_manager :: commit_manager
  in_events_stream_sender :: "(nat \<times> bool \<times> 'q) list"
  in_transport_sender :: "'t option"
  in_sync_state :: sync_state
  in_clock :: nat
  in_poisoned :: bool

type_synonym ('r, 'q, 't, 'a) engine_op = "(('r, 'q, 't) engine_inner, engine_error, 'a) sop"

definition engine_new :: "engine_config \<Rightarrow> 'r dir_store \<Rightarrow> pending_store \<Rightarrow> cell \<Rightarrow> ('r, 'q, 't) engine_inner" where
  "engine_new config chain_st pending_st c =
     \<lparr>in_config = config, in_cell = c, in_pending_store = pending_st,
      in_pending_synchronizer = pending_sync_new (ec_pending_sync_config config) c,
      in_chain_store = chain_st, in_chain_synchronizer = chain_sync_new (ec_chain_sync_config config) c,
      in_commit_manager = \<lparr>cg_config = ec_commit_manager_config config, cg_cell = c\<rparr>,
      in_events_stream_sender = [], in_transport_sender = None,
      in_sync_state = \<lparr>pending_last_cleanup_block = None\<rparr>, in_clock = 0, in_poisoned = False\<rparr>"

section \<open>Events\<close>

text \<open>
  One event on one stream. After a failed send the stream is marked, and nothing but the event of a
  discontinuity is sent on it until that one got through.
\<close>

definition send_event :: "(engine_event, 'q) channel_lib \<Rightarrow> engine_event \<Rightarrow> bool \<times> 'q \<Rightarrow> bool \<times> 'q" where
  "send_event L event s =
     (case s of (discontinued, q) \<Rightarrow>
        case (if discontinued then ch_try_send L StreamDiscontinuity q else (Sent, q)) of
          (Sent, q1) \<Rightarrow>
            (case ch_try_send L event q1 of
               (Sent, q2) \<Rightarrow> (False, q2)
             | (ChannelFull, q2) \<Rightarrow> (True, q2)
             | (ChannelClosed, q2) \<Rightarrow> (False, q2))
        | (_, q1) \<Rightarrow> (True, q1))"

definition dispatch_event :: "(engine_event, 'q) channel_lib \<Rightarrow> engine_event \<Rightarrow> ('r, 'q, 't) engine_inner \<Rightarrow> ('r, 'q, 't) engine_inner" where
  "dispatch_event L event inner =
     inner\<lparr>in_events_stream_sender :=
       map (\<lambda>(handle_id, stream). (handle_id, send_event L event stream)) (in_events_stream_sender inner)\<rparr>"

definition dispatch_events_from_sync_context ::
  "(engine_event, 'q) channel_lib \<Rightarrow> sync_context \<Rightarrow> ('r, 'q, 't) engine_inner \<Rightarrow> ('r, 'q, 't) engine_inner" where
  "dispatch_events_from_sync_context L sc inner = fold (dispatch_event L) (sc_events sc) inner"

definition get_new_events_stream :: "(engine_event, 'q) channel_lib \<Rightarrow> nat \<Rightarrow> ('r, 'q, 't) engine_inner \<Rightarrow> ('r, 'q, 't) engine_inner" where
  "get_new_events_stream L handle_id inner =
     inner\<lparr>in_events_stream_sender := in_events_stream_sender inner @
       [(handle_id, False, ch_new L (ec_events_stream_buffer_size (in_config inner)))]\<rparr>"

text \<open>The streams that are kept are pushed back under the identifier of the handle that goes.\<close>

definition unregister_handle :: "nat \<Rightarrow> ('r, 'q, 't) engine_inner \<Rightarrow> ('r, 'q, 't) engine_inner" where
  "unregister_handle handle_id inner =
     inner\<lparr>in_events_stream_sender :=
       map (\<lambda>(_, stream). (handle_id, stream))
         (filter (\<lambda>(one_handle_id, _). one_handle_id \<noteq> handle_id) (in_events_stream_sender inner))\<rparr>"

section \<open>Messages\<close>

definition chain_is_synchronized :: "('r, 'q, 't) engine_inner \<Rightarrow> bool" where
  "chain_is_synchronized inner \<longleftrightarrow> cy_status (in_chain_synchronizer inner) = SyncSynchronized"

fun send_messages :: "(out_message, 't) channel_lib \<Rightarrow> sync_message list \<Rightarrow> ('r, 'q, 't, unit) engine_op" where
  "send_messages L [] inner = (Ok (), inner)"
| "send_messages L (msg # msgs) inner =
     (case into_out_message (in_cell inner) msg of
        Ok out_message \<Rightarrow>
          (case in_transport_sender inner of
             None \<Rightarrow> (Panic, inner)
           | Some t \<Rightarrow>
               send_messages L msgs (inner\<lparr>in_transport_sender := Some (snd (ch_try_send L out_message t))\<rparr>))
      | Err e \<Rightarrow> (Err e, inner)
      | Panic \<Rightarrow> (Panic, inner))"

definition send_messages_from_sync_context ::
  "(out_message, 't) channel_lib \<Rightarrow> sync_context \<Rightarrow> ('r, 'q, 't, unit) engine_op" where
  "send_messages_from_sync_context L sc = send_messages L (sc_messages sc)"

text \<open>What every handler does with its context once it went through.\<close>

definition flush_context :: "('q, 't) engine_libs \<Rightarrow> bool \<Rightarrow> sync_context \<Rightarrow> ('r, 'q, 't, unit) engine_op" where
  "flush_context L send sc inner =
     sbind (if send then send_messages_from_sync_context (lib_transport L) sc else sreturn ())
       (\<lambda>_ inner1. (Ok (), dispatch_events_from_sync_context (lib_events L) sc inner1))
       (inner\<lparr>in_sync_state := sc_sync_state sc\<rparr>)"

section \<open>Handlers\<close>

definition engine_new_operation ::
  "('c) codec_scheme \<Rightarrow> ('q, 't) engine_libs \<Rightarrow> new_operation \<Rightarrow> ('r, 'q, 't, unit) engine_op" where
  "engine_new_operation C L operation inner =
     (case handle_new_operation C (in_pending_synchronizer inner) operation
             (in_pending_store inner, sync_context_new (in_sync_state inner)) of
        (Ok _, (store, sc)) \<Rightarrow>
          flush_context L (chain_is_synchronized inner) sc (inner\<lparr>in_pending_store := store\<rparr>)
      | (Err e, (store, sc)) \<Rightarrow> (Err e, inner\<lparr>in_pending_store := store\<rparr>)
      | (Panic, (store, sc)) \<Rightarrow> (Panic, inner\<lparr>in_pending_store := store\<rparr>))"

definition handle_incoming_pending_sync_request ::
  "('c) codec_scheme \<Rightarrow> ('q, 't) engine_libs \<Rightarrow> node_id \<Rightarrow> pending_sync_request \<Rightarrow> ('r, 'q, 't, unit) engine_op" where
  "handle_incoming_pending_sync_request C L from_node request inner =
     (if \<not> chain_is_synchronized inner then (Ok (), inner)
      else
        (case handle_incoming_sync_request C (in_pending_synchronizer inner) from_node request
                (in_pending_store inner, sync_context_new (in_sync_state inner)) of
           (Ok _, (store, sc)) \<Rightarrow> flush_context L True sc (inner\<lparr>in_pending_store := store\<rparr>)
         | (Err e, (store, sc)) \<Rightarrow> (Err e, inner\<lparr>in_pending_store := store\<rparr>)
         | (Panic, (store, sc)) \<Rightarrow> (Panic, inner\<lparr>in_pending_store := store\<rparr>)))"

text \<open>A handler of the chain synchroniser, run on its part of the state.\<close>

definition with_chain_sync ::
  "('r sync_world, engine_error, unit) sop \<Rightarrow> (sync_context \<Rightarrow> ('r, 'q, 't, unit) engine_op) \<Rightarrow> ('r, 'q, 't, unit) engine_op" where
  "with_chain_sync m k inner =
     (case m (in_chain_synchronizer inner, sync_context_new (in_sync_state inner), in_chain_store inner) of
        (r, (cy, sc, st)) \<Rightarrow>
          (let inner1 = inner\<lparr>in_chain_synchronizer := cy, in_chain_store := st\<rparr> in
           case r of Ok _ \<Rightarrow> k sc inner1 | Err e \<Rightarrow> (Err e, inner1) | Panic \<Rightarrow> (Panic, inner1)))"

definition handle_incoming_chain_sync_request ::
  "('c) codec_scheme \<Rightarrow> ('q, 't) engine_libs \<Rightarrow> instant \<Rightarrow> node_id \<Rightarrow> chain_sync_request \<Rightarrow> ('r, 'q, 't, unit) engine_op" where
  "handle_incoming_chain_sync_request C L now from_node request =
     with_chain_sync (handle_chain_sync_request C now from_node request) (flush_context L True)"

definition handle_incoming_chain_sync_response ::
  "('c) codec_scheme \<Rightarrow> 'r ext_index \<Rightarrow> ('q, 't) engine_libs \<Rightarrow> instant \<Rightarrow> node_id \<Rightarrow> chain_sync_response
     \<Rightarrow> ('r, 'q, 't, unit) engine_op" where
  "handle_incoming_chain_sync_response C E L now from_node response =
     with_chain_sync (handle_chain_sync_response C E now from_node response) (flush_context L True)"

section \<open>The tick\<close>

text \<open>The commit manager; being out of sync resets the chain synchroniser.\<close>

definition tick_commit_manager ::
  "('c) codec_scheme \<Rightarrow> 'r ext_index \<Rightarrow> (nat \<Rightarrow> nat) \<Rightarrow> sync_context \<Rightarrow> ('r, 'q, 't, sync_context) engine_op" where
  "tick_commit_manager C E T sc inner =
     (case commit_tick C E T (in_commit_manager inner) (in_pending_synchronizer inner)
             \<lparr>w_context = sc, w_pending = in_pending_store inner, w_chain = in_chain_store inner, w_clock = in_clock inner\<rparr> of
        (r, w) \<Rightarrow>
          (let inner1 = inner\<lparr>in_pending_store := w_pending w, in_chain_store := w_chain w, in_clock := w_clock w\<rparr> in
           case r of
             Ok _ \<Rightarrow> (Ok (w_context w), inner1)
           | Err e \<Rightarrow>
               if e = OutOfSync
               then (Ok (w_context w), inner1\<lparr>in_chain_synchronizer := reset_state (in_chain_synchronizer inner1)\<rparr>)
               else (Err e, inner1)
           | Panic \<Rightarrow> (Panic, inner1)))"

definition tick_pending_synchronizer ::
  "('c) codec_scheme \<Rightarrow> instant \<Rightarrow> sync_context \<Rightarrow> ('r, 'q, 't, sync_context) engine_op" where
  "tick_pending_synchronizer C now sc inner =
     (case pending_tick C now (in_pending_store inner) (in_pending_synchronizer inner, sc) of
        (r, (py, sc1)) \<Rightarrow>
          (and_then r (\<lambda>_. Ok sc1), inner\<lparr>in_pending_synchronizer := py\<rparr>))"

definition tick_synchronizers ::
  "('c) codec_scheme \<Rightarrow> 'r ext_index \<Rightarrow> ('q, 't) engine_libs \<Rightarrow> (nat \<Rightarrow> nat) \<Rightarrow> instant \<Rightarrow> ('r, 'q, 't, unit) engine_op" where
  "tick_synchronizers C E L T now =
     with_chain_sync (chain_sync_tick C now) (\<lambda>sc.
     sbind (\<lambda>inner. if chain_is_synchronized inner then tick_commit_manager C E T sc inner else (Ok sc, inner)) (\<lambda>sc1.
     sbind (\<lambda>inner. if chain_is_synchronized inner then tick_pending_synchronizer C now sc1 inner else (Ok sc1, inner))
       (flush_context L True)))"

section \<open>Incoming messages and the timer\<close>

text \<open>A message of the transport, with its data read as the message of its type, or a type the engine does not know.\<close>

datatype in_message =
    InPendingSyncRequest node_id "pending_sync_request option"
  | InChainSyncRequest node_id "chain_sync_request option"
  | InChainSyncResponse node_id "chain_sync_response option"
  | InUnknownType node_id nat

text \<open>
  A blocking task: the lock is taken, the handler runs, and a panic of the handler poisons the lock
  and is a fatal error of the join.
\<close>

definition locked :: "('r, 'q, 't, 'a) engine_op \<Rightarrow> ('r, 'q, 't, 'a) engine_op" where
  "locked m inner = (if in_poisoned inner then (Err EngPoisoned, inner) else m inner)"

definition blocking_task :: "('r, 'q, 't, unit) engine_op \<Rightarrow> ('r, 'q, 't, unit) engine_op" where
  "blocking_task m inner =
     (case locked m inner of
        (Panic, inner1) \<Rightarrow> (Err EngFatal, inner1\<lparr>in_poisoned := True\<rparr>)
      | (r, inner1) \<Rightarrow> (r, inner1))"

definition handle_incoming_message ::
  "('c) codec_scheme \<Rightarrow> 'r ext_index \<Rightarrow> ('q, 't) engine_libs \<Rightarrow> instant \<Rightarrow> in_message \<Rightarrow> ('r, 'q, 't, unit) engine_op" where
  "handle_incoming_message C E L now message =
     blocking_task
       (case message of
          InPendingSyncRequest n (Some req) \<Rightarrow> handle_incoming_pending_sync_request C L n req
        | InChainSyncRequest n (Some req) \<Rightarrow> handle_incoming_chain_sync_request C L now n req
        | InChainSyncResponse n (Some resp) \<Rightarrow> handle_incoming_chain_sync_response C E L now n resp
        | InUnknownType _ _ \<Rightarrow> slift (Err EngOther)
        | _ \<Rightarrow> slift (Err EngTransport))"

definition handle_management_timer_tick ::
  "('c) codec_scheme \<Rightarrow> 'r ext_index \<Rightarrow> ('q, 't) engine_libs \<Rightarrow> (nat \<Rightarrow> nat) \<Rightarrow> instant \<Rightarrow> ('r, 'q, 't, unit) engine_op" where
  "handle_management_timer_tick C E L T now = blocking_task (tick_synchronizers C E L T now)"

datatype engine_input = Incoming in_message | NodeStatusChanged node_id | TimerTick

text \<open>
  One turn of the loops of \<open>run\<close>. A loop ends at the first fatal error, and the engine with it; any other
  error is logged.
\<close>

definition engine_turn ::
  "('c) codec_scheme \<Rightarrow> 'r ext_index \<Rightarrow> ('q, 't) engine_libs \<Rightarrow> (nat \<Rightarrow> nat) \<Rightarrow> instant \<Rightarrow> engine_input
     \<Rightarrow> ('r, 'q, 't) engine_inner \<Rightarrow> bool \<times> ('r, 'q, 't) engine_inner" where
  "engine_turn C E L T now input inner =
     (case (case input of
              Incoming message \<Rightarrow> handle_incoming_message C E L now message inner
            | NodeStatusChanged _ \<Rightarrow> (Ok (), inner)
            | TimerTick \<Rightarrow> handle_management_timer_tick C E L T now inner) of
        (Err e, inner1) \<Rightarrow> (\<not> engine_is_fatal e, inner1)
      | (_, inner1) \<Rightarrow> (True, inner1))"

fun engine_turns ::
  "('c) codec_scheme \<Rightarrow> 'r ext_index \<Rightarrow> ('q, 't) engine_libs \<Rightarrow> (nat \<Rightarrow> nat) \<Rightarrow> (instant \<times> engine_input) list
     \<Rightarrow> ('r, 'q, 't) engine_inner \<Rightarrow> bool \<times> ('r, 'q, 't) engine_inner" where
  "engine_turns C E L T [] inner = (True, inner)"
| "engine_turns C E L T ((now, input) # inputs) inner =
     (case engine_turn C E L T now input inner of
        (running, inner1) \<Rightarrow> if running then engine_turns C E L T inputs inner1 else (False, inner1))"

definition engine_start ::
  "('c) codec_scheme \<Rightarrow> ('q, 't) engine_libs \<Rightarrow> ('r, 'q, 't, unit) engine_op" where
  "engine_start C L =
     locked (\<lambda>inner.
       let inner1 = inner\<lparr>in_transport_sender := Some (ch_new (lib_transport L) (ec_to_transport_channel_size (in_config inner)))\<rparr> in
       case on_chain (dir_get_last_block C) (in_chain_store inner1) of
         (r, st) \<Rightarrow>
           (case r of
              Ok _ \<Rightarrow> (Ok (), dispatch_event (lib_events L) Started (inner1\<lparr>in_chain_store := st\<rparr>))
            | Err e \<Rightarrow> (Err e, inner1\<lparr>in_chain_store := st\<rparr>)
            | Panic \<Rightarrow> (Panic, inner1\<lparr>in_chain_store := st\<rparr>)))"

end
