(* ===== verification/Exo_Handle.thy ===== *)
theory Exo_Handle
  imports Exo_Engine
begin

text \<open>
  The handle of an engine (\<open>chain/src/engine/handle.rs\<close>): writing an entry, reading operations from
  the chain and the pending store, iterating over the operations of the chain, and the streams of
  events. A handle holds a weak reference: the state is an option, \<open>None\<close> once the engine is gone.
\<close>

section \<open>Operations of the engine\<close>

datatype engine_operation_status = EngCommitted nat nat | EngPending

fun eng_is_committed :: "engine_operation_status \<Rightarrow> bool" where
  "eng_is_committed (EngCommitted _ _) = True"
| "eng_is_committed EngPending = False"

record engine_operation =
  eo_operation_id :: nat
  eo_status :: engine_operation_status
  eo_frame :: operation_frame

definition from_pending :: "stored_operation \<Rightarrow> engine_operation" where
  "from_pending operation =
     \<lparr>eo_operation_id = so_operation_id operation,
      eo_status = (case so_commit_status operation of Committed offset height \<Rightarrow> EngCommitted offset height | _ \<Rightarrow> EngPending),
      eo_frame = so_frame operation\<rparr>"

definition from_chain :: "('c) codec_scheme \<Rightarrow> data_block \<Rightarrow> nat \<Rightarrow> (engine_error, engine_operation option) result" where
  "from_chain C block operation_id =
     and_then (map_err EngBlock (get_operation C block operation_id)) (\<lambda>found.
       case found of
         None \<Rightarrow> Ok None
       | Some operation \<Rightarrow>
           and_then (typed_to_owned (dec_op C) operation) (\<lambda>owned.
             Ok (Some \<lparr>eo_operation_id = operation_id, eo_status = EngCommitted (db_offset block) (get_height block), eo_frame = owned\<rparr>)))"

section \<open>Calls on the handle\<close>

type_synonym ('r, 'q, 't, 'a) handle_op = "(('r, 'q, 't) engine_inner option, engine_error, 'a) sop"

text \<open>The reference is upgraded and the lock taken for writing. A panic poisons the lock.\<close>

definition on_inner :: "('r, 'q, 't, 'a) engine_op \<Rightarrow> ('r, 'q, 't, 'a) handle_op" where
  "on_inner m h =
     (case h of
        None \<Rightarrow> (Err InnerUpgrade, None)
      | Some inner \<Rightarrow>
          (case locked m inner of
             (Panic, inner1) \<Rightarrow> (Panic, Some (inner1\<lparr>in_poisoned := True\<rparr>))
           | (r, inner1) \<Rightarrow> (r, Some inner1)))"

text \<open>The lock taken for reading: a panic of a reader does not poison it.\<close>

definition on_inner_read :: "('r, 'q, 't, 'a) engine_op \<Rightarrow> ('r, 'q, 't, 'a) handle_op" where
  "on_inner_read m h =
     (case h of
        None \<Rightarrow> (Err InnerUpgrade, None)
      | Some inner \<Rightarrow> (case locked m inner of (r, inner1) \<Rightarrow> (r, Some inner1)))"

definition on_engine_chain :: "('r dir_store, engine_error, 'a) sop \<Rightarrow> ('r, 'q, 't, 'a) engine_op" where
  "on_engine_chain m inner = (case m (in_chain_store inner) of (r, st) \<Rightarrow> (r, inner\<lparr>in_chain_store := st\<rparr>))"

definition engine_time :: "(nat \<Rightarrow> nat) \<Rightarrow> ('r, 'q, 't, nat) engine_op" where
  "engine_time T inner = (Ok (T (in_clock inner)), inner\<lparr>in_clock := Suc (in_clock inner)\<rparr>)"

definition write_entry_operation ::
  "('c) codec_scheme \<Rightarrow> ('q, 't) engine_libs \<Rightarrow> (nat \<Rightarrow> nat) \<Rightarrow> bytes \<Rightarrow> ('r, 'q, 't, nat) handle_op" where
  "write_entry_operation C L T data =
     on_inner (sbind (engine_time T) (\<lambda>operation_id inner.
       sbind (slift (map_err EngOperation (sign_and_build C (new_entry operation_id (local_node_id (in_cell inner)) data)))) (\<lambda>operation.
       sbind (engine_new_operation C L operation) (\<lambda>_. sreturn operation_id)) inner))"

definition get_chain_segments :: "('r, 'q, 't, (nat \<times> nat) list) handle_op" where
  "get_chain_segments = on_inner_read (\<lambda>inner. (Ok (dir_segments (in_chain_store inner)), inner))"

definition get_chain_operation :: "('c) codec_scheme \<Rightarrow> nat \<Rightarrow> nat \<Rightarrow> ('r, 'q, 't, engine_operation option) handle_op" where
  "get_chain_operation C block_offset operation_id =
     on_inner_read (sbind (on_engine_chain (on_chain (dir_get_block C block_offset))) (\<lambda>block.
       slift (from_chain C block operation_id)))"

definition get_chain_last_block_info :: "('c) codec_scheme \<Rightarrow> ('r, 'q, 't, (nat \<times> nat) option) handle_op" where
  "get_chain_last_block_info C =
     on_inner_read (sbind (on_engine_chain (on_chain (dir_get_last_block C))) (\<lambda>last_block.
       sreturn (map_option (\<lambda>b. (db_offset b, get_height b)) last_block)))"

text \<open>An error that is not fatal means that there is no such block.\<close>

definition get_chain_block :: "('c) codec_scheme \<Rightarrow> nat \<Rightarrow> ('r, 'q, 't, data_block option) handle_op" where
  "get_chain_block C offset =
     on_inner_read (on_engine_chain (\<lambda>st.
       case dir_get_block C offset st of
         (Ok block, st1) \<Rightarrow> (Ok (Some block), st1)
       | (Err e, st1) \<Rightarrow> (if chain_is_fatal e then Err (EngChainStore e) else Ok None, st1)
       | (Panic, st1) \<Rightarrow> (Panic, st1)))"

definition get_chain_block_info :: "('c) codec_scheme \<Rightarrow> nat \<Rightarrow> ('r, 'q, 't, (nat \<times> nat) option) handle_op" where
  "get_chain_block_info C offset =
     on_inner_read (on_engine_chain (\<lambda>st.
       case dir_get_block C offset st of
         (Ok block, st1) \<Rightarrow> (Ok (Some (db_offset block, get_height block)), st1)
       | (Err e, st1) \<Rightarrow> (if chain_is_fatal e then Err (EngChainStore e) else Ok None, st1)
       | (Panic, st1) \<Rightarrow> (Panic, st1)))"

definition get_pending_operation :: "nat \<Rightarrow> ('r, 'q, 't, engine_operation option) handle_op" where
  "get_pending_operation operation_id =
     on_inner_read (\<lambda>inner. (Ok (map_option from_pending (pending_get (in_pending_store inner) operation_id)), inner))"

definition get_pending_operations :: "nat bound \<times> nat bound \<Rightarrow> ('r, 'q, 't, engine_operation list) handle_op" where
  "get_pending_operations operations_range =
     on_inner_read (\<lambda>inner.
       (and_then (map_err EngPendingStore (pending_iter operations_range (in_pending_store inner))) (\<lambda>ops.
          Ok (map from_pending ops)), inner))"

definition engine_get_operation :: "('c) codec_scheme \<Rightarrow> 'r ext_index \<Rightarrow> nat \<Rightarrow> ('r, 'q, 't, engine_operation option) handle_op" where
  "engine_get_operation C E operation_id =
     on_inner_read (\<lambda>inner.
       let pending_operation = pending_get (in_pending_store inner) operation_id in
       case pending_operation of
         Some op \<Rightarrow>
           if so_commit_status op \<noteq> StatusUnknown then (Ok (Some (from_pending op)), inner)
           else
             sbind (on_engine_chain (on_chain (dir_get_block_by_operation_id C E operation_id))) (\<lambda>found.
             sbind (slift (case found of Some block \<Rightarrow> from_chain C block operation_id | None \<Rightarrow> Ok None)) (\<lambda>chain_operation.
               sreturn (case chain_operation of Some x \<Rightarrow> Some x | None \<Rightarrow> Some (from_pending op)))) inner
       | None \<Rightarrow>
           sbind (on_engine_chain (on_chain (dir_get_block_by_operation_id C E operation_id))) (\<lambda>found.
             slift (case found of Some block \<Rightarrow> from_chain C block operation_id | None \<Rightarrow> Ok None)) inner)"

text \<open>A new stream of events for the handle, and the end of a handle.\<close>

definition take_events_stream :: "('q, 't) engine_libs \<Rightarrow> nat \<Rightarrow> ('r, 'q, 't, unit) handle_op" where
  "take_events_stream L handle_id = on_inner (\<lambda>inner. (Ok (), get_new_events_stream (lib_events L) handle_id inner))"

definition drop_handle :: "nat \<Rightarrow> ('r, 'q, 't) engine_inner option \<Rightarrow> ('r, 'q, 't) engine_inner option" where
  "drop_handle handle_id h = map_option (\<lambda>inner. if in_poisoned inner then inner else unregister_handle handle_id inner) h"

section \<open>Iterating over the operations of the chain\<close>

record chain_operations_iter =
  ci_next_offset :: nat
  ci_current_operations :: "engine_operation list"

definition chain_operations_iter_new :: "nat option \<Rightarrow> chain_operations_iter" where
  "chain_operations_iter_new from_offset =
     \<lparr>ci_next_offset = (case from_offset of Some off \<Rightarrow> off | None \<Rightarrow> 0), ci_current_operations = []\<rparr>"

fun own_operations ::
  "('c) codec_scheme \<Rightarrow> data_block \<Rightarrow> operation_frame list \<Rightarrow> (engine_error, engine_operation list) result" where
  "own_operations C block [] = Ok []"
| "own_operations C block (operation # ops) =
     and_then (typed_to_owned (dec_op C) operation) (\<lambda>owned.
     and_then (own_operations C block ops) (\<lambda>rest.
       Ok (\<lparr>eo_operation_id = co_operation_id (tf_reader operation),
            eo_status = EngCommitted (db_offset block) (get_height block), eo_frame = owned\<rparr> # rest)))"

definition block_engine_operations ::
  "('c) codec_scheme \<Rightarrow> data_block \<Rightarrow> (engine_error, engine_operation list) result" where
  "block_engine_operations C block =
     and_then (map_err EngBlock (block_operation_frames C block)) (own_operations C block)"

text \<open>
  The loop of \<open>fetch_next_block\<close> goes on as long as the blocks have no operations; \<open>None\<close> is the loop that
  does not end.
\<close>

partial_function (option) fetch_next_block ::
  "('c) codec_scheme \<Rightarrow> chain_operations_iter \<Rightarrow> 'r dir_store
     \<Rightarrow> ((engine_error, unit) result \<times> chain_operations_iter \<times> 'r dir_store) option" where
  "fetch_next_block C it st =
     (if ci_current_operations it \<noteq> [] then Some (Ok (), it, st)
      else
        (case dir_get_block C (ci_next_offset it) st of
           (Ok block, st1) \<Rightarrow>
             (case block_engine_operations C block of
                Ok ops \<Rightarrow>
                  (case next_offset block of
                     Ok n \<Rightarrow> fetch_next_block C \<lparr>ci_next_offset = n, ci_current_operations = rev ops\<rparr> st1
                   | _ \<Rightarrow> Some (Panic, it, st1))
              | Err e \<Rightarrow> Some (Err e, it, st1)
              | Panic \<Rightarrow> Some (Panic, it, st1))
         | (Err e, st1) \<Rightarrow> Some (Err (EngChainStore e), it, st1)
         | (Panic, st1) \<Rightarrow> Some (Panic, it, st1)))"

text \<open>
  \<open>next\<close>: the last operation of the list. An error other than the end of the chain ends the
  iteration as well, since nothing was fetched.
\<close>

definition pop_operation :: "chain_operations_iter \<Rightarrow> engine_operation option \<times> chain_operations_iter" where
  "pop_operation it =
     (if ci_current_operations it = [] then (None, it)
      else (Some (last (ci_current_operations it)), it\<lparr>ci_current_operations := butlast (ci_current_operations it)\<rparr>))"

definition chain_operations_next ::
  "('c) codec_scheme \<Rightarrow> chain_operations_iter \<Rightarrow> 'r dir_store
     \<Rightarrow> ((unit, engine_operation option) result \<times> chain_operations_iter \<times> 'r dir_store) option" where
  "chain_operations_next C it st =
     (if ci_current_operations it \<noteq> [] then (case pop_operation it of (r, it1) \<Rightarrow> Some (Ok r, it1, st))
      else
        (case fetch_next_block C it st of
           None \<Rightarrow> None
         | Some (r, it1, st1) \<Rightarrow>
             (case r of
                Err (EngChainStore OutOfBound) \<Rightarrow> Some (Ok None, it1, st1)
              | Panic \<Rightarrow> Some (Panic, it1, st1)
              | _ \<Rightarrow> (case pop_operation it1 of (o', it2) \<Rightarrow> Some (Ok o', it2, st1)))))"

text \<open>The operations a client gets by calling \<open>next\<close> to the end.\<close>

partial_function (option) collect_operations ::
  "('c) codec_scheme \<Rightarrow> chain_operations_iter \<Rightarrow> 'r dir_store
     \<Rightarrow> ((unit, engine_operation list) result \<times> 'r dir_store) option" where
  "collect_operations C it st =
     (case chain_operations_next C it st of
        None \<Rightarrow> None
      | Some (r, it1, st1) \<Rightarrow>
          (case r of
             Ok None \<Rightarrow> Some (Ok [], st1)
           | Ok (Some op) \<Rightarrow>
               Option.bind (collect_operations C it1 st1) (\<lambda>(r2, st2).
                 Some (and_then r2 (\<lambda>ops. Ok (op # ops)), st2))
           | _ \<Rightarrow> Some (Panic, st1)))"

end
