(* ===== verification/Exo_Engine_Props.thy ===== *)
theory Exo_Engine_Props
  imports Exo_Handle Exo_Commit_Props Exo_Pending_Sync_Props "HOL-Library.Sublist"
begin

text \<open>
  Properties of the engine and its handle: the streams of events, reading operations back through the
  handle, iterating over the chain, and what a hostile message does.
\<close>

section \<open>Streams of events\<close>

text \<open>
  What the code relies on of a bounded channel whose receiver is there: \<open>sent\<close> is the list of the messages
  that went into it. A message is added at the end or the channel is full.
\<close>

definition channel_ok :: "('m, 'q) channel_lib \<Rightarrow> ('q \<Rightarrow> 'm list) \<Rightarrow> bool" where
  "channel_ok L sent \<longleftrightarrow>
     (\<forall>n. sent (ch_new L n) = []) \<and>
     (\<forall>m q. (\<exists>q'. ch_try_send L m q = (Sent, q') \<and> sent q' = sent q @ [m]) \<or>
            (\<exists>q'. ch_try_send L m q = (ChannelFull, q') \<and> sent q' = sent q))"

text \<open>A stream with its gaps marked: a run of lost events is replaced by one event of discontinuity.\<close>

inductive marked :: "engine_event list \<Rightarrow> engine_event list \<Rightarrow> bool" where
  marked_Nil: "marked [] []"
| marked_event: "marked evs s \<Longrightarrow> marked (evs @ [e]) (s @ [e])"
| marked_gap: "marked evs s \<Longrightarrow> lost \<noteq> [] \<Longrightarrow> marked (evs @ lost) (s @ [StreamDiscontinuity])"

lemma marked_complete:
  "marked evs s \<Longrightarrow> StreamDiscontinuity \<notin> set s \<Longrightarrow> s = evs"
  by (induction rule: marked.induct) auto

lemma marked_subseq:
  assumes "marked evs s" and "StreamDiscontinuity \<notin> set evs"
  shows "subseq (filter (\<lambda>e. e \<noteq> StreamDiscontinuity) s) evs"
  using assms
proof (induction rule: marked.induct)
  case (marked_event evs s e)
  then show ?case by (auto intro: list_emb_append_mono)
next
  case (marked_gap evs s lost)
  then have "subseq (filter (\<lambda>e. e \<noteq> StreamDiscontinuity) s @ []) (evs @ lost)"
    by (intro list_emb_append_mono) auto
  then show ?case by simp
qed simp

text \<open>
  The life of the stream at position \<open>i\<close>: it is opened, events are dispatched, and in between its receiver
  takes messages out and anything else of the engine may change.
\<close>

inductive stream_run ::
  "(engine_event, 'q) channel_lib \<Rightarrow> ('q \<Rightarrow> engine_event list) \<Rightarrow> nat \<Rightarrow> engine_event list \<Rightarrow> ('r, 'q, 't) engine_inner \<Rightarrow> bool"
  for L sent i where
  opened: "i = length (in_events_stream_sender inner) \<Longrightarrow> stream_run L sent i [] (get_new_events_stream L h inner)"
| dispatched: "stream_run L sent i evs inner \<Longrightarrow> stream_run L sent i (evs @ [e]) (dispatch_event L e inner)"
| consumed: "stream_run L sent i evs inner \<Longrightarrow> i < length (in_events_stream_sender inner') \<Longrightarrow>
    in_events_stream_sender inner ! i = (h, d, q) \<Longrightarrow> in_events_stream_sender inner' ! i = (h', d, q') \<Longrightarrow> sent q' = sent q \<Longrightarrow>
    stream_run L sent i evs inner'"

lemma send_event_marks:
  assumes ok: "channel_ok L sent" and evs: "evs = pre @ lost" "marked pre (sent q)" "d \<longleftrightarrow> lost \<noteq> []"
    and s: "send_event L e (d, q) = (d', q')"
  shows "\<exists>pre' lost'. evs @ [e] = pre' @ lost' \<and> marked pre' (sent q') \<and> (d' \<longleftrightarrow> lost' \<noteq> [])"
proof -
  have send: "(\<exists>q2. ch_try_send L m q1 = (Sent, q2) \<and> sent q2 = sent q1 @ [m]) \<or>
      (\<exists>q2. ch_try_send L m q1 = (ChannelFull, q2) \<and> sent q2 = sent q1)" for m q1
    using ok by (simp add: channel_ok_def)
  have event: ?thesis if "marked pre1 (sent q1)" "evs = pre1"
    "(case ch_try_send L e q1 of (Sent, q2) \<Rightarrow> (False, q2) | (ChannelFull, q2) \<Rightarrow> (True, q2) | (ChannelClosed, q2) \<Rightarrow> (False, q2)) = (d', q')"
    for pre1 q1
    using send [of e q1]
  proof
    assume "\<exists>q2. ch_try_send L e q1 = (Sent, q2) \<and> sent q2 = sent q1 @ [e]"
    with that marked_event [OF that(1), of e] show ?thesis by (intro exI [of _ "pre1 @ [e]"] exI [of _ "[]"]) auto
  next
    assume "\<exists>q2. ch_try_send L e q1 = (ChannelFull, q2) \<and> sent q2 = sent q1"
    with that show ?thesis by (intro exI [of _ pre1] exI [of _ "[e]"]) auto
  qed
  show ?thesis
  proof (cases d)
    case False
    with evs s show ?thesis by (intro event [of pre q]) (auto simp: send_event_def)
  next
    case True
    from send [of StreamDiscontinuity q] show ?thesis
    proof
      assume "\<exists>q1. ch_try_send L StreamDiscontinuity q = (Sent, q1) \<and> sent q1 = sent q @ [StreamDiscontinuity]"
      then obtain q1 where q1: "ch_try_send L StreamDiscontinuity q = (Sent, q1)" "sent q1 = sent q @ [StreamDiscontinuity]" by blast
      have "marked evs (sent q1)" using marked_gap [OF evs(2), of lost] evs(1,3) True q1(2) by simp
      with s True q1(1) show ?thesis by (intro event [of evs q1]) (auto simp: send_event_def)
    next
      assume "\<exists>q1. ch_try_send L StreamDiscontinuity q = (ChannelFull, q1) \<and> sent q1 = sent q"
      with evs s True show ?thesis by (intro exI [of _ pre] exI [of _ "lost @ [e]"]) (auto simp: send_event_def)
    qed
  qed
qed

lemma stream_run_marked:
  assumes ok: "channel_ok L sent" and "stream_run L sent i evs inner"
  shows "i < length (in_events_stream_sender inner) \<and>
    (\<forall>h d q. in_events_stream_sender inner ! i = (h, d, q) \<longrightarrow>
       (\<exists>pre lost. evs = pre @ lost \<and> marked pre (sent q) \<and> (d \<longleftrightarrow> lost \<noteq> [])))"
  using assms(2)
proof (induction rule: stream_run.induct)
  case (opened inner h)
  then show ?case using ok marked_Nil by (auto simp: get_new_events_stream_def nth_append channel_ok_def)
next
  case (dispatched evs inner e)
  obtain h d q where q: "in_events_stream_sender inner ! i = (h, d, q)" by (metis surj_pair)
  obtain d' q' where s: "send_event L e (d, q) = (d', q')" by fastforce
  obtain pre lost where "evs = pre @ lost" "marked pre (sent q)" "d \<longleftrightarrow> lost \<noteq> []" using dispatched q by blast
  from send_event_marks [OF ok this s] dispatched(2) q s show ?case by (auto simp: dispatch_event_def)
qed auto

text \<open>
  (C5) No event is lost silently. At every moment the events that went into a stream are the events
  dispatched since it was opened, with every gap marked by an event of discontinuity, up to a last
  run of lost events that the engine remembers and marks before the next event. A stream
  without a mark that nothing is missing from has seen every event.
\<close>

theorem no_silent_loss:
  assumes "channel_ok L sent" and "stream_run L sent i evs inner"
    and "in_events_stream_sender inner ! i = (h, d, q)" and "StreamDiscontinuity \<notin> set evs"
  shows "(\<exists>pre lost. evs = pre @ lost \<and> marked pre (sent q) \<and> (d \<longleftrightarrow> lost \<noteq> [])) \<and>
    subseq (filter (\<lambda>e. e \<noteq> StreamDiscontinuity) (sent q)) evs \<and>
    (\<not> d \<and> StreamDiscontinuity \<notin> set (sent q) \<longrightarrow> sent q = evs)"
proof -
  obtain pre lost where p: "evs = pre @ lost" "marked pre (sent q)" "d \<longleftrightarrow> lost \<noteq> []"
    using stream_run_marked [OF assms(1,2)] assms(3) by blast
  moreover have "subseq (filter (\<lambda>e. e \<noteq> StreamDiscontinuity) (sent q)) evs"
    using marked_subseq [OF p(2)] p(1) assms(4) by (auto intro: subseq_order.trans subseq_rev_drop_many list_emb_append_mono)
  ultimately show ?thesis using marked_complete [OF p(2)] by auto
qed

text \<open>A channel that holds at most the announced number of messages, and keeps what was sent.\<close>

definition example_channel :: "('m, nat \<times> 'm list) channel_lib" where
  "example_channel =
     \<lparr>ch_new = \<lambda>n. (n, []),
      ch_try_send = \<lambda>m (free, s). if 0 < free then (Sent, (free - 1, s @ [m])) else (ChannelFull, (0, s))\<rparr>"

lemma example_channel_ok: "channel_ok example_channel snd"
  by (auto simp: channel_ok_def example_channel_def)

definition example_libs :: "(nat \<times> engine_event list, nat \<times> out_message list) engine_libs" where
  "example_libs = \<lparr>lib_events = example_channel, lib_transport = example_channel\<rparr>"

definition example_engine ::
  "'r dir_store \<Rightarrow> ('r, nat \<times> engine_event list, nat \<times> out_message list) engine_inner" where
  "example_engine st = engine_new (engine_config_default\<lparr>ec_events_stream_buffer_size := 1\<rparr>) st pending_new example_cell"

theorem no_silent_loss_witness:
  "\<exists>st :: (nat \<times> nat) list dir_store.
     let inner = dispatch_event example_channel (NewChainBlock 5) (dispatch_event example_channel (NewChainBlock 0)
        (get_new_events_stream example_channel 3 (example_engine st))) in
     in_events_stream_sender inner ! 0 = (3, True, 0, [NewChainBlock 0]) \<and>
     subseq (filter (\<lambda>e. e \<noteq> StreamDiscontinuity) [NewChainBlock 0]) [NewChainBlock 0, NewChainBlock 5] \<and>
     marked [NewChainBlock 0] [NewChainBlock 0]"
proof -
  obtain st :: "(nat \<times> nat) list dir_store" where "dir_create dir_config_default [] = Ok st" by (rule example_dir_store)
  let ?i0 = "get_new_events_stream example_channel 3 (example_engine st)"
  let ?i2 = "dispatch_event example_channel (NewChainBlock 5) (dispatch_event example_channel (NewChainBlock 0) ?i0)"
  have "0 = length (in_events_stream_sender (example_engine st))" by (simp add: example_engine_def engine_new_def)
  from stream_run.dispatched [OF stream_run.dispatched [OF stream_run.opened [OF this, of example_channel snd 3]]]
  have run: "stream_run example_channel snd 0 (([] @ [NewChainBlock 0]) @ [NewChainBlock 5]) ?i2" .
  have at: "in_events_stream_sender ?i2 ! 0 = (3, True, 0, [NewChainBlock 0])"
    by (simp add: dispatch_event_def send_event_def get_new_events_stream_def example_engine_def engine_new_def example_channel_def)
  have "marked ([] @ [NewChainBlock 0]) ([] @ [NewChainBlock 0])" by (rule marked_event [OF marked_Nil])
  with no_silent_loss [OF example_channel_ok run at] at show ?thesis by (intro exI [of _ st]) (simp add: Let_def)
qed

section \<open>Dropping handles\<close>

text \<open>
  Dropping a handle takes away its streams, but files the streams of all other handles under its own
  identifier: when another handle is dropped afterwards its streams stay registered, and the engine goes on
  sending events to them.
\<close>

lemma dropped_handle_takes_streams:
  assumes "g \<noteq> h" and "\<not> in_poisoned inner"
  shows "\<exists>inner'. drop_handle g (drop_handle h (Some inner)) = Some inner' \<and>
    map snd (in_events_stream_sender inner') = map snd (filter (\<lambda>(k, _). k \<noteq> h) (in_events_stream_sender inner)) \<and>
    (\<forall>s. (g, s) \<in> set (in_events_stream_sender inner) \<longrightarrow> s \<in> snd ` set (in_events_stream_sender inner'))"
proof -
  have other: "filter (\<lambda>(k, _). k \<noteq> g) (map (\<lambda>(_, s). (h, s)) xs) = map (\<lambda>(_, s). (h, s)) xs" for xs :: "(nat \<times> bool \<times> 'b) list"
    using assms(1) by (induction xs) auto
  let ?i = "unregister_handle g (unregister_handle h inner)"
  have eq: "map snd (in_events_stream_sender ?i) = map snd (filter (\<lambda>(k, _). k \<noteq> h) (in_events_stream_sender inner))"
    by (simp add: unregister_handle_def other)
  have "s \<in> snd ` set (in_events_stream_sender ?i)" if "(g, s) \<in> set (in_events_stream_sender inner)" for s
    using that assms(1) arg_cong [OF eq, of set] by force
  with eq assms(2) show ?thesis by (simp add: drop_handle_def) (simp add: unregister_handle_def)
qed

section \<open>A hostile message\<close>

text \<open>
  (C37) One message of another node stops the engine. Once the chain is synchronised, a request with a range
  of operations that starts and ends after the same operation, or that ends at the operation 0,
  makes the handler panic: the error is fatal, so the loop and the engine end, whatever comes next,
  and the lock is poisoned, so every later call on a handle fails.
\<close>

theorem hostile_message_stops_engine:
  assumes sync: "chain_is_synchronized inner" "\<not> in_poisoned inner"
    and m: "k \<noteq> 0" "rm_from_operation m = k" "rm_operations_frames m = None"
      "\<not> rm_from_included m \<and> rm_to_operation m = k \<and> \<not> rm_to_included m \<or> rm_to_operation m = 0 \<and> rm_to_included m"
  shows "\<exists>inner'. engine_turns C E L T ((now, Incoming (InPendingSyncRequest n
        (Some \<lparr>pr_from_block_height = hh, pr_ranges = [m]\<rparr>))) # inputs) inner = (False, inner') \<and> in_poisoned inner' \<and>
    engine_get_operation C E i (Some inner') = (Err EngPoisoned, Some inner') \<and>
    write_entry_operation C L T data (Some inner') = (Err EngPoisoned, Some inner')"
  using sync hostile_range_panics [OF m, of C "in_pending_synchronizer inner" n hh "in_pending_store inner"]
  by (simp add: engine_turn_def handle_incoming_message_def blocking_task_def locked_def handle_incoming_pending_sync_request_def
      engine_get_operation_def write_entry_operation_def on_inner_def on_inner_read_def)

theorem hostile_message_stops_engine_witness:
  "\<exists>st :: (nat \<times> nat) list dir_store. \<exists>inner'.
     engine_turns example_codec example_ext example_libs id [(0, Incoming (InPendingSyncRequest ''b''
        (Some \<lparr>pr_from_block_height = 0, pr_ranges =
          [\<lparr>rm_from_operation = 7, rm_from_included = False, rm_to_operation = 7, rm_to_included = False,
            rm_operations_hash = [], rm_operations_count = 0, rm_operations_headers = None, rm_operations_frames = None\<rparr>]\<rparr>))), (1, TimerTick)]
       ((example_engine st)\<lparr>in_chain_synchronizer := (chain_sync_new chain_sync_config_default example_cell)\<lparr>cy_status := SyncSynchronized\<rparr>\<rparr>)
       = (False, inner') \<and> in_poisoned inner'"
proof -
  obtain st :: "(nat \<times> nat) list dir_store" where "dir_create dir_config_default [] = Ok st" by (rule example_dir_store)
  let ?m = "\<lparr>rm_from_operation = 7, rm_from_included = False, rm_to_operation = 7, rm_to_included = False,
    rm_operations_hash = [], rm_operations_count = 0, rm_operations_headers = None, rm_operations_frames = None\<rparr> :: sync_range_msg"
  let ?i = "(example_engine st)\<lparr>in_chain_synchronizer := (chain_sync_new chain_sync_config_default example_cell)\<lparr>cy_status := SyncSynchronized\<rparr>\<rparr>"
  have "chain_is_synchronized ?i" "\<not> in_poisoned ?i" by (simp_all add: chain_is_synchronized_def example_engine_def engine_new_def)
  from hostile_message_stops_engine [OF this, of 7 ?m example_codec example_ext example_libs id 0 "''b''" 0 "[(1, TimerTick)]" 3 "[]"]
  show ?thesis by (intro exI [of _ st]) auto
qed

end
