(* ===== verification/Exo_Handle_Props.thy ===== *)
theory Exo_Handle_Props
  imports Exo_Engine_Props
begin

text \<open>
  Reading through the handle of an engine: the operations of the chain by iteration, an operation by
  its identifier from the chain or the pending store, and an entry that was just written.
\<close>

section \<open>Owned copies of the operations of a block\<close>

lemma sized_new_raw:
  assumes "sized_new (RawFrame d) = Ok g"
  obtains n where "g = SizedFrame (RawFrame d) 0 n" "n + 8 \<le> length d"
  using assms by (auto simp: sized_new_def check_from_size_def result_simps split: if_splits)

text \<open>An operation that was read from the start of some bytes is the same after it was copied.\<close>

lemma operation_owned:
  assumes f: "read_operation_frame C (RawFrame d) = Ok f" and m: "op_is C f m"
  shows "\<exists>g. typed_to_owned (dec_op C) f = Ok g \<and> op_is C g m"
proof -
  obtain s h where s: "sized_new (RawFrame d) = Ok s" and h: "multihash_new s = Ok h" "typed_capnp_new (dec_op C) h = Ok f"
    using f by (auto simp: read_operation_frame_def result_simps)
  obtain n where n: "s = SizedFrame (RawFrame d) 0 n" "n + 8 \<le> length d" by (rule sized_new_raw [OF s])
  have hf: "h = MultihashFrame s" using h(1) by (auto simp: multihash_new_def result_simps)
  let ?s = "SizedFrame (RawFrame (take (n + 8) d)) 0 n"
  have e: "exposed_data ?s = exposed_data s" and w: "whole_data s = Ok (take (n + 8) d)" "whole_data ?s = Ok (take (n + 8) d)"
    using n by (simp_all add: slice_def min_def take_drop)
  note [simp del] = exposed_data.simps(2) whole_data.simps(2)
  have fr: "tf_frame f = CapnpFrame (MultihashFrame s)" using typed_capnp_new_frame [OF h(2)] hf by simp
  obtain x where x: "exposed_data (MultihashFrame s) = Ok x" "dec_op C x = Some (tf_reader f)"
    using h(2) hf by (cases "exposed_data (MultihashFrame s)") (auto simp: typed_capnp_new_def result_simps simp del: exposed_data.simps)
  have o: "to_owned_frame (tf_frame f) = Ok (CapnpFrame (MultihashFrame ?s))"
    using w(1) by (simp add: fr n(1))
  have "typed_to_owned (dec_op C) f = Ok \<lparr>tf_frame = CapnpFrame (MultihashFrame ?s), tf_reader = tf_reader f\<rparr>"
    using x e by (simp add: typed_to_owned_def o)
  moreover have "op_is C \<lparr>tf_frame = CapnpFrame (MultihashFrame ?s), tf_reader = tf_reader f\<rparr> m"
    using m e w unfolding op_is_def typed_multihash_def fr by (simp add: n(1))
  ultimately show ?thesis by blast
qed

lemma iter_operations_read:
  "iter_operations C it = Ok fs \<Longrightarrow> f \<in> set fs \<Longrightarrow> \<exists>d. read_operation_frame C (RawFrame d) = Ok f"
proof (induction C it arbitrary: fs rule: iter_operations.induct)
  case (1 C it)
  obtain it' item where i: "operations_iter_next C it = Ok (it', item)"
    using "1.prems"(1) by (subst (asm) iter_operations.simps) (auto simp: result_simps)
  show ?case
  proof (cases item)
    case None
    with "1.prems" i show ?thesis by (subst (asm) iter_operations.simps) simp
  next
    case (Some g)
    then obtain gs where gs: "iter_operations C it' = Ok gs" "fs = g # gs"
      using "1.prems"(1) i by (subst (asm) iter_operations.simps) (auto simp: result_simps)
    have "\<exists>d. read_operation_frame C (RawFrame d) = Ok g"
      using i Some by (auto simp: operations_iter_next_def read_frame_def Let_def result_simps split: if_splits result.splits)
    with "1.IH" [OF i refl Some gs(1)] gs(2) "1.prems"(2) show ?thesis by auto
  qed
qed

lemma get_operation_read:
  "get_operation C b i = Ok (Some f) \<Longrightarrow> \<exists>d. read_operation_frame C (RawFrame d) = Ok f"
  by (auto simp: get_operation_def read_frame_def Let_def result_simps split: sum.splits if_splits)

section \<open>The operations of a block, as the handle gives them\<close>

text \<open>The operation \<open>m\<close> of the stored block \<open>a\<close>.\<close>

definition chain_op_is :: "('c) codec_scheme \<Rightarrow> engine_operation \<Rightarrow> ablock \<times> chain_operation \<Rightarrow> bool" where
  "chain_op_is C eo e \<longleftrightarrow>
     eo_operation_id eo = co_operation_id (snd e) \<and> op_is C (eo_frame eo) (snd e) \<and>
     eo_status eo = EngCommitted (bh_offset (ab_header (fst e))) (bh_height (ab_header (fst e)))"

definition chain_ops :: "chain \<Rightarrow> (ablock \<times> chain_operation) list" where
  "chain_ops ch = concat (map (\<lambda>(a, ms). map (Pair a) ms) ch)"

lemma own_operations_is:
  assumes "block_is C b a" and "list_all2 (op_is C) fs ms" and "\<forall>f \<in> set fs. \<exists>d. read_operation_frame C (RawFrame d) = Ok f"
  shows "\<exists>ops. own_operations C b fs = Ok ops \<and> list_all2 (chain_op_is C) ops (map (Pair a) ms)"
  using assms(2,3)
proof (induction fs ms rule: list_all2_induct)
  case (Cons f fs m ms)
  obtain g where "typed_to_owned (dec_op C) f = Ok g" "op_is C g m" using operation_owned Cons by fastforce
  with Cons show ?case
    by (auto simp: chain_op_is_def block_is_offset [OF assms(1)] block_is_height [OF assms(1)]) (auto simp: op_is_def)
qed simp

lemma block_engine_operations_is:
  assumes "block_is C b a" and "block_holds C a ms"
  shows "\<exists>ops. block_engine_operations C b = Ok ops \<and> list_all2 (chain_op_is C) ops (map (Pair a) ms)"
proof -
  obtain fs where fs: "block_operation_frames C b = Ok fs" "list_all2 (op_is C) fs ms"
    using block_operation_frames_is [OF block_is_reader [OF assms(1)] block_is_operations_data [OF assms(1)] assms(2)] by blast
  have "\<forall>f \<in> set fs. \<exists>d. read_operation_frame C (RawFrame d) = Ok f"
    using fs(1) iter_operations_read by (fastforce simp: block_operation_frames_def result_simps)
  from own_operations_is [OF assms(1) fs(2) this] fs(1) show ?thesis by (simp add: block_engine_operations_def)
qed

section \<open>Iterating\<close>

lemma next_from_block:
  assumes "ci_current_operations it = []" and "dir_get_block C (ci_next_offset it) st = (Ok b, st1)"
    and "block_engine_operations C b = Ok ops" and "next_offset b = Ok n"
  shows "collect_operations C it st = collect_operations C \<lparr>ci_next_offset = n, ci_current_operations = rev ops\<rparr> st1"
proof -
  let ?it = "\<lparr>ci_next_offset = n, ci_current_operations = rev ops\<rparr>"
  have f: "fetch_next_block C it st = fetch_next_block C ?it st1"
    using assms by (subst fetch_next_block.simps) simp
  have "chain_operations_next C it st = chain_operations_next C ?it st1"
  proof (cases "ops = []")
    case False
    then have "fetch_next_block C ?it st1 = Some (Ok (), ?it, st1)" by (subst fetch_next_block.simps) simp
    with f False assms(1) show ?thesis by (simp add: chain_operations_next_def)
  qed (simp add: chain_operations_next_def f assms(1))
  then show ?thesis by (subst (1 2) collect_operations.simps) simp
qed

lemma collect_current:
  assumes "collect_operations C \<lparr>ci_next_offset = n, ci_current_operations = []\<rparr> st = Some (Ok ops, st')"
  shows "collect_operations C \<lparr>ci_next_offset = n, ci_current_operations = cur\<rparr> st = Some (Ok (rev cur @ ops), st')"
proof (induction cur rule: rev_induct)
  case (snoc x xs)
  then show ?case by (subst collect_operations.simps) (simp add: chain_operations_next_def pop_operation_def)
qed (simp add: assms)

lemma collect_operations_ok:
  assumes "dir_store_holds C E st ch" and "k \<le> length ch"
  shows "\<exists>ops st'. collect_operations C \<lparr>ci_next_offset = chain_end C (take k ch), ci_current_operations = []\<rparr> st = Some (Ok ops, st') \<and>
    list_all2 (chain_op_is C) ops (chain_ops (drop k ch)) \<and> dir_store_holds C E st' ch"
  using assms
proof (induction "length ch - k" arbitrary: k st)
  case 0
  let ?it = "\<lparr>ci_next_offset = chain_end C (take k ch), ci_current_operations = []\<rparr>"
  have "dir_get_block C (chain_end C (take k ch)) st = (Err OutOfBound, st)" using dir.get_out [OF 0(2)] 0 by simp
  then have "fetch_next_block C ?it st = Some (Err (EngChainStore OutOfBound), ?it, st)" by (subst fetch_next_block.simps) simp
  then have "collect_operations C ?it st = Some (Ok [], st)"
    by (subst collect_operations.simps) (simp add: chain_operations_next_def)
  with 0 show ?case by (simp add: chain_ops_def)
next
  case (Suc d)
  then have k: "k < length ch" and dk: "d = length ch - Suc k" by linarith+
  obtain a ms where e: "ch ! k = (a, ms)" by fastforce
  have ok: "chain_ok C (take k ch @ (a, ms) # drop (Suc k) ch)"
    using dir.holds_ok [OF Suc.prems(1)] k e by (metis id_take_nth_drop)
  then have off: "offset_at ch k = chain_end C (take k ch)" and holds: "block_holds C a ms"
    using offset_at_end [OF ok] e by (simp_all add: chain_ok_def)
  obtain b st1 where b: "dir_get_block C (offset_at ch k) st = (Ok b, st1)" "block_is C b a" "dir_store_holds C E st1 ch"
    using dir.get_ok [OF Suc.prems(1) k] e by auto
  obtain ops where ops: "block_engine_operations C b = Ok ops" "list_all2 (chain_op_is C) ops (map (Pair a) ms)"
    using block_engine_operations_is [OF b(2) holds] by blast
  have end_k: "chain_end C (take (Suc k) ch) = chain_end C (take k ch) + length (block_bytes C a)"
    using k e by (simp add: take_Suc_conv_app_nth chain_end_append)
  have n: "next_offset b = Ok (chain_end C (take (Suc k) ch))"
    using block_is_next_offset [OF b(2)] off e end_k by simp
  obtain rest st' where r: "collect_operations C \<lparr>ci_next_offset = chain_end C (take (Suc k) ch), ci_current_operations = []\<rparr> st1 = Some (Ok rest, st')"
      "list_all2 (chain_op_is C) rest (chain_ops (drop (Suc k) ch))" "dir_store_holds C E st' ch"
    using Suc.hyps(1) [OF dk b(3)] k by auto
  have "collect_operations C \<lparr>ci_next_offset = chain_end C (take k ch), ci_current_operations = []\<rparr> st = Some (Ok (ops @ rest), st')"
    using next_from_block [OF _ _ ops(1) n, of "\<lparr>ci_next_offset = chain_end C (take k ch), ci_current_operations = []\<rparr>" st st1]
      b(1) off collect_current [OF r(1), of "rev ops"] by simp
  moreover have "chain_ops (drop k ch) = map (Pair a) ms @ chain_ops (drop (Suc k) ch)"
    using k e by (simp add: chain_ops_def Cons_nth_drop_Suc [symmetric])
  ultimately show ?case using ops(2) r(2,3) by (auto intro: list_all2_appendI)
qed

text \<open>
  (C18) Iterating over the operations of the chain ends, and gives the operations of every block from
  the given offset on, in order, each with the offset and the height of its block: blocks without
  operations are skipped by the loop that fetches the next block.
\<close>

theorem chain_operations_complete:
  assumes "dir_store_holds C E st ch" and "k \<le> length ch"
  shows "\<exists>ops st'. collect_operations C (chain_operations_iter_new (Some (chain_end C (take k ch)))) st = Some (Ok ops, st') \<and>
    list_all2 (chain_op_is C) ops (chain_ops (drop k ch))"
  using collect_operations_ok [OF assms] by (auto simp: chain_operations_iter_new_def)

theorem chain_operations_complete_witness:
  "\<exists>(st :: (nat \<times> nat) list dir_store) ops st'. dir_store_holds example_codec example_ext st [(example_genesis, example_ops)] \<and>
     collect_operations example_codec (chain_operations_iter_new (Some 0)) st = Some (Ok ops, st') \<and> map eo_operation_id ops = [3, 5]"
proof -
  obtain st where st: "dir_store_holds example_codec example_ext st [(example_genesis, example_ops)]" by (rule example_chain_held)
  obtain ops st' where o: "collect_operations example_codec (chain_operations_iter_new (Some 0)) st = Some (Ok ops, st')"
      "list_all2 (chain_op_is example_codec) ops (chain_ops [(example_genesis, example_ops)])"
    using chain_operations_complete [OF st, of 0] by (auto simp: chain_end_def span_of_def)
  from o(2) have "map eo_operation_id ops = [3, 5]"
    by (auto simp: chain_ops_def example_ops_def list_all2_Cons2 chain_op_is_def example_op_def)
  with st o(1) show ?thesis by (intro exI [of _ st] exI [of _ ops] exI [of _ st']) simp
qed

section \<open>An operation by its identifier\<close>

lemma from_chain_is:
  assumes b: "block_is C b a" and h: "block_holds C a ms"
  shows "if i \<in> co_operation_id ` set ms
    then \<exists>eo m. from_chain C b i = Ok (Some eo) \<and> m \<in> set ms \<and> co_operation_id m = i \<and> chain_op_is C eo (a, m)
    else from_chain C b i = Ok None"
proof (cases "i \<in> co_operation_id ` set ms")
  case True
  then obtain f m where f: "get_operation C b i = Ok (Some f)" "m \<in> set ms" "co_operation_id m = i" "op_is C f m"
    using get_operation_Some [OF b h] by blast
  obtain d where "read_operation_frame C (RawFrame d) = Ok f" using get_operation_read [OF f(1)] by blast
  from operation_owned [OF this f(4)] obtain g where "typed_to_owned (dec_op C) f = Ok g" "op_is C g m" by blast
  with f True show ?thesis
    by (auto simp: from_chain_def chain_op_is_def block_is_offset [OF b] block_is_height [OF b])
qed (simp add: from_chain_def get_operation_None [OF b h])

text \<open>An identifier is held by one block of a chain at most.\<close>

lemma holder_unique:
  assumes ok: "chain_ok C ch" and e: "e \<in> set ch" "holds_operation i e" and e': "e' \<in> set ch" "holds_operation i e'"
  shows "e = e'"
proof -
  let ?off = "\<lambda>e. bh_offset (ab_header (fst e))"
  have off: "?off e = ?off e'"
    using ok e e' ids_of_chain [of i "?off e" C ch] ids_of_chain [of i "?off e'" C ch] by (auto simp: chain_ok_def unique_ids_def)
  have less: "?off (ch ! j) < ?off (ch ! k)" if "j < k" "k < length ch" for j k
  proof -
    have "ch = take j ch @ ch ! j # drop (Suc j) ch" using that by (simp add: id_take_nth_drop)
    then have "contiguous C 0 (blocks_of (take j ch) @ fst (ch ! j) # blocks_of (drop (Suc j) ch))"
      using ok by (metis chain_ok_def list.simps(9) map_append)
    moreover have "ch ! k \<in> set (drop (Suc j) ch)"
      using that nth_mem [of "k - Suc j" "drop (Suc j) ch"] by simp
    ultimately show ?thesis using contiguous_offset_less by fastforce
  qed
  obtain j k where jk: "j < length ch" "e = ch ! j" "k < length ch" "e' = ch ! k" using e(1) e'(1) by (auto simp: in_set_conv_nth)
  with off less [of j k] less [of k j] show ?thesis by (metis less_irrefl linorder_neqE_nat)
qed

lemma chain_ops_iff: "(a, m) \<in> set (chain_ops ch) \<longleftrightarrow> (\<exists>ms. (a, ms) \<in> set ch \<and> m \<in> set ms)"
  by (force simp: chain_ops_def)

lemma get_operation_in_chain:
  assumes h: "dir_store_holds C E (in_chain_store inner) ch"
  shows "\<exists>r found inner'. on_engine_chain (on_chain (dir_get_block_by_operation_id C E i)) inner = (Ok found, inner') \<and>
    (case found of Some block \<Rightarrow> from_chain C block i | None \<Rightarrow> Ok None) = Ok r \<and>
    (if \<exists>x \<in> set (chain_ops ch). co_operation_id (snd x) = i
     then \<exists>eo. r = Some eo \<and> (\<exists>x \<in> set (chain_ops ch). co_operation_id (snd x) = i \<and> chain_op_is C eo x)
     else r = None)"
proof -
  obtain r st where r: "dir_get_block_by_operation_id C E i (in_chain_store inner) = (Ok r, st)"
      "case r of None \<Rightarrow> (\<forall>e \<in> set ch. \<not> holds_operation i e)
       | Some b \<Rightarrow> \<exists>e \<in> set ch. holds_operation i e \<and> block_is C b (fst e)"
    using dir.by_operation_ok [OF h] by blast
  have get: "on_engine_chain (on_chain (dir_get_block_by_operation_id C E i)) inner = (Ok r, inner\<lparr>in_chain_store := st\<rparr>)"
    using r(1) by (simp add: on_engine_chain_def on_chain_def)
  have held: "holds_operation i (a, ms)" if "(a, ms) \<in> set ch" "m \<in> set ms" "co_operation_id m = i" for a ms m
    using that by (auto simp: holds_operation_def block_ids_def)
  show ?thesis
  proof (cases r)
    case None
    then have "\<not> (\<exists>x \<in> set (chain_ops ch). co_operation_id (snd x) = i)" using r(2) held by (fastforce simp: chain_ops_iff)
    with get None show ?thesis by (intro exI [of _ None] exI [of _ r]) simp
  next
    case (Some b)
    then obtain a ms where e: "(a, ms) \<in> set ch" "holds_operation i (a, ms)" "block_is C b a" using r(2) by fastforce
    have "block_holds C a ms" using dir.holds_ok [OF h] e(1) by (auto simp: chain_ok_def)
    note f = from_chain_is [OF e(3) this, of i]
    have "i \<in> co_operation_id ` set ms" if y: "x \<in> set (chain_ops ch)" "co_operation_id (snd x) = i" for x
    proof -
      obtain a' ms' m where x: "(a', ms') \<in> set ch" "m \<in> set ms'" "co_operation_id m = i"
        using y chain_ops_iff [of "fst x" "snd x" ch] by auto
      have "(a, ms) = (a', ms')" by (rule holder_unique [OF dir.holds_ok [OF h] e(1,2) x(1) held [OF x]])
      with x show ?thesis by auto
    qed
    moreover have "\<exists>x \<in> set (chain_ops ch). co_operation_id (snd x) = i" if "i \<in> co_operation_id ` set ms"
      using that e(1) chain_ops_iff by (metis (no_types, lifting) imageE snd_conv)
    ultimately have "(\<exists>x \<in> set (chain_ops ch). co_operation_id (snd x) = i) \<longleftrightarrow> i \<in> co_operation_id ` set ms" by blast
    moreover have "(a, m) \<in> set (chain_ops ch)" if "m \<in> set ms" for m using that e(1) chain_ops_iff by blast
    ultimately show ?thesis
      using f get Some by (cases "i \<in> co_operation_id ` set ms") (auto intro!: rev_bexI [of "(a, _)"])
  qed
qed

lemma get_operation_result:
  assumes h: "dir_store_holds C E (in_chain_store inner) ch" and p: "\<not> in_poisoned inner"
  shows "\<exists>r s. engine_get_operation C E i (Some inner) = (Ok r, s) \<and>
    (let pending = pending_get (in_pending_store inner) i in
     if \<exists>op. pending = Some op \<and> so_commit_status op \<noteq> StatusUnknown then r = map_option from_pending pending
     else if \<exists>x \<in> set (chain_ops ch). co_operation_id (snd x) = i
     then \<exists>eo. r = Some eo \<and> (\<exists>x \<in> set (chain_ops ch). co_operation_id (snd x) = i \<and> chain_op_is C eo x)
     else r = map_option from_pending pending)"
proof -
  obtain r found inner' where r: "on_engine_chain (on_chain (dir_get_block_by_operation_id C E i)) inner = (Ok found, inner')"
      "(case found of Some block \<Rightarrow> from_chain C block i | None \<Rightarrow> Ok None) = Ok r"
      "if \<exists>x \<in> set (chain_ops ch). co_operation_id (snd x) = i
       then \<exists>eo. r = Some eo \<and> (\<exists>x \<in> set (chain_ops ch). co_operation_id (snd x) = i \<and> chain_op_is C eo x) else r = None"
    using get_operation_in_chain [OF h] by blast
  show ?thesis
  proof (cases "pending_get (in_pending_store inner) i")
    case None
    with r p show ?thesis by (simp add: engine_get_operation_def on_inner_def on_inner_read_def locked_def)
  next
    case (Some op)
    show ?thesis
    proof (cases "so_commit_status op = StatusUnknown")
      case True
      with r p Some show ?thesis
        by (auto simp: engine_get_operation_def on_inner_def on_inner_read_def locked_def split: if_splits)
    next
      case False
      with p Some show ?thesis by (simp add: engine_get_operation_def on_inner_def on_inner_read_def locked_def)
    qed
  qed
qed

text \<open>
  (C7) The handle finds an operation wherever it is: with the commit status of the pending store when
  that is known, else committed at the offset and height of its block when a block of the chain holds it,
  else as the pending operation it is, and \<open>None\<close> when neither store has it; there is no error.
\<close>

theorem engine_finds_operation:
  assumes h: "dir_store_holds C E (in_chain_store inner) ch" and p: "\<not> in_poisoned inner"
  shows "\<exists>r s. engine_get_operation C E i (Some inner) = (Ok r, s) \<and>
    (let pending = pending_get (in_pending_store inner) i in
     if \<exists>op. pending = Some op \<and> so_commit_status op \<noteq> StatusUnknown then r = map_option from_pending pending
     else if \<exists>x \<in> set (chain_ops ch). co_operation_id (snd x) = i
     then \<exists>eo. r = Some eo \<and> (\<exists>x \<in> set (chain_ops ch). co_operation_id (snd x) = i \<and> chain_op_is C eo x)
     else r = map_option from_pending pending)"
  by (rule get_operation_result [OF assms])

theorem engine_finds_operation_witness:
  "\<exists>(st :: (nat \<times> nat) list dir_store) eo s. dir_store_holds example_codec example_ext st [(example_genesis, example_ops)] \<and>
     engine_get_operation example_codec example_ext 5 (Some (example_engine st)) = (Ok (Some eo), s) \<and>
     eo_status eo = EngCommitted 0 1"
proof -
  obtain st where st: "dir_store_holds example_codec example_ext st [(example_genesis, example_ops)]" by (rule example_chain_held)
  have p: "\<not> in_poisoned (example_engine st)" "in_chain_store (example_engine st) = st" "in_pending_store (example_engine st) = pending_new"
    by (simp_all add: example_engine_def engine_new_def)
  have "pending_get pending_new 5 = None" by (simp add: mem.get_new)
  moreover have x: "chain_ops [(example_genesis, example_ops)] = [(example_genesis, example_op 3), (example_genesis, example_op 5)]"
    by (simp add: chain_ops_def example_ops_def)
  ultimately obtain eo s where "engine_get_operation example_codec example_ext 5 (Some (example_engine st)) = (Ok (Some eo), s)"
      "chain_op_is example_codec eo (example_genesis, example_op 5)"
    using engine_finds_operation [of example_codec example_ext "example_engine st" "[(example_genesis, example_ops)]" 5] st p
    by (auto simp: example_op_def Let_def)
  moreover have "bh_offset (ab_header example_genesis) = 0" "bh_height (ab_header example_genesis) = 1"
    by (simp_all add: example_genesis_def built_ablock_def built_header_def)
  ultimately have "engine_get_operation example_codec example_ext 5 (Some (example_engine st)) = (Ok (Some eo), s) \<and>
     eo_status eo = EngCommitted 0 1" by (simp add: chain_op_is_def)
  with st show ?thesis by (intro exI [of _ st] exI [of _ eo]) blast
qed

section \<open>Writing an entry\<close>

text \<open>The engine between two calls: its stores are consistent, and it can send once the chain is synchronised.\<close>

definition engine_ready :: "('c) codec_scheme \<Rightarrow> 'r ext_index \<Rightarrow> ('r, 'q, 't) engine_inner \<Rightarrow> chain \<Rightarrow> bool" where
  "engine_ready C E inner ch \<longleftrightarrow>
     \<not> in_poisoned inner \<and> dir_store_holds C E (in_chain_store inner) ch \<and> pending_inv (in_pending_store inner) \<and>
     frames_ok C (in_pending_store inner) \<and> py_cell (in_pending_synchronizer inner) = in_cell inner \<and>
     (chain_is_synchronized inner \<longrightarrow> in_transport_sender inner \<noteq> None)"

lemma send_new_operation_ok:
  assumes "pending_inv store" and "frames_ok C store"
  shows "\<exists>sc'. send_new_operation C py store i cns sc = (Ok (), sc') \<and> sc_events sc' = sc_events sc \<and>
    dest_node ` set (sc_messages sc') \<subseteq> dest_node ` set (sc_messages sc) \<union> cn_id ` set cns"
proof (induction cns arbitrary: sc)
  case (Cons cn cns)
  let ?d = "\<lambda>op. if so_operation_id op = i then DetailsFull else DetailsNone"
  obtain req where r: "create_sync_request_for_range C py sc store (Included i, Unbounded) ?d = Ok req"
    using request_ranges [OF assms, of py sc "Included i" ?d] by blast
  obtain sc' where 1: "send_new_operation C py store i cns (push_pending_sync_request (cn_id cn) req sc) = (Ok (), sc')"
      "sc_events sc' = sc_events sc" "dest_node ` set (sc_messages sc') \<subseteq> dest_node ` set (sc_messages (push_pending_sync_request (cn_id cn) req sc)) \<union> cn_id ` set cns"
    using Cons.IH [of "push_pending_sync_request (cn_id cn) req sc"] by (auto simp: push_defs)
  have "dest_node ` set (sc_messages sc') \<subseteq> dest_node ` set (sc_messages sc) \<union> cn_id ` set (cn # cns)"
    using 1(3) by (auto simp: push_defs)
  with r 1(1,2) show ?case by simp
qed simp

lemma send_messages_ok:
  assumes "dest_node ` set msgs \<subseteq> cn_id ` set (cell_nodes (in_cell inner))" and "in_transport_sender inner = Some t"
  shows "\<exists>t'. send_messages L msgs inner = (Ok (), inner\<lparr>in_transport_sender := Some t'\<rparr>)"
  using assms
proof (induction msgs arbitrary: inner t)
  case (Cons m msgs)
  obtain n where n: "get_node (in_cell inner) (dest_node m) = Some n"
    using Cons.prems(1) by (cases "get_node (in_cell inner) (dest_node m)") (auto simp: get_node_def find_None_iff)
  let ?i = "inner\<lparr>in_transport_sender := Some (snd (ch_try_send L (n, m) t))\<rparr>"
  obtain t' where "send_messages L msgs ?i = (Ok (), ?i\<lparr>in_transport_sender := Some t'\<rparr>)"
    using Cons.IH [of ?i] Cons.prems(1) by auto
  with n Cons.prems(2) show ?case by (auto simp: into_out_message_def)
next
  case Nil
  then have "inner = inner\<lparr>in_transport_sender := Some t\<rparr>" by simp
  then show ?case by auto
qed

lemma dispatch_keeps [simp]:
  "in_chain_store (dispatch_event L e inner) = in_chain_store inner"
  "in_pending_store (dispatch_event L e inner) = in_pending_store inner"
  "in_poisoned (dispatch_event L e inner) = in_poisoned inner"
  by (simp_all add: dispatch_event_def)

lemma dispatches_keep [simp]:
  "in_chain_store (fold (dispatch_event L) es inner) = in_chain_store inner"
  "in_pending_store (fold (dispatch_event L) es inner) = in_pending_store inner"
  "in_poisoned (fold (dispatch_event L) es inner) = in_poisoned inner"
  by (induction es arbitrary: inner) simp_all

lemma flush_context_ok:
  assumes "send \<Longrightarrow> dest_node ` set (sc_messages sc) \<subseteq> cn_id ` set (cell_nodes (in_cell inner)) \<and> in_transport_sender inner \<noteq> None"
  shows "\<exists>inner'. flush_context L send sc inner = (Ok (), inner') \<and> in_chain_store inner' = in_chain_store inner \<and>
    in_pending_store inner' = in_pending_store inner \<and> in_poisoned inner' = in_poisoned inner"
proof (cases send)
  case True
  let ?i = "inner\<lparr>in_sync_state := sc_sync_state sc\<rparr>"
  obtain t' where "send_messages (lib_transport L) (sc_messages sc) ?i = (Ok (), ?i\<lparr>in_transport_sender := Some t'\<rparr>)"
    using send_messages_ok [of "sc_messages sc" ?i _ "lib_transport L"] assms [OF True] by fastforce
  with True show ?thesis by (simp add: flush_context_def send_messages_from_sync_context_def dispatch_events_from_sync_context_def)
qed (simp add: flush_context_def dispatch_events_from_sync_context_def)

lemma new_operation_ok:
  assumes r: "engine_ready C E inner ch" and f: "op_is C (no_frame op) m" "op_codec_ok C m" "0 < co_operation_id m"
  shows "\<exists>inner'. engine_new_operation C L op inner = (Ok (), inner') \<and> in_chain_store inner' = in_chain_store inner \<and>
    in_pending_store inner' = snd (pending_put op (in_pending_store inner)) \<and> \<not> in_poisoned inner'"
proof -
  let ?store = "snd (pending_put op (in_pending_store inner))" and ?sc = "push_event (NewPendingOperation (op_get_id (no_frame op))) (sync_context_new (in_sync_state inner))"
  have inv: "pending_inv (in_pending_store inner)" using r by (simp add: engine_ready_def)
  have id: "op_get_id (no_frame op) = co_operation_id m" using f(1) by (simp add: op_is_def op_get_id_def)
  have new: "frame_ok C (new_stored op)" "so_operation_id (new_stored op) = co_operation_id m"
    using f id by (auto simp: frame_ok_def new_stored_def)
  have "frames_ok C ?store"
    using r new f(3) mem.get_put [OF inv] by (auto simp: frames_ok_def engine_ready_def id ran_def split: if_splits)
  from send_new_operation_ok [OF mem.inv_put [OF inv] this, of "in_pending_synchronizer inner" "op_get_id (no_frame op)"
      "chain_nodes_except_local (in_cell inner)" ?sc]
  obtain sc' where s: "send_new_operation C (in_pending_synchronizer inner) ?store (op_get_id (no_frame op)) (chain_nodes_except_local (in_cell inner)) ?sc = (Ok (), sc')"
      "dest_node ` set (sc_messages sc') \<subseteq> cn_id ` set (chain_nodes_except_local (in_cell inner))"
    by (auto simp: push_event_def sync_context_new_def)
  have "cn_id ` set (chain_nodes_except_local (in_cell inner)) \<subseteq> cn_id ` set (cell_nodes (in_cell inner))"
    by (auto simp: chain_nodes_except_local_def all_except_local_def all_except_def)
  with s(2) have d: "dest_node ` set (sc_messages sc') \<subseteq> cn_id ` set (cell_nodes (in_cell (inner\<lparr>in_pending_store := ?store\<rparr>)))" by simp
  have h: "handle_new_operation C (in_pending_synchronizer inner) op (in_pending_store inner, sync_context_new (in_sync_state inner)) = (Ok (), (?store, sc'))"
    using s(1) r by (simp add: handle_new_operation_def Let_def engine_ready_def)
  obtain inner' where "flush_context L (chain_is_synchronized inner) sc' (inner\<lparr>in_pending_store := ?store\<rparr>) = (Ok (), inner')"
      "in_chain_store inner' = in_chain_store inner" "in_pending_store inner' = ?store" "in_poisoned inner' = in_poisoned inner"
    using flush_context_ok [of "chain_is_synchronized inner" sc' "inner\<lparr>in_pending_store := ?store\<rparr>" L] d r by (auto simp: engine_ready_def)
  with h r show ?thesis by (simp add: engine_new_operation_def engine_ready_def)
qed

text \<open>
  (C17) An entry written through the handle is found through it: the call returns the timestamp it took,
  whether or not the chain is synchronised and whatever the transport accepts, and reading that
  identifier gives the entry with its data, as a pending operation.
\<close>

theorem written_entry_found:
  assumes r: "engine_ready C E inner ch" and T: "i = T (in_clock inner)" "0 < i"
    and fresh: "\<forall>x \<in> set (chain_ops ch). co_operation_id (snd x) \<noteq> i"
    and ok: "op_codec_ok C (ob_message (new_entry i (local_node_id (in_cell inner)) data))"
  shows "\<exists>inner' eo s. write_entry_operation C L T data (Some inner) = (Ok i, Some inner') \<and>
    engine_get_operation C E i (Some inner') = (Ok (Some eo), s) \<and>
    eo_operation_id eo = i \<and> eo_status eo = EngPending \<and> as_entry_data (eo_frame eo) = Ok data"
proof -
  let ?m = "ob_message (new_entry i (local_node_id (in_cell inner)) data)"
  let ?inner = "inner\<lparr>in_clock := Suc (in_clock inner)\<rparr>"
  obtain op where op: "sign_and_build C (new_entry i (local_node_id (in_cell inner)) data) = Ok op" "op_is C (no_frame op) ?m"
    using sign_and_build_is [OF ok] by blast
  have m: "co_operation_id ?m = i" "co_operation ?m = OpEntry data" by (simp_all add: new_entry_def)
  have "engine_ready C E ?inner ch" using r by (simp add: engine_ready_def chain_is_synchronized_def)
  then obtain inner' where n: "engine_new_operation C L op ?inner = (Ok (), inner')" "in_chain_store inner' = in_chain_store inner"
      "in_pending_store inner' = snd (pending_put op (in_pending_store inner))" "\<not> in_poisoned inner'"
    using new_operation_ok [OF _ op(2) ok, of E ?inner ch L] m(1) T(2) by auto
  have w: "write_entry_operation C L T data (Some inner) = (Ok i, Some inner')"
    using n(1) op(1) r T(1) by (simp add: write_entry_operation_def on_inner_def on_inner_read_def locked_def engine_time_def engine_ready_def)
  have "op_get_id (no_frame op) = i" using op(2) m(1) by (simp add: op_is_def op_get_id_def)
  then have g: "pending_get (in_pending_store inner') i = Some (new_stored op)"
    using mem.get_put [of "in_pending_store inner" op] r n(3) by (simp add: engine_ready_def)
  have "dir_store_holds C E (in_chain_store inner') ch" using r n(2) by (simp add: engine_ready_def)
  from get_operation_result [OF this n(4), of i] g fresh obtain s where
    "engine_get_operation C E i (Some inner') = (Ok (Some (from_pending (new_stored op))), s)"
    by (auto simp: new_stored_def)
  with w op(2) m \<open>op_get_id (no_frame op) = i\<close> show ?thesis
    by (auto simp: from_pending_def new_stored_def as_entry_data_def op_is_def)
qed

theorem written_entry_found_witness:
  "\<exists>(st :: (nat \<times> nat) list dir_store) inner' eo s.
     write_entry_operation example_codec example_libs (\<lambda>k. k + 50) [4, 2] (Some (example_engine st)) = (Ok 50, Some inner') \<and>
     engine_get_operation example_codec example_ext 50 (Some inner') = (Ok (Some eo), s) \<and> as_entry_data (eo_frame eo) = Ok [4, 2]"
proof -
  obtain st where st: "dir_store_holds example_codec example_ext st [(example_genesis, example_ops)]" by (rule example_chain_held)
  have "frames_ok example_codec pending_new" by (simp add: frames_ok_def mem.get_new)
  then have r: "engine_ready example_codec example_ext (example_engine st) [(example_genesis, example_ops)]"
    using st mem.inv_new by (simp add: engine_ready_def example_engine_def engine_new_def pending_sync_new_def chain_is_synchronized_def chain_sync_new_def)
  have f: "\<forall>x \<in> set (chain_ops [(example_genesis, example_ops)]). co_operation_id (snd x) \<noteq> 50"
    by (simp add: chain_ops_def example_ops_def example_op_def)
  have i: "in_clock (example_engine st) = 0" by (simp add: example_engine_def engine_new_def)
  have ok: "op_codec_ok example_codec (ob_message (new_entry 50 (local_node_id (in_cell (example_engine st))) [4, 2]))"
    by (rule op_codec_example) (simp add: new_entry_def example_engine_def engine_new_def example_cell_def example_lengths multihash_size_def)
  have "\<exists>inner' eo s. write_entry_operation example_codec example_libs (\<lambda>k. k + 50) [4, 2] (Some (example_engine st)) = (Ok 50, Some inner') \<and>
      engine_get_operation example_codec example_ext 50 (Some inner') = (Ok (Some eo), s) \<and>
      eo_operation_id eo = 50 \<and> eo_status eo = EngPending \<and> as_entry_data (eo_frame eo) = Ok [4, 2]"
    by (rule written_entry_found [OF r _ _ f ok]) (simp_all add: i)
  then show ?thesis by blast
qed

end
