(* ===== verification/Exo_Ordering.thy ===== *)
theory Exo_Ordering
  imports "HOL-Library.Multiset" Exo_Data
begin

text \<open>
  The values by which the results of a query are ordered (\<open>store/src/ordering.rs\<close>), and the selection
  of the best results when the score of a result may only get worse
  (\<open>store/src/local/top_results.rs\<close>).
\<close>

section \<open>Ordering values\<close>

text \<open>
  A floating point number as far as comparisons go: its rank among all of them in increasing order, the
  infinities included, or \<open>None\<close> for NaN.
\<close>

type_synonym float_value = "int option"

datatype ordering_kind =
    MinValue bool
  | MaxValue bool
  | FloatValue float_value
  | UintValue nat
  | DateValue int int

record ordering_value =
  ov_value :: "ordering_kind option"
  ov_operation_id :: nat

record ordering_wrapper =
  ow_value :: ordering_value
  ow_reverse :: bool
  ow_ignore :: bool

definition cmp_of :: "'a :: linorder \<Rightarrow> 'a \<Rightarrow> ordering" where
  "cmp_of x y = (if x < y then Less else if x = y then Equal else Greater)"

text \<open>Equality of the messages: NaN is not equal to itself.\<close>

fun kind_eq :: "ordering_kind option \<Rightarrow> ordering_kind option \<Rightarrow> bool" where
  "kind_eq (Some (FloatValue None)) _ = False"
| "kind_eq a b = (a = b)"

fun kind_cmp :: "ordering_kind option \<Rightarrow> ordering_kind option \<Rightarrow> ordering option" where
  "kind_cmp (Some (MinValue _)) _ = Some Less"
| "kind_cmp _ (Some (MinValue _)) = Some Greater"
| "kind_cmp (Some (MaxValue _)) _ = Some Greater"
| "kind_cmp _ (Some (MaxValue _)) = Some Less"
| "kind_cmp (Some (FloatValue (Some x))) (Some (FloatValue (Some y))) = Some (cmp_of x y)"
| "kind_cmp (Some (UintValue x)) (Some (UintValue y)) = Some (cmp_of x y)"
| "kind_cmp (Some (DateValue s n)) (Some (DateValue s' n')) = Some (if s \<noteq> s' then cmp_of s s' else cmp_of n n')"
| "kind_cmp _ _ = None"

definition value_partial_cmp :: "ordering_value \<Rightarrow> ordering_value \<Rightarrow> ordering option" where
  "value_partial_cmp a b =
     (if kind_eq (ov_value a) (ov_value b) then Some (cmp_of (ov_operation_id a) (ov_operation_id b))
      else kind_cmp (ov_value a) (ov_value b))"

definition is_after :: "ordering_value \<Rightarrow> ordering_value \<Rightarrow> bool" where
  "is_after a b \<longleftrightarrow> value_partial_cmp a b = Some Greater"

definition is_before :: "ordering_value \<Rightarrow> ordering_value \<Rightarrow> bool" where
  "is_before a b \<longleftrightarrow> value_partial_cmp a b = Some Less"

record paging =
  pg_after_ordering_value :: "ordering_value option"
  pg_before_ordering_value :: "ordering_value option"

definition is_within_page_bound :: "ordering_value \<Rightarrow> paging \<Rightarrow> bool" where
  "is_within_page_bound v page \<longleftrightarrow>
     (case pg_before_ordering_value page of Some before \<Rightarrow> is_before v before | None \<Rightarrow> True) \<and>
     (case pg_after_ordering_value page of Some aft \<Rightarrow> is_after v aft | None \<Rightarrow> True)"

definition is_within_bound :: "ordering_wrapper \<Rightarrow> ordering_value \<Rightarrow> ordering_value \<Rightarrow> bool" where
  "is_within_bound w lower higher \<longleftrightarrow> is_after (ow_value w) lower \<and> is_before (ow_value w) higher"

fun is_score :: "ordering_wrapper \<Rightarrow> bool" where
  "is_score w = (case ov_value (ow_value w) of Some (FloatValue _) \<Rightarrow> True | _ \<Rightarrow> False)"

fun ordering_reverse :: "ordering \<Rightarrow> ordering" where
  "ordering_reverse Less = Greater"
| "ordering_reverse Equal = Equal"
| "ordering_reverse Greater = Less"

text \<open>Values of different kinds are not comparable: the comparison panics.\<close>

definition wrapper_cmp :: "ordering_wrapper \<Rightarrow> ordering_wrapper \<Rightarrow> (unit, ordering) result" where
  "wrapper_cmp a b =
     (if ow_ignore a \<and> ow_ignore b then Ok Equal
      else if ow_ignore a then Ok Less
      else if ow_ignore b then Ok Greater
      else and_then (expect (value_partial_cmp (ow_value a) (ow_value b))) (\<lambda>c.
        Ok (if ow_reverse a then ordering_reverse c else c)))"

definition value_from_u64 :: "nat \<Rightarrow> nat \<Rightarrow> ordering_value" where
  "value_from_u64 v operation_id = \<lparr>ov_value = Some (UintValue v), ov_operation_id = operation_id\<rparr>"

definition value_from_f32 :: "float_value \<Rightarrow> nat \<Rightarrow> ordering_value" where
  "value_from_f32 v operation_id = \<lparr>ov_value = Some (FloatValue v), ov_operation_id = operation_id\<rparr>"

definition value_max :: ordering_value where
  "value_max = \<lparr>ov_value = Some (MaxValue True), ov_operation_id = 0\<rparr>"

definition value_min :: ordering_value where
  "value_min = \<lparr>ov_value = Some (MinValue True), ov_operation_id = 0\<rparr>"

section \<open>The best results\<close>

text \<open>
  The reserve is a heap by penalised score: a list from which the first element with the greatest
  score is taken. Which one of several with the same score a heap gives is not specified.
\<close>

type_synonym ('e, 's) reserve = "('e \<times> 's) list"

fun peek_max :: "('e, 's :: linorder) reserve \<Rightarrow> ('e \<times> 's) option" where
  "peek_max [] = None"
| "peek_max (x # xs) = (case peek_max xs of None \<Rightarrow> Some x | Some y \<Rightarrow> if snd x \<ge> snd y then Some x else Some y)"

definition pop_max :: "('e, 's :: linorder) reserve \<Rightarrow> (('e \<times> 's) \<times> ('e, 's) reserve) option" where
  "pop_max r = map_option (\<lambda>x. (x, remove1 x r)) (peek_max r)"

definition is_reserve_peek_higher :: "('e, 's :: linorder) reserve \<Rightarrow> 's \<Rightarrow> bool" where
  "is_reserve_peek_higher r score = (case peek_max r of Some x \<Rightarrow> snd x \<ge> score | None \<Rightarrow> False)"

lemma peek_max_in: "peek_max r = Some x \<Longrightarrow> x \<in> set r"
  by (induction r arbitrary: x) (auto split: option.splits if_splits)

lemma pop_max_Some: "pop_max r = Some (x, r') \<longleftrightarrow> peek_max r = Some x \<and> r' = remove1 x r"
  by (cases x) (auto simp: pop_max_def)

lemma pop_max_length: "pop_max r = Some (x, r') \<Longrightarrow> length r' < length r"
  by (auto simp: pop_max_Some length_remove1 length_greater_0_conv [symmetric] simp del: length_greater_0_conv
      dest: peek_max_in length_pos_if_in_set)

text \<open>Items of the reserve move to the results, while they satisfy the condition and there is room.\<close>

function drain :: "(('e, 's :: linorder) reserve \<Rightarrow> bool) \<Rightarrow> nat \<Rightarrow> ('e, 's) reserve \<Rightarrow> 'e list \<Rightarrow> ('e, 's) reserve \<times> 'e list" where
  "drain P cnt r top_results =
     (if P r \<and> length top_results < cnt then
        (case pop_max r of
           None \<Rightarrow> (r, top_results)
         | Some (x, r') \<Rightarrow> drain P cnt r' (top_results @ [fst x]))
      else (r, top_results))"
  by pat_completeness auto
termination
  by (relation "measure (\<lambda>(P, cnt, r, top). length r)") (auto dest: pop_max_length)

declare drain.simps [simp del]

fun fill_results ::
  "('e \<Rightarrow> 's :: linorder \<times> 's) \<Rightarrow> nat \<Rightarrow> 'e list \<Rightarrow> ('e, 's) reserve \<Rightarrow> 'e list \<Rightarrow> ('e, 's) reserve \<times> 'e list" where
  "fill_results scorer cnt [] r top_results = (r, top_results)"
| "fill_results scorer cnt (item # items) r top_results =
     (let (score, penalized_score) = scorer item;
          (r1, top1) = drain (\<lambda>r. is_reserve_peek_higher r score) cnt r top_results in
      if length top1 \<ge> cnt then (r1, top1)
      else fill_results scorer cnt items (r1 @ [(item, penalized_score)]) top1)"

definition top_negatively_rescored_results :: "nat \<Rightarrow> ('e \<Rightarrow> 's :: linorder \<times> 's) \<Rightarrow> 'e list \<Rightarrow> 'e list" where
  "top_negatively_rescored_results cnt scorer items =
     (let (r, top) = fill_results scorer cnt items [] [] in snd (drain (\<lambda>r. r \<noteq> []) cnt r top))"


section \<open>The results are the best ones\<close>

text \<open>
  What holds while the results are filled: the reserve holds penalised scores, and the results are in
  order and better than the reserve and than what is still to come.
\<close>

definition best_so_far :: "('e \<Rightarrow> 's :: linorder) \<Rightarrow> ('e, 's) reserve \<Rightarrow> 'e list \<Rightarrow> 'e list \<Rightarrow> bool" where
  "best_so_far pen r top_results rest \<longleftrightarrow>
     (\<forall>x \<in> set r. snd x = pen (fst x)) \<and> sorted_wrt (\<ge>) (map pen top_results) \<and>
     (\<forall>t \<in> set top_results. (\<forall>x \<in> set r. pen t \<ge> snd x) \<and> (\<forall>y \<in> set rest. pen t \<ge> pen y))"

lemma peek_max_None: "peek_max r = None \<longleftrightarrow> r = []"
  by (cases r) (auto split: option.splits)

lemma peek_max_ge: "peek_max r = Some x \<Longrightarrow> y \<in> set r \<Longrightarrow> snd y \<le> snd x"
  by (induction r arbitrary: x) (force simp: peek_max_None split: option.splits if_splits)+

lemma best_so_far_pop:
  assumes "best_so_far pen r top_results rest" "peek_max r = Some x" "\<forall>y \<in> set rest. pen y \<le> snd x"
  shows "best_so_far pen (remove1 x r) (top_results @ [fst x]) rest"
proof -
  have sub: "y \<in> set r" if "y \<in> set (remove1 x r)" for y
    using that set_remove1_subset [of x r] by blast
  have "snd x = pen (fst x)" "x \<in> set r"
    using assms(1) peek_max_in [OF assms(2)] by (auto simp: best_so_far_def)
  then show ?thesis
    using assms(1,3) peek_max_ge [OF assms(2)] unfolding best_so_far_def
    by (auto simp: sorted_wrt_append dest!: sub)
qed

lemma drain_best:
  assumes "best_so_far pen r top_results rest" "length top_results \<le> cnt"
    "\<And>r x. P r \<Longrightarrow> peek_max r = Some x \<Longrightarrow> \<forall>y \<in> set rest. pen y \<le> snd x"
    "drain P cnt r top_results = (r', top')"
  shows "best_so_far pen r' top' rest \<and> length top' \<le> cnt \<and>
    mset (top' @ map fst r') = mset (top_results @ map fst r)"
  using assms
proof (induction P cnt r top_results rule: drain.induct)
  case (1 P cnt r top_results)
  show ?case
  proof (cases "P r \<and> length top_results < cnt \<and> r \<noteq> []")
    case True
    then obtain x where x: "peek_max r = Some x"
      using peek_max_None by blast
    have "drain P cnt (remove1 x r) (top_results @ [fst x]) = (r', top')"
      using 1(5) True x by (subst (asm) drain.simps) (simp add: pop_max_def)
    then have "best_so_far pen r' top' rest \<and> length top' \<le> cnt \<and>
        mset (top' @ map fst r') = mset ((top_results @ [fst x]) @ map fst (remove1 x r))"
      using 1(1) [of "(x, remove1 x r)" x "remove1 x r"] True x 1(2-4) best_so_far_pop [OF 1(2) x]
      by (simp add: pop_max_def) blast
    moreover have "mset (map fst r) = add_mset (fst x) (mset (map fst (remove1 x r)))"
      using peek_max_in [OF x] by (metis image_mset_add_mset insert_DiffM mset_map mset_remove1 set_mset_mset)
    ultimately show ?thesis by simp
  next
    case False
    then have "r' = r \<and> top' = top_results"
      using 1(5) by (subst (asm) drain.simps) (auto simp: pop_max_def split: if_splits)
    then show ?thesis using 1(2,3) by simp
  qed
qed

lemma drain_done:
  assumes "drain P cnt r top_results = (r', top')" "\<And>r. r \<noteq> [] \<Longrightarrow> P r"
  shows "cnt \<le> length top' \<or> r' = []"
  using assms
proof (induction P cnt r top_results rule: drain.induct)
  case (1 P cnt r top_results)
  show ?case
  proof (cases "length top_results < cnt \<and> r \<noteq> []")
    case True
    then obtain x where x: "peek_max r = Some x"
      using peek_max_None by blast
    then show ?thesis
      using 1 True by (subst (asm) (2) drain.simps) (simp add: pop_max_def)
  next
    case False
    then have "r' = r \<and> top' = top_results"
      using 1(2) by (subst (asm) drain.simps) (auto simp: pop_max_def split: if_splits)
    then show ?thesis using False by auto
  qed
qed

lemma best_so_far_push:
  assumes "best_so_far pen r top_results (y # rest)"
  shows "best_so_far pen (r @ [(y, pen y)]) top_results rest"
  using assms by (force simp: best_so_far_def)

lemma fill_results_best:
  assumes "sorted_wrt (\<lambda>x y. fst (scorer x) \<ge> fst (scorer y)) items"
    "\<forall>x \<in> set items. snd (scorer x) \<le> fst (scorer x)"
    "best_so_far (snd \<circ> scorer) r top_results items" "length top_results \<le> cnt"
    "fill_results scorer cnt items r top_results = (r', top')"
  obtains rest where "best_so_far (snd \<circ> scorer) r' top' rest" "length top' \<le> cnt"
    "mset (top' @ map fst r' @ rest) = mset (top_results @ map fst r @ items)"
    "cnt \<le> length top' \<or> rest = []"
  using assms
proof (induction scorer cnt items r top_results arbitrary: thesis rule: fill_results.induct)
  case (1 scorer cnt r top_results)
  then show ?case using 1(1) [of "[]"] by simp
next
  case (2 scorer cnt item items r top_results)
  obtain r1 top1 where d: "drain (\<lambda>r. is_reserve_peek_higher r (fst (scorer item))) cnt r top_results = (r1, top1)"
    by fastforce
  have best: "best_so_far (snd \<circ> scorer) r1 top1 (item # items) \<and> length top1 \<le> cnt \<and>
      mset (top1 @ map fst r1) = mset (top_results @ map fst r)"
    using 2(3,4) by (intro drain_best [OF 2(5,6) _ d]) (force simp: is_reserve_peek_higher_def)
  show ?case
  proof (cases "cnt \<le> length top1")
    case True
    then have "r' = r1" "top' = top1"
      using 2(7) d by (auto simp: split_beta Let_def)
    then show ?thesis
      using 2(2) [of "item # items"] best True by (simp add: add.assoc [symmetric] comp_def)
  next
    case False
    then have "fill_results scorer cnt items (r1 @ [(item, snd (scorer item))]) top1 = (r', top')"
      using 2(7) d by (auto simp: split_beta Let_def)
    then obtain rest where "best_so_far (snd \<circ> scorer) r' top' rest" "length top' \<le> cnt"
        "mset (top' @ map fst r' @ rest) = mset (top1 @ map fst (r1 @ [(item, snd (scorer item))]) @ items)"
        "cnt \<le> length top' \<or> rest = []"
      using 2(1) [OF refl prod.collapse d [symmetric] refl] False 2(3,4) best best_so_far_push [of "snd \<circ> scorer" r1 top1 item items]
      by (auto simp: comp_def simp del: mset_append)
    then show ?thesis
      using 2(2) [of rest] best by (simp add: add.assoc [symmetric] comp_def)
  qed
qed

lemma last_drain:
  assumes "best_so_far pen r top_results rest" "length top_results \<le> cnt" "cnt \<le> length top_results \<or> rest = []"
    "drain (\<lambda>r. r \<noteq> []) cnt r top_results = (r', top')"
  shows "best_so_far pen r' top' rest \<and> length top' \<le> cnt \<and> mset (top' @ map fst r') = mset (top_results @ map fst r) \<and>
    (cnt \<le> length top' \<or> r' = [] \<and> rest = [])"
proof (cases "rest = []")
  case True
  then show ?thesis
    using drain_best [OF assms(1,2) _ assms(4)] drain_done [OF assms(4)] by auto
next
  case False
  then have "r' = r \<and> top' = top_results"
    using assms(3,4) by (subst (asm) drain.simps) auto
  then show ?thesis using assms False by simp
qed

lemma best_is_take:
  assumes "best_so_far pen r top_results rest" "length top_results \<le> cnt"
    "cnt \<le> length top_results \<or> r = [] \<and> rest = []"
  shows "map pen top_results = take cnt (rev (sort (map pen (top_results @ map fst r @ rest))))"
proof -
  have "sorted (rev (map pen top_results @ rev (sort (map pen (map fst r @ rest)))))"
    using assms(1) by (force simp: best_so_far_def sorted_append sorted_wrt_rev image_iff)
  then have "sort (map pen (top_results @ map fst r @ rest)) = rev (map pen top_results @ rev (sort (map pen (map fst r @ rest))))"
    by (intro properties_for_sort) simp_all
  then have "rev (sort (map pen (top_results @ map fst r @ rest))) = map pen top_results @ rev (sort (map pen (map fst r @ rest)))"
    by (metis rev_rev_ident)
  then show ?thesis
    using assms(2,3) by auto
qed

text \<open>
  (C33) The results selected with an early exit are the \<open>count\<close> best by penalised score, in order, as if
  all items had been sorted, when the items come by decreasing score and a penalty never raises a score.
\<close>

theorem top_results_best:
  fixes scorer :: "'e \<Rightarrow> 's :: linorder \<times> 's"
  assumes "sorted_wrt (\<lambda>x y. fst (scorer x) \<ge> fst (scorer y)) items"
    and "\<forall>x \<in> set items. snd (scorer x) \<le> fst (scorer x)"
  shows "map (snd \<circ> scorer) (top_negatively_rescored_results cnt scorer items) =
      take cnt (rev (sort (map (snd \<circ> scorer) items))) \<and>
    mset (top_negatively_rescored_results cnt scorer items) \<subseteq># mset items"
proof -
  obtain r top_results where fill: "fill_results scorer cnt items [] [] = (r, top_results)" by fastforce
  have start: "best_so_far (snd \<circ> scorer) [] [] items" "length ([] :: 'e list) \<le> cnt"
    by (simp_all add: best_so_far_def)
  obtain rest where best: "best_so_far (snd \<circ> scorer) r top_results rest" "length top_results \<le> cnt"
      "mset (top_results @ map fst r @ rest) = mset items" "cnt \<le> length top_results \<or> rest = []"
    by (rule fill_results_best [OF assms start fill]) (simp add: that del: mset_append)
  obtain r' top' where d: "drain (\<lambda>r. r \<noteq> []) cnt r top_results = (r', top')" by fastforce
  have res: "top_negatively_rescored_results cnt scorer items = top'"
    using fill d by (simp add: top_negatively_rescored_results_def)
  have last: "best_so_far (snd \<circ> scorer) r' top' rest" "length top' \<le> cnt"
      "mset (top' @ map fst r') = mset (top_results @ map fst r)"
      "cnt \<le> length top' \<or> r' = [] \<and> rest = []"
    using last_drain [OF best(1,2,4) d] by auto
  have same: "mset (top' @ map fst r' @ rest) = mset items"
    using best(3) last(3) by (simp add: add.assoc [symmetric])
  then have "sort (map (snd \<circ> scorer) (top' @ map fst r' @ rest)) = sort (map (snd \<circ> scorer) items)"
    by (intro properties_for_sort) (metis mset_map mset_sort, simp)
  then show ?thesis
    using best_is_take [OF last(1,2,4)] same res by (metis mset_append mset_subset_eq_add_left)
qed

theorem top_results_best_witness:
  "top_negatively_rescored_results 2 (\<lambda>x. (x, if x = (9 :: nat) then 1 else x)) [9, 7, 5, 3] = [7, 5] \<and>
   map (snd \<circ> (\<lambda>x. (x, if x = (9 :: nat) then 1 else x)))
     (top_negatively_rescored_results 2 (\<lambda>x. (x, if x = (9 :: nat) then 1 else x)) [9, 7, 5, 3]) = [7, 5]"
  using top_results_best [of "\<lambda>x. (x, if x = (9 :: nat) then 1 else x)" "[9, 7, 5, 3]" 2]
  by (simp add: top_negatively_rescored_results_def drain.simps is_reserve_peek_higher_def pop_max_def Let_def)

end
