(* ===== verification/Exo_Mutation.thy ===== *)
theory Exo_Mutation
  imports Exo_Ordering Exo_Sync_Context
begin

text \<open>
  Mutations of entities: the requests a client builds (\<open>store/src/mutation.rs\<close>) and the metadata of the
  mutations the index returns (\<open>store/src/local/mutation_index/results.rs\<close>). The content of a trait is a
  type parameter.
\<close>

section \<open>Requests\<close>

type_synonym entity_id = string
type_synonym trait_id = string

datatype 't mutation =
    PutTrait "'t option"
  | DeleteTrait trait_id
  | DeleteEntity
  | DeleteOperations "nat list"
  | TestMutation bool

record 't entity_mutation =
  em_entity_id :: entity_id
  em_mutation :: "'t mutation option"

record 't mutation_request =
  mr_mutations :: "'t entity_mutation list"
  mr_wait_indexed :: bool
  mr_return_entities :: bool
  mr_common_entity_id :: bool

definition mutation_request_default :: "'t mutation_request" where
  "mutation_request_default = \<lparr>mr_mutations = [], mr_wait_indexed = False, mr_return_entities = False, mr_common_entity_id = False\<rparr>"

definition mutation_builder_new :: "'t mutation_request" where
  "mutation_builder_new = \<lparr>mr_mutations = [], mr_wait_indexed = False, mr_return_entities = False, mr_common_entity_id = False\<rparr>"

definition push_mutation :: "entity_id \<Rightarrow> 't mutation \<Rightarrow> 't mutation_request \<Rightarrow> 't mutation_request" where
  "push_mutation entity_id mutation b =
     b\<lparr>mr_mutations := mr_mutations b @ [\<lparr>em_entity_id = entity_id, em_mutation = Some mutation\<rparr>]\<rparr>"

definition build_put_trait :: "entity_id \<Rightarrow> 't \<Rightarrow> 't mutation_request \<Rightarrow> 't mutation_request" where
  "build_put_trait entity_id trt = push_mutation entity_id (PutTrait (Some trt))"

definition build_delete_trait :: "entity_id \<Rightarrow> trait_id \<Rightarrow> 't mutation_request \<Rightarrow> 't mutation_request" where
  "build_delete_trait entity_id trait_id = push_mutation entity_id (DeleteTrait trait_id)"

definition build_delete_entity :: "entity_id \<Rightarrow> 't mutation_request \<Rightarrow> 't mutation_request" where
  "build_delete_entity entity_id = push_mutation entity_id DeleteEntity"

definition build_delete_operations :: "entity_id \<Rightarrow> nat list \<Rightarrow> 't mutation_request \<Rightarrow> 't mutation_request" where
  "build_delete_operations entity_id operation_ids = push_mutation entity_id (DeleteOperations operation_ids)"

definition use_common_entity_id :: "'t mutation_request \<Rightarrow> 't mutation_request" where
  "use_common_entity_id b = b\<lparr>mr_common_entity_id := True\<rparr>"

definition return_entities :: "'t mutation_request \<Rightarrow> 't mutation_request" where
  "return_entities b = b\<lparr>mr_return_entities := True\<rparr>"

definition request_from_mutation :: "'t entity_mutation \<Rightarrow> 't mutation_request" where
  "request_from_mutation mutation = mutation_request_default\<lparr>mr_mutations := [mutation]\<rparr>"

section \<open>Indexed mutations\<close>

text \<open>Dates are numbers of nanoseconds since the epoch.\<close>

type_synonym date = int

definition to_datetime :: "nat \<Rightarrow> date" where
  "to_datetime operation_id = sint (word_of_nat operation_id :: 64 word)"

record put_trait_metadata =
  pt_trait_id :: trait_id
  pt_trait_type :: "string option"
  pt_creation_date :: "date option"
  pt_modification_date :: "date option"
  pt_has_reference :: bool

datatype mutation_type =
    TraitPut put_trait_metadata
  | TraitTombstone trait_id
  | EntityTombstone
  | PendingDeletion

record mutation_metadata =
  mm_operation_id :: nat
  mm_block_offset :: "nat option"
  mm_entity_id :: entity_id
  mm_mutation_type :: mutation_type
  mm_sort_value :: ordering_wrapper

text \<open>The errors of the store that the modelled parts raise (\<open>store/src/error.rs\<close>).\<close>

datatype store_error = StoreFatal | ProtoFieldExpected | StoreProto | StoreIo | StoreChainEngine engine_error
  | StoreChain chain_error | StoreChainBlock block_error | StoreOther

fun store_is_fatal :: "store_error \<Rightarrow> bool" where
  "store_is_fatal StoreFatal = True"
| "store_is_fatal StoreIo = True"
| "store_is_fatal (StoreChainEngine e) = engine_is_fatal e"
| "store_is_fatal _ = False"

definition trait_tombstone_id :: nat where "trait_tombstone_id = 0"
definition trait_put_id :: nat where "trait_put_id = 1"
definition entity_tombstone_id :: nat where "entity_tombstone_id = 2"
definition pending_deletion_id :: nat where "pending_deletion_id = 3"

text \<open>The type of an indexed document: a trait mutation without trait panics.\<close>

definition mutation_type_new :: "nat \<Rightarrow> trait_id option \<Rightarrow> (store_error, mutation_type) result" where
  "mutation_type_new document_type_id opt_trait_id =
     (if document_type_id = trait_tombstone_id then
        and_then (expect opt_trait_id) (\<lambda>trait_id. Ok (TraitTombstone trait_id))
      else if document_type_id = trait_put_id then
        and_then (expect opt_trait_id) (\<lambda>trait_id.
          Ok (TraitPut \<lparr>pt_trait_id = trait_id, pt_trait_type = None, pt_creation_date = None,
                pt_modification_date = None, pt_has_reference = False\<rparr>))
      else if document_type_id = entity_tombstone_id then Ok EntityTombstone
      else if document_type_id = pending_deletion_id then Ok PendingDeletion
      else Err StoreFatal)"

text \<open>The trait a mutation is about.\<close>

fun touched_trait :: "mutation_type \<Rightarrow> trait_id option" where
  "touched_trait (TraitPut p) = Some (pt_trait_id p)"
| "touched_trait (TraitTombstone t) = Some t"
| "touched_trait EntityTombstone = None"
| "touched_trait PendingDeletion = None"

definition touches :: "trait_id \<Rightarrow> mutation_metadata \<Rightarrow> bool" where
  "touches t m \<longleftrightarrow> touched_trait (mm_mutation_type m) = Some t"

end
