(* ===== verification/Exo_Aggregator.thy ===== *)
theory Exo_Aggregator
  imports Exo_Mutation
begin

text \<open>
  Aggregation of the mutations of an entity (\<open>store/src/local/entity_index/aggregator.rs\<close>): the traits
  with their active mutations, and the dates of the entity. A hash map is an association list in the
  order of the first insertions; the checksum over the operation identifiers is a parameter.
\<close>

section \<open>A trait\<close>

record projection =
  pj_field_ids :: "nat list"
  pj_field_group_ids :: "nat list"
  pj_package :: "string list"
  pj_skip :: bool

record trait_aggregator =
  ta_put_mutations :: "mutation_metadata list"
  ta_last_operation_id :: "nat option"
  ta_creation_date :: "date option"
  ta_modification_date :: "date option"
  ta_deletion_date :: "date option"
  ta_projection :: "projection option"
  ta_mutation_count :: nat
  ta_has_reference :: bool

definition trait_aggregator_default :: trait_aggregator where
  "trait_aggregator_default = \<lparr>ta_put_mutations = [], ta_last_operation_id = None, ta_creation_date = None,
     ta_modification_date = None, ta_deletion_date = None, ta_projection = None, ta_mutation_count = 0,
     ta_has_reference = False\<rparr>"

text \<open>Options are ordered with \<open>None\<close> first.\<close>

fun opt_less :: "date option \<Rightarrow> date option \<Rightarrow> bool" where
  "opt_less None (Some _) = True"
| "opt_less (Some a) (Some b) = (a < b)"
| "opt_less _ None = False"

definition update_if_newer :: "date option \<Rightarrow> date option \<Rightarrow> date option" where
  "update_if_newer current new = (if current = None \<or> opt_less current new then new else current)"

definition update_if_older :: "date option \<Rightarrow> date option \<Rightarrow> date option" where
  "update_if_older current new = (if current = None \<or> opt_less new current then new else current)"

type_synonym traits = "(trait_id \<times> trait_aggregator) list"

definition get_for_trait :: "traits \<Rightarrow> trait_id \<Rightarrow> trait_aggregator" where
  "get_for_trait traits t = (case map_of traits t of Some agg \<Rightarrow> agg | None \<Rightarrow> trait_aggregator_default)"

definition all_deleted :: "traits \<Rightarrow> bool" where
  "all_deleted traits = list_all (\<lambda>(t, agg). ta_deletion_date agg \<noteq> None) traits"

definition push_put_mutation :: "mutation_metadata \<Rightarrow> put_trait_metadata \<Rightarrow> trait_aggregator \<Rightarrow> trait_aggregator" where
  "push_put_mutation mutation put_trait agg =
     (let op_id = mm_operation_id mutation;
          op_time = to_datetime op_id;
          modification_date =
            (case pt_modification_date put_trait of
               Some d \<Rightarrow> Some d
             | None \<Rightarrow> if ta_creation_date agg \<noteq> None then Some op_time else None);
          creation_date = (case pt_creation_date put_trait of Some d \<Rightarrow> d | None \<Rightarrow> op_time) in
      agg\<lparr>ta_modification_date := update_if_newer (ta_modification_date agg) modification_date,
          ta_creation_date := update_if_older (ta_creation_date agg) (Some creation_date),
          ta_deletion_date := None,
          ta_has_reference := pt_has_reference put_trait,
          ta_put_mutations := ta_put_mutations agg @ [mutation],
          ta_last_operation_id := Some op_id,
          ta_mutation_count := ta_mutation_count agg + 1\<rparr>)"

definition push_delete_mutation :: "nat \<Rightarrow> trait_aggregator \<Rightarrow> trait_aggregator" where
  "push_delete_mutation operation_id agg =
     agg\<lparr>ta_creation_date := None, ta_modification_date := None,
         ta_deletion_date := Some (to_datetime operation_id),
         ta_last_operation_id := Some operation_id,
         ta_mutation_count := ta_mutation_count agg + 1\<rparr>"

definition last_put_mutation :: "trait_aggregator \<Rightarrow> (mutation_metadata \<times> put_trait_metadata) option" where
  "last_put_mutation agg =
     (if ta_put_mutations agg = [] then None
      else let mutation = last (ta_put_mutations agg) in
        case mm_mutation_type mutation of TraitPut put \<Rightarrow> Some (mutation, put) | _ \<Rightarrow> None)"

section \<open>An entity\<close>

text \<open>The variables of the loop over the mutations.\<close>

record agg_state =
  as_entity_id :: entity_id
  as_creation_date :: "date option"
  as_modification_date :: "date option"
  as_deletion_date :: "date option"
  as_digest :: "nat list"
  as_traits :: traits
  as_active :: "nat set"
  as_last_operation_id :: "nat option"
  as_last_block_offset :: "nat option"
  as_prev_operation_id :: "nat option"
  as_in_pending :: bool
  as_pending_deletion :: bool
  as_mutation_count :: nat

definition agg_start :: agg_state where
  "agg_start = \<lparr>as_entity_id = '''', as_creation_date = None, as_modification_date = None,
     as_deletion_date = None, as_digest = [], as_traits = [], as_active = {}, as_last_operation_id = None,
     as_last_block_offset = None, as_prev_operation_id = None, as_in_pending = False,
     as_pending_deletion = False, as_mutation_count = 0\<rparr>"

text \<open>An operation that was committed late: it comes before the last one of its trait or entity.\<close>

fun is_late :: "nat \<Rightarrow> nat option \<Rightarrow> bool" where
  "is_late operation_id None = False"
| "is_late operation_id (Some last_operation_id) = (operation_id < last_operation_id)"

definition inactivate :: "nat option \<Rightarrow> nat set \<Rightarrow> nat set" where
  "inactivate last_operation_id active = (case last_operation_id of Some i \<Rightarrow> active - {i} | None \<Rightarrow> active)"

text \<open>The mutation itself: \<open>None\<close> where the loop goes on with the next one.\<close>

definition agg_put :: "mutation_metadata \<Rightarrow> put_trait_metadata \<Rightarrow> agg_state \<Rightarrow> agg_state option" where
  "agg_put m put_trait st =
     (let agg = get_for_trait (as_traits st) (pt_trait_id put_trait) in
      if is_late (mm_operation_id m) (ta_last_operation_id agg) then None
      else let agg' = push_put_mutation m put_trait agg in
        Some (st\<lparr>as_traits := hm_insert (pt_trait_id put_trait) agg' (as_traits st),
          as_active := insert (mm_operation_id m) (inactivate (ta_last_operation_id agg) (as_active st)),
          as_creation_date := update_if_older (as_creation_date st) (ta_creation_date agg'),
          as_modification_date := update_if_newer (as_modification_date st)
            (case ta_modification_date agg' of Some d \<Rightarrow> Some d | None \<Rightarrow> ta_creation_date agg'),
          as_deletion_date := None\<rparr>))"

definition agg_trait_tombstone :: "mutation_metadata \<Rightarrow> trait_id \<Rightarrow> agg_state \<Rightarrow> agg_state option" where
  "agg_trait_tombstone m t st =
     (let agg = get_for_trait (as_traits st) t in
      if is_late (mm_operation_id m) (ta_last_operation_id agg) then None
      else let now = to_datetime (mm_operation_id m);
               st1 = st\<lparr>as_active := insert (mm_operation_id m) (inactivate (ta_last_operation_id agg) (as_active st)),
                 as_traits := hm_insert t (push_delete_mutation (mm_operation_id m) agg) (as_traits st),
                 as_modification_date := update_if_newer (as_modification_date st) (Some now)\<rparr> in
        Some (if all_deleted (as_traits st1) then
                st1\<lparr>as_creation_date := None, as_modification_date := None, as_deletion_date := Some now\<rparr>
              else st1))"

definition agg_entity_tombstone :: "mutation_metadata \<Rightarrow> agg_state \<Rightarrow> agg_state option" where
  "agg_entity_tombstone m st =
     (if is_late (mm_operation_id m) (as_last_operation_id st) then None
      else Some (st\<lparr>
        as_traits := map (\<lambda>(t, agg). (t, push_delete_mutation (mm_operation_id m) agg)) (as_traits st),
        as_active := {mm_operation_id m},
        as_creation_date := None, as_modification_date := None,
        as_deletion_date := Some (to_datetime (mm_operation_id m))\<rparr>))"

fun agg_mutation :: "mutation_metadata \<Rightarrow> agg_state \<Rightarrow> agg_state option" where
  "agg_mutation m st =
     (case mm_mutation_type m of
        TraitPut put_trait \<Rightarrow> agg_put m put_trait st
      | TraitTombstone t \<Rightarrow> agg_trait_tombstone m t st
      | EntityTombstone \<Rightarrow> agg_entity_tombstone m st
      | PendingDeletion \<Rightarrow> Some (st\<lparr>as_pending_deletion := True\<rparr>))"

definition agg_progress :: "mutation_metadata \<Rightarrow> agg_state \<Rightarrow> agg_state" where
  "agg_progress m st =
     (let st1 = (if mm_operation_id m > (case as_last_operation_id st of Some i \<Rightarrow> i | None \<Rightarrow> 0)
                 then st\<lparr>as_last_operation_id := Some (mm_operation_id m)\<rparr> else st) in
      case mm_block_offset m of
        Some block_offset \<Rightarrow> st1\<lparr>as_last_block_offset := Some block_offset\<rparr>
      | None \<Rightarrow> st1\<lparr>as_in_pending := True\<rparr>)"

text \<open>
  The entry that is made for a trait named for the first time is always filled: its first mutation is
  not late.
\<close>

definition agg_step :: "mutation_metadata \<Rightarrow> agg_state \<Rightarrow> (store_error, agg_state) result" where
  "agg_step m st =
     (if Some (mm_operation_id m) = as_prev_operation_id st then Panic
      else let st1 = st\<lparr>as_prev_operation_id := Some (mm_operation_id m),
                as_mutation_count := as_mutation_count st + 1,
                as_digest := as_digest st @ [mm_operation_id m],
                as_entity_id := mm_entity_id m\<rparr> in
        Ok (case agg_mutation m st1 of
              None \<Rightarrow> st1
            | Some st2 \<Rightarrow> agg_progress m st2))"

fun agg_loop :: "mutation_metadata list \<Rightarrow> agg_state \<Rightarrow> (store_error, agg_state) result" where
  "agg_loop [] st = Ok st"
| "agg_loop (m # ms) st = and_then (agg_step m st) (agg_loop ms)"

record entity_aggregator =
  ea_entity_id :: entity_id
  ea_traits :: traits
  ea_active_operations :: "nat set"
  ea_mutation_count :: nat
  ea_hash :: nat
  ea_creation_date :: "date option"
  ea_modification_date :: "date option"
  ea_deletion_date :: "date option"
  ea_last_operation_id :: nat
  ea_last_block_offset :: "nat option"
  ea_in_pending :: bool
  ea_pending_deletion :: bool
  ea_has_reference :: bool

definition agg_finish :: "(nat list \<Rightarrow> nat) \<Rightarrow> agg_state \<Rightarrow> entity_aggregator" where
  "agg_finish hash st =
     \<lparr>ea_entity_id = as_entity_id st, ea_traits = as_traits st, ea_active_operations = as_active st,
      ea_mutation_count = as_mutation_count st, ea_hash = hash (as_digest st),
      ea_creation_date = as_creation_date st,
      ea_modification_date =
        (if as_modification_date st = as_creation_date st then None else as_modification_date st),
      ea_deletion_date = as_deletion_date st,
      ea_last_operation_id = (case as_last_operation_id st of Some i \<Rightarrow> i | None \<Rightarrow> 0),
      ea_last_block_offset = as_last_block_offset st,
      ea_in_pending = as_in_pending st, ea_pending_deletion = as_pending_deletion st,
      ea_has_reference = list_ex (\<lambda>(t, agg). ta_deletion_date agg = None \<and> ta_has_reference agg) (as_traits st)\<rparr>"

definition entity_aggregator_new ::
  "(nat list \<Rightarrow> nat) \<Rightarrow> mutation_metadata list \<Rightarrow> (store_error, entity_aggregator) result" where
  "entity_aggregator_new hash sorted_mutations =
     and_then (agg_loop sorted_mutations agg_start) (\<lambda>st. Ok (agg_finish hash st))"

definition gc_inactive_ops_threshold :: nat where "gc_inactive_ops_threshold = 10"

definition should_collect :: "entity_aggregator \<Rightarrow> bool" where
  "should_collect a \<longleftrightarrow> ea_mutation_count a - card (ea_active_operations a) > gc_inactive_ops_threshold"

section \<open>Projections\<close>

text \<open>A package name that ends with a dollar matches the whole type, any other one its beginning.\<close>

definition strip_dollar :: "string \<Rightarrow> string option" where
  "strip_dollar p = (if p \<noteq> [] \<and> last p = CHR ''$'' then Some (butlast p) else None)"

definition projection_matches_trait :: "string option \<Rightarrow> projection \<Rightarrow> bool" where
  "projection_matches_trait trait_type p =
     (if pj_package p = [] then True
      else case trait_type of
        None \<Rightarrow> False
      | Some t \<Rightarrow> list_ex (\<lambda>package. strip_dollar package = Some t \<or> take (length package) t = package) (pj_package p))"

definition annotate_projections :: "projection list \<Rightarrow> entity_aggregator \<Rightarrow> entity_aggregator" where
  "annotate_projections projections a =
     (if projections = [] then a
      else a\<lparr>ea_traits := map (\<lambda>(t, agg).
        (t, case last_put_mutation agg of
              None \<Rightarrow> agg
            | Some (m, pm) \<Rightarrow>
                (case find (projection_matches_trait (pt_trait_type pm)) projections of
                   None \<Rightarrow> agg
                 | Some p \<Rightarrow> agg\<lparr>ta_projection := Some p\<rparr>))) (ea_traits a)\<rparr>)"

end
