(* ===== verification/Exo_Aggregator_Props.thy ===== *)
theory Exo_Aggregator_Props
  imports Exo_Aggregator
begin

text \<open>
  The traits of an entity are what their latest mutations make of them, whatever the order in which the
  mutations of traits come, as long as tombstones of the whole entity come after older mutations and
  before younger ones.
\<close>

section \<open>The latest mutation of a trait\<close>

definition is_tombstone :: "mutation_metadata \<Rightarrow> bool" where
  "is_tombstone m \<longleftrightarrow> mm_mutation_type m = EntityTombstone"

definition affects :: "trait_id \<Rightarrow> mutation_metadata \<Rightarrow> bool" where
  "affects t m \<longleftrightarrow> touches t m \<or> is_tombstone m"

definition is_latest :: "trait_id \<Rightarrow> mutation_metadata set \<Rightarrow> mutation_metadata \<Rightarrow> bool" where
  "is_latest t M m \<longleftrightarrow> m \<in> M \<and> affects t m \<and> (\<forall>m' \<in> M. affects t m' \<longrightarrow> mm_operation_id m' \<le> mm_operation_id m)"

definition latest_operations :: "mutation_metadata set \<Rightarrow> nat set" where
  "latest_operations M = {mm_operation_id m | m t. is_latest t M m}"

text \<open>Tombstones of the whole entity come after older mutations and before younger ones.\<close>

definition tombstones_in_order :: "mutation_metadata list \<Rightarrow> bool" where
  "tombstones_in_order ms \<longleftrightarrow>
     sorted_wrt (\<lambda>x y. is_tombstone x \<or> is_tombstone y \<longrightarrow> mm_operation_id x < mm_operation_id y) ms"

text \<open>What an aggregated trait says, against a mutation that is the latest one.\<close>

definition trait_is :: "trait_aggregator \<Rightarrow> mutation_metadata \<Rightarrow> bool" where
  "trait_is agg m \<longleftrightarrow>
     ta_last_operation_id agg = Some (mm_operation_id m) \<and>
     (case mm_mutation_type m of
        TraitPut put \<Rightarrow> ta_deletion_date agg = None \<and> last_put_mutation agg = Some (m, put)
      | _ \<Rightarrow> ta_deletion_date agg = Some (to_datetime (mm_operation_id m)))"

definition agg_latest :: "mutation_metadata set \<Rightarrow> agg_state \<Rightarrow> bool" where
  "agg_latest M st \<longleftrightarrow>
     (\<forall>t. map_of (as_traits st) t = None \<longleftrightarrow> (\<forall>m \<in> M. \<not> touches t m)) \<and>
     (\<forall>t agg. map_of (as_traits st) t = Some agg \<longrightarrow> (\<exists>m. is_latest t M m \<and> trait_is agg m)) \<and>
     (\<forall>i. as_last_operation_id st = Some i \<longrightarrow> i \<in> mm_operation_id ` M) \<and>
     ((\<forall>m \<in> M. \<not> is_tombstone m) \<longrightarrow> as_active st = latest_operations M)"

lemma agg_latestD:
  assumes "agg_latest M st"
  shows "map_of (as_traits st) t = None \<longleftrightarrow> (\<forall>m \<in> M. \<not> touches t m)"
    and "map_of (as_traits st) t = Some agg \<Longrightarrow> \<exists>m. is_latest t M m \<and> trait_is agg m"
    and "as_last_operation_id st = Some i \<Longrightarrow> i \<in> mm_operation_id ` M"
    and "\<forall>m \<in> M. \<not> is_tombstone m \<Longrightarrow> as_active st = latest_operations M"
  using assms unfolding agg_latest_def by blast+

lemma trait_is_put: "mm_mutation_type m = TraitPut put \<Longrightarrow> trait_is (push_put_mutation m put agg) m"
  by (simp add: trait_is_def push_put_mutation_def last_put_mutation_def Let_def)

lemma trait_is_delete: "mm_mutation_type m = TraitTombstone t \<Longrightarrow> trait_is (push_delete_mutation (mm_operation_id m) agg) m"
  by (simp add: trait_is_def push_delete_mutation_def)

lemma affects_unique: "touches t m \<Longrightarrow> affects t' m \<longleftrightarrow> t' = t"
  by (auto simp: touches_def affects_def is_tombstone_def)

lemma is_latest_other:
  "\<not> affects t m \<Longrightarrow> is_latest t (insert m M) m' \<longleftrightarrow> is_latest t M m'"
  by (auto simp: is_latest_def)

lemma is_latest_newest:
  "affects t m \<Longrightarrow> \<forall>m' \<in> M. affects t m' \<longrightarrow> mm_operation_id m' < mm_operation_id m \<Longrightarrow>
     is_latest t (insert m M) m' \<longleftrightarrow> m' = m"
  by (fastforce simp: is_latest_def)

lemma is_latest_older:
  "affects t m \<Longrightarrow> is_latest t M m0 \<Longrightarrow> mm_operation_id m < mm_operation_id m0 \<Longrightarrow>
     is_latest t (insert m M) m' \<longleftrightarrow> is_latest t M m'"
  by (fastforce simp: is_latest_def)

section \<open>One mutation\<close>

text \<open>Mutations with different identifiers.\<close>

definition ids_distinct :: "mutation_metadata set \<Rightarrow> bool" where
  "ids_distinct M \<longleftrightarrow> inj_on mm_operation_id M"

lemma latest_operations_split:
  assumes "touches t m"
  shows "latest_operations M = {mm_operation_id m' | m' t'. t' \<noteq> t \<and> is_latest t' M m'} \<union> {mm_operation_id m' | m'. is_latest t M m'}"
    and "{mm_operation_id m' | m' t'. t' \<noteq> t \<and> is_latest t' (insert m M) m'} = {mm_operation_id m' | m' t'. t' \<noteq> t \<and> is_latest t' M m'}"
proof -
  have "is_latest t' (insert m M) m' \<longleftrightarrow> is_latest t' M m'" if "t' \<noteq> t" for t' m'
    using affects_unique [OF assms, of t'] is_latest_other that by blast
  then show "{mm_operation_id m' | m' t'. t' \<noteq> t \<and> is_latest t' (insert m M) m'} = {mm_operation_id m' | m' t'. t' \<noteq> t \<and> is_latest t' M m'}"
    by blast
qed (auto simp: latest_operations_def, metis)

lemma latest_of_others:
  assumes "ids_distinct M" "is_latest t M m0" "\<forall>m \<in> M. \<not> is_tombstone m"
  shows "mm_operation_id m0 \<notin> {mm_operation_id m' | m' t'. t' \<noteq> t \<and> is_latest t' M m'}"
proof
  assume "mm_operation_id m0 \<in> {mm_operation_id m' | m' t'. t' \<noteq> t \<and> is_latest t' M m'}"
  then obtain m' t' where "t' \<noteq> t" "is_latest t' M m'" "mm_operation_id m' = mm_operation_id m0" by auto
  moreover from this have "m' = m0" using assms(1,2) by (auto simp: ids_distinct_def is_latest_def inj_on_def)
  ultimately have "m0 \<in> M" "affects t m0" "affects t' m0" "t' \<noteq> t" using assms(2) by (auto simp: is_latest_def)
  with assms(3) show False by (auto simp: affects_def touches_def)
qed

text \<open>A trait mutation that is not late replaces the latest one of its trait; a late one changes nothing.\<close>

text \<open>A mutation of a trait that does not come late is newer than all that affected the trait before.\<close>

lemma agg_latest_newest:
  assumes inv: "agg_latest M st" and ids: "ids_distinct (insert m M)" and new: "m \<notin> M"
    and old: "\<forall>m' \<in> M. is_tombstone m' \<longrightarrow> mm_operation_id m' < mm_operation_id m"
    and late: "\<not> is_late (mm_operation_id m) (ta_last_operation_id (get_for_trait (as_traits st) t))"
  shows "\<forall>m' \<in> M. affects t m' \<longrightarrow> mm_operation_id m' < mm_operation_id m"
proof (cases "map_of (as_traits st) t")
  case None
  then show ?thesis using agg_latestD(1) [OF inv, of t] old by (auto simp: affects_def)
next
  case (Some agg)
  then obtain m0 where m0: "is_latest t M m0" "trait_is agg m0" using agg_latestD(2) [OF inv] by blast
  then have "mm_operation_id m0 \<le> mm_operation_id m"
    using late Some by (simp add: get_for_trait_def trait_is_def)
  moreover have "mm_operation_id m0 \<noteq> mm_operation_id m"
    using ids new m0(1) by (auto simp: ids_distinct_def is_latest_def inj_on_def)
  ultimately show ?thesis using m0(1) by (fastforce simp: is_latest_def)
qed

lemma agg_active_replace:
  assumes inv: "agg_latest M st" and t: "touches t m" and M: "ids_distinct M" and plain: "\<forall>m' \<in> M. \<not> is_tombstone m'"
    and newest: "\<forall>m' \<in> M. affects t m' \<longrightarrow> mm_operation_id m' < mm_operation_id m"
  shows "insert (mm_operation_id m) (inactivate (ta_last_operation_id (get_for_trait (as_traits st) t)) (as_active st)) =
    latest_operations (insert m M)"
proof (cases "map_of (as_traits st) t")
  case None
  then have "\<not> is_latest t M m'" for m'
    using agg_latestD(1) [OF inv, of t] plain by (auto simp: is_latest_def affects_def)
  moreover have "affects t m" using t by (simp add: affects_def)
  ultimately show ?thesis
    using agg_latestD(4) [OF inv plain] None latest_operations_split [OF t] is_latest_newest [OF _ newest]
    by (auto simp: get_for_trait_def trait_aggregator_default_def inactivate_def)
next
  case (Some agg)
  then obtain m0 where m0: "is_latest t M m0" "trait_is agg m0" using agg_latestD(2) [OF inv] by blast
  then have "ta_last_operation_id (get_for_trait (as_traits st) t) = Some (mm_operation_id m0)"
    using Some by (simp add: get_for_trait_def trait_is_def)
  moreover have "is_latest t M m' \<longleftrightarrow> m' = m0" for m'
    using m0(1) M by (auto simp: is_latest_def ids_distinct_def inj_on_def) (meson dual_order.antisym)
  moreover have "affects t m" using t by (simp add: affects_def)
  ultimately show ?thesis
    using agg_latestD(4) [OF inv plain] latest_operations_split [OF t] latest_of_others [OF M m0(1) plain] is_latest_newest [OF _ newest]
    by (auto simp: inactivate_def)
qed

lemma agg_latest_replace:
  assumes inv: "agg_latest M st" and t: "touches t m" and "trait_is agg' m" and ids: "ids_distinct (insert m M)" and new: "m \<notin> M"
    and old: "\<forall>m' \<in> M. is_tombstone m' \<longrightarrow> mm_operation_id m' < mm_operation_id m"
    and late: "\<not> is_late (mm_operation_id m) (ta_last_operation_id (get_for_trait (as_traits st) t))"
    and traits: "as_traits st' = hm_insert t agg' (as_traits st)"
    and active: "as_active st' = insert (mm_operation_id m) (inactivate (ta_last_operation_id (get_for_trait (as_traits st) t)) (as_active st))"
    and last: "\<And>i. as_last_operation_id st' = Some i \<Longrightarrow> i = mm_operation_id m \<or> as_last_operation_id st = Some i"
  shows "agg_latest (insert m M) st'"
proof -
  have a: "affects t m" using t by (simp add: affects_def)
  note newest = agg_latest_newest [OF inv ids new old late]
  have act: "as_active st' = latest_operations (insert m M)" if "\<forall>m' \<in> M. \<not> is_tombstone m'"
    unfolding active using ids that by (intro agg_active_replace [OF inv t _ _ newest]) (auto simp: ids_distinct_def)
  have "is_latest t' (insert m M) m' \<longleftrightarrow> is_latest t' M m'" if "t' \<noteq> t" for t' m'
    using is_latest_other affects_unique [OF t] that by metis
  moreover have "touches t' m \<longleftrightarrow> t' = t" for t'
    using t by (auto simp: touches_def)
  moreover have "i \<in> mm_operation_id ` insert m M" if "as_last_operation_id st' = Some i" for i
    using last [OF that] agg_latestD(3) [OF inv] by blast
  ultimately show ?thesis
    using assms(3) agg_latestD(1,2) [OF inv] is_latest_newest [OF a newest] act
    by (simp add: agg_latest_def traits hm_insert_lookup)
qed

lemma agg_latest_late:
  assumes inv: "agg_latest M st" and t: "touches t m"
    and late: "is_late (mm_operation_id m) (ta_last_operation_id (get_for_trait (as_traits st) t))"
    and same: "as_traits st' = as_traits st" "as_active st' = as_active st" "as_last_operation_id st' = as_last_operation_id st"
  shows "agg_latest (insert m M) st'"
proof -
  obtain agg where agg: "map_of (as_traits st) t = Some agg"
    using late by (cases "map_of (as_traits st) t") (auto simp: get_for_trait_def trait_aggregator_default_def)
  then obtain m0 where m0: "is_latest t M m0" "trait_is agg m0"
    using agg_latestD(2) [OF inv] by blast
  then have "mm_operation_id m < mm_operation_id m0"
    using late agg by (simp add: get_for_trait_def trait_is_def)
  then have "is_latest t' (insert m M) m' \<longleftrightarrow> is_latest t' M m'" for t' m'
    using is_latest_older [OF _ m0(1)] is_latest_other affects_unique [OF t] by metis
  moreover have "\<exists>m' \<in> M. touches t m'"
    using agg agg_latestD(1) [OF inv, of t] by auto
  moreover have "touches t' m \<longleftrightarrow> t' = t" for t'
    using t by (auto simp: touches_def)
  ultimately show ?thesis
    using agg_latestD [OF inv] by (auto simp: agg_latest_def same latest_operations_def)
qed

lemma agg_latest_pending:
  assumes inv: "agg_latest M st" and "mm_mutation_type m = PendingDeletion"
    and same: "as_traits st' = as_traits st" "as_active st' = as_active st"
    and last: "\<And>i. as_last_operation_id st' = Some i \<Longrightarrow> i = mm_operation_id m \<or> as_last_operation_id st = Some i"
  shows "agg_latest (insert m M) st'"
proof -
  have "\<not> affects t m" "\<not> touches t m" for t
    using assms(2) by (simp_all add: touches_def affects_def is_tombstone_def)
  then show ?thesis
    using agg_latestD [OF inv] is_latest_other last unfolding agg_latest_def same latest_operations_def by auto
qed

text \<open>A tombstone of the whole entity that is younger than all before it is the latest mutation of every trait.\<close>

lemma agg_latest_tombstone:
  assumes inv: "agg_latest M st" and tomb: "is_tombstone m"
    and old: "\<forall>m' \<in> M. mm_operation_id m' < mm_operation_id m"
    and traits: "as_traits st' = map (\<lambda>(t, agg). (t, push_delete_mutation (mm_operation_id m) agg)) (as_traits st)"
    and last: "\<And>i. as_last_operation_id st' = Some i \<Longrightarrow> i = mm_operation_id m \<or> as_last_operation_id st = Some i"
  shows "agg_latest (insert m M) st'"
proof -
  have new: "map_of (as_traits st') t = map_option (push_delete_mutation (mm_operation_id m)) (map_of (as_traits st) t)" for t
    by (simp add: traits map_of_map)
  have "is_latest t (insert m M) m" for t
    using old tomb by (auto simp: is_latest_def affects_def less_imp_le)
  moreover have "trait_is (push_delete_mutation (mm_operation_id m) agg) m" for agg
    using tomb by (simp add: trait_is_def push_delete_mutation_def is_tombstone_def)
  moreover have "\<not> touches t m" for t
    using tomb by (simp add: touches_def is_tombstone_def)
  ultimately show ?thesis
    using agg_latestD [OF inv] tomb last unfolding agg_latest_def new by auto
qed

lemma agg_progress_same [simp]:
  "as_traits (agg_progress m st) = as_traits st" "as_active (agg_progress m st) = as_active st"
  "as_prev_operation_id (agg_progress m st) = as_prev_operation_id st"
  by (auto simp: agg_progress_def Let_def split: option.splits)

lemma agg_progress_lastD: "as_last_operation_id (agg_progress m st) = Some i \<Longrightarrow> i = mm_operation_id m \<or> as_last_operation_id st = Some i"
  by (auto simp: agg_progress_def Let_def split: option.splits if_splits)

lemma agg_step_latest:
  assumes inv: "agg_latest M st" and step: "agg_step m st = Ok st'" and "ids_distinct (insert m M)" "m \<notin> M"
    and order: "\<forall>m' \<in> M. is_tombstone m' \<or> is_tombstone m \<longrightarrow> mm_operation_id m' < mm_operation_id m"
  shows "agg_latest (insert m M) st'"
proof (cases "mm_mutation_type m")
  case (TraitPut put)
  then have t: "touches (pt_trait_id put) m"
    by (simp add: touches_def)
  show ?thesis
  proof (cases "is_late (mm_operation_id m) (ta_last_operation_id (get_for_trait (as_traits st) (pt_trait_id put)))")
    case True
    then show ?thesis
      using step TraitPut by (intro agg_latest_late [OF inv t]) (auto simp: agg_step_def agg_put_def Let_def split: if_splits)
  next
    case False
    then show ?thesis
      using step TraitPut order
      by (intro agg_latest_replace [OF inv t trait_is_put [OF TraitPut] assms(3,4) _ False])
        (auto simp: agg_step_def agg_put_def Let_def split: if_splits dest!: agg_progress_lastD)
  qed
next
  case (TraitTombstone t)
  then have t: "touches t m"
    by (simp add: touches_def)
  show ?thesis
  proof (cases "is_late (mm_operation_id m) (ta_last_operation_id (get_for_trait (as_traits st) t))")
    case True
    then show ?thesis
      using step TraitTombstone by (intro agg_latest_late [OF inv t]) (auto simp: agg_step_def agg_trait_tombstone_def Let_def split: if_splits)
  next
    case False
    then show ?thesis
      using step TraitTombstone order
      by (intro agg_latest_replace [OF inv t trait_is_delete [OF TraitTombstone] assms(3,4) _ False])
        (auto simp: agg_step_def agg_trait_tombstone_def Let_def split: if_splits dest!: agg_progress_lastD)
  qed
next
  case EntityTombstone
  then have tomb: "is_tombstone m" by (simp add: is_tombstone_def)
  have "\<not> is_late (mm_operation_id m) (as_last_operation_id st)"
    using agg_latestD(3) [OF inv] order tomb by (cases "as_last_operation_id st") fastforce+
  then show ?thesis
    using step EntityTombstone order tomb
    by (intro agg_latest_tombstone [OF inv tomb])
      (auto simp: agg_step_def agg_entity_tombstone_def Let_def split: if_splits dest!: agg_progress_lastD)
next
  case PendingDeletion
  then show ?thesis
    using step by (intro agg_latest_pending [OF inv]) (auto simp: agg_step_def Let_def split: if_splits dest!: agg_progress_lastD)
qed

section \<open>All mutations\<close>

lemma agg_mutation_prev: "agg_mutation m st = Some st' \<Longrightarrow> as_prev_operation_id st' = as_prev_operation_id st"
  by (auto simp: agg_put_def agg_trait_tombstone_def agg_entity_tombstone_def Let_def split: mutation_type.splits if_splits)

lemma agg_step_Ok:
  "as_prev_operation_id st \<noteq> Some (mm_operation_id m) \<Longrightarrow>
     \<exists>st'. agg_step m st = Ok st' \<and> as_prev_operation_id st' = Some (mm_operation_id m)"
  by (auto simp: agg_step_def Let_def simp del: agg_mutation.simps split: option.splits dest: agg_mutation_prev)

lemma agg_loop_latest:
  assumes "agg_latest M st" "distinct (map mm_operation_id ms)" "inj_on mm_operation_id (M \<union> set ms)" "M \<inter> set ms = {}"
    "tombstones_in_order ms" "\<forall>m \<in> set ms. \<forall>m' \<in> M. is_tombstone m' \<or> is_tombstone m \<longrightarrow> mm_operation_id m' < mm_operation_id m"
    "\<forall>m \<in> set ms. as_prev_operation_id st \<noteq> Some (mm_operation_id m)"
  shows "\<exists>st'. agg_loop ms st = Ok st' \<and> agg_latest (M \<union> set ms) st'"
  using assms
proof (induction ms arbitrary: M st)
  case (Cons m ms)
  obtain st' where st': "agg_step m st = Ok st'" "as_prev_operation_id st' = Some (mm_operation_id m)"
    using agg_step_Ok Cons.prems(7) by (metis list.set_intros(1))
  have "agg_latest (insert m M) st'"
    using Cons.prems by (intro agg_step_latest [OF Cons.prems(1) st'(1)]) (auto simp: ids_distinct_def inj_on_def)
  then have "\<exists>st''. agg_loop ms st' = Ok st'' \<and> agg_latest (insert m M \<union> set ms) st''"
    using Cons.prems st'(2) by (intro Cons.IH) (auto simp: image_iff tombstones_in_order_def)
  then show ?case using st'(1) by simp
qed simp

text \<open>
  (C6) Two nodes that aggregate the same mutations of an entity in different orders agree on its traits, as long as
  every tombstone of the whole entity comes after the older mutations and before the younger ones, which
  is all that is asked of the order: a trait is there when a mutation names it, and it is what the latest mutation of
  the trait or of the whole entity, by operation identifier, made of it, deleted or with the content that
  was put last. When there is no tombstone of the whole entity, the active operations are exactly the
  latest ones of the traits. The counts, and the dates of creation and modification, depend on
  the order; what a tombstone out of order does is shown by \<open>late_put_undeletes\<close>.
\<close>

theorem mutations_converge:
  assumes "distinct (map mm_operation_id ms)" and "mset ms' = mset ms" and "tombstones_in_order ms'"
  shows "\<exists>a. entity_aggregator_new hash ms' = Ok a \<and>
     (\<forall>t. case map_of (ea_traits a) t of
        None \<Rightarrow> \<forall>m \<in> set ms. \<not> touches t m
      | Some agg \<Rightarrow> (\<exists>m \<in> set ms. touches t m) \<and> (\<exists>m. is_latest t (set ms) m \<and> trait_is agg m)) \<and>
     ((\<forall>m \<in> set ms. \<not> is_tombstone m) \<longrightarrow> ea_active_operations a = latest_operations (set ms))"
proof -
  have set: "set ms' = set ms"
    using assms(2) by (metis set_mset_mset)
  moreover have "distinct (map mm_operation_id ms')"
    using assms(1,2) by (metis mset_eq_imp_distinct_iff mset_map)
  moreover have "agg_latest {} agg_start"
    by (simp add: agg_latest_def agg_start_def latest_operations_def is_latest_def)
  ultimately obtain st where st: "agg_loop ms' agg_start = Ok st" "agg_latest (set ms) st"
    using agg_loop_latest [of "{}" agg_start ms'] assms(3) by (auto simp: distinct_map agg_start_def)
  have "case map_of (as_traits st) t of
        None \<Rightarrow> \<forall>m \<in> set ms. \<not> touches t m
      | Some agg \<Rightarrow> (\<exists>m \<in> set ms. touches t m) \<and> (\<exists>m. is_latest t (set ms) m \<and> trait_is agg m)" for t
    using agg_latestD(1,2) [OF st(2), of t] by (auto split: option.split)
  then show ?thesis
    using st(1) agg_latestD(4) [OF st(2)] by (simp add: entity_aggregator_new_def agg_finish_def)
qed

definition sample_mutation :: "nat \<Rightarrow> mutation_type \<Rightarrow> mutation_metadata" where
  "sample_mutation i ty = \<lparr>mm_operation_id = i, mm_block_offset = Some 0, mm_entity_id = ''e'', mm_mutation_type = ty,
     mm_sort_value = \<lparr>ow_value = value_min, ow_reverse = False, ow_ignore = False\<rparr>\<rparr>"

definition sample_put :: "nat \<Rightarrow> trait_id \<Rightarrow> mutation_metadata" where
  "sample_put i t = sample_mutation i (TraitPut \<lparr>pt_trait_id = t, pt_trait_type = None, pt_creation_date = None,
     pt_modification_date = None, pt_has_reference = False\<rparr>)"

theorem mutations_converge_witness:
  "\<exists>a. entity_aggregator_new (\<lambda>_. 0) [sample_put 5 ''b'', sample_mutation 4 (TraitTombstone ''b''), sample_put 3 ''a'',
       sample_mutation 7 EntityTombstone, sample_put 9 ''a''] = Ok a \<and>
     (\<exists>agg. map_of (ea_traits a) ''a'' = Some agg \<and> trait_is agg (sample_put 9 ''a'')) \<and>
     (\<exists>agg. map_of (ea_traits a) ''b'' = Some agg \<and> trait_is agg (sample_mutation 7 EntityTombstone))"
proof -
  let ?ms = "[sample_put 3 ''a'', sample_mutation 4 (TraitTombstone ''b''), sample_put 5 ''b'', sample_mutation 7 EntityTombstone, sample_put 9 ''a'']"
  let ?ms' = "[sample_put 5 ''b'', sample_mutation 4 (TraitTombstone ''b''), sample_put 3 ''a'', sample_mutation 7 EntityTombstone, sample_put 9 ''a'']"
  note defs = sample_put_def sample_mutation_def touches_def affects_def is_tombstone_def
  have "distinct (map mm_operation_id ?ms)" "mset ?ms' = mset ?ms" "tombstones_in_order ?ms'"
    by (simp_all add: defs tombstones_in_order_def)
  from mutations_converge [OF this, of "\<lambda>_. 0"] obtain a where a: "entity_aggregator_new (\<lambda>_. 0) ?ms' = Ok a"
      "\<forall>t. case map_of (ea_traits a) t of
         None \<Rightarrow> \<forall>m \<in> set ?ms. \<not> touches t m
       | Some agg \<Rightarrow> (\<exists>m \<in> set ?ms. touches t m) \<and> (\<exists>m. is_latest t (set ?ms) m \<and> trait_is agg m)"
    by blast
  have "is_latest ''a'' (set ?ms) m \<Longrightarrow> m = sample_put 9 ''a''" "is_latest ''b'' (set ?ms) m \<Longrightarrow> m = sample_mutation 7 EntityTombstone" for m
    by (auto simp: is_latest_def defs)
  with spec [OF a(2), of "''a''"] spec [OF a(2), of "''b''"] a(1) show ?thesis
    by (fastforce simp: touches_def sample_put_def sample_mutation_def split: option.splits)
qed

section \<open>Late operations of a deleted entity\<close>

lemma agg_loop_append: "agg_loop (ms @ ms') st = and_then (agg_loop ms st) (agg_loop ms')"
  by (induction ms arbitrary: st) (simp_all add: and_then_assoc cong: and_then_cong)

lemma agg_loop_prev: "agg_loop ms st = Ok st' \<Longrightarrow> ms \<noteq> [] \<Longrightarrow> as_prev_operation_id st' = Some (mm_operation_id (last ms))"
proof (induction ms arbitrary: st)
  case (Cons m ms)
  then obtain st1 where st1: "agg_step m st = Ok st1" "agg_loop ms st1 = Ok st'"
    by (auto simp: result_simps)
  then have "as_prev_operation_id st1 = Some (mm_operation_id m)"
    by (metis agg_step_Ok agg_step_def result.distinct(3) result.inject(1))
  then show ?case
    using Cons.IH [OF st1(2)] st1(2) by (cases "ms = []") auto
qed simp

lemma put_unknown_trait:
  assumes "mm_mutation_type m = TraitPut put" "map_of (as_traits st) (pt_trait_id put) = None"
    "as_prev_operation_id st \<noteq> Some (mm_operation_id m)"
  shows "\<exists>st'. agg_step m st = Ok st' \<and> as_deletion_date st' = None \<and> mm_operation_id m \<in> as_active st'"
  using assms
  by (auto simp: agg_step_def agg_put_def agg_progress_def get_for_trait_def trait_aggregator_default_def Let_def split: option.splits)

text \<open>
  A put that was committed late, older than the tombstone of the whole entity, is not discarded when
  it names a trait of its own: the deleted entity is there again, with the old put as an active operation.
\<close>

lemma late_put_undeletes:
  assumes "entity_aggregator_new hash ms = Ok a" and "ea_deletion_date a \<noteq> None"
    and "mm_mutation_type m = TraitPut put" and "map_of (ea_traits a) (pt_trait_id put) = None"
    and "mm_operation_id m < ea_last_operation_id a" and "ms \<noteq> [] \<Longrightarrow> mm_operation_id m \<noteq> mm_operation_id (last ms)"
  shows "\<exists>a'. entity_aggregator_new hash (ms @ [m]) = Ok a' \<and> ea_deletion_date a' = None \<and>
     mm_operation_id m \<in> ea_active_operations a'"
proof -
  obtain st where st: "agg_loop ms agg_start = Ok st" "a = agg_finish hash st"
    using assms(1) by (auto simp: entity_aggregator_new_def result_simps)
  have "as_prev_operation_id st \<noteq> Some (mm_operation_id m)"
    using agg_loop_prev [OF st(1)] st(1) assms(6) by (cases "ms = []") (auto simp: agg_start_def)
  then have "\<exists>st'. agg_step m st = Ok st' \<and> as_deletion_date st' = None \<and> mm_operation_id m \<in> as_active st'"
    using st(2) assms(4) by (intro put_unknown_trait [OF assms(3)]) (simp_all add: agg_finish_def)
  then show ?thesis
    using st(1) by (auto simp: entity_aggregator_new_def agg_loop_append agg_finish_def)
qed

lemmas aggregate_simps = entity_aggregator_new_def agg_step_def agg_put_def agg_trait_tombstone_def agg_entity_tombstone_def
  agg_progress_def agg_start_def agg_finish_def get_for_trait_def trait_aggregator_default_def push_put_mutation_def
  push_delete_mutation_def inactivate_def all_deleted_def update_if_newer_def update_if_older_def

lemma sample_mutation_simps [simp]:
  "mm_operation_id (sample_mutation i ty) = i" "mm_mutation_type (sample_mutation i ty) = ty"
  "mm_block_offset (sample_mutation i ty) = Some 0" "mm_entity_id (sample_mutation i ty) = ''e''"
  "mm_operation_id (sample_put i t) = i" "mm_block_offset (sample_put i t) = Some 0"
  "mm_mutation_type (sample_put i t) = TraitPut \<lparr>pt_trait_id = t, pt_trait_type = None, pt_creation_date = None,
     pt_modification_date = None, pt_has_reference = False\<rparr>"
  "mm_entity_id (sample_put i t) = ''e''"
  by (simp_all add: sample_put_def sample_mutation_def)

section \<open>Well-formed aggregates\<close>

definition puts_of_trait :: "trait_id \<Rightarrow> trait_aggregator \<Rightarrow> bool" where
  "puts_of_trait t agg \<longleftrightarrow>
     (\<forall>m \<in> set (ta_put_mutations agg). case mm_mutation_type m of TraitPut put \<Rightarrow> pt_trait_id put = t | _ \<Rightarrow> False)"

definition agg_wf :: "mutation_metadata list \<Rightarrow> agg_state \<Rightarrow> bool" where
  "agg_wf ms st \<longleftrightarrow> hm_wf (as_traits st) \<and> (\<forall>t agg. map_of (as_traits st) t = Some agg \<longrightarrow> puts_of_trait t agg) \<and>
     as_mutation_count st = length ms \<and> as_active st \<subseteq> mm_operation_id ` set ms \<and> card (as_active st) \<le> length ms"

lemma agg_wf_start: "agg_wf [] agg_start"
  by (simp add: agg_wf_def agg_start_def hm_wf_basics)

lemma puts_of_trait_simps [simp]:
  "puts_of_trait t trait_aggregator_default"
  "puts_of_trait t (push_delete_mutation i agg) = puts_of_trait t agg"
  "mm_mutation_type m = TraitPut put \<Longrightarrow> puts_of_trait (pt_trait_id put) agg \<Longrightarrow>
     puts_of_trait (pt_trait_id put) (push_put_mutation m put agg)"
  by (auto simp: puts_of_trait_def trait_aggregator_default_def push_delete_mutation_def push_put_mutation_def Let_def)

lemma inactivate_subset: "inactivate l A \<subseteq> A"
  by (auto simp: inactivate_def split: option.splits)

lemma agg_wf_active:
  assumes "A \<subseteq> mm_operation_id ` set ms" "card A \<le> length ms"
  shows "insert (mm_operation_id m) (inactivate l A) \<subseteq> mm_operation_id ` set (ms @ [m])"
    and "card (insert (mm_operation_id m) (inactivate l A)) \<le> length (ms @ [m])"
proof -
  have "finite A" using assms(1) finite_subset by blast
  then have "card (inactivate l A) \<le> length ms"
    using card_mono [OF _ inactivate_subset] assms(2) le_trans by blast
  then show "card (insert (mm_operation_id m) (inactivate l A)) \<le> length (ms @ [m])"
    using finite_subset [OF inactivate_subset \<open>finite A\<close>] by (simp add: card_insert_if le_SucI)
  show "insert (mm_operation_id m) (inactivate l A) \<subseteq> mm_operation_id ` set (ms @ [m])"
    using assms(1) inactivate_subset [of l A] by auto
qed

lemma agg_wf_replace:
  assumes "agg_wf ms st" "puts_of_trait t agg'" "as_traits st' = hm_insert t agg' (as_traits st)"
    "as_active st' = insert (mm_operation_id m) (inactivate l (as_active st))" "as_mutation_count st' = as_mutation_count st + 1"
  shows "agg_wf (ms @ [m]) st'"
  using assms agg_wf_active [of "as_active st" ms m l] by (auto simp: agg_wf_def hm_insert_wf hm_insert_lookup)

lemma agg_wf_same:
  assumes "agg_wf ms st" "as_traits st' = as_traits st" "as_active st' = as_active st" "as_mutation_count st' = as_mutation_count st + 1"
  shows "agg_wf (ms @ [m]) st'"
  using assms by (auto simp: agg_wf_def)

lemma agg_wf_tombstone:
  assumes "agg_wf ms st" "as_active st' = {mm_operation_id m}" "as_mutation_count st' = as_mutation_count st + 1"
    "as_traits st' = map (\<lambda>(t, agg). (t, push_delete_mutation (mm_operation_id m) agg)) (as_traits st)"
  shows "agg_wf (ms @ [m]) st'"
proof -
  have "map_of (as_traits st') = map_option (push_delete_mutation (mm_operation_id m)) \<circ> map_of (as_traits st)"
    by (simp add: assms(4) map_of_map)
  moreover have "hm_wf (as_traits st')"
    using assms(1) by (simp add: assms(4) agg_wf_def hm_wf_def comp_def split_def)
  ultimately show ?thesis
    using assms(1-3) by (auto simp: agg_wf_def)
qed

lemma agg_progress_count [simp]: "as_mutation_count (agg_progress m st) = as_mutation_count st"
  by (auto simp: agg_progress_def Let_def split: option.splits)

lemma agg_wf_get: "agg_wf ms st \<Longrightarrow> puts_of_trait t (get_for_trait (as_traits st) t)"
  by (auto simp: agg_wf_def get_for_trait_def split: option.splits)

lemma agg_step_wf:
  assumes inv: "agg_wf ms st" and step: "agg_step m st = Ok st'"
  shows "agg_wf (ms @ [m]) st'"
proof (cases "mm_mutation_type m")
  case (TraitPut put)
  let ?agg = "get_for_trait (as_traits st) (pt_trait_id put)"
  show ?thesis
  proof (cases "is_late (mm_operation_id m) (ta_last_operation_id ?agg)")
    case True
    then show ?thesis
      using step TraitPut by (intro agg_wf_same [OF inv]) (auto simp: agg_step_def agg_put_def Let_def split: if_splits)
  next
    case False
    then show ?thesis
      using step TraitPut agg_wf_get [OF inv]
      by (intro agg_wf_replace [OF inv, of "pt_trait_id put" "push_put_mutation m put ?agg" _ _ "ta_last_operation_id ?agg"])
        (auto simp: agg_step_def agg_put_def Let_def split: if_splits)
  qed
next
  case (TraitTombstone t)
  let ?agg = "get_for_trait (as_traits st) t"
  show ?thesis
  proof (cases "is_late (mm_operation_id m) (ta_last_operation_id ?agg)")
    case True
    then show ?thesis
      using step TraitTombstone by (intro agg_wf_same [OF inv]) (auto simp: agg_step_def agg_trait_tombstone_def Let_def split: if_splits)
  next
    case False
    then show ?thesis
      using step TraitTombstone agg_wf_get [OF inv]
      by (intro agg_wf_replace [OF inv, of t "push_delete_mutation (mm_operation_id m) ?agg" _ _ "ta_last_operation_id ?agg"])
        (auto simp: agg_step_def agg_trait_tombstone_def Let_def split: if_splits)
  qed
next
  case EntityTombstone
  show ?thesis
  proof (cases "is_late (mm_operation_id m) (as_last_operation_id st)")
    case True
    then show ?thesis
      using step EntityTombstone by (intro agg_wf_same [OF inv]) (auto simp: agg_step_def agg_entity_tombstone_def Let_def split: if_splits)
  next
    case False
    then show ?thesis
      using step EntityTombstone by (intro agg_wf_tombstone [OF inv]) (auto simp: agg_step_def agg_entity_tombstone_def Let_def split: if_splits)
  qed
next
  case PendingDeletion
  then show ?thesis
    using step by (intro agg_wf_same [OF inv]) (auto simp: agg_step_def Let_def split: if_splits)
qed

lemma agg_loop_wf: "agg_loop ms st = Ok st' \<Longrightarrow> agg_wf ms0 st \<Longrightarrow> agg_wf (ms0 @ ms) st'"
proof (induction ms arbitrary: st ms0)
  case (Cons m ms)
  then obtain st1 where "agg_step m st = Ok st1" "agg_loop ms st1 = Ok st'"
    by (auto simp: result_simps)
  then show ?case
    using Cons.IH [of st1 "ms0 @ [m]"] agg_step_wf [OF Cons.prems(2)] by simp
qed simp

text \<open>
  (C34) Every aggregate is well formed: each trait has one entry, with puts of that trait only, every mutation
  was counted, and the active operations are among them, so that the number of inactive ones that decides
  about the garbage collection never underflows.
\<close>

theorem aggregate_well_formed:
  assumes "entity_aggregator_new hash ms = Ok a"
  shows "distinct (map fst (ea_traits a)) \<and> (\<forall>t agg. map_of (ea_traits a) t = Some agg \<longrightarrow> puts_of_trait t agg) \<and>
     ea_mutation_count a = length ms \<and> ea_active_operations a \<subseteq> mm_operation_id ` set ms \<and>
     card (ea_active_operations a) \<le> ea_mutation_count a"
proof -
  obtain st where st: "agg_loop ms agg_start = Ok st" "a = agg_finish hash st"
    using assms by (auto simp: entity_aggregator_new_def result_simps)
  then show ?thesis
    using agg_loop_wf [OF st(1) agg_wf_start] by (simp add: agg_wf_def agg_finish_def hm_wf_def)
qed

theorem aggregate_well_formed_witness:
  "\<exists>a. entity_aggregator_new (\<lambda>_. 0) [sample_put 1 ''a'', sample_mutation 9 EntityTombstone] = Ok a \<and>
     ea_mutation_count a = 2 \<and> card (ea_active_operations a) \<le> 2"
proof -
  obtain a where a: "entity_aggregator_new (\<lambda>_. 0) [sample_put 1 ''a'', sample_mutation 9 EntityTombstone] = Ok a"
    by (simp add: aggregate_simps Let_def)
  then show ?thesis
    using aggregate_well_formed [OF a] by simp
qed

end
