(* ===== verification/Exo_Gc.thy ===== *)
theory Exo_Gc
  imports Exo_Aggregator_Props
begin

text \<open>
  The garbage collector of the entity index (\<open>store/src/local/entity_index/gc.rs\<close>): which entities and
  traits have something to collect, the operations a pass deletes, and its queue. The times read from the
  clock are parameters, one for each reading; a hash set is a list in the order of the insertions.
\<close>

section \<open>Configuration and state\<close>

record gc_config =
  gcc_deleted_entity_collection :: duration
  gcc_deleted_trait_collection :: duration
  gcc_trait_versions_max :: nat
  gcc_trait_versions_leeway :: nat
  gcc_min_operation_age :: duration
  gcc_queue_size :: nat

definition day_secs :: nat where "day_secs = 86400"

definition gc_config_default :: gc_config where
  "gc_config_default = \<lparr>gcc_deleted_entity_collection = 14 * day_secs * 10 ^ 9,
     gcc_deleted_trait_collection = 14 * day_secs * 10 ^ 9, gcc_trait_versions_max = 5,
     gcc_trait_versions_leeway = 7, gcc_min_operation_age = 7 * day_secs * 10 ^ 9, gcc_queue_size = 500\<rparr>"

definition gc_config_from_proto :: "nat option \<Rightarrow> gc_config" where
  "gc_config_from_proto queue_size =
     (case queue_size of
        Some v \<Rightarrow> gc_config_default\<lparr>gcc_queue_size := v\<rparr>
      | None \<Rightarrow> gc_config_default)"

record garbage_collector =
  gc_conf :: gc_config
  gc_max_entity_deleted_duration :: int
  gc_max_trait_deleted_duration :: int
  gc_trait_versions_min_age :: int
  gc_entity_ids :: "entity_id list"

text \<open>A signed duration holds at most \<open>2\<^sup>63 - 1\<close> milliseconds.\<close>

definition chrono_from_std :: "duration \<Rightarrow> int option" where
  "chrono_from_std d = (if d \<le> (2 ^ 63 - 1) * 10 ^ 6 then Some (int d) else None)"

definition gc_new :: "gc_config \<Rightarrow> (store_error, garbage_collector) result" where
  "gc_new config =
     and_then (expect (chrono_from_std (gcc_deleted_entity_collection config))) (\<lambda>max_entity.
     and_then (expect (chrono_from_std (gcc_deleted_trait_collection config))) (\<lambda>max_trait.
     and_then (expect (chrono_from_std (gcc_min_operation_age config))) (\<lambda>min_age.
       Ok \<lparr>gc_conf = config, gc_max_entity_deleted_duration = max_entity,
           gc_max_trait_deleted_duration = max_trait, gc_trait_versions_min_age = min_age, gc_entity_ids = []\<rparr>)))"

definition gc_is_full :: "garbage_collector \<Rightarrow> bool" where
  "gc_is_full g \<longleftrightarrow> length (gc_entity_ids g) \<ge> gcc_queue_size (gc_conf g)"

definition maybe_enqueue :: "entity_id \<Rightarrow> garbage_collector \<Rightarrow> garbage_collector" where
  "maybe_enqueue entity_id g =
     (if gc_is_full g then g
      else if entity_id \<in> set (gc_entity_ids g) then g
      else g\<lparr>gc_entity_ids := gc_entity_ids g @ [entity_id]\<rparr>)"

section \<open>What to collect\<close>

datatype gc_operation = GcDeleteEntity | GcDeleteTrait trait_id | GcCompactTrait trait_id

fun gen_trait_collection :: "date \<Rightarrow> garbage_collector \<Rightarrow> trait_id \<times> trait_aggregator \<Rightarrow> gc_operation list" where
  "gen_trait_collection now g (trait_id, agg) =
     (if (case ta_deletion_date agg of Some d \<Rightarrow> now - d \<ge> gc_max_trait_deleted_duration g | None \<Rightarrow> False)
      then [GcDeleteTrait trait_id]
      else if ta_mutation_count agg > gcc_trait_versions_leeway (gc_conf g) then [GcCompactTrait trait_id]
      else [])"

definition gen_entity_collections :: "date \<Rightarrow> garbage_collector \<Rightarrow> entity_aggregator \<Rightarrow> gc_operation list" where
  "gen_entity_collections now g a =
     (if ea_in_pending a \<or> ea_pending_deletion a then []
      else if (case ea_deletion_date a of Some d \<Rightarrow> now - d \<ge> gc_max_entity_deleted_duration g | None \<Rightarrow> False)
      then [GcDeleteEntity]
      else concat (map (gen_trait_collection now g) (ea_traits a)))"

definition maybe_flag_for_collection :: "date \<Rightarrow> entity_aggregator \<Rightarrow> garbage_collector \<Rightarrow> garbage_collector" where
  "maybe_flag_for_collection now a g =
     (if gen_entity_collections now g a \<noteq> [] then maybe_enqueue (ea_entity_id a) g else g)"

section \<open>Collecting\<close>

text \<open>The mutation that deletes the operations: the only one of the request.\<close>

definition deletion_mutation :: "entity_id \<Rightarrow> nat list \<Rightarrow> 't entity_mutation option" where
  "deletion_mutation entity_id operation_ids =
     (case mr_mutations (build_delete_operations entity_id operation_ids mutation_builder_new) of
        [] \<Rightarrow> None
      | mutation # _ \<Rightarrow> Some mutation)"

definition collect_delete_entity ::
  "entity_aggregator \<Rightarrow> mutation_metadata list \<Rightarrow> (store_error, 't entity_mutation option) result" where
  "collect_delete_entity a mutations =
     (if ea_deletion_date a = None then Panic
      else let operation_ids = map mm_operation_id mutations in
        Ok (if operation_ids = [] then None else deletion_mutation (ea_entity_id a) operation_ids))"

definition filter_trait_mutations :: "mutation_metadata list \<Rightarrow> trait_id \<Rightarrow> mutation_metadata list" where
  "filter_trait_mutations mutations trait_id =
     filter (\<lambda>m. case mm_mutation_type m of
         TraitPut put_mut \<Rightarrow> pt_trait_id put_mut = trait_id
       | TraitTombstone tomb_trait_id \<Rightarrow> tomb_trait_id = trait_id
       | _ \<Rightarrow> False) mutations"

definition collect_delete_trait ::
  "entity_aggregator \<Rightarrow> trait_id \<Rightarrow> mutation_metadata list \<Rightarrow> (store_error, 't entity_mutation option) result" where
  "collect_delete_trait a trait_id mutations =
     and_then (expect (map_of (ea_traits a) trait_id)) (\<lambda>agg.
       if ta_deletion_date agg = None then Panic
       else let operation_ids = map mm_operation_id (filter_trait_mutations mutations trait_id) in
         Ok (if operation_ids = [] then None else deletion_mutation (ea_entity_id a) operation_ids))"

definition assert_inactive_operations :: "entity_aggregator \<Rightarrow> nat list \<Rightarrow> (store_error, unit) result" where
  "assert_inactive_operations a to_delete_ops =
     (if list_ex (\<lambda>i. i \<in> ea_active_operations a) to_delete_ops then Panic else Ok ())"

definition collect_trait_versions ::
  "entity_aggregator \<Rightarrow> trait_id \<Rightarrow> date \<Rightarrow> nat \<Rightarrow> mutation_metadata list \<Rightarrow>
     (store_error, 't entity_mutation option) result" where
  "collect_trait_versions a trait_id min_op_time max_versions mutations =
     (let trait_operations = map mm_operation_id
            (filter (\<lambda>m. to_datetime (mm_operation_id m) < min_op_time) (filter_trait_mutations mutations trait_id)) in
      if length trait_operations \<le> max_versions then Ok None
      else let operation_ids = take (length trait_operations - max_versions) trait_operations in
        and_then (assert_inactive_operations a operation_ids) (\<lambda>_.
          Ok (deletion_mutation (ea_entity_id a) operation_ids)))"

fun collect_operation ::
  "garbage_collector \<Rightarrow> date \<Rightarrow> entity_aggregator \<Rightarrow> mutation_metadata list \<Rightarrow> gc_operation \<Rightarrow>
     (store_error, 't entity_mutation option) result" where
  "collect_operation g min_op_time a mutations GcDeleteEntity = collect_delete_entity a mutations"
| "collect_operation g min_op_time a mutations (GcDeleteTrait trait_id) = collect_delete_trait a trait_id mutations"
| "collect_operation g min_op_time a mutations (GcCompactTrait trait_id) =
     collect_trait_versions a trait_id min_op_time (gcc_trait_versions_max (gc_conf g)) mutations"

fun collect_gc_operations ::
  "garbage_collector \<Rightarrow> date \<Rightarrow> entity_aggregator \<Rightarrow> mutation_metadata list \<Rightarrow> gc_operation list \<Rightarrow>
     't entity_mutation list \<Rightarrow> (store_error, 't entity_mutation list) result" where
  "collect_gc_operations g min_op_time a mutations [] deletions = Ok deletions"
| "collect_gc_operations g min_op_time a mutations (gc_op # gc_ops) deletions =
     and_then (collect_operation g min_op_time a mutations gc_op) (\<lambda>opt_deletion.
       collect_gc_operations g min_op_time a mutations gc_ops
         (case opt_deletion of Some d \<Rightarrow> deletions @ [d] | None \<Rightarrow> deletions))"

type_synonym entity_fetcher = "entity_id \<Rightarrow> (store_error, mutation_metadata list) result"

text \<open>An entity whose mutations cannot be fetched is passed over.\<close>

fun collect_entities ::
  "(nat list \<Rightarrow> nat) \<Rightarrow> (entity_id \<Rightarrow> date) \<Rightarrow> garbage_collector \<Rightarrow> date \<Rightarrow> entity_fetcher \<Rightarrow> entity_id list \<Rightarrow>
     't entity_mutation list \<Rightarrow> (store_error, 't entity_mutation list) result" where
  "collect_entities hash clock g min_op_time fetcher [] deletions = Ok deletions"
| "collect_entities hash clock g min_op_time fetcher (entity_id # entity_ids) deletions =
     (case fetcher entity_id of
        Panic \<Rightarrow> Panic
      | Err _ \<Rightarrow> collect_entities hash clock g min_op_time fetcher entity_ids deletions
      | Ok sorted_mutations \<Rightarrow>
          and_then (entity_aggregator_new hash sorted_mutations) (\<lambda>a.
          and_then (collect_gc_operations g min_op_time a sorted_mutations
              (gen_entity_collections (clock entity_id) g a) deletions) (\<lambda>deletions.
            collect_entities hash clock g min_op_time fetcher entity_ids deletions)))"

text \<open>
  A pass: \<open>now\<close> is the time it starts, \<open>clock\<close> the time at which each entity is looked at. The queue is
  emptied first.
\<close>

definition gc_run ::
  "(nat list \<Rightarrow> nat) \<Rightarrow> date \<Rightarrow> (entity_id \<Rightarrow> date) \<Rightarrow> entity_fetcher \<Rightarrow> garbage_collector \<Rightarrow>
     (store_error, 't entity_mutation list) result \<times> garbage_collector" where
  "gc_run hash now clock fetcher g =
     (let entity_ids = gc_entity_ids g;
          g' = g\<lparr>gc_entity_ids := []\<rparr> in
      (if entity_ids = [] then Ok []
       else collect_entities hash clock g' (now - gc_trait_versions_min_age g') fetcher entity_ids [], g'))"

end
