(* ===== verification/Exo_Gc_Props.thy ===== *)
theory Exo_Gc_Props
  imports Exo_Gc
begin

text \<open>
  The garbage collector spares the active operations when the operations of an entity come in order, and
  panics when one that was committed late is among them.
\<close>

section \<open>Active operations when operations come in order\<close>

definition agg_ordered :: "mutation_metadata set \<Rightarrow> agg_state \<Rightarrow> bool" where
  "agg_ordered M st \<longleftrightarrow>
     (\<forall>t agg. map_of (as_traits st) t = Some agg \<longrightarrow>
        (\<exists>i. ta_last_operation_id agg = Some i \<and> i \<in> mm_operation_id ` M \<and>
           (\<forall>m \<in> M. touches t m \<longrightarrow> mm_operation_id m \<le> i))) \<and>
     (\<forall>t. \<forall>m \<in> M. touches t m \<longrightarrow> mm_operation_id m \<in> as_active st \<longrightarrow>
        (\<exists>agg. map_of (as_traits st) t = Some agg \<and> ta_last_operation_id agg = Some (mm_operation_id m))) \<and>
     (\<forall>i. as_last_operation_id st = Some i \<longrightarrow> i \<in> mm_operation_id ` M) \<and>
     (\<forall>i. as_prev_operation_id st = Some i \<longrightarrow> i \<in> mm_operation_id ` M)"

lemma agg_orderedD:
  assumes "agg_ordered M st"
  shows "map_of (as_traits st) t = Some agg \<Longrightarrow>
      \<exists>i. ta_last_operation_id agg = Some i \<and> i \<in> mm_operation_id ` M \<and> (\<forall>m \<in> M. touches t m \<longrightarrow> mm_operation_id m \<le> i)"
    and "m \<in> M \<Longrightarrow> touches t m \<Longrightarrow> mm_operation_id m \<in> as_active st \<Longrightarrow>
      \<exists>agg. map_of (as_traits st) t = Some agg \<and> ta_last_operation_id agg = Some (mm_operation_id m)"
    and "as_last_operation_id st = Some i \<Longrightarrow> i \<in> mm_operation_id ` M"
    and "as_prev_operation_id st = Some i \<Longrightarrow> i \<in> mm_operation_id ` M"
  using assms unfolding agg_ordered_def by blast+

lemma active_is_greatest:
  assumes "agg_ordered M st" "m \<in> M" "touches t m" "mm_operation_id m \<in> as_active st" "m' \<in> M" "touches t m'"
  shows "mm_operation_id m' \<le> mm_operation_id m"
  using agg_orderedD(2) [OF assms(1-4)] agg_orderedD(1) [OF assms(1)] assms(5,6) by fastforce

lemma ordered_replace:
  assumes inv: "agg_ordered M st" and new: "\<forall>m' \<in> M. mm_operation_id m' < mm_operation_id m" and t: "touches t m"
    and traits: "as_traits st' = hm_insert t agg' (as_traits st)" "ta_last_operation_id agg' = Some (mm_operation_id m)"
    and active: "as_active st' = insert (mm_operation_id m) (inactivate (ta_last_operation_id (get_for_trait (as_traits st) t)) (as_active st))"
    and last: "as_last_operation_id st' \<in> {as_last_operation_id st, Some (mm_operation_id m)}"
    and prev: "as_prev_operation_id st' = Some (mm_operation_id m)"
  shows "agg_ordered (insert m M) st'"
proof -
  have only: "touches t' m \<longleftrightarrow> t' = t" for t'
    using t by (auto simp: touches_def)
  have "\<exists>i. ta_last_operation_id agg = Some i \<and> i \<in> mm_operation_id ` insert m M \<and>
      (\<forall>m' \<in> insert m M. touches t' m' \<longrightarrow> mm_operation_id m' \<le> i)" if "map_of (as_traits st') t' = Some agg" for t' agg
  proof (cases "t' = t")
    case True
    then show ?thesis
      using that traits new by (auto simp: hm_insert_lookup less_imp_le)
  next
    case False
    then show ?thesis
      using that traits(1) only agg_orderedD(1) [OF inv, of t' agg] by (auto simp: hm_insert_lookup)
  qed
  moreover have "\<exists>agg. map_of (as_traits st') t' = Some agg \<and> ta_last_operation_id agg = Some (mm_operation_id m')"
    if "m' \<in> insert m M" "touches t' m'" "mm_operation_id m' \<in> as_active st'" for t' m'
  proof (cases "m' = m")
    case True
    then show ?thesis
      using that only traits by (simp add: hm_insert_lookup)
  next
    case False
    then have "m' \<in> M" "mm_operation_id m' \<noteq> mm_operation_id m"
      using that(1) new by auto
    moreover from this have "mm_operation_id m' \<in> inactivate (ta_last_operation_id (get_for_trait (as_traits st) t)) (as_active st)"
      using that(3) active by simp
    ultimately show ?thesis
      using agg_orderedD(2) [OF inv _ that(2)] traits(1)
      by (cases "t' = t") (fastforce simp: hm_insert_lookup get_for_trait_def inactivate_def split: option.splits)+
  qed
  ultimately show ?thesis
    using last prev agg_orderedD(3) [OF inv] unfolding agg_ordered_def by auto
qed

lemma agg_progress_last [simp]:
  "as_last_operation_id (agg_progress m st) =
     (if mm_operation_id m > (case as_last_operation_id st of Some i \<Rightarrow> i | None \<Rightarrow> 0) then Some (mm_operation_id m)
      else as_last_operation_id st)"
  by (simp add: agg_progress_def Let_def split: option.splits)

lemma push_last [simp]:
  "ta_last_operation_id (push_put_mutation m put agg) = Some (mm_operation_id m)"
  "ta_last_operation_id (push_delete_mutation i agg) = Some i"
  by (simp_all add: push_put_mutation_def push_delete_mutation_def Let_def)

lemma ordered_not_late:
  assumes "agg_ordered M st" "\<forall>m' \<in> M. mm_operation_id m' < mm_operation_id m"
  shows "\<not> is_late (mm_operation_id m) (ta_last_operation_id (get_for_trait (as_traits st) t))"
    and "\<not> is_late (mm_operation_id m) (as_last_operation_id st)"
proof -
  show "\<not> is_late (mm_operation_id m) (ta_last_operation_id (get_for_trait (as_traits st) t))"
    using agg_orderedD(1) [OF assms(1), of t] assms(2)
    by (cases "map_of (as_traits st) t") (auto simp: get_for_trait_def trait_aggregator_default_def)
  show "\<not> is_late (mm_operation_id m) (as_last_operation_id st)"
    using agg_orderedD(3) [OF assms(1)] assms(2) by (cases "as_last_operation_id st") auto
qed

lemma ordered_tombstone:
  assumes inv: "agg_ordered M st" and new: "\<forall>m' \<in> M. mm_operation_id m' < mm_operation_id m"
    and ty: "mm_mutation_type m = EntityTombstone"
    and st': "as_traits st' = map (\<lambda>(t, agg). (t, push_delete_mutation (mm_operation_id m) agg)) (as_traits st)"
      "as_active st' = {mm_operation_id m}"
    and last: "as_last_operation_id st' \<in> {as_last_operation_id st, Some (mm_operation_id m)}"
    and prev: "as_prev_operation_id st' = Some (mm_operation_id m)"
  shows "agg_ordered (insert m M) st'"
proof -
  have no: "\<not> touches t m" for t
    using ty by (simp add: touches_def)
  have "map_of (as_traits st') = map_option (push_delete_mutation (mm_operation_id m)) \<circ> map_of (as_traits st)"
    by (simp add: st'(1) map_of_map)
  then show ?thesis
    using no new st'(2) last prev agg_orderedD(3) [OF inv] unfolding agg_ordered_def
    by (auto simp: push_delete_mutation_def less_imp_le)
qed

lemma ordered_pending:
  assumes inv: "agg_ordered M st" and new: "\<forall>m' \<in> M. mm_operation_id m' < mm_operation_id m"
    and ty: "mm_mutation_type m = PendingDeletion"
    and st': "as_traits st' = as_traits st" "as_active st' = as_active st"
    and last: "as_last_operation_id st' \<in> {as_last_operation_id st, Some (mm_operation_id m)}"
    and prev: "as_prev_operation_id st' = Some (mm_operation_id m)"
  shows "agg_ordered (insert m M) st'"
proof -
  have no: "\<not> touches t m" for t
    using ty by (simp add: touches_def)
  have "\<exists>i. ta_last_operation_id agg = Some i \<and> i \<in> mm_operation_id ` insert m M \<and>
      (\<forall>m' \<in> insert m M. touches t m' \<longrightarrow> mm_operation_id m' \<le> i)" if "map_of (as_traits st) t = Some agg" for t agg
    using agg_orderedD(1) [OF inv that] no by auto
  then show ?thesis
    using no last prev agg_orderedD(2,3) [OF inv] unfolding agg_ordered_def st' by auto
qed

lemma agg_step_ordered:
  assumes inv: "agg_ordered M st" and new: "\<forall>m' \<in> M. mm_operation_id m' < mm_operation_id m"
  shows "\<exists>st'. agg_step m st = Ok st' \<and> agg_ordered (insert m M) st'"
proof -
  have "as_prev_operation_id st \<noteq> Some (mm_operation_id m)"
    using agg_orderedD(4) [OF inv] new by fastforce
  then obtain st' where st': "agg_step m st = Ok st'" "as_prev_operation_id st' = Some (mm_operation_id m)"
    using agg_step_Ok by blast
  define st1 where "st1 = st\<lparr>as_prev_operation_id := Some (mm_operation_id m), as_mutation_count := as_mutation_count st + 1,
      as_digest := as_digest st @ [mm_operation_id m], as_entity_id := mm_entity_id m\<rparr>"
  have same: "as_traits st1 = as_traits st" "as_active st1 = as_active st" "as_last_operation_id st1 = as_last_operation_id st"
    by (simp_all add: st1_def)
  have step: "st' = (case agg_mutation m st1 of None \<Rightarrow> st1 | Some st2 \<Rightarrow> agg_progress m st2)"
    using st'(1) unfolding agg_step_def st1_def Let_def by (simp del: agg_mutation.simps split: if_splits)
  note nl = ordered_not_late [OF inv new]
  have "agg_ordered (insert m M) st'"
  proof (cases "mm_mutation_type m")
    case (TraitPut put)
    then show ?thesis
      using step nl(1) same st'(2)
      by (intro ordered_replace [OF inv new, of "pt_trait_id put" _ "push_put_mutation m put (get_for_trait (as_traits st) (pt_trait_id put))"])
        (simp_all add: touches_def agg_put_def Let_def)
  next
    case (TraitTombstone t)
    then show ?thesis
      using step nl(1) same st'(2)
      by (intro ordered_replace [OF inv new, of t _ "push_delete_mutation (mm_operation_id m) (get_for_trait (as_traits st) t)"])
        (simp_all add: touches_def agg_trait_tombstone_def Let_def)
  next
    case EntityTombstone
    then show ?thesis
      using step nl(2) same st'(2)
      by (intro ordered_tombstone [OF inv new EntityTombstone]) (auto simp: agg_entity_tombstone_def)
  next
    case PendingDeletion
    then show ?thesis
      using step same st'(2) by (intro ordered_pending [OF inv new PendingDeletion]) auto
  qed
  then show ?thesis using st'(1) by blast
qed

lemma agg_loop_ordered:
  assumes "agg_ordered M st" "sorted_wrt (<) (map mm_operation_id ms)" "\<forall>m \<in> M. \<forall>m' \<in> set ms. mm_operation_id m < mm_operation_id m'"
  shows "\<exists>st'. agg_loop ms st = Ok st' \<and> agg_ordered (M \<union> set ms) st'"
  using assms
proof (induction ms arbitrary: M st)
  case (Cons m ms)
  then obtain st' where st': "agg_step m st = Ok st'" "agg_ordered (insert m M) st'"
    using agg_step_ordered [of M st m] by auto
  then show ?case
    using Cons.IH [OF st'(2)] Cons.prems by auto
qed simp

text \<open>Among the operations of a trait, in order, only the last one can be active.\<close>

definition spares_active :: "mutation_metadata list \<Rightarrow> entity_aggregator \<Rightarrow> bool" where
  "spares_active ms a \<longleftrightarrow> hm_wf (ea_traits a) \<and> (\<forall>t. \<forall>m \<in> set ms. \<forall>m' \<in> set ms. touches t m \<longrightarrow> touches t m' \<longrightarrow>
     mm_operation_id m \<in> ea_active_operations a \<longrightarrow> mm_operation_id m' \<le> mm_operation_id m)"

lemma aggregate_ordered:
  assumes "sorted_wrt (<) (map mm_operation_id ms)"
  shows "\<exists>a. entity_aggregator_new hash ms = Ok a \<and> spares_active ms a"
proof -
  have "agg_ordered {} agg_start"
    by (simp add: agg_ordered_def agg_start_def)
  then obtain st where st: "agg_loop ms agg_start = Ok st" "agg_ordered (set ms) st"
    using agg_loop_ordered [of "{}" agg_start ms] assms by auto
  moreover have "hm_wf (as_traits st)"
    using agg_loop_wf [OF _ agg_wf_start] st(1) by (auto simp: agg_wf_def)
  ultimately have "spares_active ms (agg_finish hash st)"
    using active_is_greatest [of "set ms" st] by (simp add: spares_active_def agg_finish_def)
  then show ?thesis
    using st by (simp add: entity_aggregator_new_def)
qed

section \<open>A pass\<close>

lemma filter_trait_mutations_touches: "filter_trait_mutations ms t = filter (touches t) ms"
  unfolding filter_trait_mutations_def by (rule filter_cong) (auto simp: touches_def split: mutation_type.splits)

lemma take_not_last:
  fixes x :: nat
  assumes "sorted_wrt (<) xs" "n < length xs" "x \<in> set (take n xs)"
  shows "\<exists>y \<in> set xs. x < y"
proof -
  have "xs ! n \<in> set (drop n xs)"
    using assms(2) by (metis Cons_nth_drop_Suc list.set_intros(1))
  then have "x < xs ! n"
    using assms(1,3) sorted_wrt_append [of "(<)" "take n xs" "drop n xs"] by simp
  then show ?thesis using assms(2) nth_mem by blast
qed

lemma deletion_mutation_simp:
  "deletion_mutation e ids = Some \<lparr>em_entity_id = e, em_mutation = Some (DeleteOperations ids)\<rparr>"
  by (simp add: deletion_mutation_def build_delete_operations_def push_mutation_def mutation_builder_new_def)

definition expired :: "date \<Rightarrow> int \<Rightarrow> date option \<Rightarrow> bool" where
  "expired now max_duration deleted = (case deleted of Some d \<Rightarrow> now - d \<ge> max_duration | None \<Rightarrow> False)"

text \<open>
  What a deletion may take: operations of the entity that are not active, or that belong to an entity or
  to a trait deleted for as long as the configuration asks.
\<close>

definition deletion_allowed ::
  "date \<Rightarrow> garbage_collector \<Rightarrow> mutation_metadata list \<Rightarrow> entity_aggregator \<Rightarrow> 't entity_mutation \<Rightarrow> bool" where
  "deletion_allowed now g ms a d \<longleftrightarrow>
     (\<exists>ids. d = \<lparr>em_entity_id = ea_entity_id a, em_mutation = Some (DeleteOperations ids)\<rparr> \<and>
        (\<forall>i \<in> set ids. \<exists>m \<in> set ms. mm_operation_id m = i \<and>
           (i \<notin> ea_active_operations a \<or> expired now (gc_max_entity_deleted_duration g) (ea_deletion_date a) \<or>
            (\<exists>t agg. map_of (ea_traits a) t = Some agg \<and> touches t m \<and>
               expired now (gc_max_trait_deleted_duration g) (ta_deletion_date agg)))))"

lemma expired_Some: "expired now d x \<Longrightarrow> x \<noteq> None"
  by (cases x) (simp_all add: expired_def)

lemma gen_entity_collections_cases:
  assumes "op \<in> set (gen_entity_collections now g a)"
  obtains "op = GcDeleteEntity" "expired now (gc_max_entity_deleted_duration g) (ea_deletion_date a)"
  | t agg where "op = GcDeleteTrait t" "(t, agg) \<in> set (ea_traits a)" "expired now (gc_max_trait_deleted_duration g) (ta_deletion_date agg)"
  | t where "op = GcCompactTrait t"
  using assms by (auto simp: gen_entity_collections_def simp flip: expired_def split: if_splits)

lemma compact_spares_active:
  assumes "spares_active ms a" "sorted_wrt (<) (map mm_operation_id ms)" "0 < max_versions"
  shows "\<exists>od. collect_trait_versions a t min_op_time max_versions ms = Ok od \<and> (\<forall>d. od = Some d \<longrightarrow> deletion_allowed now g ms a d)"
proof -
  define ops where "ops = map mm_operation_id
      (filter (\<lambda>m. to_datetime (mm_operation_id m) < min_op_time) (filter_trait_mutations ms t))"
  have sorted: "sorted_wrt (<) ops"
    using assms(2) by (auto simp: ops_def filter_trait_mutations_touches sorted_wrt_map sorted_wrt_filter)
  have of_trait: "\<exists>m \<in> set ms. touches t m \<and> mm_operation_id m = i" if "i \<in> set ops" for i
    using that by (auto simp: ops_def filter_trait_mutations_touches)
  have inactive: "i \<notin> ea_active_operations a" if len: "length ops > max_versions" and i: "i \<in> set (take (length ops - max_versions) ops)" for i
  proof -
    have "length ops - max_versions < length ops"
      using len assms(3) by simp
    then obtain j where "j \<in> set ops" "i < j"
      using take_not_last [OF sorted _ i] by blast
    then show ?thesis
      using of_trait [of i] of_trait [of j] in_set_takeD [OF i] assms(1) unfolding spares_active_def
      by (metis not_le)
  qed
  show ?thesis
  proof (cases "length ops \<le> max_versions")
    case True
    then show ?thesis
      by (simp add: collect_trait_versions_def Let_def flip: ops_def)
  next
    case False
    then have "assert_inactive_operations a (take (length ops - max_versions) ops) = Ok ()"
      using inactive by (auto simp: assert_inactive_operations_def list_ex_iff)
    then show ?thesis
      using False inactive of_trait in_set_takeD [of _ "length ops - max_versions" ops]
      by (fastforce simp: collect_trait_versions_def Let_def deletion_allowed_def deletion_mutation_simp simp flip: ops_def)
  qed
qed

lemma collect_operation_allowed:
  assumes "spares_active ms a" "sorted_wrt (<) (map mm_operation_id ms)" "0 < gcc_trait_versions_max (gc_conf g)"
    "op \<in> set (gen_entity_collections now g a)"
  shows "\<exists>od. collect_operation g min_op_time a ms op = Ok od \<and> (\<forall>d. od = Some d \<longrightarrow> deletion_allowed now g ms a d)"
  using assms(4)
proof (cases rule: gen_entity_collections_cases)
  case 1
  then show ?thesis
    using expired_Some [OF 1(2)] by (auto simp: collect_delete_entity_def deletion_allowed_def deletion_mutation_simp)
next
  case (2 t agg)
  then have "map_of (ea_traits a) t = Some agg"
    using assms(1) by (auto simp: spares_active_def dest: hm_wf_basics(2))
  then show ?thesis
    using 2(1,3) expired_Some [OF 2(3)]
    by (auto simp: collect_delete_trait_def deletion_allowed_def deletion_mutation_simp filter_trait_mutations_touches)
next
  case (3 t)
  then show ?thesis
    using compact_spares_active [OF assms(1-3)] by simp
qed

lemma collect_gc_operations_allowed:
  fixes deletions :: "'t entity_mutation list"
  assumes "spares_active ms a" "sorted_wrt (<) (map mm_operation_id ms)" "0 < gcc_trait_versions_max (gc_conf g)"
    "set ops \<subseteq> set (gen_entity_collections now g a)"
  shows "\<exists>ds. collect_gc_operations g min_op_time a ms ops deletions = Ok (deletions @ ds) \<and>
    (\<forall>d \<in> set ds. deletion_allowed now g ms a d)"
  using assms(4)
proof (induction ops arbitrary: deletions)
  case (Cons op ops)
  then obtain od :: "'t entity_mutation option" where od: "collect_operation g min_op_time a ms op = Ok od" "\<forall>d. od = Some d \<longrightarrow> deletion_allowed now g ms a d"
    using collect_operation_allowed [OF assms(1-3)] by (metis list.set_intros(1) subset_code(1))
  show ?case
  proof (cases od)
    case None
    then show ?thesis using Cons.IH [of deletions] Cons.prems od by auto
  next
    case (Some d)
    then show ?thesis using Cons.IH [of "deletions @ [d]"] Cons.prems od by fastforce
  qed
qed simp

definition ordered_fetch :: "entity_fetcher \<Rightarrow> entity_id \<Rightarrow> bool" where
  "ordered_fetch fetcher e \<longleftrightarrow>
     (case fetcher e of Ok ms \<Rightarrow> sorted_wrt (<) (map mm_operation_id ms) | Err _ \<Rightarrow> True | Panic \<Rightarrow> False)"

text \<open>Where a deletion of a pass comes from.\<close>

definition deletion_justified ::
  "(nat list \<Rightarrow> nat) \<Rightarrow> (entity_id \<Rightarrow> date) \<Rightarrow> garbage_collector \<Rightarrow> entity_fetcher \<Rightarrow> entity_id \<Rightarrow> 't entity_mutation \<Rightarrow> bool" where
  "deletion_justified hash clock g fetcher e d \<longleftrightarrow>
     (\<exists>ms a. fetcher e = Ok ms \<and> entity_aggregator_new hash ms = Ok a \<and> deletion_allowed (clock e) g ms a d)"

lemma collect_entities_justified:
  assumes "0 < gcc_trait_versions_max (gc_conf g)" "\<forall>e \<in> set es. ordered_fetch fetcher e"
  shows "\<exists>ds. collect_entities hash clock g min_op_time fetcher es deletions = Ok (deletions @ ds) \<and>
    (\<forall>d \<in> set ds. \<exists>e \<in> set es. deletion_justified hash clock g fetcher e d)"
  using assms(2)
proof (induction es arbitrary: deletions)
  case (Cons e es)
  show ?case
  proof (cases "fetcher e")
    case (Ok ms)
    then have sorted: "sorted_wrt (<) (map mm_operation_id ms)"
      using Cons.prems by (simp add: ordered_fetch_def)
    obtain a where a: "entity_aggregator_new hash ms = Ok a" "spares_active ms a"
      using aggregate_ordered [OF sorted] by blast
    obtain ds where ds: "collect_gc_operations g min_op_time a ms (gen_entity_collections (clock e) g a) deletions = Ok (deletions @ ds)"
        "\<forall>d \<in> set ds. deletion_allowed (clock e) g ms a d"
      using collect_gc_operations_allowed [OF a(2) sorted assms(1) subset_refl] by blast
    obtain ds' where "collect_entities hash clock g min_op_time fetcher es (deletions @ ds) = Ok ((deletions @ ds) @ ds')"
        "\<forall>d \<in> set ds'. \<exists>e \<in> set es. deletion_justified hash clock g fetcher e d"
      using Cons.IH Cons.prems by (metis list.set_intros(2))
    then show ?thesis
      using Ok a(1) ds by (intro exI [of _ "ds @ ds'"]) (auto simp: deletion_justified_def)
  next
    case (Err x)
    then show ?thesis using Cons.IH [of deletions] Cons.prems by auto
  qed (use Cons.prems in \<open>simp add: ordered_fetch_def\<close>)
qed simp

text \<open>
  (C15) A pass over entities whose operations come in the order of their identifiers does not panic, empties
  the queue, and deletes only operations that are no longer active, or that belong to an entity or a trait
  that was deleted for as long as the configuration asks.
\<close>

theorem gc_spares_active:
  assumes "0 < gcc_trait_versions_max (gc_conf g)" and "\<forall>e \<in> set (gc_entity_ids g). ordered_fetch fetcher e"
  shows "\<exists>ds. gc_run hash now clock fetcher g = (Ok ds, g\<lparr>gc_entity_ids := []\<rparr>) \<and>
    (\<forall>d \<in> set ds. \<exists>e \<in> set (gc_entity_ids g). deletion_justified hash clock (g\<lparr>gc_entity_ids := []\<rparr>) fetcher e d)"
  using collect_entities_justified [of "g\<lparr>gc_entity_ids := []\<rparr>" "gc_entity_ids g" fetcher hash clock
      "now - gc_trait_versions_min_age g" "[]"] assms
  by (auto simp: gc_run_def Let_def)

definition sample_gc :: "entity_id list \<Rightarrow> garbage_collector" where
  "sample_gc es = \<lparr>gc_conf = gc_config_default, gc_max_entity_deleted_duration = 14 * 86400 * 10 ^ 9,
     gc_max_trait_deleted_duration = 14 * 86400 * 10 ^ 9, gc_trait_versions_min_age = 7 * 86400 * 10 ^ 9, gc_entity_ids = es\<rparr>"

definition sample_fetcher :: "nat list \<Rightarrow> entity_fetcher" where
  "sample_fetcher ids e = Ok (map (\<lambda>i. sample_put i ''a'') ids)"

lemma sample_gc_new: "gc_new gc_config_default = Ok (sample_gc [])"
  by (simp add: gc_new_def gc_config_default_def chrono_from_std_def sample_gc_def day_secs_def)

theorem gc_spares_active_witness:
  "\<exists>ds. gc_run (\<lambda>_. 0) (10 ^ 18) (\<lambda>_. 10 ^ 18) (sample_fetcher [1, 2, 3, 4, 5, 6, 7, 8]) (sample_gc [''e'']) =
      (Ok (ds :: nat entity_mutation list), sample_gc [])"
  using gc_spares_active [of "sample_gc [''e'']" "sample_fetcher [1, 2, 3, 4, 5, 6, 7, 8]" "\<lambda>_. 0" "10 ^ 18" "\<lambda>_. 10 ^ 18"]
  by (auto simp: sample_gc_def gc_config_default_def ordered_fetch_def sample_fetcher_def)

section \<open>Late operations\<close>

text \<open>The state while the committed puts of a single trait are aggregated: \<open>n\<close> versions, the last one \<open>j\<close>.\<close>

definition single_trait :: "trait_id \<Rightarrow> nat \<Rightarrow> nat \<Rightarrow> agg_state \<Rightarrow> bool" where
  "single_trait t n j st \<longleftrightarrow>
     (\<exists>agg. as_traits st = [(t, agg)] \<and> ta_last_operation_id agg = Some j \<and> ta_mutation_count agg = n \<and>
        ta_deletion_date agg = None) \<and>
     as_active st = {j} \<and> as_deletion_date st = None \<and> \<not> as_in_pending st \<and> \<not> as_pending_deletion st"

definition committed_put :: "trait_id \<Rightarrow> mutation_metadata \<Rightarrow> bool" where
  "committed_put t m \<longleftrightarrow> mm_block_offset m \<noteq> None \<and>
     (case mm_mutation_type m of TraitPut put \<Rightarrow> pt_trait_id put = t | _ \<Rightarrow> False)"

lemma committed_putE:
  assumes "committed_put t m"
  obtains put b where "mm_mutation_type m = TraitPut put" "pt_trait_id put = t" "mm_block_offset m = Some b"
  using assms by (auto simp: committed_put_def split: mutation_type.splits)

lemma committed_put_touches: "committed_put t m \<Longrightarrow> touches t m"
  by (elim committed_putE) (simp add: touches_def)

lemma first_put:
  assumes "committed_put t m"
  shows "\<exists>st. agg_step m agg_start = Ok st \<and> single_trait t 1 (mm_operation_id m) st \<and> as_prev_operation_id st = Some (mm_operation_id m)"
  using assms by (elim committed_putE)
    (simp add: agg_step_def agg_put_def agg_start_def agg_progress_def get_for_trait_def trait_aggregator_default_def
      single_trait_def push_put_mutation_def inactivate_def Let_def)

lemma next_put:
  assumes "committed_put t m" "single_trait t n j st" "as_prev_operation_id st \<noteq> Some (mm_operation_id m)" "j < mm_operation_id m"
  shows "\<exists>st'. agg_step m st = Ok st' \<and> single_trait t (Suc n) (mm_operation_id m) st' \<and> as_prev_operation_id st' = Some (mm_operation_id m)"
  using assms by (elim committed_putE)
    (auto simp: agg_step_def agg_put_def agg_progress_def get_for_trait_def single_trait_def push_put_mutation_def inactivate_def Let_def)

lemma late_put:
  assumes "committed_put t m" "single_trait t n j st" "as_prev_operation_id st \<noteq> Some (mm_operation_id m)" "mm_operation_id m < j"
  shows "\<exists>st'. agg_step m st = Ok st' \<and> single_trait t n j st' \<and> as_prev_operation_id st' = Some (mm_operation_id m)"
  using assms by (elim committed_putE) (auto simp: agg_step_def agg_put_def get_for_trait_def single_trait_def Let_def)

lemma next_puts:
  assumes "\<forall>m \<in> set ms. committed_put t m" "single_trait t n j st" "as_prev_operation_id st = Some j"
    "sorted_wrt (<) (j # map mm_operation_id ms)"
  shows "\<exists>st'. agg_loop ms st = Ok st' \<and> single_trait t (n + length ms) (last (j # map mm_operation_id ms)) st' \<and>
    as_prev_operation_id st' = Some (last (j # map mm_operation_id ms))"
  using assms
proof (induction ms arbitrary: n j st)
  case (Cons m ms)
  then obtain st' where st': "agg_step m st = Ok st'" "single_trait t (Suc n) (mm_operation_id m) st'"
      "as_prev_operation_id st' = Some (mm_operation_id m)"
    using next_put [of t m n j st] by auto
  then show ?case
    using Cons.IH [OF _ st'(2,3)] Cons.prems by auto
qed simp

lemma late_puts:
  assumes "\<forall>m \<in> set ms. committed_put t m \<and> mm_operation_id m < j" "single_trait t n j st"
    "as_prev_operation_id st \<notin> Some ` mm_operation_id ` set ms" "distinct (map mm_operation_id ms)"
  shows "\<exists>st'. agg_loop ms st = Ok st' \<and> single_trait t n j st'"
  using assms
proof (induction ms arbitrary: st)
  case (Cons m ms)
  then obtain st' where st': "agg_step m st = Ok st'" "single_trait t n j st'" "as_prev_operation_id st' = Some (mm_operation_id m)"
    using late_put [of t m n j st] by auto
  then show ?case
    using Cons.IH [OF _ st'(2)] Cons.prems by auto
qed simp

text \<open>Puts in order, then late ones.\<close>

definition late_history :: "trait_id \<Rightarrow> mutation_metadata list \<Rightarrow> mutation_metadata list \<Rightarrow> bool" where
  "late_history t ms late \<longleftrightarrow> ms \<noteq> [] \<and> (\<forall>m \<in> set (ms @ late). committed_put t m) \<and>
     sorted_wrt (<) (map mm_operation_id ms) \<and> distinct (map mm_operation_id late) \<and>
     (\<forall>m \<in> set late. mm_operation_id m < mm_operation_id (last ms))"

lemma late_history_aggregate:
  assumes "late_history t ms late"
  shows "\<exists>st. agg_loop (ms @ late) agg_start = Ok st \<and> single_trait t (length ms) (mm_operation_id (last ms)) st"
proof -
  obtain m ms' where ms: "ms = m # ms'"
    using assms by (cases ms) (auto simp: late_history_def)
  have lst: "last (mm_operation_id m # map mm_operation_id ms') = mm_operation_id (last ms)"
    using last_map [of "m # ms'" mm_operation_id] by (simp add: ms)
  obtain st where st: "agg_step m agg_start = Ok st" "single_trait t 1 (mm_operation_id m) st" "as_prev_operation_id st = Some (mm_operation_id m)"
    using first_put [of t m] assms ms by (auto simp: late_history_def)
  obtain st' where st': "agg_loop ms' st = Ok st'" "single_trait t (length ms) (mm_operation_id (last ms)) st'"
      "as_prev_operation_id st' = Some (mm_operation_id (last ms))"
    using next_puts [OF _ st(2,3), of ms'] assms ms lst by (auto simp: late_history_def)
  have "\<exists>st''. agg_loop late st' = Ok st'' \<and> single_trait t (length ms) (mm_operation_id (last ms)) st''"
    using assms st'(3) by (intro late_puts [OF _ st'(2)]) (auto simp: late_history_def)
  then show ?thesis
    using st(1) st'(1) by (simp add: ms agg_loop_append)
qed

text \<open>
  (C39) A trait with more versions than the leeway, followed in the chain by at least as many late versions
  as a compaction keeps, makes a pass panic once all of them are old enough: the operations to delete are
  the first in the chain, and the active operation is among them.
\<close>

theorem late_commits_panic_gc:
  assumes "late_history t ms late" and "length ms > gcc_trait_versions_leeway (gc_conf g)"
    and "length late \<ge> gcc_trait_versions_max (gc_conf g)"
    and "\<forall>m \<in> set (ms @ late). to_datetime (mm_operation_id m) < now - gc_trait_versions_min_age g"
    and "gc_entity_ids g = [e]" and "fetcher e = Ok (ms @ late)"
  shows "gc_run hash now clock fetcher g = (Panic, g\<lparr>gc_entity_ids := []\<rparr>)"
proof -
  obtain st where st: "agg_loop (ms @ late) agg_start = Ok st" "single_trait t (length ms) (mm_operation_id (last ms)) st"
    using late_history_aggregate [OF assms(1)] by blast
  define h where "h = ms @ late"
  have all: "filter_trait_mutations h t = h"
    using assms(1) unfolding filter_trait_mutations_touches h_def
    by (intro filter_True) (auto simp: late_history_def intro: committed_put_touches)
  have old: "filter (\<lambda>m. to_datetime (mm_operation_id m) < now - gc_trait_versions_min_age g) h = h"
    using assms(4) unfolding h_def by (intro filter_True) blast
  have "mm_operation_id (last ms) \<in> set (take (length h - gcc_trait_versions_max (gc_conf g)) (map mm_operation_id h))"
    using assms(1,3) by (simp add: h_def late_history_def)
  then have "list_ex (\<lambda>i. i \<in> ea_active_operations (agg_finish hash st))
      (take (length h - gcc_trait_versions_max (gc_conf g)) (map mm_operation_id h))"
    using st(2) by (auto simp: list_ex_iff single_trait_def agg_finish_def)
  moreover have "\<not> length h \<le> gcc_trait_versions_max (gc_conf g)"
    using assms(2,3) by (simp add: h_def)
  ultimately have "collect_trait_versions (agg_finish hash st) t (now - gc_trait_versions_min_age g)
      (gcc_trait_versions_max (gc_conf g)) (ms @ late) = (Panic :: (store_error, 'a entity_mutation option) result)"
    by (simp add: collect_trait_versions_def all old assert_inactive_operations_def Let_def flip: h_def)
  then have "collect_entities hash clock (g\<lparr>gc_entity_ids := []\<rparr>) (now - gc_trait_versions_min_age g) fetcher [e] [] =
      (Panic :: (store_error, 'a entity_mutation list) result)"
    using st assms(2,6)
    by (auto simp: entity_aggregator_new_def gen_entity_collections_def single_trait_def agg_finish_def)
  then show ?thesis
    using assms(5) by (simp add: gc_run_def Let_def del: collect_entities.simps)
qed

theorem late_commits_panic_gc_witness:
  "gc_run (\<lambda>_. 0) (10 ^ 18) (\<lambda>_. 10 ^ 18) (sample_fetcher [10, 11, 12, 13, 14, 15, 16, 17, 1, 2, 3, 4, 5]) (sample_gc [''e'']) =
     (Panic :: (store_error, nat entity_mutation list) result, sample_gc [])"
  using late_commits_panic_gc [of "''a''" "map (\<lambda>i. sample_put i ''a'') [10, 11, 12, 13, 14, 15, 16, 17]"
      "map (\<lambda>i. sample_put i ''a'') [1, 2, 3, 4, 5]" "sample_gc [''e'']" "10 ^ 18" "''e''"
      "sample_fetcher [10, 11, 12, 13, 14, 15, 16, 17, 1, 2, 3, 4, 5]" "\<lambda>_. 0" "\<lambda>_. 10 ^ 18"]
  by (simp add: late_history_def committed_put_def sample_gc_def gc_config_default_def to_datetime_def sample_fetcher_def)

end
