(* ===== verification/Exo_Mutation_Tracker.thy ===== *)
theory Exo_Mutation_Tracker
  imports Exo_Maps Exo_Time
begin

text \<open>
  The tracker that answers a mutation request once its operations are indexed
  (\<open>store/src/local/mutation_tracker.rs\<close>), and the watched queries
  (\<open>store/src/local/watched_queries.rs\<close>). A hash set is a list without duplicates; the time is a
  parameter. A one-shot channel is a value: sending on it is an output of the call.
\<close>

section \<open>Mutation tracker\<close>

definition hs_insert :: "'a \<Rightarrow> 'a list \<Rightarrow> 'a list" where
  "hs_insert x xs = (if x \<in> set xs then xs else xs @ [x])"

record 'c watched_request =
  wr_received_time :: instant
  wr_operation_ids :: "nat list"
  wr_completed_operation_ids :: "nat list"
  wr_response_channel :: 'c

record 'c mutation_tracker =
  mt_timeout :: duration
  mt_requests :: "(nat \<times> 'c watched_request) list"
  mt_operations_requests :: "(nat \<times> nat list) list"
  mt_next_request_id :: nat

definition mutation_tracker_new :: "duration \<Rightarrow> 'c mutation_tracker" where
  "mutation_tracker_new timeout =
     \<lparr>mt_timeout = timeout, mt_requests = [], mt_operations_requests = [], mt_next_request_id = 0\<rparr>"

definition track_operation :: "nat \<Rightarrow> nat \<Rightarrow> 'c mutation_tracker \<Rightarrow> 'c mutation_tracker" where
  "track_operation request_id operation_id s =
     s\<lparr>mt_operations_requests := hm_insert operation_id
         (hs_insert request_id (case map_of (mt_operations_requests s) operation_id of Some e \<Rightarrow> e | None \<Rightarrow> []))
         (mt_operations_requests s)\<rparr>"

definition track_request :: "instant \<Rightarrow> nat list \<Rightarrow> 'c \<Rightarrow> 'c mutation_tracker \<Rightarrow> 'c mutation_tracker" where
  "track_request now operation_ids response_channel s =
     (let request_id = mt_next_request_id s;
          request = \<lparr>wr_received_time = now, wr_operation_ids = remdups operation_ids,
            wr_completed_operation_ids = [], wr_response_channel = response_channel\<rparr> in
      fold (track_operation request_id) operation_ids
        (s\<lparr>mt_next_request_id := request_id + 1, mt_requests := hm_insert request_id request (mt_requests s)\<rparr>))"

text \<open>An indexed operation of one request.\<close>

definition complete_operation ::
  "nat \<Rightarrow> nat \<Rightarrow> 'c mutation_tracker \<times> nat list \<Rightarrow> 'c mutation_tracker \<times> nat list" where
  "complete_operation operation_id req_id = (\<lambda>(s, completed_requests).
     case map_of (mt_requests s) req_id of
       None \<Rightarrow> (s, completed_requests)
     | Some request \<Rightarrow>
         let request' = request\<lparr>wr_completed_operation_ids := hs_insert operation_id (wr_completed_operation_ids request)\<rparr> in
         (s\<lparr>mt_requests := hm_insert req_id request' (mt_requests s)\<rparr>,
          if length (wr_completed_operation_ids request') = length (wr_operation_ids request')
          then hs_insert req_id completed_requests else completed_requests))"

definition index_operation ::
  "nat \<Rightarrow> 'c mutation_tracker \<times> nat list \<Rightarrow> 'c mutation_tracker \<times> nat list" where
  "index_operation operation_id = (\<lambda>(s, completed_requests).
     case map_of (mt_operations_requests s) operation_id of
       None \<Rightarrow> (s, completed_requests)
     | Some request_ids \<Rightarrow>
         fold (complete_operation operation_id) request_ids
           (s\<lparr>mt_operations_requests := hm_remove operation_id (mt_operations_requests s)\<rparr>, completed_requests))"

definition untrack_operation :: "nat \<Rightarrow> nat \<Rightarrow> 'c mutation_tracker \<Rightarrow> 'c mutation_tracker" where
  "untrack_operation request_id operation_id s =
     (case map_of (mt_operations_requests s) operation_id of
        None \<Rightarrow> s
      | Some op_reqs \<Rightarrow>
          s\<lparr>mt_operations_requests := hm_insert operation_id (removeAll request_id op_reqs) (mt_operations_requests s)\<rparr>)"

definition remove_request :: "nat \<Rightarrow> 'c mutation_tracker \<Rightarrow> 'c watched_request option \<times> 'c mutation_tracker" where
  "remove_request request_id s =
     (case map_of (mt_requests s) request_id of
        None \<Rightarrow> (None, s)
      | Some request \<Rightarrow>
          (Some request, fold (untrack_operation request_id) (wr_operation_ids request)
             (s\<lparr>mt_requests := hm_remove request_id (mt_requests s)\<rparr>)))"

text \<open>What becomes of the channel of a request: the result is sent on it, or it is dropped.\<close>

datatype 'c tracker_output = Responded 'c "nat list" | TimedOut 'c

fun respond_requests :: "nat list \<Rightarrow> 'c mutation_tracker \<Rightarrow> 'c tracker_output list \<times> 'c mutation_tracker" where
  "respond_requests [] s = ([], s)"
| "respond_requests (request_id # request_ids) s =
     (let (removed, s1) = remove_request request_id s;
          (outs, s2) = respond_requests request_ids s1 in
      ((case removed of
          Some request \<Rightarrow> [Responded (wr_response_channel request) (wr_operation_ids request)]
        | None \<Rightarrow> []) @ outs, s2))"

fun drop_requests :: "nat list \<Rightarrow> 'c mutation_tracker \<Rightarrow> 'c tracker_output list \<times> 'c mutation_tracker" where
  "drop_requests [] s = ([], s)"
| "drop_requests (request_id # request_ids) s =
     (let (removed, s1) = remove_request request_id s;
          (outs, s2) = drop_requests request_ids s1 in
      ((case removed of Some request \<Rightarrow> [TimedOut (wr_response_channel request)] | None \<Rightarrow> []) @ outs, s2))"

definition cleanup_expired :: "instant \<Rightarrow> 'c mutation_tracker \<Rightarrow> 'c tracker_output list \<times> 'c mutation_tracker" where
  "cleanup_expired now s =
     (let expired_requests = map fst
            (filter (\<lambda>(request_id, request). now - wr_received_time request > mt_timeout s) (mt_requests s)) in
      if expired_requests = [] then ([], s)
      else let (outs, s1) = drop_requests expired_requests s;
               orphan_operations = map fst (filter (\<lambda>(operation_id, requests). requests = []) (mt_operations_requests s1)) in
        (outs, s1\<lparr>mt_operations_requests := fold hm_remove orphan_operations (mt_operations_requests s1)\<rparr>))"

definition handle_indexed_operations ::
  "instant \<Rightarrow> nat list \<Rightarrow> 'c mutation_tracker \<Rightarrow> 'c tracker_output list \<times> 'c mutation_tracker" where
  "handle_indexed_operations now operation_ids s =
     (let (s1, completed_requests) = fold index_operation operation_ids (s, []);
          (responses, s2) = respond_requests completed_requests s1;
          (dropped, s3) = cleanup_expired now s2 in
      (responses @ dropped, s3))"

section \<open>Watched queries\<close>

text \<open>A query is a value that holds the hash of the results the client has.\<close>

record ('q, 'c) registered_query =
  rq_token :: nat
  rq_sender :: 'c
  rq_query :: 'q
  rq_result_hash :: nat
  rq_last_hash :: "nat option"

type_synonym ('q, 'c) watched_queries = "(nat \<times> ('q, 'c) registered_query) list"

definition track_query :: "nat \<Rightarrow> 'q \<Rightarrow> nat \<Rightarrow> 'c \<Rightarrow> ('q, 'c) watched_queries \<Rightarrow> ('q, 'c) watched_queries" where
  "track_query token query result_hash sender w =
     hm_insert token \<lparr>rq_token = token, rq_sender = sender, rq_query = query, rq_result_hash = result_hash, rq_last_hash = None\<rparr> w"

definition update_query_results :: "nat \<Rightarrow> nat \<Rightarrow> ('q, 'c) watched_queries \<Rightarrow> bool \<times> ('q, 'c) watched_queries" where
  "update_query_results token results_hash w =
     (case map_of w token of
        Some current_watched \<Rightarrow>
          (rq_last_hash current_watched \<noteq> Some results_hash,
           hm_insert token (current_watched\<lparr>rq_last_hash := Some results_hash, rq_result_hash := results_hash\<rparr>) w)
      | None \<Rightarrow> (False, w))"

definition unwatch_query :: "nat \<Rightarrow> ('q, 'c) watched_queries \<Rightarrow> ('q, 'c) watched_queries" where
  "unwatch_query token w = hm_remove token w"

definition watched_queries_list :: "('q, 'c) watched_queries \<Rightarrow> ('q, 'c) registered_query list" where
  "watched_queries_list w = map snd w"

end
