(* ===== verification/Exo_Mutation_Tracker_Props.thy ===== *)
theory Exo_Mutation_Tracker_Props
  imports Exo_Mutation_Tracker
begin

text \<open>
  The tracker against its contract: a map from requests to the operations they still wait for. An indexed
  operation is taken out everywhere; a request that waits for nothing more is answered, one that waited for
  too long is dropped.
\<close>

section \<open>Invariant\<close>

abbreviation reqs :: "'c mutation_tracker \<Rightarrow> nat \<Rightarrow> 'c watched_request option" where
  "reqs s \<equiv> map_of (mt_requests s)"

definition opreq :: "'c mutation_tracker \<Rightarrow> nat \<Rightarrow> nat list" where
  "opreq s op = (case map_of (mt_operations_requests s) op of Some e \<Rightarrow> e | None \<Rightarrow> [])"

definition outstanding :: "'c watched_request \<Rightarrow> nat set" where
  "outstanding w = set (wr_operation_ids w) - set (wr_completed_operation_ids w)"

definition request_ok :: "'c watched_request \<Rightarrow> bool" where
  "request_ok w \<longleftrightarrow> distinct (wr_operation_ids w) \<and> distinct (wr_completed_operation_ids w) \<and>
     set (wr_completed_operation_ids w) \<subseteq> set (wr_operation_ids w)"

definition tracker_inv :: "'c mutation_tracker \<Rightarrow> bool" where
  "tracker_inv s \<longleftrightarrow> hm_wf (mt_requests s) \<and> hm_wf (mt_operations_requests s) \<and>
     (\<forall>rid w. reqs s rid = Some w \<longrightarrow> rid < mt_next_request_id s \<and> request_ok w) \<and>
     (\<forall>op. distinct (opreq s op) \<and> (\<forall>rid. rid \<in> set (opreq s op) \<longleftrightarrow> (\<exists>w. reqs s rid = Some w \<and> op \<in> outstanding w)))"

lemma tracker_invD:
  assumes "tracker_inv s"
  shows "hm_wf (mt_requests s)" "hm_wf (mt_operations_requests s)"
    "reqs s rid = Some w \<Longrightarrow> rid < mt_next_request_id s \<and> request_ok w"
    "distinct (opreq s op)" "rid \<in> set (opreq s op) \<longleftrightarrow> (\<exists>w. reqs s rid = Some w \<and> op \<in> outstanding w)"
  using assms unfolding tracker_inv_def by blast+

lemma tracker_inv_new: "tracker_inv (mutation_tracker_new timeout)"
  by (simp add: tracker_inv_def mutation_tracker_new_def opreq_def hm_wf_basics)

lemma hs_insert_simps [simp]: "set (hs_insert x xs) = insert x (set xs)" "distinct xs \<Longrightarrow> distinct (hs_insert x xs)"
  by (auto simp: hs_insert_def)

section \<open>Tracking\<close>

lemma track_operation_simps [simp]:
  "mt_requests (track_operation rid op s) = mt_requests s" "mt_timeout (track_operation rid op s) = mt_timeout s"
  "mt_next_request_id (track_operation rid op s) = mt_next_request_id s"
  "opreq (track_operation rid op s) op' = (if op' = op then hs_insert rid (opreq s op) else opreq s op')"
  "hm_wf (mt_operations_requests s) \<Longrightarrow> hm_wf (mt_operations_requests (track_operation rid op s))"
  by (auto simp: track_operation_def opreq_def hm_insert_lookup hm_insert_wf)

lemma fold_track_operation:
  "mt_requests (fold (track_operation rid) ops s) = mt_requests s \<and> mt_timeout (fold (track_operation rid) ops s) = mt_timeout s \<and>
   mt_next_request_id (fold (track_operation rid) ops s) = mt_next_request_id s \<and>
   (hm_wf (mt_operations_requests s) \<longrightarrow> hm_wf (mt_operations_requests (fold (track_operation rid) ops s))) \<and>
   (\<forall>op. (distinct (opreq s op) \<longrightarrow> distinct (opreq (fold (track_operation rid) ops s) op)) \<and>
     set (opreq (fold (track_operation rid) ops s) op) = set (opreq s op) \<union> (if op \<in> set ops then {rid} else {}))"
  by (induction ops arbitrary: s) auto

definition new_request :: "instant \<Rightarrow> nat list \<Rightarrow> 'c \<Rightarrow> 'c watched_request" where
  "new_request now ids c = \<lparr>wr_received_time = now, wr_operation_ids = remdups ids, wr_completed_operation_ids = [], wr_response_channel = c\<rparr>"

lemma track_request_step:
  assumes "tracker_inv s"
  shows "reqs (track_request now ids c s) = (reqs s)(mt_next_request_id s \<mapsto> new_request now ids c)"
    and "mt_timeout (track_request now ids c s) = mt_timeout s"
    and "tracker_inv (track_request now ids c s)"
proof -
  define s1 where "s1 = s\<lparr>mt_next_request_id := mt_next_request_id s + 1,
      mt_requests := hm_insert (mt_next_request_id s) (new_request now ids c) (mt_requests s)\<rparr>"
  have eq: "track_request now ids c s = fold (track_operation (mt_next_request_id s)) ids s1"
    by (simp add: track_request_def s1_def new_request_def Let_def)
  show r: "reqs (track_request now ids c s) = (reqs s)(mt_next_request_id s \<mapsto> new_request now ids c)"
    and "mt_timeout (track_request now ids c s) = mt_timeout s"
    using fold_track_operation [of "mt_next_request_id s" ids s1] unfolding eq by (simp_all add: s1_def hm_insert_lookup)
  have op: "opreq s1 op = opreq s op" for op
    by (simp add: opreq_def s1_def)
  have t: "hm_wf (mt_requests (track_request now ids c s))" "hm_wf (mt_operations_requests (track_request now ids c s))"
      "mt_next_request_id (track_request now ids c s) = Suc (mt_next_request_id s)"
      "distinct (opreq (track_request now ids c s) op)"
      "set (opreq (track_request now ids c s) op) = set (opreq s op) \<union> (if op \<in> set ids then {mt_next_request_id s} else {})" for op
    using fold_track_operation [of "mt_next_request_id s" ids s1] tracker_invD(1,2,4) [OF assms] unfolding eq op
    by (simp_all add: s1_def hm_insert_wf)
  have fresh: "reqs s (mt_next_request_id s) = None"
    using tracker_invD(3) [OF assms, of "mt_next_request_id s"] by fastforce
  have new: "outstanding (new_request now ids c) = set ids" "request_ok (new_request now ids c)"
    by (simp_all add: outstanding_def request_ok_def new_request_def)
  have a: "rid < Suc (mt_next_request_id s) \<and> request_ok w" if "reqs (track_request now ids c s) rid = Some w" for rid w
    using that tracker_invD(3) [OF assms, of rid w] new(2) unfolding r by (cases "rid = mt_next_request_id s") auto
  have b: "rid \<in> set (opreq (track_request now ids c s) op) \<longleftrightarrow>
      (\<exists>w. reqs (track_request now ids c s) rid = Some w \<and> op \<in> outstanding w)" for rid op
    using tracker_invD(5) [OF assms, of rid op] new(1) fresh unfolding r t(5) by auto
  show "tracker_inv (track_request now ids c s)"
    unfolding tracker_inv_def t(3) using t(1,2,4) a b by simp
qed

section \<open>Indexing\<close>

definition complete :: "nat \<Rightarrow> 'c watched_request \<Rightarrow> 'c watched_request" where
  "complete op w = w\<lparr>wr_completed_operation_ids := hs_insert op (wr_completed_operation_ids w)\<rparr>"

lemma complete_simps [simp]:
  "wr_operation_ids (complete op w) = wr_operation_ids w" "wr_received_time (complete op w) = wr_received_time w"
  "wr_response_channel (complete op w) = wr_response_channel w"
  "outstanding (complete op w) = outstanding w - {op}"
  "request_ok w \<Longrightarrow> op \<in> outstanding w \<Longrightarrow> request_ok (complete op w)"
  by (auto simp: complete_def outstanding_def request_ok_def)

lemma all_completed_iff:
  assumes "request_ok w"
  shows "length (wr_completed_operation_ids w) = length (wr_operation_ids w) \<longleftrightarrow> outstanding w = {}"
proof -
  have "length (wr_completed_operation_ids w) = card (set (wr_completed_operation_ids w))"
      "length (wr_operation_ids w) = card (set (wr_operation_ids w))"
    using assms by (simp_all add: request_ok_def distinct_card)
  then show ?thesis
    using assms card_subset_eq [of "set (wr_operation_ids w)" "set (wr_completed_operation_ids w)"]
    by (auto simp: outstanding_def request_ok_def)
qed

lemma fold_complete_operation:
  assumes "distinct rids" "\<forall>rid \<in> set rids. \<exists>w. reqs s rid = Some w \<and> request_ok w \<and> op \<in> outstanding w"
    "fold (complete_operation op) rids (s, done) = (s', done')" "hm_wf (mt_requests s)"
  shows "reqs s' = (\<lambda>rid. if rid \<in> set rids then map_option (complete op) (reqs s rid) else reqs s rid) \<and>
    hm_wf (mt_requests s') \<and> mt_operations_requests s' = mt_operations_requests s \<and>
    mt_timeout s' = mt_timeout s \<and> mt_next_request_id s' = mt_next_request_id s \<and>
    set done' = set done \<union> {rid \<in> set rids. \<exists>w. reqs s rid = Some w \<and> outstanding w = {op}} \<and>
    (distinct done \<longrightarrow> distinct done')"
  using assms
proof (induction rids arbitrary: s "done")
  case (Cons rid rids)
  then obtain w where w: "reqs s rid = Some w" "request_ok w" "op \<in> outstanding w"
    by auto
  define s1 where "s1 = s\<lparr>mt_requests := hm_insert rid (complete op w) (mt_requests s)\<rparr>"
  define done1 where "done1 = (if outstanding w = {op} then hs_insert rid done else done)"
  have "length (wr_completed_operation_ids (complete op w)) = length (wr_operation_ids (complete op w)) \<longleftrightarrow> outstanding w = {op}"
    using all_completed_iff [of "complete op w"] w by auto
  then have "complete_operation op rid (s, done) = (s1, done1)"
    using w(1) by (simp add: complete_operation_def s1_def done1_def Let_def flip: complete_def)
  then have rest: "fold (complete_operation op) rids (s1, done1) = (s', done')"
    using Cons.prems(3) by simp
  have r: "reqs s1 = (reqs s)(rid \<mapsto> complete op w)" "hm_wf (mt_requests s1)"
    using Cons.prems(4) by (simp_all add: s1_def hm_insert_lookup hm_insert_wf)
  have pre: "\<forall>r \<in> set rids. \<exists>w. reqs s1 r = Some w \<and> request_ok w \<and> op \<in> outstanding w"
    using Cons.prems(1,2) r(1) by auto
  show ?case
    using Cons.IH [OF _ pre rest r(2)] Cons.prems(1) w(1) r(1)
    by (auto simp: s1_def done1_def fun_eq_iff)
qed auto

lemma index_operation_step:
  assumes inv: "tracker_inv s" and step: "index_operation op (s, done) = (s', done')"
  shows "reqs s' = (\<lambda>rid. map_option (\<lambda>w. if op \<in> outstanding w then complete op w else w) (reqs s rid)) \<and>
    tracker_inv s' \<and> mt_timeout s' = mt_timeout s \<and>
    set done' = set done \<union> {rid. \<exists>w. reqs s rid = Some w \<and> outstanding w = {op}} \<and> (distinct done \<longrightarrow> distinct done')"
proof (cases "map_of (mt_operations_requests s) op")
  case None
  then have none: "\<not> (\<exists>w. reqs s rid = Some w \<and> op \<in> outstanding w)" for rid
    using tracker_invD(5) [OF inv, of rid op] by (simp add: opreq_def)
  then have "map_option (\<lambda>w. if op \<in> outstanding w then complete op w else w) (reqs s rid) = reqs s rid" for rid
    by (cases "reqs s rid") auto
  then show ?thesis
    using step None inv none by (auto simp: index_operation_def)
next
  case (Some rids)
  then have rids: "opreq s op = rids" by (simp add: opreq_def)
  define s0 where "s0 = s\<lparr>mt_operations_requests := hm_remove op (mt_operations_requests s)\<rparr>"
  have s0: "mt_requests s0 = mt_requests s" "mt_next_request_id s0 = mt_next_request_id s" "mt_timeout s0 = mt_timeout s"
    by (simp_all add: s0_def)
  have fld: "fold (complete_operation op) rids (s0, done) = (s', done')"
    using step Some by (simp add: index_operation_def s0_def)
  have pre: "distinct rids" "\<forall>rid \<in> set rids. \<exists>w. reqs s0 rid = Some w \<and> request_ok w \<and> op \<in> outstanding w"
    using tracker_invD(3-5) [OF inv] rids unfolding s0 by blast+
  note eff = fold_complete_operation [OF pre fld, unfolded s0, OF tracker_invD(1) [OF inv]]
  have r: "reqs s' = (\<lambda>rid. map_option (\<lambda>w. if op \<in> outstanding w then complete op w else w) (reqs s rid))"
  proof
    fix rid
    show "reqs s' rid = map_option (\<lambda>w. if op \<in> outstanding w then complete op w else w) (reqs s rid)"
      using eff tracker_invD(5) [OF inv, of rid op] unfolding rids by (cases "reqs s rid") auto
  qed
  have o: "opreq s' op' = (if op' = op then [] else opreq s op')" for op'
    using eff by (simp add: opreq_def s0_def hm_remove_def map_of_filter_neq)
  have "tracker_inv s'"
    unfolding tracker_inv_def r o
  proof (intro conjI allI impI)
    show "hm_wf (mt_requests s')" "hm_wf (mt_operations_requests s')"
      using eff tracker_invD(2) [OF inv] by (simp_all add: s0_def hm_wf_basics)
    show "distinct (if op' = op then [] else opreq s op')" for op'
      using tracker_invD(4) [OF inv] by simp
    show "rid \<in> set (if op' = op then [] else opreq s op') \<longleftrightarrow>
        (\<exists>w. map_option (\<lambda>w. if op \<in> outstanding w then complete op w else w) (reqs s rid) = Some w \<and> op' \<in> outstanding w)" for op' rid
      using tracker_invD(5) [OF inv, of rid op'] by (cases "reqs s rid") auto
    fix rid w
    assume "map_option (\<lambda>w. if op \<in> outstanding w then complete op w else w) (reqs s rid) = Some w"
    then show "rid < mt_next_request_id s'" "request_ok w"
      using tracker_invD(3) [OF inv] eff by (auto split: if_splits)
  qed
  moreover have "rid \<in> set rids" if "reqs s rid = Some w" "outstanding w = {op}" for rid w
    using that tracker_invD(5) [OF inv, of rid op] rids by auto
  ultimately show ?thesis
    using eff r by auto
qed

text \<open>What a request waits for, and where it comes from.\<close>

type_synonym 'c waiting = "instant \<times> 'c \<times> nat set \<times> nat set"

definition waiting :: "'c watched_request \<Rightarrow> 'c waiting" where
  "waiting w = (wr_received_time w, wr_response_channel w, set (wr_operation_ids w), outstanding w)"

definition waiting_requests :: "'c mutation_tracker \<Rightarrow> nat \<Rightarrow> 'c waiting option" where
  "waiting_requests s rid = map_option waiting (reqs s rid)"

fun index_waiting :: "nat set \<Rightarrow> 'c waiting \<Rightarrow> 'c waiting" where
  "index_waiting indexed (received, channel, operations, left) = (received, channel, operations, left - indexed)"

lemma fold_index_operation:
  assumes "tracker_inv s" "fold index_operation ids (s, done) = (s', done')"
  shows "waiting_requests s' = (\<lambda>rid. map_option (index_waiting (set ids)) (waiting_requests s rid)) \<and>
    tracker_inv s' \<and> mt_timeout s' = mt_timeout s \<and>
    set done' = set done \<union> {rid. \<exists>w. reqs s rid = Some w \<and> outstanding w \<noteq> {} \<and> outstanding w \<subseteq> set ids} \<and>
    (distinct done \<longrightarrow> distinct done')"
  using assms
proof (induction ids arbitrary: s "done")
  case Nil
  have "map_option (index_waiting {}) x = x" for x :: "'a waiting option"
    by (cases x) auto
  then show ?case using Nil by auto
next
  case (Cons op ids)
  obtain s1 done1 where step: "index_operation op (s, done) = (s1, done1)" by fastforce
  note eff = index_operation_step [OF Cons.prems(1) step]
  have rest: "fold index_operation ids (s1, done1) = (s', done')"
    using Cons.prems(2) step by simp
  note IH = Cons.IH [OF _ rest]
  have "waiting_requests s1 rid = map_option (index_waiting {op}) (waiting_requests s rid)" for rid
    using eff by (cases "reqs s rid") (auto simp: waiting_requests_def waiting_def)
  then have "map_option (index_waiting (set ids)) (waiting_requests s1 rid) =
      map_option (index_waiting (set (op # ids))) (waiting_requests s rid)" for rid
    by (cases "waiting_requests s rid") auto
  moreover have "{rid. \<exists>w. reqs s1 rid = Some w \<and> outstanding w \<noteq> {} \<and> outstanding w \<subseteq> set ids} \<union>
      {rid. \<exists>w. reqs s rid = Some w \<and> outstanding w = {op}} =
      {rid. \<exists>w. reqs s rid = Some w \<and> outstanding w \<noteq> {} \<and> outstanding w \<subseteq> set (op # ids)}" (is "?A = ?B")
  proof (intro set_eqI)
    fix rid
    show "rid \<in> ?A \<longleftrightarrow> rid \<in> ?B"
      using eff by (cases "reqs s rid") auto
  qed
  ultimately show ?case
    using IH eff by (simp add: Un_assoc Un_commute Un_left_commute) 
qed

section \<open>Removing requests\<close>

lemma untrack_operation_simps [simp]:
  "mt_requests (untrack_operation rid op s) = mt_requests s" "mt_timeout (untrack_operation rid op s) = mt_timeout s"
  "mt_next_request_id (untrack_operation rid op s) = mt_next_request_id s"
  "opreq (untrack_operation rid op s) op' = (if op' = op then removeAll rid (opreq s op) else opreq s op')"
  "hm_wf (mt_operations_requests s) \<Longrightarrow> hm_wf (mt_operations_requests (untrack_operation rid op s))"
  by (auto simp: untrack_operation_def opreq_def hm_insert_lookup hm_insert_wf split: option.splits)

lemma fold_untrack_operation:
  "mt_requests (fold (untrack_operation rid) ops s) = mt_requests s \<and> mt_timeout (fold (untrack_operation rid) ops s) = mt_timeout s \<and>
   mt_next_request_id (fold (untrack_operation rid) ops s) = mt_next_request_id s \<and>
   (hm_wf (mt_operations_requests s) \<longrightarrow> hm_wf (mt_operations_requests (fold (untrack_operation rid) ops s))) \<and>
   (\<forall>op. opreq (fold (untrack_operation rid) ops s) op = (if op \<in> set ops then removeAll rid (opreq s op) else opreq s op))"
proof (induction ops arbitrary: s)
  case (Cons op ops)
  then show ?case
    by (auto simp: removeAll_id)
qed simp

lemma remove_request_step:
  assumes inv: "tracker_inv s" and step: "remove_request rid s = (removed, s')"
  shows "removed = reqs s rid \<and> reqs s' = (reqs s)(rid := None) \<and> tracker_inv s' \<and> mt_timeout s' = mt_timeout s"
proof (cases "reqs s rid")
  case None
  then show ?thesis
    using step inv by (auto simp: remove_request_def)
next
  case (Some w)
  define s0 where "s0 = s\<lparr>mt_requests := hm_remove rid (mt_requests s)\<rparr>"
  have s': "s' = fold (untrack_operation rid) (wr_operation_ids w) s0" "removed = Some w"
    using step Some by (auto simp: remove_request_def s0_def)
  have op0: "opreq s0 op = opreq s op" for op
    by (simp add: opreq_def s0_def)
  note eff = fold_untrack_operation [of rid "wr_operation_ids w" s0, folded s'(1), unfolded op0]
  have r: "reqs s' = (reqs s)(rid := None)"
    using eff by (simp add: s0_def hm_remove_def map_of_filter_neq)
  have "rid \<notin> set (opreq s op)" if "op \<notin> set (wr_operation_ids w)" for op
    using that Some tracker_invD(5) [OF inv, of rid op] by (auto simp: outstanding_def)
  then have o: "opreq s' op = removeAll rid (opreq s op)" for op
    using eff by (simp add: removeAll_id)
  have "tracker_inv s'"
    unfolding tracker_inv_def r o
  proof (intro conjI allI impI)
    show "hm_wf (mt_requests s')" "hm_wf (mt_operations_requests s')"
      using eff tracker_invD(1,2) [OF inv] by (simp_all add: s0_def hm_wf_basics)
    show "distinct (removeAll rid (opreq s op))" for op
      using tracker_invD(4) [OF inv] by (simp add: distinct_removeAll)
    show "r \<in> set (removeAll rid (opreq s op)) \<longleftrightarrow> (\<exists>w. ((reqs s)(rid := None)) r = Some w \<and> op \<in> outstanding w)" for op r
      using tracker_invD(5) [OF inv, of r op] by auto
    fix r v
    assume "((reqs s)(rid := None)) r = Some v"
    then show "r < mt_next_request_id s'" "request_ok v"
      using tracker_invD(3) [OF inv, of r v] eff by (auto simp: s0_def split: if_splits)
  qed
  then show ?thesis
    using Some s'(2) r eff by (simp add: s0_def)
qed

lemma respond_requests_step:
  assumes "tracker_inv s" "respond_requests rids s = (outs, s')" "distinct rids"
  shows "reqs s' = (\<lambda>rid. if rid \<in> set rids then None else reqs s rid) \<and> tracker_inv s' \<and> mt_timeout s' = mt_timeout s \<and>
    set outs = {Responded (wr_response_channel w) (wr_operation_ids w) | w rid. rid \<in> set rids \<and> reqs s rid = Some w}"
  using assms
proof (induction rids arbitrary: s outs)
  case (Cons rid rids)
  obtain removed s1 where rem: "remove_request rid s = (removed, s1)" by fastforce
  obtain outs1 where rest: "respond_requests rids s1 = (outs1, s')"
    "outs = (case removed of Some w \<Rightarrow> [Responded (wr_response_channel w) (wr_operation_ids w)] | None \<Rightarrow> []) @ outs1"
    using Cons.prems(2) rem by (auto split: prod.splits)
  note eff = remove_request_step [OF Cons.prems(1) rem]
  note IH = Cons.IH [OF _ rest(1)]
  show ?case
    using IH eff rest(2) Cons.prems(3) by (auto simp: fun_eq_iff split: option.splits)
qed auto

lemma drop_requests_step:
  assumes "tracker_inv s" "drop_requests rids s = (outs, s')" "distinct rids"
  shows "reqs s' = (\<lambda>rid. if rid \<in> set rids then None else reqs s rid) \<and> tracker_inv s' \<and> mt_timeout s' = mt_timeout s \<and>
    set outs = {TimedOut (wr_response_channel w) | w rid. rid \<in> set rids \<and> reqs s rid = Some w}"
  using assms
proof (induction rids arbitrary: s outs)
  case (Cons rid rids)
  obtain removed s1 where rem: "remove_request rid s = (removed, s1)" by fastforce
  obtain outs1 where rest: "drop_requests rids s1 = (outs1, s')"
    "outs = (case removed of Some w \<Rightarrow> [TimedOut (wr_response_channel w)] | None \<Rightarrow> []) @ outs1"
    using Cons.prems(2) rem by (auto split: prod.splits)
  note eff = remove_request_step [OF Cons.prems(1) rem]
  note IH = Cons.IH [OF _ rest(1)]
  show ?case
    using IH eff rest(2) Cons.prems(3) by (auto simp: fun_eq_iff split: option.splits)
qed auto

lemma fold_hm_remove:
  "map_of (fold hm_remove ks m) = (\<lambda>k. if k \<in> set ks then None else map_of m k) \<and> (hm_wf m \<longrightarrow> hm_wf (fold hm_remove ks m))"
  by (induction ks arbitrary: m) (auto simp: hm_remove_def map_of_filter_neq fun_eq_iff hm_wf_basics(3) [unfolded hm_remove_def])

lemma drop_orphans:
  assumes "tracker_inv s"
  shows "tracker_inv (s\<lparr>mt_operations_requests :=
     fold hm_remove (map fst (filter (\<lambda>(op, rs). rs = []) (mt_operations_requests s))) (mt_operations_requests s)\<rparr>)" (is "tracker_inv ?s")
proof -
  have "map_of (mt_operations_requests s) op = Some []" if "(op, []) \<in> set (mt_operations_requests s)" for op
    using that tracker_invD(2) [OF assms] by (simp add: hm_wf_def)
  then have "opreq ?s op = opreq s op" for op
    using fold_hm_remove [of "map fst (filter (\<lambda>(op, rs). rs = []) (mt_operations_requests s))" "mt_operations_requests s"]
    by (force simp: opreq_def)
  then show ?thesis
    using assms fold_hm_remove [of "map fst (filter (\<lambda>(op, rs). rs = []) (mt_operations_requests s))" "mt_operations_requests s"]
    unfolding tracker_inv_def by simp
qed

lemma cleanup_expired_step:
  assumes inv: "tracker_inv s" and step: "cleanup_expired now s = (outs, s')"
  shows "reqs s' = (\<lambda>rid. case reqs s rid of Some w \<Rightarrow> if now - wr_received_time w > mt_timeout s then None else Some w | None \<Rightarrow> None) \<and>
    tracker_inv s' \<and> mt_timeout s' = mt_timeout s \<and>
    set outs = {TimedOut (wr_response_channel w) | w rid. reqs s rid = Some w \<and> now - wr_received_time w > mt_timeout s}"
proof -
  define expired where "expired = map fst (filter (\<lambda>(rid, w). now - wr_received_time w > mt_timeout s) (mt_requests s))"
  have ex: "rid \<in> set expired \<longleftrightarrow> (\<exists>w. reqs s rid = Some w \<and> now - wr_received_time w > mt_timeout s)" for rid
    using tracker_invD(1) [OF inv] by (force simp: expired_def hm_wf_def)
  have "distinct expired"
    using tracker_invD(1) [OF inv] by (simp add: expired_def hm_wf_def distinct_map_filter)
  moreover obtain s1 outs1 where d: "drop_requests expired s = (outs1, s1)" by fastforce
  ultimately have eff: "reqs s1 = (\<lambda>rid. if rid \<in> set expired then None else reqs s rid)" "tracker_inv s1" "mt_timeout s1 = mt_timeout s"
      "set outs1 = {TimedOut (wr_response_channel w) | w rid. rid \<in> set expired \<and> reqs s rid = Some w}"
    using drop_requests_step [OF inv] by blast+
  have s1: "reqs s1 rid = (case reqs s rid of Some w \<Rightarrow> if now - wr_received_time w > mt_timeout s then None else Some w | None \<Rightarrow> None)" for rid
    unfolding eff(1) using ex [of rid] by (auto split: option.splits)
  have outs1: "set outs1 = {TimedOut (wr_response_channel w) | w rid. reqs s rid = Some w \<and> now - wr_received_time w > mt_timeout s}"
    unfolding eff(4) using ex by fastforce
  show ?thesis
  proof (cases "expired = []")
    case True
    then show ?thesis
      using step d inv s1 outs1 by (auto simp: cleanup_expired_def fun_eq_iff simp flip: expired_def)
  next
    case False
    then have "outs = outs1" "s' = s1\<lparr>mt_operations_requests :=
        fold hm_remove (map fst (filter (\<lambda>(op, rs). rs = []) (mt_operations_requests s1))) (mt_operations_requests s1)\<rparr>"
      using step d by (auto simp: cleanup_expired_def Let_def simp flip: expired_def)
    then show ?thesis
      using drop_orphans [OF eff(2)] s1 outs1 eff(3) by (auto simp: fun_eq_iff)
  qed
qed

section \<open>The contract\<close>

definition answered :: "nat set \<Rightarrow> (nat \<Rightarrow> 'c waiting option) \<Rightarrow> nat \<Rightarrow> bool" where
  "answered indexed waits rid \<longleftrightarrow> (\<exists>r c ops left. waits rid = Some (r, c, ops, left) \<and> left \<noteq> {} \<and> left \<subseteq> indexed)"

definition overdue :: "instant \<Rightarrow> duration \<Rightarrow> (nat \<Rightarrow> 'c waiting option) \<Rightarrow> nat \<Rightarrow> bool" where
  "overdue now timeout waits rid \<longleftrightarrow> (\<exists>r c ops left. waits rid = Some (r, c, ops, left) \<and> now - r > timeout)"

definition tracker_spec :: "instant \<Rightarrow> duration \<Rightarrow> nat set \<Rightarrow> (nat \<Rightarrow> 'c waiting option) \<Rightarrow> nat \<Rightarrow> 'c waiting option" where
  "tracker_spec now timeout indexed waits rid =
     (if answered indexed waits rid \<or> overdue now timeout waits rid then None
      else map_option (index_waiting indexed) (waits rid))"

definition spec_outputs :: "instant \<Rightarrow> duration \<Rightarrow> nat set \<Rightarrow> (nat \<Rightarrow> 'c waiting option) \<Rightarrow> ('c \<times> nat set option) set" where
  "spec_outputs now timeout indexed waits =
     {(c, Some ops) | rid r c ops left. waits rid = Some (r, c, ops, left) \<and> answered indexed waits rid} \<union>
     {(c, None) | rid r c ops left. waits rid = Some (r, c, ops, left) \<and> \<not> answered indexed waits rid \<and> overdue now timeout waits rid}"

fun output_view :: "'c tracker_output \<Rightarrow> 'c \<times> nat set option" where
  "output_view (Responded c operation_ids) = (c, Some (set operation_ids))"
| "output_view (TimedOut c) = (c, None)"

lemma output_view_eq [simp]:
  "(c, Some ops) = output_view x \<longleftrightarrow> (\<exists>ids. x = Responded c ids \<and> set ids = ops)"
  "(c, None) = output_view x \<longleftrightarrow> x = TimedOut c"
  by (cases x; auto)+

lemma waiting_requests_Some:
  "waiting_requests s rid = Some (r, c, ops, left) \<longleftrightarrow>
     (\<exists>w. reqs s rid = Some w \<and> wr_received_time w = r \<and> wr_response_channel w = c \<and> set (wr_operation_ids w) = ops \<and> outstanding w = left)"
  by (auto simp: waiting_requests_def waiting_def)

lemma overdue_iff: "overdue now timeout (waiting_requests s) rid \<longleftrightarrow> (\<exists>w. reqs s rid = Some w \<and> now - wr_received_time w > timeout)"
  by (auto simp: overdue_def waiting_requests_Some)

lemma respond_waiting:
  assumes "tracker_inv s" "respond_requests rids s = (outs, s')" "distinct rids"
  shows "waiting_requests s' = (\<lambda>rid. if rid \<in> set rids then None else waiting_requests s rid)"
    and "output_view ` set outs = {(c, Some ops) | rid r c ops left. waiting_requests s rid = Some (r, c, ops, left) \<and> rid \<in> set rids}"
proof -
  show "waiting_requests s' = (\<lambda>rid. if rid \<in> set rids then None else waiting_requests s rid)"
    using respond_requests_step [OF assms] by (auto simp: waiting_requests_def)
  have "output_view ` {Responded (wr_response_channel w) (wr_operation_ids w) | w rid. rid \<in> set rids \<and> reqs s rid = Some w} =
      {(c, Some ops) | rid r c ops left. waiting_requests s rid = Some (r, c, ops, left) \<and> rid \<in> set rids}"
    unfolding waiting_requests_Some by (auto simp: image_iff; blast)
  then show "output_view ` set outs = {(c, Some ops) | rid r c ops left. waiting_requests s rid = Some (r, c, ops, left) \<and> rid \<in> set rids}"
    using respond_requests_step [OF assms] by simp
qed

lemma cleanup_waiting:
  assumes "tracker_inv s" "cleanup_expired now s = (outs, s')"
  shows "waiting_requests s' = (\<lambda>rid. if overdue now (mt_timeout s) (waiting_requests s) rid then None else waiting_requests s rid)"
    and "output_view ` set outs =
      {(c, None) | rid r c ops left. waiting_requests s rid = Some (r, c, ops, left) \<and> overdue now (mt_timeout s) (waiting_requests s) rid}"
proof -
  show "waiting_requests s' = (\<lambda>rid. if overdue now (mt_timeout s) (waiting_requests s) rid then None else waiting_requests s rid)"
    using cleanup_expired_step [OF assms] unfolding overdue_iff by (auto simp: waiting_requests_def split: option.splits)
  have "output_view ` {TimedOut (wr_response_channel w) | w rid. reqs s rid = Some w \<and> now - wr_received_time w > mt_timeout s} =
      {(c, None) | rid r c ops left. waiting_requests s rid = Some (r, c, ops, left) \<and> overdue now (mt_timeout s) (waiting_requests s) rid}"
    unfolding waiting_requests_Some overdue_iff by (auto simp: image_iff; blast)
  then show "output_view ` set outs =
      {(c, None) | rid r c ops left. waiting_requests s rid = Some (r, c, ops, left) \<and> overdue now (mt_timeout s) (waiting_requests s) rid}"
    using cleanup_expired_step [OF assms] by simp
qed

lemma handle_indexed_step:
  assumes inv: "tracker_inv s" and step: "handle_indexed_operations now ids s = (outs, s')"
  shows "waiting_requests s' = tracker_spec now (mt_timeout s) (set ids) (waiting_requests s)"
    and "output_view ` set outs = spec_outputs now (mt_timeout s) (set ids) (waiting_requests s)"
    and "tracker_inv s'" and "mt_timeout s' = mt_timeout s"
proof -
  obtain s1 completed where i: "fold index_operation ids (s, []) = (s1, completed)" by fastforce
  obtain resp s2 where r: "respond_requests completed s1 = (resp, s2)" by fastforce
  obtain dropped where d: "cleanup_expired now s2 = (dropped, s')" "outs = resp @ dropped"
    using step i r by (auto simp: handle_indexed_operations_def split: prod.splits)
  have e1: "waiting_requests s1 = (\<lambda>rid. map_option (index_waiting (set ids)) (waiting_requests s rid))" "tracker_inv s1" "mt_timeout s1 = mt_timeout s"
      "set completed = {rid. \<exists>w. reqs s rid = Some w \<and> outstanding w \<noteq> {} \<and> outstanding w \<subseteq> set ids}" "distinct completed"
    using fold_index_operation [OF inv i] by auto
  have e2: "tracker_inv s2" "mt_timeout s2 = mt_timeout s"
    using respond_requests_step [OF e1(2) r e1(5)] e1(3) by simp_all
  show "tracker_inv s'" "mt_timeout s' = mt_timeout s"
    using cleanup_expired_step [OF e2(1) d(1)] e2(2) by simp_all
  note w2 = respond_waiting [OF e1(2) r e1(5)]
  have ans: "rid \<in> set completed \<longleftrightarrow> answered (set ids) (waiting_requests s) rid" for rid
    by (auto simp: answered_def e1(4) waiting_requests_def waiting_def)
  have over: "overdue now t (waiting_requests s2) rid \<longleftrightarrow>
      \<not> answered (set ids) (waiting_requests s) rid \<and> overdue now t (waiting_requests s) rid" for t rid
    unfolding overdue_def w2(1) e1(1) ans by auto
  note w3 = cleanup_waiting [OF e2(1) d(1), unfolded e2(2) over]
  have s1: "waiting_requests s1 rid = Some (r, c, ops, left') \<longleftrightarrow>
      (\<exists>left. waiting_requests s rid = Some (r, c, ops, left) \<and> left' = left - set ids)" for rid r c ops left'
    unfolding e1(1) by auto
  show "waiting_requests s' = tracker_spec now (mt_timeout s) (set ids) (waiting_requests s)"
    unfolding w3(1) w2(1) ans e1(1) tracker_spec_def by auto
  have "output_view ` set outs = output_view ` set resp \<union> output_view ` set dropped"
    by (simp add: d(2) image_Un)
  also have "\<dots> = spec_outputs now (mt_timeout s) (set ids) (waiting_requests s)"
    unfolding w2(2) w3(2) spec_outputs_def ans w2(1) by (auto simp: s1) blast
  finally show "output_view ` set outs = spec_outputs now (mt_timeout s) (set ids) (waiting_requests s)" .
qed

text \<open>The states of a tracker, from any sequence of calls.\<close>

inductive tracker_reach :: "duration \<Rightarrow> 'c mutation_tracker \<Rightarrow> bool" for timeout where
  reach_new: "tracker_reach timeout (mutation_tracker_new timeout)"
| reach_track: "tracker_reach timeout s \<Longrightarrow> tracker_reach timeout (track_request now ids c s)"
| reach_index: "tracker_reach timeout s \<Longrightarrow> handle_indexed_operations now ids s = (outs, s') \<Longrightarrow> tracker_reach timeout s'"

lemma tracker_reach_inv: "tracker_reach timeout s \<Longrightarrow> tracker_inv s \<and> mt_timeout s = timeout"
proof (induction rule: tracker_reach.induct)
  case (reach_index s now ids outs s')
  then show ?case using handle_indexed_step(3,4) [OF _ reach_index.hyps(2)] by auto
qed (auto simp: tracker_inv_new track_request_step, simp add: mutation_tracker_new_def)

text \<open>
  (C11) The tracker implements its contract in every state it can be in: a new request waits for all its
  operations under an identifier of its own, and when operations are indexed exactly the requests that
  waited for nothing else are answered, with their operations, and forgotten; those that waited for too
  long are dropped, and the others wait for the rest.
\<close>

theorem tracker_refines:
  assumes "tracker_reach timeout s"
  shows "waiting_requests s (mt_next_request_id s) = None \<and>
     waiting_requests (track_request now ids c s) =
       (waiting_requests s)(mt_next_request_id s \<mapsto> (now, c, set ids, set ids)) \<and>
     (case handle_indexed_operations now ids s of (outs, s') \<Rightarrow>
        waiting_requests s' = tracker_spec now timeout (set ids) (waiting_requests s) \<and>
        output_view ` set outs = spec_outputs now timeout (set ids) (waiting_requests s))"
proof -
  have inv: "tracker_inv s" "mt_timeout s = timeout"
    using tracker_reach_inv [OF assms] by auto
  obtain outs s' where h: "handle_indexed_operations now ids s = (outs, s')" by fastforce
  have "waiting_requests s (mt_next_request_id s) = None"
    using tracker_invD(3) [OF inv(1), of "mt_next_request_id s"] by (cases "reqs s (mt_next_request_id s)") (auto simp: waiting_requests_def)
  moreover have "waiting_requests (track_request now ids c s) = (waiting_requests s)(mt_next_request_id s \<mapsto> (now, c, set ids, set ids))"
    by (simp add: fun_eq_iff waiting_requests_def track_request_step(1) [OF inv(1)] waiting_def new_request_def outstanding_def)
  ultimately show ?thesis
    using handle_indexed_step(1,2) [OF inv(1) h] inv(2) unfolding h by simp
qed

theorem tracker_refines_witness:
  "spec_outputs 5 10 {1, 2} (waiting_requests (track_request 0 [1, 2] ''c'' (mutation_tracker_new 10))) = {(''c'', Some {1, 2})} \<and>
   (case handle_indexed_operations 5 [1, 2] (track_request 0 [1, 2] ''c'' (mutation_tracker_new 10)) of (outs, s') \<Rightarrow>
      output_view ` set outs = {(''c'', Some {1, 2})})"
proof -
  have reach: "tracker_reach 10 (track_request 0 [1, 2] ''c'' (mutation_tracker_new 10))"
    by (intro reach_track reach_new)
  have "waiting_requests (track_request 0 [1, 2] ''c'' (mutation_tracker_new 10)) = [0 \<mapsto> (0, ''c'', {1, 2}, {1, 2})]"
    by (auto simp: fun_eq_iff waiting_requests_def waiting_def outstanding_def track_request_def mutation_tracker_new_def track_operation_def)
  then have "spec_outputs 5 10 {1, 2} (waiting_requests (track_request 0 [1, 2] ''c'' (mutation_tracker_new 10))) = {(''c'', Some {1, 2})}"
    by (auto simp: spec_outputs_def answered_def overdue_def split: if_splits)
  then show ?thesis
    using tracker_refines [OF reach, of 5 "[1, 2]" "''d''"] by (simp add: case_prod_beta)
qed

end
