(* ===== verification/Exo_Mutation_Index.thy ===== *)
theory Exo_Mutation_Index
  imports Exo_Mutation
begin

text \<open>
  The index of mutations (\<open>store/src/local/mutation_index/mod.rs\<close>, \<open>operations.rs\<close>, \<open>entity_cache.rs\<close>) as far as
  mutations are put into it and fetched by entity. The full-text engine and the cache of recently used
  entries are libraries: parameters that tell what their calls do. The full-text fields of a document
  come from reflection over the message of a trait, a parameter as well. Queries by text are not modelled.
\<close>

section \<open>Index operations\<close>

record entity_trait =
  tr_id :: trait_id
  tr_message :: "(string \<times> bytes) option"
  tr_creation_date :: "date option"
  tr_modification_date :: "date option"
  tr_deletion_date :: "date option"
  tr_last_operation_id :: nat

record put_trait_mutation =
  px_block_offset :: "nat option"
  px_operation_id :: nat
  px_entity_id :: entity_id
  px_trt :: entity_trait

record put_trait_tombstone_mutation =
  ptt_block_offset :: "nat option"
  ptt_operation_id :: nat
  ptt_entity_id :: entity_id
  ptt_trait_id :: trait_id

record put_entity_tombstone_mutation =
  pet_block_offset :: "nat option"
  pet_operation_id :: nat
  pet_entity_id :: entity_id

datatype mutation_index_operation =
    IxPutTrait put_trait_mutation
  | IxPutTraitTombstone put_trait_tombstone_mutation
  | IxPutEntityTombstone put_entity_tombstone_mutation
  | IxDeleteEntityOperation entity_id nat
  | IxPendingDeletionMarker entity_id nat

text \<open>From an operation of the pending store. \<open>None\<close> is an operation without an entity mutation.\<close>

definition from_pending_mutation :: "entity_trait entity_mutation option \<Rightarrow> nat \<Rightarrow> mutation_index_operation list" where
  "from_pending_mutation extracted operation_id =
     (case extracted of
        None \<Rightarrow> []
      | Some entity_mutation \<Rightarrow>
          (case em_mutation entity_mutation of
             None \<Rightarrow> []
           | Some (PutTrait None) \<Rightarrow> []
           | Some (PutTrait (Some trt)) \<Rightarrow>
               [IxPutTrait \<lparr>px_block_offset = None, px_operation_id = operation_id,
                  px_entity_id = em_entity_id entity_mutation, px_trt = trt\<rparr>]
           | Some (DeleteTrait trait_id) \<Rightarrow>
               [IxPutTraitTombstone \<lparr>ptt_block_offset = None, ptt_operation_id = operation_id,
                  ptt_entity_id = em_entity_id entity_mutation, ptt_trait_id = trait_id\<rparr>]
           | Some DeleteEntity \<Rightarrow>
               [IxPutEntityTombstone \<lparr>pet_block_offset = None, pet_operation_id = operation_id,
                  pet_entity_id = em_entity_id entity_mutation\<rparr>]
           | Some (DeleteOperations _) \<Rightarrow> [IxPendingDeletionMarker (em_entity_id entity_mutation) operation_id]
           | Some (TestMutation _) \<Rightarrow> []))"

definition from_chain_entity_mutation :: "entity_trait entity_mutation \<Rightarrow> nat \<Rightarrow> nat \<Rightarrow> mutation_index_operation list" where
  "from_chain_entity_mutation entity_mutation operation_id block_offset =
     (case em_mutation entity_mutation of
        None \<Rightarrow> []
      | Some (PutTrait None) \<Rightarrow> []
      | Some (PutTrait (Some trt)) \<Rightarrow>
          [IxPutTrait \<lparr>px_block_offset = Some block_offset, px_operation_id = operation_id,
             px_entity_id = em_entity_id entity_mutation, px_trt = trt\<rparr>]
      | Some (DeleteTrait trait_id) \<Rightarrow>
          [IxPutTraitTombstone \<lparr>ptt_block_offset = Some block_offset, ptt_operation_id = operation_id,
             ptt_entity_id = em_entity_id entity_mutation, ptt_trait_id = trait_id\<rparr>]
      | Some DeleteEntity \<Rightarrow>
          [IxPutEntityTombstone \<lparr>pet_block_offset = Some block_offset, pet_operation_id = operation_id,
             pet_entity_id = em_entity_id entity_mutation\<rparr>]
      | Some (DeleteOperations operation_ids) \<Rightarrow>
          map (IxDeleteEntityOperation (em_entity_id entity_mutation)) operation_ids
      | Some (TestMutation _) \<Rightarrow> [])"

definition from_chain_mutation :: "entity_trait entity_mutation option \<Rightarrow> nat \<Rightarrow> nat \<Rightarrow> mutation_index_operation list \<times> entity_id" where
  "from_chain_mutation extracted operation_id block_offset =
     (case extracted of
        None \<Rightarrow> ([], '''')
      | Some entity_mutation \<Rightarrow>
          (from_chain_entity_mutation entity_mutation operation_id block_offset, em_entity_id entity_mutation))"

section \<open>Documents\<close>

record 'f document =
  doc_trait_type :: "string option"
  doc_trait_id :: "trait_id option"
  doc_entity_id :: entity_id
  doc_operation_id :: nat
  doc_block_offset :: "nat option"
  doc_creation_date :: "nat option"
  doc_modification_date :: "nat option"
  doc_document_type :: nat
  doc_has_reference :: bool
  doc_fields :: "'f list"

text \<open>Reflection over a message: its full name, its indexed fields, and whether one of them is a reference.\<close>

record 'f reflection =
  rf_full_name :: "string \<Rightarrow> string"
  rf_fields :: "string \<times> bytes \<Rightarrow> 'f list \<times> bool"

text \<open>A date as an unsigned number of nanoseconds, 0 when it does not fit into 64 bits.\<close>

definition to_timestamp_nanos :: "date \<Rightarrow> nat" where
  "to_timestamp_nanos d = (if - (2 ^ 63) \<le> d \<and> d < 2 ^ 63 then unat (word_of_int d :: 64 word) else 0)"

definition trait_put_to_document :: "'f reflection \<Rightarrow> put_trait_mutation \<Rightarrow> (store_error, 'f document) result" where
  "trait_put_to_document R operation =
     and_then (ok_or ProtoFieldExpected (tr_message (px_trt operation))) (\<lambda>message_any.
       Ok \<lparr>doc_trait_type = Some (rf_full_name R (fst message_any)), doc_trait_id = Some (tr_id (px_trt operation)),
           doc_entity_id = px_entity_id operation, doc_operation_id = px_operation_id operation,
           doc_block_offset = px_block_offset operation,
           doc_creation_date = map_option to_timestamp_nanos (tr_creation_date (px_trt operation)),
           doc_modification_date = map_option to_timestamp_nanos (tr_modification_date (px_trt operation)),
           doc_document_type = trait_put_id, doc_has_reference = snd (rf_fields R message_any),
           doc_fields = fst (rf_fields R message_any)\<rparr>)"

definition trait_tombstone_to_document :: "put_trait_tombstone_mutation \<Rightarrow> 'f document" where
  "trait_tombstone_to_document operation =
     \<lparr>doc_trait_type = None, doc_trait_id = Some (ptt_trait_id operation), doc_entity_id = ptt_entity_id operation,
      doc_operation_id = ptt_operation_id operation, doc_block_offset = ptt_block_offset operation,
      doc_creation_date = None, doc_modification_date = None, doc_document_type = trait_tombstone_id,
      doc_has_reference = False, doc_fields = []\<rparr>"

definition entity_tombstone_to_document :: "put_entity_tombstone_mutation \<Rightarrow> 'f document" where
  "entity_tombstone_to_document operation =
     \<lparr>doc_trait_type = None, doc_trait_id = None, doc_entity_id = pet_entity_id operation,
      doc_operation_id = pet_operation_id operation, doc_block_offset = pet_block_offset operation,
      doc_creation_date = None, doc_modification_date = None, doc_document_type = entity_tombstone_id,
      doc_has_reference = False, doc_fields = []\<rparr>"

definition pending_deletion_marker_to_document :: "entity_id \<Rightarrow> nat \<Rightarrow> 'f document" where
  "pending_deletion_marker_to_document entity_id operation_id =
     \<lparr>doc_trait_type = None, doc_trait_id = None, doc_entity_id = entity_id, doc_operation_id = operation_id,
      doc_block_offset = None, doc_creation_date = None, doc_modification_date = None,
      doc_document_type = pending_deletion_id, doc_has_reference = False, doc_fields = []\<rparr>"

section \<open>The index\<close>

text \<open>
  The full-text engine: a new index, the calls of its writer, and two searches of its reader, for the
  documents of an entity in increasing order of operations (at most so many), and for the highest value
  of the block offset.
\<close>

record ('f, 'i) tantivy =
  tv_new :: 'i
  tv_add_document :: "'f document \<Rightarrow> 'i \<Rightarrow> 'i"
  tv_delete_operation :: "nat \<Rightarrow> 'i \<Rightarrow> 'i"
  tv_commit :: "'i \<Rightarrow> 'i"
  tv_entity_documents :: "'i \<Rightarrow> entity_id \<Rightarrow> nat \<Rightarrow> 'f document list"
  tv_highest_block_offset :: "'i \<Rightarrow> nat option"

text \<open>A cache of the most recently used entries.\<close>

record 'c lru_cache =
  lru_new :: "nat \<Rightarrow> 'c"
  lru_get :: "entity_id \<Rightarrow> 'c \<Rightarrow> mutation_metadata list option \<times> 'c"
  lru_put :: "entity_id \<Rightarrow> mutation_metadata list \<Rightarrow> 'c \<Rightarrow> 'c"
  lru_pop :: "entity_id \<Rightarrow> 'c \<Rightarrow> 'c"

record ('i, 'c) mutation_index =
  mi_index :: 'i
  mi_entity_cache :: 'c

record ('f, 'i, 'c) index_lib =
  il_tantivy :: "('f, 'i) tantivy"
  il_lru :: "'c lru_cache"
  il_reflection :: "'f reflection"

definition create_in_memory :: "('f, 'i, 'c) index_lib \<Rightarrow> nat \<Rightarrow> (store_error, ('i, 'c) mutation_index) result" where
  "create_in_memory L entity_cache_size =
     (if entity_cache_size = 0 then Err StoreOther
      else Ok \<lparr>mi_index = tv_new (il_tantivy L), mi_entity_cache = lru_new (il_lru L) entity_cache_size\<rparr>)"

definition forget_entity :: "('f, 'i, 'c) index_lib \<Rightarrow> entity_id \<Rightarrow> ('i, 'c) mutation_index \<Rightarrow> ('i, 'c) mutation_index" where
  "forget_entity L entity_id mi = mi\<lparr>mi_entity_cache := lru_pop (il_lru L) entity_id (mi_entity_cache mi)\<rparr>"

definition add_document :: "('f, 'i, 'c) index_lib \<Rightarrow> 'f document \<Rightarrow> ('i, 'c) mutation_index \<Rightarrow> ('i, 'c) mutation_index" where
  "add_document L doc mi = mi\<lparr>mi_index := tv_add_document (il_tantivy L) doc (mi_index mi)\<rparr>"

fun apply_index_operation ::
  "('f, 'i, 'c) index_lib \<Rightarrow> mutation_index_operation \<Rightarrow> (('i, 'c) mutation_index, store_error, unit) sop" where
  "apply_index_operation L (IxPutTrait trait_put) mi =
     (let mi1 = forget_entity L (px_entity_id trait_put) mi in
      case trait_put_to_document (il_reflection L) trait_put of
        Ok doc \<Rightarrow> (Ok (), add_document L doc mi1)
      | Err e \<Rightarrow> (Err e, mi1)
      | Panic \<Rightarrow> (Panic, mi1))"
| "apply_index_operation L (IxPutTraitTombstone trait_tombstone) mi =
     (Ok (), add_document L (trait_tombstone_to_document trait_tombstone) (forget_entity L (ptt_entity_id trait_tombstone) mi))"
| "apply_index_operation L (IxPutEntityTombstone entity_tombstone) mi =
     (Ok (), add_document L (entity_tombstone_to_document entity_tombstone) (forget_entity L (pet_entity_id entity_tombstone) mi))"
| "apply_index_operation L (IxPendingDeletionMarker entity_id operation_id) mi =
     (Ok (), add_document L (pending_deletion_marker_to_document entity_id operation_id) (forget_entity L entity_id mi))"
| "apply_index_operation L (IxDeleteEntityOperation entity_id operation_id) mi =
     (let mi1 = forget_entity L entity_id mi in
      (Ok (), mi1\<lparr>mi_index := tv_delete_operation (il_tantivy L) operation_id (mi_index mi1)\<rparr>))"

fun write_operations ::
  "('f, 'i, 'c) index_lib \<Rightarrow> mutation_index_operation list \<Rightarrow> (('i, 'c) mutation_index, store_error, unit) sop" where
  "write_operations L [] = sreturn ()"
| "write_operations L (operation # ops) = sbind (apply_index_operation L operation) (\<lambda>_. write_operations L ops)"

text \<open>The changes of a batch become visible by one commit at its end; an error leaves them with the writer.\<close>

definition apply_operations ::
  "('f, 'i, 'c) index_lib \<Rightarrow> mutation_index_operation list \<Rightarrow> (('i, 'c) mutation_index, store_error, nat) sop" where
  "apply_operations L operations =
     sbind (write_operations L operations) (\<lambda>_ mi.
       (Ok (length operations),
        if operations \<noteq> [] then mi\<lparr>mi_index := tv_commit (il_tantivy L) (mi_index mi)\<rparr> else mi))"

definition highest_indexed_block :: "('f, 'i, 'c) index_lib \<Rightarrow> ('i, 'c) mutation_index \<Rightarrow> nat option" where
  "highest_indexed_block L mi = tv_highest_block_offset (il_tantivy L) (mi_index mi)"

section \<open>Fetching the mutations of an entity\<close>

definition u64_date :: "nat \<Rightarrow> date" where
  "u64_date ts = sint (word_of_nat ts :: 64 word)"

definition document_type :: "'f document \<Rightarrow> (store_error, mutation_type) result" where
  "document_type doc =
     and_then (mutation_type_new (doc_document_type doc) (doc_trait_id doc)) (\<lambda>mutation_type.
       Ok (case mutation_type of
             TraitPut put_trait \<Rightarrow>
               TraitPut (put_trait\<lparr>pt_creation_date := map_option u64_date (doc_creation_date doc),
                 pt_modification_date := map_option u64_date (doc_modification_date doc),
                 pt_trait_type := doc_trait_type doc, pt_has_reference := doc_has_reference doc\<rparr>)
           | _ \<Rightarrow> mutation_type))"

definition document_to_metadata :: "ordering_wrapper \<Rightarrow> 'f document \<Rightarrow> (store_error, mutation_metadata) result" where
  "document_to_metadata sort_value doc =
     and_then (document_type doc) (\<lambda>mutation_type.
       Ok \<lparr>mm_operation_id = doc_operation_id doc, mm_block_offset = doc_block_offset doc,
           mm_entity_id = doc_entity_id doc, mm_mutation_type = mutation_type, mm_sort_value = sort_value\<rparr>)"

text \<open>Results by increasing operation identifier.\<close>

definition operation_sort_value :: "nat \<Rightarrow> ordering_wrapper" where
  "operation_sort_value operation_id =
     \<lparr>ow_value = value_from_u64 operation_id operation_id, ow_reverse = True, ow_ignore = False\<rparr>"

fun documents_to_metadata :: "'f document list \<Rightarrow> (store_error, mutation_metadata list) result" where
  "documents_to_metadata [] = Ok []"
| "documents_to_metadata (doc # docs) =
     and_then (document_to_metadata (operation_sort_value (doc_operation_id doc)) doc) (\<lambda>m.
     and_then (documents_to_metadata docs) (\<lambda>ms. Ok (m # ms)))"

text \<open>Removal by index moves the last element into the place of the removed one.\<close>

definition swap_remove :: "nat \<Rightarrow> 'a list \<Rightarrow> 'a list" where
  "swap_remove i xs = (butlast xs)[i := last xs]"

function dedup_results :: "nat \<Rightarrow> nat option \<Rightarrow> mutation_metadata list \<Rightarrow> mutation_metadata list" where
  "dedup_results i prev_operation mutations =
     (if i < length mutations then
        (let op_id = mm_operation_id (mutations ! i) in
         if prev_operation = Some op_id then dedup_results i prev_operation (swap_remove i mutations)
         else dedup_results (i + 1) (Some op_id) mutations)
      else mutations)"
  by pat_completeness auto
termination
  by (relation "measure (\<lambda>(i, prev, ms). length ms - i)") (auto simp: swap_remove_def)

declare dedup_results.simps [simp del]

definition entity_max_traits :: nat where "entity_max_traits = 10000"

definition fetch_entity_mutations ::
  "('f, 'i, 'c) index_lib \<Rightarrow> entity_id \<Rightarrow> (('i, 'c) mutation_index, store_error, mutation_metadata list) sop" where
  "fetch_entity_mutations L entity_id mi =
     (case lru_get (il_lru L) entity_id (mi_entity_cache mi) of
        (Some results, cache) \<Rightarrow> (Ok results, mi\<lparr>mi_entity_cache := cache\<rparr>)
      | (None, cache) \<Rightarrow>
          (let mi1 = mi\<lparr>mi_entity_cache := cache\<rparr> in
           case documents_to_metadata (tv_entity_documents (il_tantivy L) (mi_index mi1) entity_id entity_max_traits) of
             Ok mutations \<Rightarrow>
               (let entity_mutations = dedup_results 0 None mutations in
                (Ok entity_mutations, mi1\<lparr>mi_entity_cache := lru_put (il_lru L) entity_id entity_mutations (mi_entity_cache mi1)\<rparr>))
           | Err e \<Rightarrow> (Err e, mi1)
           | Panic \<Rightarrow> (Panic, mi1)))"

end
