(* ===== verification/Exo_Mutation_Index_Props.thy ===== *)
theory Exo_Mutation_Index_Props
  imports Exo_Mutation_Index
begin

text \<open>
  What the index of mutations returns for an entity: the mutations that were put into it, through the cache
  or not, as long as every batch succeeded and deletions name the entity of the operation they delete.
\<close>

section \<open>What is relied on\<close>

text \<open>
  The full-text engine: \<open>written\<close> are the documents its writer holds, \<open>visible\<close> those the reader sees, which
  are the written ones as of the last commit. A search by entity gives the visible documents of the entity
  by increasing operation, when there are not more than the limit. The highest block offset is that of some
  document, so it is missing only when there is none.
\<close>

definition tantivy_ok :: "('f, 'i) tantivy \<Rightarrow> ('i \<Rightarrow> 'f document list) \<Rightarrow> ('i \<Rightarrow> 'f document list) \<Rightarrow> bool" where
  "tantivy_ok T visible written \<longleftrightarrow>
     visible (tv_new T) = [] \<and> written (tv_new T) = [] \<and>
     (\<forall>d i. visible (tv_add_document T d i) = visible i \<and> written (tv_add_document T d i) = written i @ [d]) \<and>
     (\<forall>k i. visible (tv_delete_operation T k i) = visible i \<and>
        written (tv_delete_operation T k i) = filter (\<lambda>d. doc_operation_id d \<noteq> k) (written i)) \<and>
     (\<forall>i. visible (tv_commit T i) = written i \<and> written (tv_commit T i) = written i) \<and>
     (\<forall>i e n. length (filter (\<lambda>d. doc_entity_id d = e) (visible i)) \<le> n \<longrightarrow>
        sorted (map doc_operation_id (tv_entity_documents T i e n)) \<and>
        mset (tv_entity_documents T i e n) = mset (filter (\<lambda>d. doc_entity_id d = e) (visible i))) \<and>
     (\<forall>i. tv_highest_block_offset T i = None \<longleftrightarrow> visible i = [])"

text \<open>The cache: an entry is what was put last and not popped since, or it was evicted.\<close>

definition lru_ok :: "'c lru_cache \<Rightarrow> ('c \<Rightarrow> entity_id \<Rightarrow> mutation_metadata list option) \<Rightarrow> bool" where
  "lru_ok Q content \<longleftrightarrow>
     (\<forall>n. content (lru_new Q n) = Map.empty) \<and>
     (\<forall>k c. fst (lru_get Q k c) = content c k \<and> content (snd (lru_get Q k c)) = content c) \<and>
     (\<forall>k v c. content (lru_put Q k v c) \<subseteq>\<^sub>m (content c)(k \<mapsto> v)) \<and>
     (\<forall>k c. content (lru_pop Q k c) = (content c)(k := None))"

definition index_lib_ok ::
  "('f, 'i, 'c) index_lib \<Rightarrow> ('i \<Rightarrow> 'f document list) \<Rightarrow> ('i \<Rightarrow> 'f document list) \<Rightarrow> ('c \<Rightarrow> entity_id \<Rightarrow> mutation_metadata list option) \<Rightarrow> bool" where
  "index_lib_ok L visible written content \<longleftrightarrow> tantivy_ok (il_tantivy L) visible written \<and> lru_ok (il_lru L) content"

lemma tantivy_okD:
  assumes "tantivy_ok T visible written"
  shows "visible (tv_new T) = []" "written (tv_new T) = []"
    "visible (tv_add_document T d i) = visible i" "written (tv_add_document T d i) = written i @ [d]"
    "visible (tv_delete_operation T k i) = visible i"
    "written (tv_delete_operation T k i) = filter (\<lambda>d. doc_operation_id d \<noteq> k) (written i)"
    "visible (tv_commit T i) = written i" "written (tv_commit T i) = written i"
    "length (filter (\<lambda>d. doc_entity_id d = e) (visible i)) \<le> n \<Longrightarrow> sorted (map doc_operation_id (tv_entity_documents T i e n))"
    "length (filter (\<lambda>d. doc_entity_id d = e) (visible i)) \<le> n \<Longrightarrow>
       mset (tv_entity_documents T i e n) = mset (filter (\<lambda>d. doc_entity_id d = e) (visible i))"
    "tv_highest_block_offset T i = None \<longleftrightarrow> visible i = []"
  using assms unfolding tantivy_ok_def by blast+

lemma lru_okD:
  assumes "lru_ok Q content"
  shows "content (lru_new Q n) = Map.empty" "fst (lru_get Q k c) = content c k" "content (snd (lru_get Q k c)) = content c"
    "content (lru_put Q k v c) \<subseteq>\<^sub>m (content c)(k \<mapsto> v)" "content (lru_pop Q k c) = (content c)(k := None)"
  using assms unfolding lru_ok_def by blast+

section \<open>The documents of a sequence of operations\<close>

fun operation_document :: "'f reflection \<Rightarrow> mutation_index_operation \<Rightarrow> 'f document option" where
  "operation_document R (IxPutTrait p) = (case trait_put_to_document R p of Ok d \<Rightarrow> Some d | _ \<Rightarrow> None)"
| "operation_document R (IxPutTraitTombstone p) = Some (trait_tombstone_to_document p)"
| "operation_document R (IxPutEntityTombstone p) = Some (entity_tombstone_to_document p)"
| "operation_document R (IxPendingDeletionMarker e i) = Some (pending_deletion_marker_to_document e i)"
| "operation_document R (IxDeleteEntityOperation e i) = None"

text \<open>The documents after an operation, and what an operation has to satisfy on them.\<close>

fun documents_after :: "'f reflection \<Rightarrow> mutation_index_operation \<Rightarrow> 'f document list \<Rightarrow> 'f document list" where
  "documents_after R (IxDeleteEntityOperation e i) docs = filter (\<lambda>d. doc_operation_id d \<noteq> i) docs"
| "documents_after R ix docs = docs @ (case operation_document R ix of Some d \<Rightarrow> [d] | None \<Rightarrow> [])"

fun operation_fits :: "'f document list \<Rightarrow> mutation_index_operation \<Rightarrow> bool" where
  "operation_fits docs (IxPutTrait p) = (tr_message (px_trt p) \<noteq> None)"
| "operation_fits docs (IxDeleteEntityOperation e i) = (\<forall>d \<in> set docs. doc_operation_id d = i \<longrightarrow> doc_entity_id d = e)"
| "operation_fits docs _ = True"

fun operations_fit :: "'f reflection \<Rightarrow> 'f document list \<Rightarrow> mutation_index_operation list \<Rightarrow> bool" where
  "operations_fit R docs [] = True"
| "operations_fit R docs (ix # ixs) = (operation_fits docs ix \<and> operations_fit R (documents_after R ix docs) ixs)"

fun operation_entity :: "mutation_index_operation \<Rightarrow> entity_id" where
  "operation_entity (IxPutTrait p) = px_entity_id p"
| "operation_entity (IxPutTraitTombstone p) = ptt_entity_id p"
| "operation_entity (IxPutEntityTombstone p) = pet_entity_id p"
| "operation_entity (IxPendingDeletionMarker e i) = e"
| "operation_entity (IxDeleteEntityOperation e i) = e"

abbreviation entity_docs :: "entity_id \<Rightarrow> 'f document list \<Rightarrow> 'f document list" where
  "entity_docs e docs \<equiv> filter (\<lambda>d. doc_entity_id d = e) docs"

lemma operation_document_entity: "operation_document R ix = Some d \<Longrightarrow> doc_entity_id d = operation_entity ix"
  by (cases ix) (auto simp: trait_put_to_document_def trait_tombstone_to_document_def entity_tombstone_to_document_def
      pending_deletion_marker_to_document_def result_simps split: result.splits option.splits)

lemma other_entity_docs:
  assumes "operation_fits docs ix" "e \<noteq> operation_entity ix"
  shows "entity_docs e (documents_after R ix docs) = entity_docs e docs"
proof (cases ix)
  case (IxDeleteEntityOperation e' i)
  then show ?thesis
    using assms by (auto simp: filter_filter intro!: filter_cong)
qed (use assms operation_document_entity [of R ix] in \<open>auto split: option.splits result.splits\<close>)

section \<open>Documents decode\<close>

definition doc_meta :: "'f document \<Rightarrow> mutation_metadata" where
  "doc_meta d = (case document_to_metadata (operation_sort_value (doc_operation_id d)) d of Ok m \<Rightarrow> m | _ \<Rightarrow> undefined)"

definition doc_decodes :: "'f document \<Rightarrow> bool" where
  "doc_decodes d \<longleftrightarrow> is_ok (document_to_metadata (operation_sort_value (doc_operation_id d)) d)"

lemma documents_to_metadata_ok:
  "\<forall>d \<in> set docs. doc_decodes d \<Longrightarrow> documents_to_metadata docs = Ok (map doc_meta docs)"
  by (induction docs) (auto simp: doc_decodes_def doc_meta_def result_simps)

lemma doc_meta_id: "doc_decodes d \<Longrightarrow> mm_operation_id (doc_meta d) = doc_operation_id d"
  by (auto simp: doc_decodes_def doc_meta_def document_to_metadata_def result_simps)

lemma operation_document_decodes: "operation_document R ix = Some d \<Longrightarrow> doc_decodes d"
  by (cases ix) (auto simp: doc_decodes_def document_to_metadata_def document_type_def mutation_type_new_def
      trait_put_to_document_def trait_tombstone_to_document_def entity_tombstone_to_document_def
      pending_deletion_marker_to_document_def trait_tombstone_id_def trait_put_id_def entity_tombstone_id_def
      pending_deletion_id_def result_simps split: result.splits option.splits)

lemma documents_after_decode:
  "\<forall>d \<in> set docs. doc_decodes d \<Longrightarrow> \<forall>d \<in> set (documents_after R ix docs). doc_decodes d"
  using operation_document_decodes [of R ix] by (cases ix) (auto split: option.splits result.splits)

section \<open>Batches and fetches\<close>

text \<open>What may be returned for an entity.\<close>

definition is_result :: "'f document list \<Rightarrow> entity_id \<Rightarrow> mutation_metadata list \<Rightarrow> bool" where
  "is_result docs e r \<longleftrightarrow>
     (\<exists>ds. sorted (map doc_operation_id ds) \<and> mset ds = mset (entity_docs e docs) \<and> r = dedup_results 0 None (map doc_meta ds))"

definition cache_coherent ::
  "('c \<Rightarrow> entity_id \<Rightarrow> mutation_metadata list option) \<Rightarrow> ('i, 'c) mutation_index \<Rightarrow> 'f document list \<Rightarrow> bool" where
  "cache_coherent content mi docs \<longleftrightarrow> (\<forall>e r. content (mi_entity_cache mi) e = Some r \<longrightarrow> is_result docs e r)"

definition docs_ok :: "'f document list \<Rightarrow> bool" where
  "docs_ok docs \<longleftrightarrow> (\<forall>d \<in> set docs. doc_decodes d) \<and> (\<forall>e. length (entity_docs e docs) \<le> entity_max_traits)"

lemma coherent_step:
  assumes "cache_coherent content mi docs" "operation_fits docs ix"
    "content (mi_entity_cache mi') = (content (mi_entity_cache mi))(operation_entity ix := None)"
  shows "cache_coherent content mi' (documents_after R ix docs)"
proof -
  have "is_result (documents_after R ix docs) e r" if "e \<noteq> operation_entity ix" "is_result docs e r" for e r
    using that unfolding is_result_def other_entity_docs [OF assms(2) that(1)] by blast
  then show ?thesis
    using assms(1,3) by (auto simp: cache_coherent_def)
qed

lemma apply_index_operation_ok:
  assumes lib: "index_lib_ok L visible written content" and fit: "operation_fits (written (mi_index mi)) ix"
    and co: "cache_coherent content mi (written (mi_index mi))"
  shows "\<exists>mi'. apply_index_operation L ix mi = (Ok (), mi') \<and> visible (mi_index mi') = visible (mi_index mi) \<and>
    written (mi_index mi') = documents_after (il_reflection L) ix (written (mi_index mi)) \<and>
    cache_coherent content mi' (written (mi_index mi'))"
proof -
  have t: "tantivy_ok (il_tantivy L) visible written" and l: "lru_ok (il_lru L) content"
    using lib by (simp_all add: index_lib_ok_def)
  obtain mi' where "apply_index_operation L ix mi = (Ok (), mi')" "visible (mi_index mi') = visible (mi_index mi)"
      "written (mi_index mi') = documents_after (il_reflection L) ix (written (mi_index mi))"
      "content (mi_entity_cache mi') = (content (mi_entity_cache mi))(operation_entity ix := None)"
    using fit tantivy_okD [OF t] lru_okD(5) [OF l]
    by (cases ix) (auto simp: forget_entity_def add_document_def trait_put_to_document_def Let_def)
  then show ?thesis
    using coherent_step [OF co fit] by auto
qed

lemma write_operations_ok:
  assumes lib: "index_lib_ok L visible written content" and "operations_fit (il_reflection L) (written (mi_index mi)) ixs"
    and "cache_coherent content mi (written (mi_index mi))"
  shows "\<exists>mi'. write_operations L ixs mi = (Ok (), mi') \<and> visible (mi_index mi') = visible (mi_index mi) \<and>
    written (mi_index mi') = fold (documents_after (il_reflection L)) ixs (written (mi_index mi)) \<and>
    cache_coherent content mi' (written (mi_index mi'))"
  using assms(2,3)
proof (induction ixs arbitrary: mi)
  case (Cons ix ixs)
  then obtain mi1 where mi1: "apply_index_operation L ix mi = (Ok (), mi1)" "visible (mi_index mi1) = visible (mi_index mi)"
      "written (mi_index mi1) = documents_after (il_reflection L) ix (written (mi_index mi))"
      "cache_coherent content mi1 (written (mi_index mi1))"
    using apply_index_operation_ok [OF lib, of mi ix] by auto
  then show ?case
    using Cons.IH [of mi1] Cons.prems(1) by simp
qed simp

lemma fold_documents_decode:
  "\<forall>d \<in> set docs. doc_decodes d \<Longrightarrow> \<forall>d \<in> set (fold (documents_after R) ixs docs). doc_decodes d"
proof (induction ixs arbitrary: docs)
  case (Cons ix ixs)
  then show ?case using documents_after_decode [of docs R ix] by simp
qed simp

text \<open>The states of an index: \<open>docs\<close> are the documents of all operations that were applied.\<close>

inductive index_reach :: "('f, 'i, 'c) index_lib \<Rightarrow> ('i, 'c) mutation_index \<Rightarrow> 'f document list \<Rightarrow> bool" for L where
  index_created: "create_in_memory L n = Ok mi \<Longrightarrow> index_reach L mi []"
| index_applied: "index_reach L mi docs \<Longrightarrow> operations_fit (il_reflection L) docs ixs \<Longrightarrow>
    apply_operations L ixs mi = (Ok n, mi') \<Longrightarrow> docs' = fold (documents_after (il_reflection L)) ixs docs \<Longrightarrow>
    \<forall>e. length (entity_docs e docs') \<le> entity_max_traits \<Longrightarrow> index_reach L mi' docs'"
| index_fetched: "index_reach L mi docs \<Longrightarrow> fetch_entity_mutations L e mi = (r, mi') \<Longrightarrow> index_reach L mi' docs"

definition index_inv ::
  "('i \<Rightarrow> 'f document list) \<Rightarrow> ('i \<Rightarrow> 'f document list) \<Rightarrow> ('c \<Rightarrow> entity_id \<Rightarrow> mutation_metadata list option) \<Rightarrow>
     ('i, 'c) mutation_index \<Rightarrow> 'f document list \<Rightarrow> bool" where
  "index_inv visible written content mi docs \<longleftrightarrow>
     visible (mi_index mi) = docs \<and> written (mi_index mi) = docs \<and> docs_ok docs \<and> cache_coherent content mi docs"

lemma fetch_step:
  assumes lib: "index_lib_ok L visible written content" and inv: "index_inv visible written content mi docs"
  shows "\<exists>r mi'. fetch_entity_mutations L e mi = (Ok r, mi') \<and> is_result docs e r \<and> index_inv visible written content mi' docs"
proof -
  have t: "tantivy_ok (il_tantivy L) visible written" and l: "lru_ok (il_lru L) content"
    using lib by (simp_all add: index_lib_ok_def)
  obtain hit c where g: "lru_get (il_lru L) e (mi_entity_cache mi) = (hit, c)" by fastforce
  have c: "hit = content (mi_entity_cache mi) e" "content c = content (mi_entity_cache mi)"
    using lru_okD(2,3) [OF l, of e "mi_entity_cache mi"] g by simp_all
  show ?thesis
  proof (cases hit)
    case (Some r)
    then show ?thesis
      using g c inv by (auto simp: fetch_entity_mutations_def index_inv_def cache_coherent_def)
  next
    case None
    let ?ds = "tv_entity_documents (il_tantivy L) (mi_index mi) e entity_max_traits"
    have small: "length (entity_docs e (visible (mi_index mi))) \<le> entity_max_traits"
      using inv by (simp add: index_inv_def docs_ok_def)
    have ds: "sorted (map doc_operation_id ?ds)" "mset ?ds = mset (entity_docs e docs)"
      using tantivy_okD(9,10) [OF t small] inv by (simp_all add: index_inv_def)
    have "\<forall>d \<in> set ?ds. doc_decodes d"
      using ds(2) inv by (metis (mono_tags, lifting) docs_ok_def filter_is_subset index_inv_def set_mset_mset subsetD)
    then have decode: "documents_to_metadata ?ds = Ok (map doc_meta ?ds)"
      by (rule documents_to_metadata_ok)
    define r where "r = dedup_results 0 None (map doc_meta ?ds)"
    have res: "is_result docs e r"
      using ds r_def by (auto simp: is_result_def)
    let ?c = "lru_put (il_lru L) e r c"
    have "is_result docs e' r'" if "content ?c e' = Some r'" for e' r'
    proof (cases "e' = e")
      case True
      then show ?thesis
        using lru_okD(4) [OF l, of e r c] that res by (auto simp: map_le_def dom_def)
    next
      case False
      then have "content c e' = Some r'"
        using lru_okD(4) [OF l, of e r c] that by (force simp: map_le_def dom_def)
      then show ?thesis using inv c(2) by (simp add: index_inv_def cache_coherent_def)
    qed
    then show ?thesis
      using g None decode res inv r_def by (simp add: fetch_entity_mutations_def index_inv_def cache_coherent_def Let_def)
  qed
qed

lemma index_reach_inv:
  assumes lib: "index_lib_ok L visible written content" and "index_reach L mi docs"
  shows "index_inv visible written content mi docs"
  using assms(2)
proof (induction rule: index_reach.induct)
  case (index_created n mi)
  then show ?case
    using lib by (auto simp: create_in_memory_def index_inv_def index_lib_ok_def docs_ok_def cache_coherent_def
        tantivy_okD lru_okD(1) split: if_splits)
next
  case (index_applied mi docs ixs n mi' docs')
  then have w: "written (mi_index mi) = docs" "visible (mi_index mi) = docs" "cache_coherent content mi docs" "docs_ok docs"
    by (simp_all add: index_inv_def)
  obtain mi1 where mi1: "write_operations L ixs mi = (Ok (), mi1)" "visible (mi_index mi1) = docs"
      "written (mi_index mi1) = docs'" "cache_coherent content mi1 docs'"
    using write_operations_ok [OF lib, of mi ixs] index_applied(2,4) w by auto
  have "docs_ok docs'"
    using fold_documents_decode [of docs] w(4) index_applied(4,5) by (simp add: docs_ok_def)
  moreover have "mi' = (if ixs \<noteq> [] then mi1\<lparr>mi_index := tv_commit (il_tantivy L) (mi_index mi1)\<rparr> else mi1)"
    using index_applied(3) mi1(1) by (simp add: apply_operations_def)
  moreover have "ixs = [] \<Longrightarrow> docs' = docs"
    using index_applied(4) by simp
  ultimately show ?case
    using mi1 lib tantivy_okD(7,8) [of "il_tantivy L" visible written]
    by (auto simp: index_inv_def cache_coherent_def index_lib_ok_def)
next
  case (index_fetched mi docs e r mi')
  then show ?case using fetch_step [OF lib, of mi docs e] by auto
qed

section \<open>Removal of duplicates\<close>

lemma swap_remove_ids:
  assumes "i < length xs" "0 < i" "f (xs ! (i - 1)) = f (xs ! i)"
  shows "f ` set (swap_remove i xs) = f ` set xs"
proof -
  have "xs \<noteq> []"
    using assms(1) by auto
  then have xs: "xs = butlast xs @ [last xs]"
    by simp
  show ?thesis
  proof (cases "i = length xs - 1")
    case True
    then have "last xs = xs ! i" "swap_remove i xs = butlast xs"
      using \<open>xs \<noteq> []\<close> by (simp_all add: last_conv_nth swap_remove_def list_update_beyond)
    moreover have "xs ! (i - 1) \<in> set (butlast xs)"
      using True assms(1,2) by (auto simp: in_set_conv_nth nth_butlast intro!: exI [of _ "i - 1"])
    ultimately show ?thesis
      using assms(3) by (subst (2) xs) (auto simp: image_iff intro!: bexI [of _ "xs ! (i - 1)"])
  next
    case False
    then have i: "i < length (butlast xs)"
      using assms(1) by simp
    define ys where "ys = butlast xs"
    have split: "ys = take i ys @ ys ! i # drop (Suc i) ys"
      using i id_take_nth_drop [of i ys] by (simp add: ys_def)
    have "ys ! i = xs ! i" "ys ! (i - 1) = xs ! (i - 1)"
      using i assms(2) by (simp_all add: ys_def nth_butlast)
    then have "f (ys ! i) \<in> f ` set (take i ys)"
      using assms(2,3) i by (auto simp: ys_def in_set_conv_nth image_iff intro!: bexI [of _ "ys ! (i - 1)"] exI [of _ "i - 1"])
    moreover have "set (swap_remove i xs) = insert (last xs) (set (take i ys) \<union> set (drop (Suc i) ys))"
      using i upd_conv_take_nth_drop [of i ys "last xs"] by (auto simp: swap_remove_def ys_def)
    moreover have "set xs = insert (last xs) (insert (ys ! i) (set (take i ys) \<union> set (drop (Suc i) ys)))"
      by (subst xs, fold ys_def, subst split) auto
    ultimately show ?thesis by auto
  qed
qed

text \<open>No operation is lost, and a list without repetition stays as it is.\<close>

lemma dedup_ids:
  assumes "i = 0 \<and> prev = None \<or> 0 < i \<and> i \<le> length ms \<and> prev = Some (mm_operation_id (ms ! (i - 1)))"
  shows "mm_operation_id ` set (dedup_results i prev ms) = mm_operation_id ` set ms"
  using assms
proof (induction i prev ms rule: dedup_results.induct)
  case (1 i prev ms)
  show ?case
  proof (cases "i < length ms \<and> prev = Some (mm_operation_id (ms ! i))")
    case True
    then have i: "0 < i" "mm_operation_id (ms ! (i - 1)) = mm_operation_id (ms ! i)" "length (swap_remove i ms) = length ms - 1"
      using "1.prems" by (auto simp: swap_remove_def)
    have "i - 1 < length (butlast ms)" and "i \<le> length ms - 1"
      unfolding length_butlast using True i(1) by linarith+
    then have "swap_remove i ms ! (i - 1) = ms ! (i - 1)"
      using nth_butlast [of "i - 1" ms] i(1) by (simp add: swap_remove_def)
    then have "mm_operation_id ` set (dedup_results i prev (swap_remove i ms)) = mm_operation_id ` set (swap_remove i ms)"
      using 1(1) True i \<open>i \<le> length ms - 1\<close> by auto
    then show ?thesis
      using True swap_remove_ids [of i ms mm_operation_id] i by (subst dedup_results.simps) simp
  next
    case False
    then show ?thesis
      using 1(2) by (subst dedup_results.simps) auto
  qed
qed

lemma dedup_distinct:
  assumes "distinct (map mm_operation_id ms)" "\<forall>j. i \<le> j \<longrightarrow> j < length ms \<longrightarrow> prev \<noteq> Some (mm_operation_id (ms ! j))"
  shows "dedup_results i prev ms = ms"
  using assms
proof (induction i prev ms rule: dedup_results.induct)
  case (1 i prev ms)
  have "mm_operation_id (ms ! i) \<noteq> mm_operation_id (ms ! j)" if "i < j" "j < length ms" for j
    using "1.prems"(1) that nth_eq_iff_index_eq [of "map mm_operation_id ms" i j] by auto
  then show ?case
    using 1(2) "1.prems" by (subst dedup_results.simps) (auto simp: Suc_le_eq)
qed

lemma is_result_ids:
  assumes "is_result docs e r" "docs_ok docs"
  shows "mm_operation_id ` set r = doc_operation_id ` set (entity_docs e docs)"
proof -
  obtain ds where ds: "mset ds = mset (entity_docs e docs)" "r = dedup_results 0 None (map doc_meta ds)"
    using assms(1) by (auto simp: is_result_def)
  then have "set ds = set (entity_docs e docs)"
    by (metis set_mset_mset)
  moreover have "mm_operation_id (doc_meta d) = doc_operation_id d" if "d \<in> set (entity_docs e docs)" for d
    using that assms(2) by (simp add: docs_ok_def doc_meta_id)
  ultimately show ?thesis
    using dedup_ids [of 0 None "map doc_meta ds"] ds(2) by (simp add: image_image)
qed

lemma is_result_distinct:
  assumes "is_result docs e r" "docs_ok docs" "distinct (map doc_operation_id (entity_docs e docs))"
  shows "mset r = mset (map doc_meta (entity_docs e docs)) \<and> sorted_wrt (<) (map mm_operation_id r)"
proof -
  obtain ds where ds: "sorted (map doc_operation_id ds)" "mset ds = mset (entity_docs e docs)" "r = dedup_results 0 None (map doc_meta ds)"
    using assms(1) by (auto simp: is_result_def)
  have set: "set ds = set (entity_docs e docs)"
    using ds(2) by (metis set_mset_mset)
  have ids: "map mm_operation_id (map doc_meta ds) = map doc_operation_id ds"
    using set assms(2) by (auto simp: docs_ok_def doc_meta_id)
  have dist: "distinct (map doc_operation_id ds)"
    using assms(3) ds(2) by (metis mset_eq_imp_distinct_iff mset_map)
  then have "r = map doc_meta ds"
    unfolding ds(3) by (intro dedup_distinct) (simp_all only: ids option.distinct, simp)
  moreover from this have "sorted_wrt (<) (map mm_operation_id r)"
    using ids dist ds(1) by (simp only: strict_sorted_iff)
  ultimately have "r = map doc_meta ds" "sorted_wrt (<) (map mm_operation_id r)"
    by simp_all
  then show ?thesis using ds(2) by (metis mset_map)
qed

text \<open>
  Duplicates that are not next to each other once the last element has taken the place of a removed one
  stay: the list is ordered before the removal, and removing breaks the order.
\<close>

definition ex_meta :: "nat \<Rightarrow> mutation_metadata" where
  "ex_meta i = \<lparr>mm_operation_id = i, mm_block_offset = None, mm_entity_id = ''e'', mm_mutation_type = EntityTombstone,
     mm_sort_value = operation_sort_value i\<rparr>"

lemma dedup_leaves_duplicates:
  "map mm_operation_id (dedup_results 0 None (map ex_meta [1, 1, 2, 3, 3])) = [1, 3, 2, 3]"
  by (simp add: dedup_results.simps swap_remove_def ex_meta_def)

section \<open>Fetching\<close>

text \<open>A full-text engine that keeps lists of documents, and a cache that evicts nothing.\<close>

definition ex_tantivy :: "(unit, unit document list \<times> unit document list) tantivy" where
  "ex_tantivy = \<lparr>tv_new = ([], []), tv_add_document = (\<lambda>d (v, w). (v, w @ [d])),
     tv_delete_operation = (\<lambda>k (v, w). (v, filter (\<lambda>d. doc_operation_id d \<noteq> k) w)), tv_commit = (\<lambda>(v, w). (w, w)),
     tv_entity_documents = (\<lambda>(v, w) e n. take n (sort_key doc_operation_id (entity_docs e v))),
     tv_highest_block_offset = (\<lambda>(v, w). if v = [] then None
       else Some (fold max (map (\<lambda>d. case doc_block_offset d of Some b \<Rightarrow> b | None \<Rightarrow> 0) v) 0))\<rparr>"

definition ex_lru :: "(entity_id \<times> mutation_metadata list) list lru_cache" where
  "ex_lru = \<lparr>lru_new = (\<lambda>n. []), lru_get = (\<lambda>k c. (map_of c k, c)), lru_put = (\<lambda>k v c. (k, v) # c), lru_pop = hm_remove\<rparr>"

definition ex_index_lib where
  "ex_index_lib = \<lparr>il_tantivy = ex_tantivy, il_lru = ex_lru, il_reflection = \<lparr>rf_full_name = id, rf_fields = (\<lambda>m. ([], False))\<rparr>\<rparr>"

lemma map_of_hm_remove: "map_of (hm_remove k c) = (map_of c)(k := None)"
  by (induction c) (auto simp: hm_remove_def fun_eq_iff)

lemma ex_index_lib_ok: "index_lib_ok ex_index_lib fst snd map_of"
proof -
  have "tantivy_ok ex_tantivy fst snd"
    by (auto simp: tantivy_ok_def ex_tantivy_def)
  moreover have "lru_ok ex_lru map_of"
    by (auto simp: lru_ok_def ex_lru_def map_of_hm_remove)
  ultimately show ?thesis
    by (simp add: index_lib_ok_def ex_index_lib_def)
qed

definition ex_put :: "entity_id \<Rightarrow> nat \<Rightarrow> (string \<times> bytes) option \<Rightarrow> mutation_index_operation" where
  "ex_put e i message = IxPutTrait \<lparr>px_block_offset = None, px_operation_id = i, px_entity_id = e,
     px_trt = \<lparr>tr_id = ''t'', tr_message = message, tr_creation_date = None, tr_modification_date = None,
       tr_deletion_date = None, tr_last_operation_id = 0\<rparr>\<rparr>"

definition ex_index_ops :: "mutation_index_operation list" where
  "ex_index_ops = [ex_put ''a'' 5 (Some (''m'', [])), ex_put ''b'' 4 (Some (''m'', [])), ex_put ''a'' 3 (Some (''m'', [])),
     IxDeleteEntityOperation ''b'' 4]"

definition ex_index where
  "ex_index = snd (apply_operations ex_index_lib ex_index_ops
     \<lparr>mi_index = tv_new ex_tantivy, mi_entity_cache = lru_new ex_lru 1\<rparr>)"

lemmas ex_index_simps = ex_index_def ex_index_lib_def ex_tantivy_def ex_lru_def ex_put_def ex_index_ops_def
  apply_operations_def forget_entity_def add_document_def trait_put_to_document_def trait_put_id_def result_simps
  create_in_memory_def hm_remove_def Let_def

lemma ex_index_reach:
  "index_reach ex_index_lib ex_index (fold (documents_after (il_reflection ex_index_lib)) ex_index_ops [])"
proof (rule index_applied)
  show "index_reach ex_index_lib \<lparr>mi_index = tv_new ex_tantivy, mi_entity_cache = lru_new ex_lru 1\<rparr> []"
    by (rule index_created [of _ 1]) (simp add: create_in_memory_def ex_index_lib_def)
  show "operations_fit (il_reflection ex_index_lib) [] ex_index_ops"
    by (simp add: ex_index_simps)
  show "apply_operations ex_index_lib ex_index_ops \<lparr>mi_index = tv_new ex_tantivy, mi_entity_cache = lru_new ex_lru 1\<rparr> =
      (Ok 4, ex_index)"
    by (simp add: ex_index_simps)
  show "\<forall>e. length (entity_docs e (fold (documents_after (il_reflection ex_index_lib)) ex_index_ops [])) \<le> entity_max_traits"
    by (simp add: ex_index_simps entity_max_traits_def)
qed simp

text \<open>
  (C12) Whatever sequence of successful batches and of fetches the index went through, a fetch of an entity
  succeeds and returns, from the cache or from the index, the operations that were put for the entity and not
  deleted; when no operation was put twice these are exactly the mutations as they were put, once each and by
  increasing identifier. The batches are those that leave the index readable: every batch returns without an
  error, which needs that every trait that is put has a message, a deletion names the entity of the
  operations it deletes, and no entity ever has more than the 10000 documents that a fetch asks for. What a batch that
  fails in the middle does to the cache is shown by \<open>failed_batch_stale_cache\<close>.
\<close>

theorem index_fetch_fresh:
  assumes "index_lib_ok L visible written content" and "index_reach L mi docs"
  shows "\<exists>r mi'. fetch_entity_mutations L e mi = (Ok r, mi') \<and>
    mm_operation_id ` set r = doc_operation_id ` set (entity_docs e docs) \<and>
    (distinct (map doc_operation_id (entity_docs e docs)) \<longrightarrow>
       mset r = mset (map doc_meta (entity_docs e docs)) \<and> sorted_wrt (<) (map mm_operation_id r))"
proof -
  have inv: "index_inv visible written content mi docs"
    by (rule index_reach_inv [OF assms])
  then obtain r mi' where "fetch_entity_mutations L e mi = (Ok r, mi')" "is_result docs e r"
    using fetch_step [OF assms(1) inv, of e] by blast
  moreover have "docs_ok docs"
    using inv by (simp add: index_inv_def)
  ultimately show ?thesis
    using is_result_ids [of docs e r] is_result_distinct [of docs e r] by blast
qed

theorem index_fetch_fresh_witness:
  "\<exists>r mi'. fetch_entity_mutations ex_index_lib ''a'' ex_index = (Ok r, mi') \<and> mm_operation_id ` set r = {3, 5} \<and>
     sorted_wrt (<) (map mm_operation_id r)"
  using index_fetch_fresh [OF ex_index_lib_ok ex_index_reach, of "''a''"]
  by (auto simp: ex_index_simps)

text \<open>
  A batch that fails leaves its first operations with the writer, and the commit of a later batch makes
  them visible without forgetting the entities in the cache: after a trait was put for \<open>a\<close> in a batch that
  fails, a fetch of \<open>a\<close> caches an empty result, and once a later batch on \<open>c\<close> succeeds the index holds the
  document of \<open>a\<close>, but a fetch still returns the cached empty result.
\<close>

lemma failed_batch_stale_cache:
  "case create_in_memory ex_index_lib 10 of Ok mi0 \<Rightarrow>
     (case apply_operations ex_index_lib [ex_put ''a'' 1 (Some (''m'', [])), ex_put ''b'' 2 None] mi0 of (res1, mi1) \<Rightarrow>
      case fetch_entity_mutations ex_index_lib ''a'' mi1 of (res2, mi2) \<Rightarrow>
      case apply_operations ex_index_lib [ex_put ''c'' 3 (Some (''m'', []))] mi2 of (res3, mi3) \<Rightarrow>
        res1 = Err ProtoFieldExpected \<and> res2 = Ok [] \<and> res3 = Ok 1 \<and>
        map doc_operation_id (tv_entity_documents ex_tantivy (mi_index mi3) ''a'' entity_max_traits) = [1] \<and>
        fst (fetch_entity_mutations ex_index_lib ''a'' mi3) = Ok [])
   | _ \<Rightarrow> False"
  by (simp add: ex_index_simps fetch_entity_mutations_def entity_max_traits_def dedup_results.simps)

end
