(* ===== verification/Exo_Entity_Index.thy ===== *)
theory Exo_Entity_Index
  imports Exo_Mutation_Index Exo_Gc Exo_Handle "HOL-Library.Product_Lexorder"
begin

text \<open>
  The entity index (\<open>store/src/local/entity_index/mod.rs\<close>): two indices of mutations, one on the deep blocks
  of the chain and one in memory on the pending store and the blocks that may still be undone, kept up by the
  events of the chain engine. The engine is used through its handle, the operations of a record, which
  \<open>engine_chain_handle\<close> takes from the model of the handle. Decoding of the entries is a parameter.
\<close>

section \<open>The handle of the engine\<close>

record 'h chain_handle =
  ch_last_block_info :: "('h, engine_error, (nat \<times> nat) option) sop"
  ch_block_info :: "nat \<Rightarrow> ('h, engine_error, (nat \<times> nat) option) sop"
  ch_pending_operation :: "nat \<Rightarrow> ('h, engine_error, engine_operation option) sop"
  ch_pending_operations :: "('h, engine_error, engine_operation list) sop"
  ch_chain_operations :: "nat option \<Rightarrow> ('h, engine_error, engine_operation list) sop"
  ch_chain_operation :: "nat \<Rightarrow> nat \<Rightarrow> ('h, engine_error, engine_operation option) sop"
  ch_operation :: "nat \<Rightarrow> ('h, engine_error, engine_operation option) sop"

text \<open>
  The operations an iteration over the chain gives until it ends. An engine that is gone or poisoned ends it
  at once; an iteration that does not end is no answer, as a panic is none.
\<close>

definition handle_chain_operations ::
  "('c) codec_scheme \<Rightarrow> nat option \<Rightarrow> ('r, 'q, 't, engine_operation list) handle_op" where
  "handle_chain_operations C from_offset h =
     (case h of
        None \<Rightarrow> (Ok [], None)
      | Some inner \<Rightarrow>
          if in_poisoned inner then (Ok [], Some inner)
          else
            (case collect_operations C (chain_operations_iter_new from_offset) (in_chain_store inner) of
               None \<Rightarrow> (Panic, Some inner)
             | Some (Ok ops, st) \<Rightarrow> (Ok ops, Some (inner\<lparr>in_chain_store := st\<rparr>))
             | Some (_, st) \<Rightarrow> (Panic, Some (inner\<lparr>in_chain_store := st\<rparr>))))"

definition engine_chain_handle ::
  "('c) codec_scheme \<Rightarrow> 'r ext_index \<Rightarrow> ('r, 'q, 't) engine_inner option chain_handle" where
  "engine_chain_handle C E =
     \<lparr>ch_last_block_info = get_chain_last_block_info C, ch_block_info = get_chain_block_info C,
      ch_pending_operation = get_pending_operation, ch_pending_operations = get_pending_operations (Unbounded, Unbounded),
      ch_chain_operations = handle_chain_operations C, ch_chain_operation = get_chain_operation C,
      ch_operation = engine_get_operation C E\<rparr>"

section \<open>State\<close>

record mutation_index_config =
  mic_iterator_page_size :: nat
  mic_iterator_max_pages :: nat
  mic_entity_mutations_cache_size :: nat

definition mutation_index_config_default :: mutation_index_config where
  "mutation_index_config_default =
     \<lparr>mic_iterator_page_size = 1000, mic_iterator_max_pages = 5, mic_entity_mutations_cache_size = 5000\<rparr>"

definition mutation_index_config_from_proto :: "nat option \<Rightarrow> mutation_index_config" where
  "mutation_index_config_from_proto entity_mutations_cache_size =
     (case entity_mutations_cache_size of
        Some v \<Rightarrow> mutation_index_config_default\<lparr>mic_entity_mutations_cache_size := v\<rparr>
      | None \<Rightarrow> mutation_index_config_default)"

record entity_index_config =
  eic_chain_index_min_depth :: nat
  eic_chain_index_depth_leeway :: nat
  eic_pending_index_config :: mutation_index_config
  eic_chain_index_config :: mutation_index_config
  eic_chain_index_in_memory :: bool
  eic_garbage_collector :: gc_config

definition entity_index_config_default :: entity_index_config where
  "entity_index_config_default =
     \<lparr>eic_chain_index_min_depth = 3, eic_chain_index_depth_leeway = 10,
      eic_pending_index_config = mutation_index_config_default, eic_chain_index_config = mutation_index_config_default,
      eic_chain_index_in_memory = False, eic_garbage_collector = gc_config_default\<rparr>"

definition opt_update :: "('a \<Rightarrow> 'c \<Rightarrow> 'c) \<Rightarrow> 'a option \<Rightarrow> 'c \<Rightarrow> 'c" where
  "opt_update f v config = (case v of Some x \<Rightarrow> f x config | None \<Rightarrow> config)"

definition entity_index_config_from_proto ::
  "nat option \<Rightarrow> nat option \<Rightarrow> mutation_index_config option \<Rightarrow> mutation_index_config option \<Rightarrow> gc_config option \<Rightarrow>
     entity_index_config" where
  "entity_index_config_from_proto min_depth leeway pending_index chain_index gc =
     opt_update (\<lambda>v c. c\<lparr>eic_garbage_collector := v\<rparr>) gc
       (opt_update (\<lambda>v c. c\<lparr>eic_chain_index_depth_leeway := v\<rparr>) leeway
         (opt_update (\<lambda>v c. c\<lparr>eic_chain_index_min_depth := v\<rparr>) min_depth
           (entity_index_config_default\<lparr>
              eic_pending_index_config := (case pending_index of Some v \<Rightarrow> v | None \<Rightarrow> mutation_index_config_default),
              eic_chain_index_config := (case chain_index of Some v \<Rightarrow> v | None \<Rightarrow> mutation_index_config_default)\<rparr>)))"

record ('i, 'c, 'h) entity_index =
  ei_config :: entity_index_config
  ei_pending_index :: "('i, 'c) mutation_index"
  ei_chain_index :: "('i, 'c) mutation_index"
  ei_chain_index_last_block :: "nat option"
  ei_chain_handle :: 'h
  ei_gc :: garbage_collector

text \<open>
  What the index relies on: its libraries, the decoding of an entry, the creation of the directory of the
  chain index, its removal and new creation, the checksum of an aggregate, and the projection of a trait.
\<close>

record ('f, 'i, 'c, 'h) entity_libs =
  xl_index :: "('f, 'i, 'c) index_lib"
  xl_handle :: "'h chain_handle"
  xl_decode :: "bytes \<Rightarrow> entity_trait entity_mutation option"
  xl_make_dir :: "(store_error, unit) result"
  xl_reset_dir :: "(store_error, unit) result"
  xl_hash :: "nat list \<Rightarrow> nat"
  xl_project :: "entity_trait \<Rightarrow> projection \<Rightarrow> entity_trait"

type_synonym ('i, 'c, 'h, 'a) ei_op = "(('i, 'c, 'h) entity_index, store_error, 'a) sop"

definition on_handle :: "('h, engine_error, 'a) sop \<Rightarrow> ('i, 'c, 'h, 'a) ei_op" where
  "on_handle m s = (case m (ei_chain_handle s) of (r, h) \<Rightarrow> (map_err StoreChainEngine r, s\<lparr>ei_chain_handle := h\<rparr>))"

definition on_pending_index :: "(('i, 'c) mutation_index, store_error, 'a) sop \<Rightarrow> ('i, 'c, 'h, 'a) ei_op" where
  "on_pending_index m s = (case m (ei_pending_index s) of (r, mi) \<Rightarrow> (r, s\<lparr>ei_pending_index := mi\<rparr>))"

definition on_chain_index :: "(('i, 'c) mutation_index, store_error, 'a) sop \<Rightarrow> ('i, 'c, 'h, 'a) ei_op" where
  "on_chain_index m s = (case m (ei_chain_index s) of (r, mi) \<Rightarrow> (r, s\<lparr>ei_chain_index := mi\<rparr>))"

section \<open>Index operations of engine operations\<close>

definition extract_entity_mutation ::
  "(bytes \<Rightarrow> entity_trait entity_mutation option) \<Rightarrow> engine_operation \<Rightarrow> entity_trait entity_mutation option" where
  "extract_entity_mutation decode operation =
     (case as_entry_data (eo_frame operation) of Ok entry_data \<Rightarrow> decode entry_data | _ \<Rightarrow> None)"

definition from_pending_engine_operation ::
  "(bytes \<Rightarrow> entity_trait entity_mutation option) \<Rightarrow> engine_operation \<Rightarrow> mutation_index_operation list" where
  "from_pending_engine_operation decode operation =
     from_pending_mutation (extract_entity_mutation decode operation) (eo_operation_id operation)"

definition from_chain_engine_operation ::
  "(bytes \<Rightarrow> entity_trait entity_mutation option) \<Rightarrow> engine_operation \<Rightarrow> nat \<Rightarrow> mutation_index_operation list \<times> entity_id" where
  "from_chain_engine_operation decode operation block_offset =
     from_chain_mutation (extract_entity_mutation decode operation) (eo_operation_id operation) block_offset"

section \<open>Keeping the indices up\<close>

definition last_chain_indexed_block :: "('f, 'i, 'c, 'h) entity_libs \<Rightarrow> ('i, 'c, 'h, (nat \<times> nat) option) ei_op" where
  "last_chain_indexed_block L s =
     (let last_indexed_offset =
        (case ei_chain_index_last_block s of
           Some offset \<Rightarrow> Some offset
         | None \<Rightarrow> highest_indexed_block (xl_index L) (ei_chain_index s)) in
      case last_indexed_offset of
        Some offset \<Rightarrow> on_handle (ch_block_info (xl_handle L) offset) s
      | None \<Rightarrow> (Ok None, s))"

definition committed_after :: "nat \<Rightarrow> engine_operation \<Rightarrow> bool" where
  "committed_after offset operation =
     (case eo_status operation of EngCommitted block_offset _ \<Rightarrow> block_offset > offset | EngPending \<Rightarrow> False)"

definition reset_pending_index :: "('f, 'i, 'c, 'h) entity_libs \<Rightarrow> ('i, 'c, 'h, unit) ei_op" where
  "reset_pending_index L s =
     (case create_in_memory (xl_index L) (mic_entity_mutations_cache_size (eic_pending_index_config (ei_config s))) of
        Ok mi \<Rightarrow> (Ok (), s\<lparr>ei_pending_index := mi\<rparr>)
      | Err e \<Rightarrow> (Err e, s)
      | Panic \<Rightarrow> (Panic, s))"

text \<open>The operations of the pending index: those of the blocks after the last indexed one, then the pending ones.\<close>

definition pending_and_chain :: "nat \<Rightarrow> engine_operation list \<Rightarrow> engine_operation list \<Rightarrow> engine_operation list" where
  "pending_and_chain last_chain_indexed_offset pending chain =
     (let pending_iter = filter (\<lambda>operation. eo_status operation = EngPending \<or> committed_after last_chain_indexed_offset operation) pending in
      filter (committed_after last_chain_indexed_offset) chain @ filter (\<lambda>operation. eo_status operation = EngPending) pending_iter)"

definition reindex_pending :: "('f, 'i, 'c, 'h) entity_libs \<Rightarrow> ('i, 'c, 'h, unit) ei_op" where
  "reindex_pending L =
     sbind (reset_pending_index L) (\<lambda>_.
     sbind (last_chain_indexed_block L) (\<lambda>last_block.
       let last_chain_indexed_offset = (case last_block of Some (offset, _) \<Rightarrow> offset | None \<Rightarrow> 0) in
       sbind (on_handle (ch_pending_operations (xl_handle L))) (\<lambda>pending.
       sbind (on_handle (ch_chain_operations (xl_handle L) (Some last_chain_indexed_offset))) (\<lambda>chain.
       sbind (on_pending_index (apply_operations (xl_index L)
           (concat (map (from_pending_engine_operation (xl_decode L))
              (pending_and_chain last_chain_indexed_offset pending chain))))) (\<lambda>_.
         sreturn ())))))"

text \<open>Operations that go to the chain index: those of the new blocks that are deep enough.\<close>

definition goes_to_chain :: "nat option \<Rightarrow> nat \<Rightarrow> nat \<Rightarrow> engine_operation \<Rightarrow> bool" where
  "goes_to_chain offset_from last_chain_block_height min_depth operation =
     (case eo_status operation of
        EngCommitted offset height \<Rightarrow>
          offset > (case offset_from of Some x \<Rightarrow> x | None \<Rightarrow> 0) \<and> last_chain_block_height - height \<ge> min_depth
      | EngPending \<Rightarrow> False)"

definition block_offset_of :: "engine_operation \<Rightarrow> nat" where
  "block_offset_of operation = (case eo_status operation of EngCommitted offset _ \<Rightarrow> offset | EngPending \<Rightarrow> 0)"

fun highest_offset :: "nat option \<Rightarrow> engine_operation list \<Rightarrow> nat option" where
  "highest_offset highest [] = highest"
| "highest_offset highest (operation # ops) =
     (let offset = block_offset_of operation in
      highest_offset (case highest of
          None \<Rightarrow> Some offset
        | Some h \<Rightarrow> if offset > h then Some offset else highest) ops)"

definition index_chain_from ::
  "('f, 'i, 'c, 'h) entity_libs \<Rightarrow> nat option \<Rightarrow> nat \<Rightarrow> ('i, 'c, 'h, nat \<times> nat list) ei_op" where
  "index_chain_from L offset_from last_chain_block_height s =
     (let min_depth = eic_chain_index_min_depth (ei_config s);
          pending_index_empty = (highest_indexed_block (xl_index L) (ei_pending_index s) = None) in
      sbind (on_handle (ch_chain_operations (xl_handle L) offset_from)) (\<lambda>operations.
        let affected_operations = map eo_operation_id operations;
            indexed = filter (goes_to_chain offset_from last_chain_block_height min_depth) operations;
            converted = map (\<lambda>operation. from_chain_engine_operation (xl_decode L) operation (block_offset_of operation)) indexed;
            pending_index_mutations =
              (if pending_index_empty then []
               else map2 (\<lambda>(_, entity_id) operation. IxDeleteEntityOperation entity_id (eo_operation_id operation)) converted indexed) in
        sbind (on_chain_index (apply_operations (xl_index L) (concat (map fst converted)))) (\<lambda>_.
          if length pending_index_mutations > 0 then
            sbind (on_pending_index (apply_operations (xl_index L) pending_index_mutations)) (\<lambda>_ s2.
              (Ok (length pending_index_mutations, affected_operations),
               case highest_offset None indexed of
                 Some offset \<Rightarrow> s2\<lparr>ei_chain_index_last_block := Some offset\<rparr>
               | None \<Rightarrow> s2))
          else sreturn (0, affected_operations))) s)"

text \<open>The depth is a difference of unsigned heights, which panics below zero when overflows are checked.\<close>

definition index_chain_new_blocks :: "('f, 'i, 'c, 'h) entity_libs \<Rightarrow> ('i, 'c, 'h, nat \<times> nat list) ei_op" where
  "index_chain_new_blocks L =
     sbind (on_handle (ch_last_block_info (xl_handle L))) (\<lambda>info.
     sbind (slift (ok_or StoreOther info)) (\<lambda>last_chain_block.
     sbind (last_chain_indexed_block L) (\<lambda>last_indexed_block s.
       case last_indexed_block of
         None \<Rightarrow> index_chain_from L None (snd last_chain_block) s
       | Some (last_indexed_offset, last_indexed_height) \<Rightarrow>
           (if snd last_chain_block < last_indexed_height then (Panic, s)
            else
              let depth = snd last_chain_block - last_indexed_height in
              if depth < eic_chain_index_min_depth (ei_config s) \<or> depth < eic_chain_index_depth_leeway (ei_config s)
              then (Ok (0, []), s)
              else index_chain_from L (Some last_indexed_offset) (snd last_chain_block) s))))"

section \<open>Opening and reindexing\<close>

text \<open>An index on disk starts with what its directory holds.\<close>

definition open_or_create_mmap ::
  "('f, 'i, 'c) index_lib \<Rightarrow> nat \<Rightarrow> 'i option \<Rightarrow> (store_error, ('i, 'c) mutation_index) result" where
  "open_or_create_mmap L entity_cache_size stored =
     (if entity_cache_size = 0 then Err StoreOther
      else Ok \<lparr>mi_index = (case stored of Some i \<Rightarrow> i | None \<Rightarrow> tv_new (il_tantivy L)),
               mi_entity_cache = lru_new (il_lru L) entity_cache_size\<rparr>)"

definition create_chain_index ::
  "('f, 'i, 'c) index_lib \<Rightarrow> entity_index_config \<Rightarrow> 'i option \<Rightarrow> (store_error, ('i, 'c) mutation_index) result" where
  "create_chain_index L config stored =
     (let cache_size = mic_entity_mutations_cache_size (eic_chain_index_config config) in
      if \<not> eic_chain_index_in_memory config then open_or_create_mmap L cache_size stored
      else create_in_memory L cache_size)"

definition set_chain_index :: "(store_error, ('i, 'c) mutation_index) result \<Rightarrow> ('i, 'c, 'h, unit) ei_op" where
  "set_chain_index created = sbind (slift created) (\<lambda>mi s. (Ok (), s\<lparr>ei_chain_index := mi\<rparr>))"

definition reindex_chain :: "('f, 'i, 'c, 'h) entity_libs \<Rightarrow> ('i, 'c, 'h, unit) ei_op" where
  "reindex_chain L s0 =
     sbind (set_chain_index (create_in_memory (xl_index L)
         (mic_entity_mutations_cache_size (eic_pending_index_config (ei_config s0))))) (\<lambda>_.
     sbind (slift (xl_reset_dir L)) (\<lambda>_.
     sbind (set_chain_index (create_chain_index (xl_index L) (ei_config s0) None)) (\<lambda>_.
     sbind (index_chain_new_blocks L) (\<lambda>_. reindex_pending L)))) s0"

definition open_or_create ::
  "('f, 'i, 'c, 'h) entity_libs \<Rightarrow> entity_index_config \<Rightarrow> 'i option \<Rightarrow> 'h \<Rightarrow> (store_error, ('i, 'c, 'h) entity_index) result" where
  "open_or_create L config stored chain_handle =
     and_then (create_in_memory (xl_index L) (mic_entity_mutations_cache_size (eic_pending_index_config config))) (\<lambda>pending_index.
     and_then (xl_make_dir L) (\<lambda>_.
     and_then (create_chain_index (xl_index L) config stored) (\<lambda>chain_index.
     and_then (gc_new (eic_garbage_collector config)) (\<lambda>gc.
       case sbind (on_handle (ch_last_block_info (xl_handle L))) (\<lambda>chain_last_block.
            sbind (\<lambda>s. if highest_indexed_block (xl_index L) (ei_chain_index s) = None \<and> chain_last_block \<noteq> None
                       then reindex_chain L s else (Ok (), s)) (\<lambda>_.
              reindex_pending L))
            \<lparr>ei_config = config, ei_pending_index = pending_index, ei_chain_index = chain_index,
             ei_chain_index_last_block = None, ei_chain_handle = chain_handle, ei_gc = gc\<rparr> of
         (r, s) \<Rightarrow> and_then r (\<lambda>_. Ok s)))))"

section \<open>Events of the engine\<close>

text \<open>An operation that is not found, or cannot be read, is passed over.\<close>

definition pending_mutations_of :: "('f, 'i, 'c, 'h) entity_libs \<Rightarrow> nat \<Rightarrow> ('i, 'c, 'h, mutation_index_operation list) ei_op" where
  "pending_mutations_of L op_id s =
     (case ch_pending_operation (xl_handle L) op_id (ei_chain_handle s) of
        (r, h) \<Rightarrow>
          (case r of
             Ok (Some operation) \<Rightarrow> Ok (from_pending_engine_operation (xl_decode L) operation)
           | Panic \<Rightarrow> Panic
           | _ \<Rightarrow> Ok [], s\<lparr>ei_chain_handle := h\<rparr>))"

fun pending_mutations :: "('f, 'i, 'c, 'h) entity_libs \<Rightarrow> nat list \<Rightarrow> ('i, 'c, 'h, mutation_index_operation list) ei_op" where
  "pending_mutations L [] = sreturn []"
| "pending_mutations L (op_id # op_ids) =
     sbind (pending_mutations_of L op_id) (\<lambda>ms.
     sbind (pending_mutations L op_ids) (\<lambda>rest. sreturn (ms @ rest)))"

definition handle_chain_pending_operations :: "('f, 'i, 'c, 'h) entity_libs \<Rightarrow> nat list \<Rightarrow> ('i, 'c, 'h, nat) ei_op" where
  "handle_chain_pending_operations L op_ids =
     sbind (pending_mutations L op_ids) (\<lambda>mutations. on_pending_index (apply_operations (xl_index L) mutations))"

fun handle_engine_event :: "('f, 'i, 'c, 'h) entity_libs \<Rightarrow> engine_event \<Rightarrow> ('i, 'c, 'h, nat \<times> nat list) ei_op" where
  "handle_engine_event L Started =
     sbind (index_chain_new_blocks L) (\<lambda>(_, affected). sbind (reindex_pending L) (\<lambda>_. sreturn (0, affected)))"
| "handle_engine_event L StreamDiscontinuity = sbind (reindex_pending L) (\<lambda>_. sreturn (0, []))"
| "handle_engine_event L (NewChainBlock block_offset) = index_chain_new_blocks L"
| "handle_engine_event L (ChainDiverged diverged_block_offset) =
     (\<lambda>s. case highest_indexed_block (xl_index L) (ei_chain_index s) of
        Some last_indexed_offset \<Rightarrow>
          if last_indexed_offset < diverged_block_offset then sbind (reindex_pending L) (\<lambda>_. sreturn (0, [])) s
          else (Err StoreFatal, s)
      | None \<Rightarrow> sbind (reindex_chain L) (\<lambda>_. sreturn (0, [])) s)"
| "handle_engine_event L (NewPendingOperation op_id) = slift Panic"

text \<open>New pending operations are collected and applied together, before the next event of another kind.\<close>

fun handle_events ::
  "('f, 'i, 'c, 'h) entity_libs \<Rightarrow> engine_event list \<Rightarrow> nat list \<Rightarrow> nat list \<Rightarrow> nat \<Rightarrow> ('i, 'c, 'h, nat list \<times> nat) ei_op" where
  "handle_events L [] batched affected n =
     (if batched \<noteq> [] then sbind (handle_chain_pending_operations L batched) (\<lambda>k. sreturn (affected, n + k))
      else sreturn (affected, n))"
| "handle_events L (NewPendingOperation op_id # events) batched affected n =
     handle_events L events (batched @ [op_id]) (affected @ [op_id]) n"
| "handle_events L (event # events) batched affected n =
     sbind (if batched \<noteq> [] then handle_chain_pending_operations L batched else sreturn 0) (\<lambda>k.
     sbind (handle_engine_event L event) (\<lambda>(m, more).
       handle_events L events [] (affected @ more) (n + k + m)))"

definition handle_chain_engine_events ::
  "('f, 'i, 'c, 'h) entity_libs \<Rightarrow> engine_event list \<Rightarrow> ('i, 'c, 'h, nat list \<times> nat) ei_op" where
  "handle_chain_engine_events L events = handle_events L events [] [] 0"

definition maybe_index_chain_blocks :: "('f, 'i, 'c, 'h) entity_libs \<Rightarrow> ('i, 'c, 'h, nat list) ei_op" where
  "maybe_index_chain_blocks L = sbind (index_chain_new_blocks L) (\<lambda>(_, affected). sreturn affected)"

section \<open>Reading an entity\<close>

fun dedup_adjacent :: "mutation_metadata list \<Rightarrow> mutation_metadata list" where
  "dedup_adjacent (a # b # ms) =
     (if mm_operation_id a = mm_operation_id b then dedup_adjacent (a # ms) else a # dedup_adjacent (b # ms))"
| "dedup_adjacent ms = ms"

text \<open>The order in which mutations got committed: by block, with the pending ones last, then by operation.\<close>

definition u64_max :: nat where "u64_max = 2 ^ 64 - 1"

definition commit_key :: "mutation_metadata \<Rightarrow> nat \<times> nat" where
  "commit_key result = (case mm_block_offset result of Some b \<Rightarrow> b | None \<Rightarrow> u64_max, mm_operation_id result)"

definition fetch_entity_mutations_metadata ::
  "('f, 'i, 'c, 'h) entity_libs \<Rightarrow> entity_id \<Rightarrow> ('i, 'c, 'h, mutation_metadata list) ei_op" where
  "fetch_entity_mutations_metadata L entity_id =
     sbind (on_pending_index (fetch_entity_mutations (xl_index L) entity_id)) (\<lambda>pending_results.
     sbind (on_chain_index (fetch_entity_mutations (xl_index L) entity_id)) (\<lambda>chain_results.
       sreturn (dedup_adjacent (sort_key commit_key (pending_results @ chain_results)))))"

definition fetch_aggregated_entity_mutations ::
  "('f, 'i, 'c, 'h) entity_libs \<Rightarrow> entity_id \<Rightarrow> ('i, 'c, 'h, entity_aggregator) ei_op" where
  "fetch_aggregated_entity_mutations L entity_id =
     sbind (fetch_entity_mutations_metadata L entity_id) (\<lambda>ms. slift (entity_aggregator_new (xl_hash L) ms))"

definition fetch_and_cache_entity_mutations_metadata ::
  "('f, 'i, 'c, 'h) entity_libs \<Rightarrow> (entity_id \<times> entity_aggregator) list \<Rightarrow> entity_id \<Rightarrow> projection list \<Rightarrow>
     ('i, 'c, 'h, entity_aggregator option \<times> (entity_id \<times> entity_aggregator) list) ei_op" where
  "fetch_and_cache_entity_mutations_metadata L cache entity_id projections s =
     (case map_of cache entity_id of
        Some mutations \<Rightarrow> (Ok (Some mutations, cache), s)
      | None \<Rightarrow>
          (case fetch_aggregated_entity_mutations L entity_id s of
             (Ok mutations, s1) \<Rightarrow>
               (let mutations1 = (if projections \<noteq> [] then annotate_projections projections mutations else mutations) in
                (Ok (Some mutations1, hm_insert entity_id mutations1 cache), s1))
           | (Err e, s1) \<Rightarrow> (Ok (None, cache), s1)
           | (Panic, s1) \<Rightarrow> (Panic, s1)))"

definition fetch_chain_mutation_operation ::
  "('f, 'i, 'c, 'h) entity_libs \<Rightarrow> nat \<Rightarrow> nat option \<Rightarrow> ('i, 'c, 'h, entity_trait entity_mutation option) ei_op" where
  "fetch_chain_mutation_operation L operation_id block_offset =
     sbind (on_handle (case block_offset of
         Some offset \<Rightarrow> ch_chain_operation (xl_handle L) offset operation_id
       | None \<Rightarrow> ch_operation (xl_handle L) operation_id)) (\<lambda>operation.
       slift (case operation of
           None \<Rightarrow> Ok None
         | Some op \<Rightarrow>
             (case as_entry_data (eo_frame op) of
                Ok data \<Rightarrow> and_then (ok_or StoreProto (xl_decode L data)) (\<lambda>mutation. Ok (Some mutation))
              | _ \<Rightarrow> Ok None)))"

text \<open>The content of a trait with the dates of its aggregate.\<close>

definition dated_trait :: "trait_aggregator \<Rightarrow> entity_trait \<Rightarrow> entity_trait" where
  "dated_trait agg trt =
     trt\<lparr>tr_creation_date := ta_creation_date agg, tr_modification_date := ta_modification_date agg,
         tr_deletion_date := ta_deletion_date agg,
         tr_last_operation_id := (case ta_last_operation_id agg of Some i \<Rightarrow> i | None \<Rightarrow> 0)\<rparr>"

definition mutation_trait :: "entity_id \<Rightarrow> entity_trait entity_mutation \<Rightarrow> entity_trait option" where
  "mutation_trait entity_id mutation =
     (if em_entity_id mutation \<noteq> entity_id then None
      else case em_mutation mutation of Some (PutTrait trt) \<Rightarrow> trt | _ \<Rightarrow> None)"

definition fetch_entity_trait ::
  "('f, 'i, 'c, 'h) entity_libs \<Rightarrow> entity_aggregator \<Rightarrow> bool \<Rightarrow> trait_aggregator \<Rightarrow> ('i, 'c, 'h, entity_trait option) ei_op" where
  "fetch_entity_trait L entity_mutations include_deleted agg s =
     (if (case ta_projection agg of Some p \<Rightarrow> pj_skip p | None \<Rightarrow> False) then (Ok None, s)
      else if ta_deletion_date agg \<noteq> None \<and> \<not> include_deleted then (Ok None, s)
      else case last_put_mutation agg of
        None \<Rightarrow> (Ok None, s)
      | Some (mut_metadata, _) \<Rightarrow>
          (case fetch_chain_mutation_operation L (mm_operation_id mut_metadata) (mm_block_offset mut_metadata) s of
             (Ok (Some mutation), s1) \<Rightarrow>
               (Ok (map_option (\<lambda>trt. dated_trait agg
                  (case ta_projection agg of Some p \<Rightarrow> xl_project L trt p | None \<Rightarrow> trt))
                  (mutation_trait (ea_entity_id entity_mutations) mutation)), s1)
           | (Panic, s1) \<Rightarrow> (Panic, s1)
           | (_, s1) \<Rightarrow> (Ok None, s1)))"

fun fetch_traits ::
  "('f, 'i, 'c, 'h) entity_libs \<Rightarrow> entity_aggregator \<Rightarrow> bool \<Rightarrow> traits \<Rightarrow> ('i, 'c, 'h, entity_trait list) ei_op" where
  "fetch_traits L entity_mutations include_deleted [] = sreturn []"
| "fetch_traits L entity_mutations include_deleted ((trait_id, agg) # traits) =
     sbind (fetch_entity_trait L entity_mutations include_deleted agg) (\<lambda>trt.
     sbind (fetch_traits L entity_mutations include_deleted traits) (\<lambda>rest.
       sreturn (case trt of Some t \<Rightarrow> t # rest | None \<Rightarrow> rest)))"

definition fetch_entity_traits ::
  "('f, 'i, 'c, 'h) entity_libs \<Rightarrow> entity_aggregator \<Rightarrow> bool \<Rightarrow> ('i, 'c, 'h, entity_trait list) ei_op" where
  "fetch_entity_traits L entity_mutations include_deleted =
     fetch_traits L entity_mutations include_deleted (ea_traits entity_mutations)"

end
