(* ===== verification/Exo_Entity_Index_Facts.thy ===== *)
theory Exo_Entity_Index_Facts
  imports Exo_Entity_Index Exo_Handle_Props Exo_Mutation_Index_Props
begin

text \<open>
  Facts about the entity index: what it sees of an operation of the engine, the interface through which it
  reads the engine and that the handle of the engine is shown to implement, reindexing, moving blocks to the chain
  index, applying events of the pending store, and fetching from both indices.
\<close>

section \<open>What the index sees of an operation\<close>

type_synonym op_view = "nat \<times> engine_operation_status \<times> op_body"

definition view_of :: "engine_operation \<Rightarrow> op_view" where
  "view_of op = (eo_operation_id op, eo_status op, co_operation (tf_reader (eo_frame op)))"

fun view_committed_after :: "nat \<Rightarrow> op_view \<Rightarrow> bool" where
  "view_committed_after off (i, EngCommitted b t, body) = (off < b)"
| "view_committed_after off (i, EngPending, body) = False"

fun view_from :: "nat \<Rightarrow> op_view \<Rightarrow> bool" where
  "view_from off (i, EngCommitted b t, body) = (off \<le> b)"
| "view_from off (i, EngPending, body) = False"

definition view_mutation :: "(bytes \<Rightarrow> entity_trait entity_mutation option) \<Rightarrow> op_body \<Rightarrow> entity_trait entity_mutation option" where
  "view_mutation decode body = (case body of OpEntry d \<Rightarrow> decode d | _ \<Rightarrow> None)"

definition pending_ops_of :: "(bytes \<Rightarrow> entity_trait entity_mutation option) \<Rightarrow> op_view \<Rightarrow> mutation_index_operation list" where
  "pending_ops_of decode v = from_pending_mutation (view_mutation decode (snd (snd v))) (fst v)"

lemma extract_view: "extract_entity_mutation decode op = view_mutation decode (snd (snd (view_of op)))"
  by (simp add: extract_entity_mutation_def view_mutation_def view_of_def as_entry_data_def split: op_body.splits)

lemma from_pending_view: "from_pending_engine_operation decode op = pending_ops_of decode (view_of op)"
  by (simp add: from_pending_engine_operation_def pending_ops_of_def extract_view) (simp add: view_of_def)

lemma committed_after_view: "committed_after off op = view_committed_after off (view_of op)"
  by (simp add: committed_after_def view_of_def split: engine_operation_status.splits)

text \<open>The operations that belong into the pending index once the blocks up to an offset are indexed.\<close>

definition live_views :: "nat \<Rightarrow> op_view list \<Rightarrow> op_view list \<Rightarrow> op_view list" where
  "live_views off committed pending =
     filter (view_committed_after off) committed @ filter (\<lambda>v. fst (snd v) = EngPending) pending"

lemma pending_and_chain_view:
  "map view_of (pending_and_chain off ps cs) = live_views off (map view_of cs) (map view_of ps)"
proof -
  have "filter (\<lambda>op. eo_status op = EngPending) (filter (\<lambda>op. eo_status op = EngPending \<or> committed_after off op) ps) =
      filter (\<lambda>op. eo_status op = EngPending) ps"
    by (auto intro: filter_cong)
  then show ?thesis
    by (simp add: pending_and_chain_def live_views_def filter_map o_def committed_after_view [symmetric])
      (simp add: view_of_def)
qed

text \<open>The last block that is in the chain index.\<close>

definition indexed_upto ::
  "(nat \<times> nat) list \<Rightarrow> ('f, 'i, 'c, 'h) entity_libs \<Rightarrow> ('i, 'c, 'h) entity_index \<Rightarrow> nat option \<Rightarrow> bool" where
  "indexed_upto heights L s last_off \<longleftrightarrow>
     (case ei_chain_index_last_block s of
        Some off \<Rightarrow> Some off
      | None \<Rightarrow> highest_indexed_block (xl_index L) (ei_chain_index s)) = last_off \<and>
     (\<forall>off. last_off = Some off \<longrightarrow> off \<in> fst ` set heights)"

abbreviation offset_or_0 :: "nat option \<Rightarrow> nat" where
  "offset_or_0 last_off \<equiv> case last_off of Some off \<Rightarrow> off | None \<Rightarrow> 0"

text \<open>The documents of operations that delete nothing.\<close>

definition is_put :: "mutation_index_operation \<Rightarrow> bool" where
  "is_put ix \<longleftrightarrow> (case ix of IxDeleteEntityOperation _ _ \<Rightarrow> False | IxPutTrait p \<Rightarrow> tr_message (px_trt p) \<noteq> None | _ \<Rightarrow> True)"

definition pending_docs :: "'f reflection \<Rightarrow> mutation_index_operation list \<Rightarrow> 'f document list" where
  "pending_docs R ixs = List.map_filter (operation_document R) ixs"

lemma pending_docs_simps [simp]:
  "pending_docs R [] = []"
  "pending_docs R (ix # ixs) = (case operation_document R ix of Some d \<Rightarrow> d # pending_docs R ixs | None \<Rightarrow> pending_docs R ixs)"
  by (simp_all add: pending_docs_def List.map_filter_simps split: option.splits)

lemma puts_fit:
  assumes "\<forall>ix \<in> set ixs. is_put ix"
  shows "operations_fit R docs ixs \<and> fold (documents_after R) ixs docs = docs @ pending_docs R ixs"
  using assms
proof (induction ixs arbitrary: docs)
  case (Cons ix ixs)
  then show ?case
    by (cases ix) (auto simp: is_put_def trait_put_to_document_def split: option.splits)
qed simp

lemma put_document:
  assumes "is_put ix"
  obtains d where "operation_document R ix = Some d"
  using assms by (cases ix) (auto simp: is_put_def trait_put_to_document_def)

lemma pending_ops_entity:
  assumes "ix \<in> set (pending_ops_of D v)" "operation_document R ix = Some d"
  shows "doc_operation_id d = fst v"
proof (cases "view_mutation D (snd (snd v))")
  case (Some m)
  show ?thesis
  proof (cases "em_mutation m")
    case mu: (Some mu)
    show ?thesis
      using assms Some mu by (cases mu) (auto simp: pending_ops_of_def from_pending_mutation_def trait_put_to_document_def
          trait_tombstone_to_document_def entity_tombstone_to_document_def pending_deletion_marker_to_document_def
          result_simps split: option.splits result.splits)
  qed (use assms Some in \<open>simp add: pending_ops_of_def from_pending_mutation_def\<close>)
qed (use assms in \<open>simp add: pending_ops_of_def from_pending_mutation_def\<close>)

lemma pending_ops_length: "length (pending_ops_of D v) \<le> 1"
  by (auto simp: pending_ops_of_def from_pending_mutation_def split: option.splits mutation.splits)

text \<open>An operation that has a mutation of an entity among its index operations.\<close>

definition mutates :: "(op_view \<Rightarrow> mutation_index_operation list) \<Rightarrow> entity_id \<Rightarrow> op_view \<Rightarrow> bool" where
  "mutates F e v \<longleftrightarrow> (\<exists>ix \<in> set (F v). operation_entity ix = e)"

lemma mem_pending_docs: "d \<in> set (pending_docs R ixs) \<longleftrightarrow> (\<exists>ix \<in> set ixs. operation_document R ix = Some d)"
  by (induction ixs) (auto split: option.splits)

lemma docs_ids:
  assumes puts: "\<forall>v \<in> set vs. \<forall>ix \<in> set (F v). is_put ix"
    and ids: "\<And>v ix d. ix \<in> set (F v) \<Longrightarrow> operation_document R ix = Some d \<Longrightarrow> doc_operation_id d = fst v"
  shows "doc_operation_id ` set (entity_docs e (pending_docs R (concat (map F vs)))) = fst ` set (filter (mutates F e) vs)"
    (is "?ids = ?vs")
proof
  show "?ids \<subseteq> ?vs"
  proof
    fix i assume "i \<in> ?ids"
    then obtain v ix d where d: "v \<in> set vs" "ix \<in> set (F v)" "operation_document R ix = Some d"
        "doc_entity_id d = e" "i = doc_operation_id d"
      by (auto simp: mem_pending_docs)
    then have "mutates F e v" "i = fst v"
      using operation_document_entity [OF d(3)] ids [OF d(2,3)] by (auto simp: mutates_def)
    with d(1) show "i \<in> ?vs" by auto
  qed
  show "?vs \<subseteq> ?ids"
  proof
    fix i assume "i \<in> ?vs"
    then obtain v ix where v: "v \<in> set vs" "ix \<in> set (F v)" "operation_entity ix = e" "i = fst v"
      by (auto simp: mutates_def)
    obtain d where d: "operation_document R ix = Some d"
      using put_document puts v(1,2) by blast
    then have "d \<in> set (entity_docs e (pending_docs R (concat (map F vs))))"
      using v operation_document_entity [OF d] by (auto simp: mem_pending_docs)
    then show "i \<in> ?ids" using ids [OF v(2) d] v(4) by force
  qed
qed

lemma entity_docs_filter_length: "length (entity_docs e (filter P docs)) \<le> length (entity_docs e docs)"
  by (induction docs) simp_all

lemma docs_length:
  assumes "\<forall>v \<in> set vs. length (F v) \<le> 1"
  shows "length (pending_docs R (concat (map F vs))) \<le> length vs"
  using assms
proof (induction vs)
  case (Cons v vs)
  have "length (pending_docs R (xs @ ys)) \<le> length xs + length (pending_docs R ys)" for xs ys
    by (induction xs) (auto split: option.splits)
  from this [of "F v" "concat (map F vs)"] Cons show ?case by fastforce
qed simp

lemma view_from_after: "filter (view_committed_after off) (filter (view_from off) vs) = filter (view_committed_after off) vs"
proof -
  have "view_committed_after off v \<Longrightarrow> view_from off v" for v
    by (cases v; cases "fst (snd v)") auto
  then show ?thesis by (auto intro: filter_cong)
qed

section \<open>Reading the engine\<close>

locale chain_reader =
  fixes H :: "'h chain_handle"
    and inv :: "'h \<Rightarrow> bool"
    and heights :: "(nat \<times> nat) list"
    and committed :: "op_view list"
    and pending :: "op_view list"
  assumes last_info: "inv h \<Longrightarrow>
      \<exists>h'. ch_last_block_info H h = (Ok (if heights = [] then None else Some (last heights)), h') \<and> inv h'"
    and block_info: "inv h \<Longrightarrow> (off, t) \<in> set heights \<Longrightarrow> \<exists>h'. ch_block_info H off h = (Ok (Some (off, t)), h') \<and> inv h'"
    and pending_all: "inv h \<Longrightarrow> \<exists>ops h'. ch_pending_operations H h = (Ok ops, h') \<and> map view_of ops = pending \<and> inv h'"
    and pending_one: "inv h \<Longrightarrow> v \<in> set pending \<Longrightarrow>
      \<exists>op h'. ch_pending_operation H (fst v) h = (Ok (Some op), h') \<and> view_of op = v \<and> inv h'"
    and chain_from: "inv h \<Longrightarrow> off \<in> Set.insert 0 (fst ` set heights) \<Longrightarrow>
      \<exists>ops h'. ch_chain_operations H (Some off) h = (Ok ops, h') \<and> map view_of ops = filter (view_from off) committed \<and> inv h'"
    and chain_start: "ch_chain_operations H None = ch_chain_operations H (Some 0)"
begin

lemma last_indexed:
  assumes "xl_handle L = H" "inv (ei_chain_handle s)" "indexed_upto heights L s last_off"
  shows "\<exists>r h'. last_chain_indexed_block L s = (Ok r, s\<lparr>ei_chain_handle := h'\<rparr>) \<and> inv h' \<and> map_option fst r = last_off \<and>
    (\<forall>x. r = Some x \<longrightarrow> x \<in> set heights)"
proof (cases last_off)
  case None
  then show ?thesis
    using assms by (intro exI [of _ None] exI [of _ "ei_chain_handle s"]) (auto simp: last_chain_indexed_block_def indexed_upto_def)
next
  case (Some off)
  then obtain t where "(off, t) \<in> set heights" using assms(3) by (auto simp: indexed_upto_def)
  moreover from this obtain h' where "ch_block_info H off (ei_chain_handle s) = (Ok (Some (off, t)), h')" "inv h'"
    using block_info [OF assms(2)] by blast
  ultimately show ?thesis
    using assms Some by (intro exI [of _ "Some (off, t)"] exI [of _ h'])
      (auto simp: last_chain_indexed_block_def indexed_upto_def on_handle_def)
qed

text \<open>Reindexing builds the pending index from the operations that are not in the chain index.\<close>

lemma reindex_pending_ok:
  assumes lib: "index_lib_ok (xl_index L) visible written content"
    and h: "xl_handle L = H" "inv (ei_chain_handle s)" and last: "indexed_upto heights L s last_off"
    and cache: "0 < mic_entity_mutations_cache_size (eic_pending_index_config (ei_config s))"
    and ixs: "ixs = concat (map (pending_ops_of (xl_decode L)) (live_views (offset_or_0 last_off) committed pending))"
    and puts: "\<forall>ix \<in> set ixs. is_put ix"
    and few: "\<forall>e. length (entity_docs e (pending_docs (il_reflection (xl_index L)) ixs)) \<le> entity_max_traits"
  shows "\<exists>mi h'. reindex_pending L s = (Ok (), s\<lparr>ei_pending_index := mi, ei_chain_handle := h'\<rparr>) \<and> inv h' \<and>
    index_reach (xl_index L) mi (pending_docs (il_reflection (xl_index L)) ixs)"
proof -
  obtain mi0 where mi0: "create_in_memory (xl_index L) (mic_entity_mutations_cache_size (eic_pending_index_config (ei_config s))) = Ok mi0"
    using cache by (simp add: create_in_memory_def)
  let ?s0 = "s\<lparr>ei_pending_index := mi0\<rparr>"
  have "indexed_upto heights L ?s0 last_off" "inv (ei_chain_handle ?s0)"
    using last h(2) by (auto simp: indexed_upto_def split: option.splits)
  from last_indexed [OF h(1) this(2,1)] obtain r h1
    where r: "last_chain_indexed_block L ?s0 = (Ok r, ?s0\<lparr>ei_chain_handle := h1\<rparr>)" "inv h1" "map_option fst r = last_off"
    by blast
  obtain ps h2 where ps: "ch_pending_operations H h1 = (Ok ps, h2)" "map view_of ps = pending" "inv h2"
    using pending_all [OF r(2)] by blast
  have "offset_or_0 last_off \<in> Set.insert 0 (fst ` set heights)"
    using last by (auto simp: indexed_upto_def split: option.splits)
  then obtain cs h3 where cs: "ch_chain_operations H (Some (offset_or_0 last_off)) h2 = (Ok cs, h3)"
      "map view_of cs = filter (view_from (offset_or_0 last_off)) committed" "inv h3"
    using chain_from [OF ps(3)] by blast
  have off: "(case r of Some (offset, _) \<Rightarrow> offset | None \<Rightarrow> 0) = offset_or_0 last_off"
    using r(3) by (auto split: option.splits)
  have ops: "concat (map (from_pending_engine_operation (xl_decode L)) (pending_and_chain (offset_or_0 last_off) ps cs)) = ixs"
  proof -
    have "map (from_pending_engine_operation (xl_decode L)) (pending_and_chain (offset_or_0 last_off) ps cs) =
        map (pending_ops_of (xl_decode L)) (map view_of (pending_and_chain (offset_or_0 last_off) ps cs))"
      by (simp add: from_pending_view)
    then show ?thesis
      unfolding pending_and_chain_view ps(2) cs(2) ixs live_views_def view_from_after by simp
  qed
  have reach0: "index_reach (xl_index L) mi0 []" by (rule index_created [OF mi0])
  have inv0: "index_inv visible written content mi0 []" by (rule index_reach_inv [OF lib reach0])
  note fit = puts_fit [OF puts, of "il_reflection (xl_index L)" "[]"]
  then obtain mi1 where "write_operations (xl_index L) ixs mi0 = (Ok (), mi1)"
    using write_operations_ok [OF lib, of mi0 ixs] inv0 by (auto simp: index_inv_def)
  then obtain mi2 where ap: "apply_operations (xl_index L) ixs mi0 = (Ok (length ixs), mi2)"
    by (simp add: apply_operations_def)
  have "index_reach (xl_index L) mi2 (pending_docs (il_reflection (xl_index L)) ixs)"
    by (rule index_applied [OF reach0 _ ap]) (use fit few in auto)
  then show ?thesis
    using mi0 r(1) ps(1) cs(1,3) off ops ap h(1)
    by (intro exI [of _ mi2] exI [of _ h3])
      (simp add: reindex_pending_def reset_pending_index_def on_handle_def on_pending_index_def Let_def)
qed

end

section \<open>Fetching from both indices\<close>

lemma dedup_adjacent_ids: "mm_operation_id ` set (dedup_adjacent ms) = mm_operation_id ` set ms"
  by (induction ms rule: dedup_adjacent.induct) auto

lemma dedup_adjacent_subset: "set (dedup_adjacent ms) \<subseteq> set ms"
  by (induction ms rule: dedup_adjacent.induct) auto

lemma dedup_adjacent_sorted: "sorted (map commit_key ms) \<Longrightarrow> sorted (map commit_key (dedup_adjacent ms))"
proof (induction ms rule: dedup_adjacent.induct)
  case (1 a b ms)
  then show ?case using dedup_adjacent_subset [of "b # ms"] by (auto split: if_splits) (blast+)?
qed simp_all

lemma fetch_metadata_results:
  assumes lib: "index_lib_ok (xl_index L) visible written content"
    and reach: "index_reach (xl_index L) (ei_pending_index s) pdocs" "index_reach (xl_index L) (ei_chain_index s) cdocs"
  shows "\<exists>rp rc s'. fetch_entity_mutations_metadata L e s = (Ok (dedup_adjacent (sort_key commit_key (rp @ rc))), s') \<and>
    is_result pdocs e rp \<and> is_result cdocs e rc"
proof -
  have fetch: "\<exists>r mi'. fetch_entity_mutations (xl_index L) e mi = (Ok r, mi') \<and> is_result docs e r"
    if r: "index_reach (xl_index L) mi docs" for mi docs
    using fetch_step [OF lib index_reach_inv [OF lib r], of e] by blast
  obtain rp mp where p: "fetch_entity_mutations (xl_index L) e (ei_pending_index s) = (Ok rp, mp)" "is_result pdocs e rp"
    using fetch [OF reach(1)] by blast
  obtain rc mc where c: "fetch_entity_mutations (xl_index L) e (ei_chain_index s) = (Ok rc, mc)" "is_result cdocs e rc"
    using fetch [OF reach(2)] by blast
  then show ?thesis
    using p by (auto simp: fetch_entity_mutations_metadata_def on_pending_index_def on_chain_index_def)
qed

lemma index_reach_docs: "index_lib_ok L visible written content \<Longrightarrow> index_reach L mi docs \<Longrightarrow> docs_ok docs"
  using index_reach_inv [of L visible written content mi docs] by (simp add: index_inv_def)

lemma fetch_metadata_ok:
  assumes lib: "index_lib_ok (xl_index L) visible written content"
    and reach: "index_reach (xl_index L) (ei_pending_index s) pdocs" "index_reach (xl_index L) (ei_chain_index s) cdocs"
  shows "\<exists>r s'. fetch_entity_mutations_metadata L e s = (Ok r, s') \<and> sorted (map commit_key r) \<and>
    mm_operation_id ` set r = doc_operation_id ` set (entity_docs e pdocs) \<union> doc_operation_id ` set (entity_docs e cdocs)"
proof -
  obtain rp rc s' where f: "fetch_entity_mutations_metadata L e s = (Ok (dedup_adjacent (sort_key commit_key (rp @ rc))), s')"
      "is_result pdocs e rp" "is_result cdocs e rc"
    using fetch_metadata_results [OF assms] by blast
  have "mm_operation_id ` set (dedup_adjacent (sort_key commit_key (rp @ rc))) = mm_operation_id ` set rp \<union> mm_operation_id ` set rc"
    by (simp only: dedup_adjacent_ids set_sort set_append image_Un)
  moreover have "sorted (map commit_key (dedup_adjacent (sort_key commit_key (rp @ rc))))"
    by (intro dedup_adjacent_sorted sorted_sort_key)
  moreover note is_result_ids [OF f(2) index_reach_docs [OF lib reach(1)]] is_result_ids [OF f(3) index_reach_docs [OF lib reach(2)]]
  ultimately show ?thesis using f(1) by (intro exI conjI) simp_all
qed

section \<open>Moving blocks to the chain index\<close>

fun view_offset :: "op_view \<Rightarrow> nat" where
  "view_offset (i, EngCommitted b t, body) = b"
| "view_offset (i, EngPending, body) = 0"

fun view_deep :: "nat \<Rightarrow> nat \<Rightarrow> op_view \<Rightarrow> bool" where
  "view_deep height min_depth (i, EngCommitted b t, body) = (height - t \<ge> min_depth)"
| "view_deep height min_depth (i, EngPending, body) = False"

definition chain_ops_of :: "(bytes \<Rightarrow> entity_trait entity_mutation option) \<Rightarrow> op_view \<Rightarrow> mutation_index_operation list" where
  "chain_ops_of decode v = fst (from_chain_mutation (view_mutation decode (snd (snd v))) (fst v) (view_offset v))"

definition chain_entity_of :: "(bytes \<Rightarrow> entity_trait entity_mutation option) \<Rightarrow> op_view \<Rightarrow> entity_id" where
  "chain_entity_of decode v = snd (from_chain_mutation (view_mutation decode (snd (snd v))) (fst v) (view_offset v))"

text \<open>The operations of the chain that a pass moves.\<close>

definition moved_views :: "nat option \<Rightarrow> nat \<Rightarrow> nat \<Rightarrow> op_view list \<Rightarrow> op_view list" where
  "moved_views last_off height min_depth committed =
     filter (\<lambda>v. view_committed_after (offset_or_0 last_off) v \<and> view_deep height min_depth v) committed"

lemma goes_to_chain_view:
  "goes_to_chain last_off height d op \<longleftrightarrow>
     view_committed_after (offset_or_0 last_off) (view_of op) \<and> view_deep height d (view_of op)"
  by (cases "eo_status op") (simp_all add: goes_to_chain_def view_of_def)

lemma view_offset_of: "view_offset (view_of op) = block_offset_of op"
  by (cases "eo_status op") (simp_all add: block_offset_of_def view_of_def)

lemma from_chain_view:
  "from_chain_engine_operation decode op (block_offset_of op) = (chain_ops_of decode (view_of op), chain_entity_of decode (view_of op))"
  by (simp add: from_chain_engine_operation_def chain_ops_of_def chain_entity_of_def extract_view view_offset_of)
    (simp add: view_of_def)

lemma chain_ops_entity:
  assumes "ix \<in> set (chain_ops_of D v)"
  shows "operation_entity ix = chain_entity_of D v"
    and "operation_document R ix = Some d \<Longrightarrow> doc_operation_id d = fst v"
proof -
  obtain m where m: "view_mutation D (snd (snd v)) = Some m"
    using assms by (cases "view_mutation D (snd (snd v))") (simp_all add: chain_ops_of_def from_chain_mutation_def)
  then obtain mu where mu: "em_mutation m = Some mu"
    using assms by (cases "em_mutation m") (simp_all add: chain_ops_of_def from_chain_mutation_def from_chain_entity_mutation_def)
  note unf = chain_ops_of_def chain_entity_of_def from_chain_mutation_def from_chain_entity_mutation_def
  show "operation_entity ix = chain_entity_of D v"
    using assms m mu by (cases mu) (auto simp: unf split: option.splits)
  show "operation_document R ix = Some d \<Longrightarrow> doc_operation_id d = fst v"
    using assms m mu by (cases mu) (auto simp: unf trait_put_to_document_def trait_tombstone_to_document_def
        entity_tombstone_to_document_def result_simps split: option.splits result.splits)
qed

text \<open>The operations of an entity after an index operation: a put adds its own, a deletion removes the one it names.\<close>

fun ids_after :: "entity_id \<Rightarrow> mutation_index_operation \<Rightarrow> nat set \<Rightarrow> nat set" where
  "ids_after e (IxPutTrait p) ids = (if px_entity_id p = e then insert (px_operation_id p) ids else ids)"
| "ids_after e (IxPutTraitTombstone p) ids = (if ptt_entity_id p = e then insert (ptt_operation_id p) ids else ids)"
| "ids_after e (IxPutEntityTombstone p) ids = (if pet_entity_id p = e then insert (pet_operation_id p) ids else ids)"
| "ids_after e (IxPendingDeletionMarker e' i) ids = (if e' = e then insert i ids else ids)"
| "ids_after e (IxDeleteEntityOperation e' i) ids = ids - {i}"

definition doc_ids :: "entity_id \<Rightarrow> 'f document list \<Rightarrow> nat set" where
  "doc_ids e docs = doc_operation_id ` set (entity_docs e docs)"

text \<open>What indexing blocks makes of the operations of an entity in the chain index.\<close>

definition chain_shown ::
  "(bytes \<Rightarrow> entity_trait entity_mutation option) \<Rightarrow> entity_id \<Rightarrow> op_view list \<Rightarrow> nat set \<Rightarrow> nat set" where
  "chain_shown decode e vs ids = fold (ids_after e) (concat (map (chain_ops_of decode) vs)) ids"

lemma documents_after_ids:
  assumes "operation_fits docs ix"
  shows "doc_ids e (documents_after R ix docs) = ids_after e ix (doc_ids e docs)"
  using assms
  by (cases ix) (auto simp: doc_ids_def image_Un Collect_conv_if trait_put_to_document_def trait_tombstone_to_document_def entity_tombstone_to_document_def
      pending_deletion_marker_to_document_def)

lemma fold_documents_ids:
  "operations_fit R docs ixs \<Longrightarrow> doc_ids e (fold (documents_after R) ixs docs) = fold (ids_after e) ixs (doc_ids e docs)"
  by (induction ixs arbitrary: docs) (simp_all add: documents_after_ids)

lemma delete_operations_fit:
  assumes "\<forall>v \<in> set vs. \<forall>d \<in> set docs. doc_operation_id d = fst v \<longrightarrow> doc_entity_id d = E v"
  shows "operations_fit R docs (map (\<lambda>v. IxDeleteEntityOperation (E v) (fst v)) vs) \<and>
    fold (documents_after R) (map (\<lambda>v. IxDeleteEntityOperation (E v) (fst v)) vs) docs =
      filter (\<lambda>d. doc_operation_id d \<notin> fst ` set vs) docs"
  using assms
proof (induction vs arbitrary: docs)
  case (Cons v vs)
  then show ?case by (auto simp: filter_filter intro!: filter_cong)
qed simp

text \<open>A batch that fits is applied.\<close>

lemma apply_fits:
  assumes lib: "index_lib_ok L visible written content" and reach: "index_reach L mi docs"
    and fit: "operations_fit (il_reflection L) docs ixs"
    and docs': "docs' = fold (documents_after (il_reflection L)) ixs docs"
    and few: "\<forall>e. length (entity_docs e docs') \<le> entity_max_traits"
  shows "\<exists>mi'. apply_operations L ixs mi = (Ok (length ixs), mi') \<and> index_reach L mi' docs'"
proof -
  have inv: "index_inv visible written content mi docs" by (rule index_reach_inv [OF lib reach])
  then obtain mi1 where "write_operations L ixs mi = (Ok (), mi1)"
    using write_operations_ok [OF lib, of mi ixs] fit by (auto simp: index_inv_def)
  then obtain mi2 where ap: "apply_operations L ixs mi = (Ok (length ixs), mi2)"
    by (simp add: apply_operations_def)
  have "index_reach L mi2 docs'"
    by (rule index_applied [OF reach fit ap docs' few])
  with ap show ?thesis by blast
qed

lemma pending_empty:
  assumes "index_lib_ok L visible written content" "index_reach L mi docs"
  shows "highest_indexed_block L mi = None \<longleftrightarrow> docs = []"
  using index_reach_inv [OF assms] assms(1) tantivy_okD(11) [of "il_tantivy L" visible written "mi_index mi"]
  by (auto simp: highest_indexed_block_def index_inv_def index_lib_ok_def)

text \<open>The operations that a pass selects, with what it puts into the chain index and deletes from the pending index.\<close>

lemma selected_views:
  assumes "map view_of ops = filter (view_from (offset_or_0 last_off)) vs"
  shows "map view_of (filter (goes_to_chain last_off height d) ops) = moved_views last_off height d vs"
proof -
  have g: "goes_to_chain last_off height d =
      (\<lambda>op. view_committed_after (offset_or_0 last_off) (view_of op) \<and> view_deep height d (view_of op))"
    by (rule ext) (rule goes_to_chain_view)
  have "map view_of (filter (goes_to_chain last_off height d) ops) =
      filter (\<lambda>v. view_committed_after (offset_or_0 last_off) v \<and> view_deep height d v) (map view_of ops)"
    by (simp add: filter_map o_def g)
  also have "\<dots> = filter (view_deep height d) (filter (view_committed_after (offset_or_0 last_off)) (filter (view_from (offset_or_0 last_off)) vs))"
    unfolding assms by (simp add: conj_ac)
  finally show ?thesis unfolding view_from_after by (simp add: moved_views_def conj_ac)
qed

lemma selected_operations:
  assumes sel: "map view_of sel = moved"
  shows "map (\<lambda>op. from_chain_engine_operation D op (block_offset_of op)) sel = map (\<lambda>v. (chain_ops_of D v, chain_entity_of D v)) moved"
    and "map (\<lambda>op. fst (from_chain_engine_operation D op (block_offset_of op))) sel = map (chain_ops_of D) moved"
    and "map2 (\<lambda>(_, entity_id) op. IxDeleteEntityOperation entity_id (eo_operation_id op))
      (map (\<lambda>v. (chain_ops_of D v, chain_entity_of D v)) moved) sel = map (\<lambda>v. IxDeleteEntityOperation (chain_entity_of D v) (fst v)) moved"
proof -
  show "map (\<lambda>op. from_chain_engine_operation D op (block_offset_of op)) sel = map (\<lambda>v. (chain_ops_of D v, chain_entity_of D v)) moved"
    unfolding sel [symmetric] by (simp add: from_chain_view)
  show "map (\<lambda>op. fst (from_chain_engine_operation D op (block_offset_of op))) sel = map (chain_ops_of D) moved"
    unfolding sel [symmetric] by (simp add: from_chain_view)
  show "map2 (\<lambda>(_, entity_id) op. IxDeleteEntityOperation entity_id (eo_operation_id op))
      (map (\<lambda>v. (chain_ops_of D v, chain_entity_of D v)) moved) sel = map (\<lambda>v. IxDeleteEntityOperation (chain_entity_of D v) (fst v)) moved"
    unfolding sel [symmetric] by (rule nth_equalityI) (simp_all add: view_of_def)
qed

lemma delete_moved:
  assumes lib: "index_lib_ok L visible written content" and reach: "index_reach L mi pdocs"
    and same: "\<forall>v \<in> set moved. \<forall>d \<in> set pdocs. doc_operation_id d = fst v \<longrightarrow> doc_entity_id d = chain_entity_of D v"
    and dels: "dels = map (\<lambda>v. IxDeleteEntityOperation (chain_entity_of D v) (fst v)) moved"
  shows "\<exists>mi'. apply_operations L dels mi = (Ok (length dels), mi') \<and>
    index_reach L mi' (filter (\<lambda>d. doc_operation_id d \<notin> fst ` set moved) pdocs)"
proof -
  let ?p = "filter (\<lambda>d. doc_operation_id d \<notin> fst ` set moved) pdocs"
  have fit: "operations_fit (il_reflection L) pdocs dels" "?p = fold (documents_after (il_reflection L)) dels pdocs"
    unfolding dels using delete_operations_fit [OF same, of "il_reflection L"] by simp_all
  have "docs_ok pdocs" using index_reach_inv [OF lib reach] by (simp add: index_inv_def)
  then have "\<forall>e. length (entity_docs e ?p) \<le> entity_max_traits"
    unfolding docs_ok_def using entity_docs_filter_length order_trans by blast
  then show ?thesis using apply_fits [OF lib reach fit] by blast
qed

context chain_reader
begin

lemma index_chain_from_ok:
  assumes lib: "index_lib_ok (xl_index L) visible written content"
    and h: "xl_handle L = H" "inv (ei_chain_handle s)"
    and off: "offset_or_0 last_off \<in> Set.insert 0 (fst ` set heights)"
    and reach: "index_reach (xl_index L) (ei_pending_index s) pdocs" "index_reach (xl_index L) (ei_chain_index s) cdocs"
    and moved: "moved = moved_views last_off height (eic_chain_index_min_depth (ei_config s)) committed"
    and ixs: "ixs = concat (map (chain_ops_of (xl_decode L)) moved)"
    and fit: "operations_fit (il_reflection (xl_index L)) cdocs ixs"
    and cdocs': "cdocs' = fold (documents_after (il_reflection (xl_index L))) ixs cdocs"
    and few: "\<forall>e. length (entity_docs e cdocs') \<le> entity_max_traits"
    and same: "\<forall>v \<in> set moved. \<forall>d \<in> set pdocs. doc_operation_id d = fst v \<longrightarrow> doc_entity_id d = chain_entity_of (xl_decode L) v"
  shows "\<exists>n ids s'. index_chain_from L last_off height s = (Ok (n, ids), s') \<and>
    index_reach (xl_index L) (ei_chain_index s') cdocs' \<and>
    index_reach (xl_index L) (ei_pending_index s') (filter (\<lambda>d. doc_operation_id d \<notin> fst ` set moved) pdocs) \<and>
    inv (ei_chain_handle s')"
proof -
  let ?D = "xl_decode L" and ?d = "eic_chain_index_min_depth (ei_config s)"
  have "ch_chain_operations H last_off = ch_chain_operations H (Some (offset_or_0 last_off))"
    using chain_start by (cases last_off) simp_all
  then obtain ops h1 where ops: "ch_chain_operations H last_off (ei_chain_handle s) = (Ok ops, h1)"
      "map view_of ops = filter (view_from (offset_or_0 last_off)) committed" and h1: "inv h1"
    using chain_from [OF h(2) off] by auto
  let ?sel = "filter (goes_to_chain last_off height ?d) ops"
  let ?dels = "map (\<lambda>v. IxDeleteEntityOperation (chain_entity_of ?D v) (fst v)) moved"
  note sel = selected_operations [OF selected_views [OF ops(2), of height ?d, folded moved], of ?D]
  obtain mc where mc: "apply_operations (xl_index L) ixs (ei_chain_index s) = (Ok (length ixs), mc)"
      "index_reach (xl_index L) mc cdocs'"
    using apply_fits [OF lib reach(2) fit cdocs' few] by blast
  show ?thesis
  proof (cases "highest_indexed_block (xl_index L) (ei_pending_index s) = None \<or> moved = []")
    case True
    then have "filter (\<lambda>d. doc_operation_id d \<notin> fst ` set moved) pdocs = pdocs"
      using pending_empty [OF lib reach(1)] by auto
    moreover have "(if highest_indexed_block (xl_index L) (ei_pending_index s) = None then [] else ?dels) = []"
      using True by auto
    ultimately show ?thesis
      using ops(1) mc reach(1) h(1) True h1
      by (auto simp: index_chain_from_def on_handle_def on_chain_index_def sel ixs Let_def o_def)
  next
    case False
    obtain mp where mp: "apply_operations (xl_index L) ?dels (ei_pending_index s) = (Ok (length ?dels), mp)"
        "index_reach (xl_index L) mp (filter (\<lambda>d. doc_operation_id d \<notin> fst ` set moved) pdocs)"
      using delete_moved [OF lib reach(1) same refl] by blast
    show ?thesis
      using ops(1) mc mp h(1) False h1
      by (auto simp: index_chain_from_def on_handle_def on_chain_index_def on_pending_index_def sel ixs Let_def o_def split: option.splits)
  qed
qed

lemma index_new_blocks_ok:
  assumes lib: "index_lib_ok (xl_index L) visible written content"
    and h: "xl_handle L = H" "inv (ei_chain_handle s)" and upto: "indexed_upto heights L s last_off"
    and height: "heights \<noteq> []" "height = snd (last heights)" "\<forall>x \<in> set heights. snd x \<le> height"
    and deep: "\<forall>off t. last_off = Some off \<longrightarrow> (off, t) \<in> set heights \<longrightarrow>
      eic_chain_index_min_depth (ei_config s) \<le> height - t \<and> eic_chain_index_depth_leeway (ei_config s) \<le> height - t"
    and reach: "index_reach (xl_index L) (ei_pending_index s) pdocs" "index_reach (xl_index L) (ei_chain_index s) cdocs"
    and moved: "moved = moved_views last_off height (eic_chain_index_min_depth (ei_config s)) committed"
    and ixs: "ixs = concat (map (chain_ops_of (xl_decode L)) moved)"
    and fit: "operations_fit (il_reflection (xl_index L)) cdocs ixs"
    and cdocs': "cdocs' = fold (documents_after (il_reflection (xl_index L))) ixs cdocs"
    and few: "\<forall>e. length (entity_docs e cdocs') \<le> entity_max_traits"
    and same: "\<forall>v \<in> set moved. \<forall>d \<in> set pdocs. doc_operation_id d = fst v \<longrightarrow> doc_entity_id d = chain_entity_of (xl_decode L) v"
  shows "\<exists>n ids s'. index_chain_new_blocks L s = (Ok (n, ids), s') \<and>
    index_reach (xl_index L) (ei_chain_index s') cdocs' \<and>
    index_reach (xl_index L) (ei_pending_index s') (filter (\<lambda>d. doc_operation_id d \<notin> fst ` set moved) pdocs) \<and>
    inv (ei_chain_handle s')"
proof -
  obtain h1 where h1: "ch_last_block_info H (ei_chain_handle s) = (Ok (Some (last heights)), h1)" "inv h1"
    using last_info [OF h(2)] height(1) by auto
  let ?s1 = "s\<lparr>ei_chain_handle := h1\<rparr>"
  have upto1: "indexed_upto heights L ?s1 last_off" "inv (ei_chain_handle ?s1)"
    using upto h1(2) by (auto simp: indexed_upto_def split: option.splits)
  obtain r h2 where r: "last_chain_indexed_block L ?s1 = (Ok r, ?s1\<lparr>ei_chain_handle := h2\<rparr>)" "inv h2"
      "map_option fst r = last_off" "\<forall>x. r = Some x \<longrightarrow> x \<in> set heights"
    using last_indexed [OF h(1) upto1(2,1)] by blast
  let ?s2 = "?s1\<lparr>ei_chain_handle := h2\<rparr>"
  have off: "offset_or_0 last_off \<in> Set.insert 0 (fst ` set heights)"
    using upto by (auto simp: indexed_upto_def split: option.splits)
  have s2: "inv (ei_chain_handle ?s2)" "index_reach (xl_index L) (ei_pending_index ?s2) pdocs"
      "index_reach (xl_index L) (ei_chain_index ?s2) cdocs"
      "moved = moved_views last_off height (eic_chain_index_min_depth (ei_config ?s2)) committed"
    using r(2) reach moved by simp_all
  have "index_chain_new_blocks L s = index_chain_from L last_off height ?s2"
  proof (cases r)
    case None
    then show ?thesis
      using h(1) h1(1) r(1,3) height(2) by (simp add: index_chain_new_blocks_def on_handle_def)
  next
    case (Some x)
    obtain o1 t where x: "x = (o1, t)" by fastforce
    then have "(o1, t) \<in> set heights" "last_off = Some o1" using r(3,4) Some by auto
    then show ?thesis
      using h(1) h1(1) r(1) Some x height(2,3) deep by (force simp: index_chain_new_blocks_def on_handle_def Let_def)
  qed
  then show ?thesis
    using index_chain_from_ok [OF lib h(1) s2(1) off s2(2-4) ixs fit cdocs' few same] by simp
qed

text \<open>Events of operations that are in the pending store.\<close>

lemma pending_mutations_ok:
  assumes h: "xl_handle L = H" and "inv (ei_chain_handle s)" "set vs \<subseteq> set pending"
  shows "\<exists>h'. pending_mutations L (map fst vs) s =
    (Ok (concat (map (pending_ops_of (xl_decode L)) vs)), s\<lparr>ei_chain_handle := h'\<rparr>) \<and> inv h'"
  using assms(2,3)
proof (induction vs arbitrary: s)
  case Nil
  then show ?case by (intro exI [of _ "ei_chain_handle s"]) simp
next
  case (Cons v vs)
  have "v \<in> set pending" using Cons.prems(2) by simp
  from pending_one [OF Cons.prems(1) this] obtain op h1
    where op: "ch_pending_operation H (fst v) (ei_chain_handle s) = (Ok (Some op), h1)" "view_of op = v" "inv h1"
    by blast
  let ?s1 = "s\<lparr>ei_chain_handle := h1\<rparr>"
  obtain h2 where h2: "pending_mutations L (map fst vs) ?s1 =
      (Ok (concat (map (pending_ops_of (xl_decode L)) vs)), ?s1\<lparr>ei_chain_handle := h2\<rparr>)" "inv h2"
    using Cons.IH [of ?s1] Cons.prems(2) op(3) by auto
  then show ?case
    using op(1,2) h by (intro exI [of _ h2]) (simp add: pending_mutations_of_def from_pending_view)
qed

lemma pending_events_ok:
  assumes lib: "index_lib_ok (xl_index L) visible written content"
    and h: "xl_handle L = H" "inv (ei_chain_handle s)" and vs: "set vs \<subseteq> set pending"
    and reach: "index_reach (xl_index L) (ei_pending_index s) pdocs"
    and ixs: "ixs = concat (map (pending_ops_of (xl_decode L)) vs)" and puts: "\<forall>ix \<in> set ixs. is_put ix"
    and few: "\<forall>e. length (entity_docs e (pdocs @ pending_docs (il_reflection (xl_index L)) ixs)) \<le> entity_max_traits"
  shows "\<exists>mi h'. handle_chain_pending_operations L (map fst vs) s = (Ok (length ixs), s\<lparr>ei_pending_index := mi, ei_chain_handle := h'\<rparr>) \<and>
    index_reach (xl_index L) mi (pdocs @ pending_docs (il_reflection (xl_index L)) ixs)"
proof -
  obtain h' where h': "pending_mutations L (map fst vs) s = (Ok ixs, s\<lparr>ei_chain_handle := h'\<rparr>)"
    using pending_mutations_ok [OF h vs] ixs by blast
  note fit = puts_fit [OF puts, of "il_reflection (xl_index L)" pdocs]
  obtain mi where "apply_operations (xl_index L) ixs (ei_pending_index s) = (Ok (length ixs), mi)"
      "index_reach (xl_index L) mi (pdocs @ pending_docs (il_reflection (xl_index L)) ixs)"
    using apply_fits [OF lib reach, of ixs] fit few by metis
  then show ?thesis
    using h' by (intro exI [of _ mi] exI [of _ h'])
      (simp add: handle_chain_pending_operations_def on_pending_index_def)
qed

end

section \<open>The engine behind the interface\<close>

definition chain_heights :: "chain \<Rightarrow> (nat \<times> nat) list" where
  "chain_heights ch = map (\<lambda>(a, ms). (bh_offset (ab_header a), bh_height (ab_header a))) ch"

fun committed_view :: "ablock \<times> chain_operation \<Rightarrow> op_view" where
  "committed_view (a, m) = (co_operation_id m, EngCommitted (bh_offset (ab_header a)) (bh_height (ab_header a)), co_operation m)"

definition committed_views :: "chain \<Rightarrow> op_view list" where
  "committed_views ch = map committed_view (chain_ops ch)"

definition pending_views :: "pending_store \<Rightarrow> op_view list" where
  "pending_views ps =
     (case pending_iter (Unbounded, Unbounded) ps of Ok ops \<Rightarrow> map (view_of \<circ> from_pending) ops | _ \<Rightarrow> [])"

text \<open>An engine that runs, with a chain and a pending store.\<close>

definition engine_at ::
  "('c) codec_scheme \<Rightarrow> 'r ext_index \<Rightarrow> chain \<Rightarrow> pending_store \<Rightarrow> ('r, 'q, 't) engine_inner option \<Rightarrow> bool" where
  "engine_at C E ch ps h \<longleftrightarrow>
     (\<exists>inner. h = Some inner \<and> \<not> in_poisoned inner \<and> dir_store_holds C E (in_chain_store inner) ch \<and>
        in_pending_store inner = ps \<and> pending_inv ps)"

lemma committed_views_all:
  "list_all2 (chain_op_is C) ops xs \<Longrightarrow> map view_of ops = map committed_view xs"
  by (induction ops xs rule: list_all2_induct) (auto simp: chain_op_is_def view_of_def op_is_def)

lemma views_from:
  assumes ok: "chain_ok C ch" and k: "k < length ch"
  shows "filter (view_from (offset_at ch k)) (committed_views ch) = committed_views (drop k ch)"
proof -
  have split: "ch = take k ch @ ch ! k # drop (Suc k) ch" using k by (rule id_take_nth_drop)
  have cont: "contiguous C 0 (blocks_of ch)" using ok by (simp add: chain_ok_def)
  have before: "bh_offset (ab_header (fst e)) < offset_at ch k" if "e \<in> set (take k ch)" for e
  proof -
    obtain us vs where "take k ch = us @ e # vs" using \<open>e \<in> _\<close> by (auto simp: in_set_conv_decomp)
    then have "ch = us @ e # (vs @ ch ! k # drop (Suc k) ch)" using split by simp
    then have "contiguous C 0 (blocks_of us @ fst e # blocks_of (vs @ ch ! k # drop (Suc k) ch))"
      using cont by (metis list.simps(9) map_append)
    then show ?thesis by (rule contiguous_offset_less) simp
  qed
  have after: "offset_at ch k < bh_offset (ab_header (fst e))" if "e \<in> set (drop (Suc k) ch)" for e
  proof -
    have "contiguous C 0 (blocks_of (take k ch) @ fst (ch ! k) # blocks_of (drop (Suc k) ch))"
      using cont split by (metis list.simps(9) map_append)
    then show ?thesis by (rule contiguous_offset_less) (use that in simp)
  qed
  have views: "(\<forall>e \<in> set xs. P (bh_offset (ab_header (fst e)))) \<Longrightarrow> v \<in> set (committed_views xs) \<Longrightarrow>
      \<exists>i b t body. v = (i, EngCommitted b t, body) \<and> P b" for P xs v
    by (force simp: committed_views_def chain_ops_def)
  have none: "filter (view_from (offset_at ch k)) (committed_views (take k ch)) = []"
    using views [of "take k ch" "\<lambda>b. b < offset_at ch k"] before by (fastforce simp: filter_empty_conv)
  have "\<forall>e \<in> set (drop k ch). offset_at ch k \<le> bh_offset (ab_header (fst e))"
    using after k by (subst Cons_nth_drop_Suc [symmetric]) (auto intro: less_imp_le)
  then have "filter (view_from (offset_at ch k)) (committed_views (drop k ch)) = committed_views (drop k ch)"
    using views [of "drop k ch" "\<lambda>b. offset_at ch k \<le> b"] by (fastforce simp: filter_id_conv)
  moreover have "committed_views ch = committed_views (take k ch) @ committed_views (drop k ch)"
    by (simp add: committed_views_def chain_ops_def flip: map_append concat_append)
  ultimately show ?thesis using none by simp
qed

lemma engine_chain_from:
  assumes h: "engine_at C E ch ps h" and off: "off \<in> Set.insert 0 (fst ` set (chain_heights ch))"
  shows "\<exists>ops h'. handle_chain_operations C (Some off) h = (Ok ops, h') \<and>
    map view_of ops = filter (view_from off) (committed_views ch) \<and> engine_at C E ch ps h'"
proof -
  obtain inner where inner: "h = Some inner" "\<not> in_poisoned inner" "dir_store_holds C E (in_chain_store inner) ch"
      "in_pending_store inner = ps" "pending_inv ps"
    using h by (auto simp: engine_at_def)
  have ok: "chain_ok C ch" by (rule dir.holds_ok [OF inner(3)])
  obtain k where k: "k \<le> length ch" "off = chain_end C (take k ch)"
      "filter (view_from off) (committed_views ch) = committed_views (drop k ch)"
  proof (cases "off \<in> fst ` set (chain_heights ch)")
    case True
    then obtain k where k: "k < length ch" "off = offset_at ch k"
      by (auto simp: chain_heights_def in_set_conv_nth)
    obtain a ms where e: "ch ! k = (a, ms)" by fastforce
    have "chain_ok C (take k ch @ (a, ms) # drop (Suc k) ch)"
      using ok k(1) e by (metis id_take_nth_drop)
    then have "off = chain_end C (take k ch)" using offset_at_end e k(2) by simp
    with k views_from [OF ok k(1)] show ?thesis by (intro that [of k]) simp_all
  next
    case False
    then have "off = 0" using off by simp
    moreover have "filter (view_from 0) (committed_views ch) = committed_views ch"
      by (auto simp: filter_id_conv committed_views_def)
    ultimately show ?thesis by (intro that [of 0]) (simp_all add: chain_end_def span_of_def)
  qed
  obtain ops st' where "collect_operations C (chain_operations_iter_new (Some off)) (in_chain_store inner) = Some (Ok ops, st')"
      "list_all2 (chain_op_is C) ops (chain_ops (drop k ch))" "dir_store_holds C E st' ch"
    using collect_operations_ok [OF inner(3) k(1)] k(2) by (auto simp: chain_operations_iter_new_def)
  then show ?thesis
    using inner k(3) committed_views_all [of C ops "chain_ops (drop k ch)"]
    by (simp add: handle_chain_operations_def engine_at_def committed_views_def)
qed

lemma chain_operations_start: "handle_chain_operations C None = handle_chain_operations C (Some 0)"
proof
  have "chain_operations_iter_new None = chain_operations_iter_new (Some 0)" by (simp add: chain_operations_iter_new_def)
  then show "handle_chain_operations C None h = handle_chain_operations C (Some 0) h" for h :: "('a, 'b, 'c) engine_inner option"
    unfolding handle_chain_operations_def by (cases h) simp_all
qed

lemma get_last_block_info_ok:
  assumes "engine_at C E ch ps h"
  shows "\<exists>h'. get_chain_last_block_info C h = (Ok (if chain_heights ch = [] then None else Some (last (chain_heights ch))), h') \<and>
    engine_at C E ch ps h'"
proof -
  obtain inner where inner: "h = Some inner" "\<not> in_poisoned inner" "dir_store_holds C E (in_chain_store inner) ch"
      "in_pending_store inner = ps" "pending_inv ps"
    using assms by (auto simp: engine_at_def)
  obtain r st' where r: "dir_get_last_block C (in_chain_store inner) = (Ok r, st')" "dir_store_holds C E st' ch"
      "case r of None \<Rightarrow> ch = [] | Some b \<Rightarrow> ch \<noteq> [] \<and> block_is C b (fst (last ch))"
    using dir.get_last_ok [OF inner(3)] by blast
  have "map_option (\<lambda>b. (db_offset b, get_height b)) r = (if chain_heights ch = [] then None else Some (last (chain_heights ch)))"
  proof (cases r)
    case (Some b)
    then have "ch \<noteq> []" "block_is C b (fst (last ch))" using r(3) by simp_all
    then show ?thesis
      using Some block_is_offset [of C b] block_is_height [of C b] by (simp add: chain_heights_def last_map split: prod.splits)
  qed (use r(3) in \<open>simp add: chain_heights_def\<close>)
  then show ?thesis
    using r(1,2) inner by (auto simp: get_chain_last_block_info_def on_inner_def on_inner_read_def locked_def on_engine_chain_def on_chain_def engine_at_def)
qed

lemma get_block_info_ok:
  assumes "engine_at C E ch ps h" "(off, t) \<in> set (chain_heights ch)"
  shows "\<exists>h'. get_chain_block_info C off h = (Ok (Some (off, t)), h') \<and> engine_at C E ch ps h'"
proof -
  obtain inner where inner: "h = Some inner" "\<not> in_poisoned inner" "dir_store_holds C E (in_chain_store inner) ch"
      "in_pending_store inner = ps" "pending_inv ps"
    using assms(1) by (auto simp: engine_at_def)
  obtain k where k: "k < length ch" "off = offset_at ch k" "t = bh_height (ab_header (block_at ch k))"
    using assms(2) by (auto simp: chain_heights_def in_set_conv_nth)
  obtain b st' where b: "dir_get_block C off (in_chain_store inner) = (Ok b, st')" "block_is C b (block_at ch k)" "dir_store_holds C E st' ch"
    using dir.get_ok [OF inner(3) k(1)] k(2) by auto
  then show ?thesis
    using inner k(2,3) block_is_offset [OF b(2)] block_is_height [OF b(2)]
    by (auto simp: get_chain_block_info_def on_inner_def on_inner_read_def locked_def on_engine_chain_def engine_at_def)
qed

lemma get_pending_operations_ok:
  assumes "engine_at C E ch ps h"
  shows "\<exists>ops h'. get_pending_operations (Unbounded, Unbounded) h = (Ok ops, h') \<and> map view_of ops = pending_views ps \<and>
    engine_at C E ch ps h'"
proof -
  obtain inner where inner: "h = Some inner" "\<not> in_poisoned inner" "in_pending_store inner = ps" "pending_inv ps"
    using assms by (auto simp: engine_at_def)
  obtain ops where "pending_iter (Unbounded, Unbounded) ps = Ok ops"
    using mem.iter_all [OF inner(4)] by blast
  then show ?thesis
    using inner assms by (auto simp: get_pending_operations_def on_inner_def on_inner_read_def locked_def pending_views_def)
qed

lemma get_pending_operation_ok:
  assumes "engine_at C E ch ps h" "v \<in> set (pending_views ps)"
  shows "\<exists>op h'. get_pending_operation (fst v) h = (Ok (Some op), h') \<and> view_of op = v \<and> engine_at C E ch ps h'"
proof -
  obtain inner where inner: "h = Some inner" "\<not> in_poisoned inner" "in_pending_store inner = ps" "pending_inv ps"
    using assms by (auto simp: engine_at_def)
  obtain ops where "pending_iter (Unbounded, Unbounded) ps = Ok ops" "set ops = ran (pending_get ps)"
    using mem.iter_all [OF inner(4)] by blast
  then obtain op where op: "op \<in> ran (pending_get ps)" "v = view_of (from_pending op)"
    using assms(2) by (auto simp: pending_views_def)
  then have "pending_get ps (fst v) = Some op"
    using mem.get_id [OF inner(4)] by (auto simp: ran_def view_of_def from_pending_def)
  then show ?thesis
    using inner op(2) assms(1) by (simp add: get_pending_operation_def on_inner_def on_inner_read_def locked_def)
qed

interpretation engine: chain_reader "engine_chain_handle C E" "engine_at C E ch ps" "chain_heights ch" "committed_views ch" "pending_views ps"
proof
  fix h :: "('b, 'c, 'd) engine_inner option" and off t
  assume h: "engine_at C E ch ps h"
  show "\<exists>h'. ch_last_block_info (engine_chain_handle C E) h =
      (Ok (if chain_heights ch = [] then None else Some (last (chain_heights ch))), h') \<and> engine_at C E ch ps h'"
    using get_last_block_info_ok [OF h] by (simp add: engine_chain_handle_def)
  show "\<exists>h'. ch_block_info (engine_chain_handle C E) off h = (Ok (Some (off, t)), h') \<and> engine_at C E ch ps h'"
    if "(off, t) \<in> set (chain_heights ch)"
    using get_block_info_ok [OF h that] by (simp add: engine_chain_handle_def)
  show "\<exists>ops h'. ch_pending_operations (engine_chain_handle C E) h = (Ok ops, h') \<and> map view_of ops = pending_views ps \<and>
      engine_at C E ch ps h'"
    using get_pending_operations_ok [OF h] by (simp add: engine_chain_handle_def)
  show "\<exists>op h'. ch_pending_operation (engine_chain_handle C E) (fst v) h = (Ok (Some op), h') \<and> view_of op = v \<and> engine_at C E ch ps h'"
    if "v \<in> set (pending_views ps)" for v
    using get_pending_operation_ok [OF h that] by (simp add: engine_chain_handle_def)
  show "\<exists>ops h'. ch_chain_operations (engine_chain_handle C E) (Some off) h = (Ok ops, h') \<and>
      map view_of ops = filter (view_from off) (committed_views ch) \<and> engine_at C E ch ps h'"
    if "off \<in> Set.insert 0 (fst ` set (chain_heights ch))"
    using engine_chain_from [OF h that] by (simp add: engine_chain_handle_def)
qed (simp add: engine_chain_handle_def chain_operations_start)

end
