(* ===== verification/Exo_Entity_Index_Props.thy ===== *)
theory Exo_Entity_Index_Props
  imports Exo_Entity_Index_Facts
begin

text \<open>
  What the entity index shows of an entity: together its two indices hold the operations of the chain and of
  the pending store, after a pass that moves blocks to the chain index and after a gap in the events of the engine, and
  events that come late leave operations in both.
\<close>

section \<open>The index over an engine\<close>

text \<open>
  The index reads an engine with the chain \<open>ch\<close> and the pending store \<open>ps\<close>. Its two indices are reached by
  batches that succeeded, and hold the documents \<open>pdocs\<close> and \<open>cdocs\<close>; the last block in the
  chain index is \<open>last_off\<close>.
\<close>

definition index_at ::
  "('f, 'i, 'k, ('r, 'q, 't) engine_inner option) entity_libs \<Rightarrow> ('c) codec_scheme \<Rightarrow> 'r ext_index \<Rightarrow> chain \<Rightarrow> pending_store \<Rightarrow>
     ('i, 'k, ('r, 'q, 't) engine_inner option) entity_index \<Rightarrow> nat option \<Rightarrow> 'f document list \<Rightarrow> 'f document list \<Rightarrow> bool" where
  "index_at L C E ch ps s last_off pdocs cdocs \<longleftrightarrow>
     xl_handle L = engine_chain_handle C E \<and> engine_at C E ch ps (ei_chain_handle s) \<and>
     index_reach (xl_index L) (ei_pending_index s) pdocs \<and> index_reach (xl_index L) (ei_chain_index s) cdocs \<and>
     indexed_upto (chain_heights ch) L s last_off"

lemma index_atD:
  assumes "index_at L C E ch ps s last_off pdocs cdocs"
  shows "xl_handle L = engine_chain_handle C E" "engine_at C E ch ps (ei_chain_handle s)"
    "index_reach (xl_index L) (ei_pending_index s) pdocs" "index_reach (xl_index L) (ei_chain_index s) cdocs"
    "indexed_upto (chain_heights ch) L s last_off"
  using assms by (simp_all add: index_at_def)

text \<open>The chain is not empty, its last block is the highest, and the last indexed block is deep enough for a pass.\<close>

definition pass_due :: "chain \<Rightarrow> ('i, 'k, 'h) entity_index \<Rightarrow> nat option \<Rightarrow> nat \<Rightarrow> bool" where
  "pass_due ch s last_off height \<longleftrightarrow>
     ch \<noteq> [] \<and> height = snd (last (chain_heights ch)) \<and> (\<forall>x \<in> set (chain_heights ch). snd x \<le> height) \<and>
     (\<forall>off t. last_off = Some off \<longrightarrow> (off, t) \<in> set (chain_heights ch) \<longrightarrow>
        eic_chain_index_min_depth (ei_config s) \<le> height - t \<and> eic_chain_index_depth_leeway (ei_config s) \<le> height - t)"

section \<open>Moving blocks to the chain index\<close>

lemma doc_ids_filter: "doc_ids e (filter (\<lambda>d. doc_operation_id d \<notin> A) docs) = doc_ids e docs - A"
  by (auto simp: doc_ids_def)

lemma doc_ids_append: "doc_ids e (docs @ docs') = doc_ids e docs \<union> doc_ids e docs'"
  by (auto simp: doc_ids_def)

text \<open>The pass, for what it leaves in both indices.\<close>

lemma pass_moves:
  assumes lib: "index_lib_ok (xl_index L) visible written content"
    and at: "index_at L C E ch ps s last_off pdocs cdocs" and due: "pass_due ch s last_off height"
    and moved: "moved = moved_views last_off height (eic_chain_index_min_depth (ei_config s)) (committed_views ch)"
    and ixs: "ixs = concat (map (chain_ops_of (xl_decode L)) moved)"
    and fit: "operations_fit (il_reflection (xl_index L)) cdocs ixs"
    and cdocs': "cdocs' = fold (documents_after (il_reflection (xl_index L))) ixs cdocs"
    and few: "\<forall>e. length (entity_docs e cdocs') \<le> entity_max_traits"
    and same: "\<forall>v \<in> set moved. \<forall>d \<in> set pdocs. doc_operation_id d = fst v \<longrightarrow> doc_entity_id d = chain_entity_of (xl_decode L) v"
  obtains n ids s' where "index_chain_new_blocks L s = (Ok (n, ids), s')"
    "index_reach (xl_index L) (ei_chain_index s') cdocs'"
    "index_reach (xl_index L) (ei_pending_index s') (filter (\<lambda>d. doc_operation_id d \<notin> fst ` set moved) pdocs)"
    "engine_at C E ch ps (ei_chain_handle s')"
    "doc_ids e cdocs' = chain_shown (xl_decode L) e moved (doc_ids e cdocs)"
proof -
  note at = index_atD [OF at]
  have ch: "chain_heights ch \<noteq> []" "height = snd (last (chain_heights ch))" "\<forall>x \<in> set (chain_heights ch). snd x \<le> height"
      "\<forall>off t. last_off = Some off \<longrightarrow> (off, t) \<in> set (chain_heights ch) \<longrightarrow>
        eic_chain_index_min_depth (ei_config s) \<le> height - t \<and> eic_chain_index_depth_leeway (ei_config s) \<le> height - t"
    using due unfolding pass_due_def by (simp add: chain_heights_def, blast+)
  from engine.index_new_blocks_ok [OF lib at(1,2,5) ch at(3,4) moved ixs fit cdocs' few same] that
  show thesis using fold_documents_ids [OF fit, of e] cdocs' ixs by (auto simp: chain_shown_def)
qed

text \<open>
  (C8) When a block makes others deep enough, their operations move from the pending to the chain index and none
  gets lost: afterwards a fetch of any entity succeeds and returns, in the order in which they got committed, the
  operations that the pending index had of it from blocks that did not move, and what the operations of the
  moved blocks, one after the other, make of those that the chain index had: a put of a trait or a tombstone
  adds its operation, and a deletion removes the operations it names, which is the only way for an
  operation to disappear. This is for a batch that the index can apply: every trait that is put has a message,
  a deletion names the entity of the operations it deletes, no entity gets more than 10000 documents in the
  chain index, and the pending index has an operation of the moved blocks under the entity that it mutates.
\<close>

theorem indexing_loses_nothing:
  assumes lib: "index_lib_ok (xl_index L) visible written content"
    and at: "index_at L C E ch ps s last_off pdocs cdocs" and due: "pass_due ch s last_off height"
    and moved: "moved = moved_views last_off height (eic_chain_index_min_depth (ei_config s)) (committed_views ch)"
    and ixs: "ixs = concat (map (chain_ops_of (xl_decode L)) moved)"
    and fit: "operations_fit (il_reflection (xl_index L)) cdocs ixs"
    and few: "\<forall>e. length (entity_docs e (fold (documents_after (il_reflection (xl_index L))) ixs cdocs)) \<le> entity_max_traits"
    and same: "\<forall>v \<in> set moved. \<forall>d \<in> set pdocs. doc_operation_id d = fst v \<longrightarrow> doc_entity_id d = chain_entity_of (xl_decode L) v"
  shows "\<exists>ids n s' r s''. handle_chain_engine_events L [NewChainBlock b] s = (Ok (ids, n), s') \<and>
    fetch_entity_mutations_metadata L e s' = (Ok r, s'') \<and> sorted (map commit_key r) \<and>
    mm_operation_id ` set r = (doc_ids e pdocs - fst ` set moved) \<union> chain_shown (xl_decode L) e moved (doc_ids e cdocs)"
proof -
  obtain n ids s' where new: "index_chain_new_blocks L s = (Ok (n, ids), s')"
      "index_reach (xl_index L) (ei_chain_index s') (fold (documents_after (il_reflection (xl_index L))) ixs cdocs)"
      "index_reach (xl_index L) (ei_pending_index s') (filter (\<lambda>d. doc_operation_id d \<notin> fst ` set moved) pdocs)"
      "doc_ids e (fold (documents_after (il_reflection (xl_index L))) ixs cdocs) = chain_shown (xl_decode L) e moved (doc_ids e cdocs)"
    by (rule pass_moves [OF lib at due moved ixs fit refl few same])
  from new(1) have "handle_chain_engine_events L [NewChainBlock b] s = (Ok (ids, n), s')"
    by (simp add: handle_chain_engine_events_def)
  then show ?thesis
    using fetch_metadata_ok [OF lib new(3,2), of e] new(4) doc_ids_filter [of e "fst ` set moved" pdocs]
    by (fastforce simp: doc_ids_def)
qed

section \<open>After a discontinuity\<close>



section \<open>Events behind the engine\<close>

lemma dedup_adjacent_remdups: "map mm_operation_id (dedup_adjacent ms) = remdups_adj (map mm_operation_id ms)"
  by (induction ms rule: dedup_adjacent.induct) simp_all

lemma remdups_adj_twice:
  assumes "distinct (remdups_adj (xs @ ys))" "x \<in> set xs" "x \<in> set ys"
  shows "x = last xs"
proof (rule ccontr)
  assume ne: "x \<noteq> last xs"
  have "xs \<noteq> []" using assms(2) by auto
  then have "remdups_adj (xs @ ys) = remdups_adj xs @ tl (remdups_adj (last xs # ys))"
    using remdups_adj_append [of "butlast xs" "last xs" ys] append_butlast_last_id [of xs]
    by (metis append.assoc append_Cons append_Nil)
  moreover have "x \<in> set (tl (remdups_adj (last xs # ys)))"
  proof -
    have "hd (remdups_adj (last xs # ys)) = last xs" "remdups_adj (last xs # ys) \<noteq> []" by (simp_all add: hd_remdups_adj)
    moreover have "x \<in> set (remdups_adj (last xs # ys))" using assms(3) by simp
    ultimately show ?thesis using ne by (metis list.collapse set_ConsD)
  qed
  ultimately show False using assms(1,2) by auto
qed

lemma sorted_split_key:
  assumes "sorted (map f xs)"
  shows "xs = filter (\<lambda>x. f x < c) xs @ filter (\<lambda>x. \<not> f x < c) xs"
  using assms
proof (induction xs)
  case (Cons x xs)
  show ?case
  proof (cases "f x < c")
    case False
    then have "filter (\<lambda>x. f x < c) xs = []" using Cons.prems by (auto simp: filter_empty_conv dest!: bspec)
    with False Cons show ?thesis by simp
  qed (use Cons in simp)
qed simp

text \<open>Two operations that are among the committed results and among the pending ones are returned twice, or one of them is.\<close>

lemma both_twice:
  assumes r: "r = dedup_adjacent (sort_key commit_key ms)" and ij: "i \<noteq> j"
    and committed: "\<forall>k \<in> {i, j}. \<exists>m \<in> set ms. mm_operation_id m = k \<and> (\<exists>b. mm_block_offset m = Some b \<and> b < u64_max)"
    and pending: "\<forall>k \<in> {i, j}. \<exists>m \<in> set ms. mm_operation_id m = k \<and> mm_block_offset m = None"
  shows "\<not> distinct (map mm_operation_id r)"
proof
  let ?xs = "sort_key commit_key ms"
  let ?a = "filter (\<lambda>m. commit_key m < (u64_max, 0)) ?xs" and ?b = "filter (\<lambda>m. \<not> commit_key m < (u64_max, 0)) ?xs"
  assume "distinct (map mm_operation_id r)"
  moreover have "?xs = ?a @ ?b" by (rule sorted_split_key) simp
  ultimately have d: "distinct (remdups_adj (map mm_operation_id ?a @ map mm_operation_id ?b))"
    unfolding r dedup_adjacent_remdups by (metis map_append)
  have "\<forall>k \<in> {i, j}. k \<in> set (map mm_operation_id ?a)"
    using committed by (fastforce simp: commit_key_def image_iff)
  moreover have "\<forall>k \<in> {i, j}. k \<in> set (map mm_operation_id ?b)"
    using pending by (fastforce simp: commit_key_def image_iff)
  ultimately have "i = last (map mm_operation_id ?a)" "j = last (map mm_operation_id ?a)"
    using remdups_adj_twice [OF d] by blast+
  with ij show False by simp
qed

lemma dedup_results_subset: "set (dedup_results i prev ms) \<subseteq> set ms"
proof (induction i prev ms rule: dedup_results.induct)
  case (1 i prev ms)
  have "set (swap_remove i ms) \<subseteq> set ms" if "i < length ms"
  proof -
    have "last ms \<in> set ms" using that by (intro last_in_set) auto
    then show ?thesis
      using set_update_subset_insert [of "butlast ms" i "last ms"] in_set_butlastD [of _ ms] by (auto simp: swap_remove_def)
  qed
  then show ?case
    using 1 by (subst dedup_results.simps) (auto simp: Let_def)
qed

text \<open>A result comes from a document, with the block of the document.\<close>

lemma is_result_document:
  assumes r: "is_result docs e r" and ok: "docs_ok docs" and i: "i \<in> doc_ids e docs"
  obtains m d where "m \<in> set r" "mm_operation_id m = i" "d \<in> set docs" "doc_operation_id d = i" "mm_block_offset m = doc_block_offset d"
proof -
  have "i \<in> mm_operation_id ` set r" using is_result_ids [OF r ok] i by (simp only: doc_ids_def)
  then obtain m where m: "m \<in> set r" "mm_operation_id m = i" by blast
  obtain ds where ds: "mset ds = mset (entity_docs e docs)" "r = dedup_results 0 None (map doc_meta ds)"
    using r by (auto simp: is_result_def)
  obtain d where "d \<in> set ds" and m_d: "m = doc_meta d"
    using m(1) ds(2) dedup_results_subset [of 0 None "map doc_meta ds"] by auto
  then have d: "d \<in> set docs" "m = doc_meta d"
    using mset_eq_setD [OF ds(1)] by auto
  then have "doc_decodes d" using ok by (simp add: docs_ok_def)
  then have "doc_operation_id d = i" "mm_block_offset m = doc_block_offset d"
    using d(2) m(2) doc_meta_id [of d] by (auto simp: doc_decodes_def doc_meta_def document_to_metadata_def result_simps)
  with m d(1) that show thesis by blast
qed

text \<open>The documents of a batch are older ones or those of its operations.\<close>

lemma fold_documents_from:
  "d \<in> set (fold (documents_after R) ixs docs) \<Longrightarrow> d \<in> set docs \<or> (\<exists>ix \<in> set ixs. operation_document R ix = Some d)"
proof (induction ixs arbitrary: docs)
  case (Cons ix ixs)
  then have "d \<in> set (documents_after R ix docs) \<or> (\<exists>ix \<in> set ixs. operation_document R ix = Some d)" by simp
  moreover have "d \<in> set (documents_after R ix docs) \<Longrightarrow> d \<in> set docs \<or> operation_document R ix = Some d"
    by (cases ix) (auto split: option.splits result.splits)
  ultimately show ?case by auto
qed simp

lemma chain_document_block:
  assumes "ix \<in> set (chain_ops_of D v)" "operation_document R ix = Some d"
  shows "doc_block_offset d = Some (view_offset v)"
proof -
  obtain m where m: "view_mutation D (snd (snd v)) = Some m"
    using assms(1) by (cases "view_mutation D (snd (snd v))") (simp_all add: chain_ops_of_def from_chain_mutation_def)
  then obtain mu where mu: "em_mutation m = Some mu"
    using assms(1) by (cases "em_mutation m") (simp_all add: chain_ops_of_def from_chain_mutation_def from_chain_entity_mutation_def)
  show ?thesis
    using assms m mu by (cases mu) (auto simp: chain_ops_of_def from_chain_mutation_def from_chain_entity_mutation_def
        trait_put_to_document_def trait_tombstone_to_document_def entity_tombstone_to_document_def result_simps
        split: option.splits result.splits)
qed

lemma pending_document_block:
  assumes "ix \<in> set (pending_ops_of D v)" "operation_document R ix = Some d"
  shows "doc_block_offset d = None"
proof -
  obtain m where m: "view_mutation D (snd (snd v)) = Some m"
    using assms(1) by (cases "view_mutation D (snd (snd v))") (simp_all add: pending_ops_of_def from_pending_mutation_def)
  then obtain mu where mu: "em_mutation m = Some mu"
    using assms(1) by (cases "em_mutation m") (simp_all add: pending_ops_of_def from_pending_mutation_def)
  show ?thesis
    using assms m mu by (cases mu) (auto simp: pending_ops_of_def from_pending_mutation_def trait_put_to_document_def
        trait_tombstone_to_document_def entity_tombstone_to_document_def pending_deletion_marker_to_document_def result_simps
        split: option.splits result.splits)
qed

text \<open>
  The two copies that a fetch has of an operation: one of the pending index, which has no block, and one of the
  chain index with its block, when neither index had the operation before.
\<close>

lemma pending_copy:
  assumes res: "is_result (old @ pending_docs R ixs) e rp" and ok: "docs_ok (old @ pending_docs R ixs)"
    and ixs: "ixs = concat (map (pending_ops_of D) vs)"
    and puts: "\<And>u. u \<in> set vs \<Longrightarrow> mutates (pending_ops_of D) e u \<and> (\<forall>ix \<in> set (pending_ops_of D u). is_put ix)"
    and k: "k \<in> fst ` set vs" "k \<notin> doc_operation_id ` set old"
  shows "\<exists>m \<in> set rp. mm_operation_id m = k \<and> mm_block_offset m = None"
proof -
  have "doc_ids e (pending_docs R ixs) = fst ` set (filter (mutates (pending_ops_of D) e) vs)"
    unfolding doc_ids_def ixs using puts by (intro docs_ids pending_ops_entity) auto
  then have "k \<in> doc_ids e (old @ pending_docs R ixs)" using k(1) puts by (auto simp: doc_ids_append)
  then obtain m d where m: "m \<in> set rp" "mm_operation_id m = k" "d \<in> set (old @ pending_docs R ixs)" "doc_operation_id d = k"
      "mm_block_offset m = doc_block_offset d"
    using is_result_document [OF res ok] by blast
  then have "d \<in> set (pending_docs R ixs)" using k(2) imageI [of d "set old" doc_operation_id] by (auto simp del: mem_pending_docs)
  then obtain u ix where "ix \<in> set (pending_ops_of D u)" "operation_document R ix = Some d"
    unfolding ixs by (simp add: mem_pending_docs) blast
  then have "doc_block_offset d = None" by (rule pending_document_block)
  with m show ?thesis by auto
qed

lemma committed_copy:
  assumes res: "is_result (fold (documents_after R) ixs cdocs) e rc" and ok: "docs_ok (fold (documents_after R) ixs cdocs)"
    and ixs: "ixs = concat (map (chain_ops_of D) moved)" and block: "\<forall>v \<in> set moved. view_offset v < u64_max"
    and k: "k \<in> doc_ids e (fold (documents_after R) ixs cdocs)" "k \<notin> doc_operation_id ` set cdocs"
  shows "\<exists>m \<in> set rc. mm_operation_id m = k \<and> (\<exists>b. mm_block_offset m = Some b \<and> b < u64_max)"
proof -
  obtain m d where m: "m \<in> set rc" "mm_operation_id m = k" "d \<in> set (fold (documents_after R) ixs cdocs)" "doc_operation_id d = k"
      "mm_block_offset m = doc_block_offset d"
    using is_result_document [OF res ok] k(1) by blast
  then have "d \<notin> set cdocs" using k(2) imageI [of d "set cdocs" doc_operation_id] by auto
  then obtain u ix where "u \<in> set moved" and ix: "ix \<in> set (chain_ops_of D u)" "operation_document R ix = Some d"
    using fold_documents_from [OF m(3)] unfolding ixs by (simp, blast)
  then have "mm_block_offset m = Some (view_offset u)" "view_offset u < u64_max"
    using m(5) chain_document_block [OF ix] block by simp_all
  with m(1,2) show ?thesis by auto
qed

text \<open>
  (C40) Events tell of the past, while the index reads the present of the engine: when the event of a block is
  handled after the engine has written blocks on top of it, the operations of these blocks that are deep enough go to the
  chain index at once, and the events of these operations that are still to come put them into the pending index
  again, since the engine keeps committed operations in its pending store for a while. When this happens to two
  operations of an entity, a fetch of it returns an operation twice: the removal of duplicates only looks at neighbours in
  the order of commit. The batches are those that the indices can apply, as for a pass without late events.
\<close>

theorem late_events_duplicate:
  assumes lib: "index_lib_ok (xl_index L) visible written content"
    and at: "index_at L C E ch ps s last_off pdocs cdocs" and due: "pass_due ch s last_off height"
    and moved: "moved = moved_views last_off height (eic_chain_index_min_depth (ei_config s)) (committed_views ch)"
    and ixs: "ixs = concat (map (chain_ops_of (xl_decode L)) moved)"
    and fit: "operations_fit (il_reflection (xl_index L)) cdocs ixs"
    and few: "\<forall>e. length (entity_docs e (fold (documents_after (il_reflection (xl_index L))) ixs cdocs)) \<le> entity_max_traits"
    and same: "\<forall>v \<in> set moved. \<forall>d \<in> set pdocs. doc_operation_id d = fst v \<longrightarrow> doc_entity_id d = chain_entity_of (xl_decode L) v"
    and block: "\<forall>v \<in> set moved. view_offset v < u64_max"
    and two: "set [v, w] \<subseteq> set (pending_views ps)" "fst v \<noteq> fst w" "{fst v, fst w} \<subseteq> fst ` set moved"
      "{fst v, fst w} \<subseteq> chain_shown (xl_decode L) e moved (doc_ids e cdocs)" "{fst v, fst w} \<inter> doc_operation_id ` set cdocs = {}"
    and puts: "\<forall>u \<in> set [v, w]. mutates (pending_ops_of (xl_decode L)) e u \<and> (\<forall>ix \<in> set (pending_ops_of (xl_decode L) u). is_put ix)"
    and room: "\<forall>e. length (entity_docs e pdocs) + 2 \<le> entity_max_traits"
  shows "\<exists>ids n s' r s''.
    handle_chain_engine_events L [NewChainBlock b, NewPendingOperation (fst v), NewPendingOperation (fst w)] s = (Ok (ids, n), s') \<and>
    fetch_entity_mutations_metadata L e s' = (Ok r, s'') \<and> \<not> distinct (map mm_operation_id r)"
proof -
  let ?R = "il_reflection (xl_index L)" and ?D = "xl_decode L"
  let ?c = "fold (documents_after ?R) ixs cdocs" and ?p = "filter (\<lambda>d. doc_operation_id d \<notin> fst ` set moved) pdocs"
  let ?ixs = "concat (map (pending_ops_of ?D) [v, w])"
  obtain n ids s1 where new: "index_chain_new_blocks L s = (Ok (n, ids), s1)" "index_reach (xl_index L) (ei_chain_index s1) ?c"
      "index_reach (xl_index L) (ei_pending_index s1) ?p" "engine_at C E ch ps (ei_chain_handle s1)"
      "doc_ids e ?c = chain_shown ?D e moved (doc_ids e cdocs)"
    by (rule pass_moves [OF lib at due moved ixs fit refl few same])
  have len: "length (pending_docs ?R ?ixs) \<le> 2"
    using docs_length [of "[v, w]" "pending_ops_of ?D" ?R] pending_ops_length by auto
  have "length (entity_docs e' (?p @ pending_docs ?R ?ixs)) \<le> entity_max_traits" for e'
    using room [rule_format, of e'] len length_filter_le [of "\<lambda>d. doc_entity_id d = e'" "pending_docs ?R ?ixs"]
      entity_docs_filter_length [of e' "\<lambda>d. doc_operation_id d \<notin> fst ` set moved" pdocs]
    unfolding filter_append length_append by linarith
  then obtain mi h' where ev: "handle_chain_pending_operations L (map fst [v, w]) s1 =
        (Ok (length ?ixs), s1\<lparr>ei_pending_index := mi, ei_chain_handle := h'\<rparr>)"
      and mi: "index_reach (xl_index L) mi (?p @ pending_docs ?R ?ixs)"
    using engine.pending_events_ok [OF lib index_atD(1) [OF at] new(4) two(1) new(3) refl] puts by fastforce
  let ?s = "s1\<lparr>ei_pending_index := mi, ei_chain_handle := h'\<rparr>"
  have events: "\<exists>ids n. handle_chain_engine_events L [NewChainBlock b, NewPendingOperation (fst v), NewPendingOperation (fst w)] s = (Ok (ids, n), ?s)"
    using new(1) ev by (simp add: handle_chain_engine_events_def)
  have reach: "index_reach (xl_index L) (ei_pending_index ?s) (?p @ pending_docs ?R ?ixs)" "index_reach (xl_index L) (ei_chain_index ?s) ?c"
    using mi new(2) by simp_all
  obtain rp rc s'' where f: "fetch_entity_mutations_metadata L e ?s = (Ok (dedup_adjacent (sort_key commit_key (rp @ rc))), s'')"
      "is_result (?p @ pending_docs ?R ?ixs) e rp" "is_result ?c e rc"
    using fetch_metadata_results [OF lib reach] by blast
  have pending: "\<exists>m \<in> set rp. mm_operation_id m = k \<and> mm_block_offset m = None" if k: "k \<in> {fst v, fst w}" for k
  proof (rule pending_copy [OF f(2) index_reach_docs [OF lib reach(1)] refl])
    have "k \<in> fst ` set moved" using k two(3) by blast
    then show "k \<notin> doc_operation_id ` set ?p" unfolding set_filter by blast
  qed (use k puts in auto)
  have committed: "\<exists>m \<in> set rc. mm_operation_id m = k \<and> (\<exists>b. mm_block_offset m = Some b \<and> b < u64_max)"
    if "k \<in> {fst v, fst w}" for k
    using that two(4,5) unfolding new(5) [symmetric]
    by (intro committed_copy [OF f(3) index_reach_docs [OF lib reach(2)] ixs block]) (blast, blast)
  have "\<exists>m \<in> set (rp @ rc). mm_operation_id m = k \<and> (\<exists>b. mm_block_offset m = Some b \<and> b < u64_max)"
      "\<exists>m \<in> set (rp @ rc). mm_operation_id m = k \<and> mm_block_offset m = None" if "k \<in> {fst v, fst w}" for k
    using pending [OF that] committed [OF that] by auto
  then show ?thesis
    using both_twice [OF refl two(2), of "rp @ rc"] events f(1) by blast
qed

section \<open>An example\<close>

text \<open>
  A chain of the genesis block and a block with two puts of a trait of the entity \<open>a\<close> and a deletion of the first
  of them. The contents of entries are encoded as one byte.
\<close>

definition ex_entry :: "nat \<Rightarrow> bytes \<Rightarrow> chain_operation" where
  "ex_entry k d = \<lparr>co_operation_id = k, co_group_id = k, co_node_id = ''a'', co_operation = OpEntry d\<rparr>"

definition ex_ops :: "chain_operation list" where
  "ex_ops = [ex_entry 5 [1], ex_entry 6 [1], ex_entry 7 [2]]"

definition ex_genesis :: ablock where
  "ex_genesis = built_ablock example_codec example_cell 0 0 0 [] 0 (ops_of example_codec [])"

definition ex_block :: ablock where
  "ex_block = built_ablock example_codec example_cell (length (block_bytes example_codec ex_genesis)) 1 0 [] 9
     (ops_of example_codec ex_ops)"

definition ex_chain :: chain where
  "ex_chain = [(ex_genesis, []), (ex_block, ex_ops)]"

definition ex_offset :: nat where
  "ex_offset = bh_offset (ab_header ex_block)"

definition ex_trait :: entity_trait where
  "ex_trait = \<lparr>tr_id = ''t'', tr_message = Some (''m'', []), tr_creation_date = None, tr_modification_date = None,
     tr_deletion_date = None, tr_last_operation_id = 0\<rparr>"

definition ex_decode :: "bytes \<Rightarrow> entity_trait entity_mutation option" where
  "ex_decode d =
     (if d = [1] then Some \<lparr>em_entity_id = ''a'', em_mutation = Some (PutTrait (Some ex_trait))\<rparr>
      else if d = [2] then Some \<lparr>em_entity_id = ''a'', em_mutation = Some (DeleteOperations [5])\<rparr>
      else None)"

lemmas ex_block_simps = example_block_simps ex_entry_def ex_ops_def block_bytes_def header_bytes_def sigs_bytes_def

lemma ex_ops_ok: "\<forall>m \<in> set ex_ops. op_codec_ok example_codec m"
  by (simp add: ex_ops_def) (intro conjI op_codec_example; simp add: ex_block_simps)

lemma ex_genesis_buildable: "buildable example_codec ex_genesis"
  unfolding ex_genesis_def buildable_def
  by (intro conjI header_codec_example sigs_codec_example) (simp_all add: ex_block_simps)

lemma ex_block_buildable: "buildable example_codec ex_block"
  unfolding ex_block_def buildable_def
  by (intro conjI header_codec_example sigs_codec_example) (simp_all add: ex_block_simps ex_genesis_def)

lemma ex_blocks_built:
  obtains b b' where "block_is example_codec b ex_genesis" "ablock_wf example_codec ex_genesis"
    "block_is example_codec b' ex_block" "ablock_wf example_codec ex_block"
  using build_with_prev_info_is [OF ex_genesis_buildable [unfolded ex_genesis_def]]
    build_with_prev_info_is [OF ex_block_buildable [unfolded ex_block_def]]
  by (auto simp: ex_genesis_def ex_block_def)

lemma ex_block_facts:
  "bh_offset (ab_header ex_genesis) = 0" "bh_height (ab_header ex_genesis) = 1" "bh_height (ab_header ex_block) = 2"
  "bh_offset (ab_header ex_block) = length (block_bytes example_codec ex_genesis)"
  "block_holds example_codec ex_genesis []" "block_holds example_codec ex_block ex_ops"
  "block_ids ex_genesis [] = [0]" "block_ids ex_block ex_ops = [9, 5, 6, 7]" "0 < ex_offset" "ex_offset < u64_max"
  using ex_ops_ok
  by (simp_all add: ex_genesis_def ex_block_def ex_offset_def block_holds_def block_ids_def u64_max_def ex_block_simps)

lemma ex_chain_ok: "chain_ok example_codec [(ex_genesis, [])]" "chain_ok example_codec ex_chain"
proof -
  obtain b b' where "ablock_wf example_codec ex_genesis" "ablock_wf example_codec ex_block" by (rule ex_blocks_built)
  then show "chain_ok example_codec [(ex_genesis, [])]" "chain_ok example_codec ex_chain"
    using ex_block_facts(1,4-8)
    by (auto simp: chain_ok_def chain_entries_def unique_ids_def ids_of_def iblock_of_def ex_chain_def)
qed

lemma ex_chain_held:
  obtains st where "dir_store_holds example_codec example_ext st ex_chain"
proof -
  obtain st0 where st0: "dir_store_holds example_codec example_ext st0 []" by (rule example_dir_store)
  obtain b b' where b: "block_is example_codec b ex_genesis" "block_is example_codec b' ex_block" by (rule ex_blocks_built)
  obtain st1 where st1: "dir_store_holds example_codec example_ext st1 [(ex_genesis, [])]"
    using dir.write_ok [OF st0 b(1)] ex_chain_ok(1) by auto
  from dir.write_ok [OF st1 b(2), of ex_ops] ex_chain_ok(2) that show thesis by (auto simp: ex_chain_def)
qed

lemma ex_views:
  "committed_views ex_chain = [(5, EngCommitted ex_offset 2, OpEntry [1]), (6, EngCommitted ex_offset 2, OpEntry [1]),
     (7, EngCommitted ex_offset 2, OpEntry [2])]"
  "chain_heights ex_chain = [(0, 1), (ex_offset, 2)]"
  by (simp_all add: committed_views_def chain_ops_def ex_chain_def chain_heights_def ex_block_facts ex_offset_def ex_ops_def ex_entry_def)

text \<open>An index with nothing in it, whose pass moves every block, over an engine with the chain of the example.\<close>

type_synonym ex_handle = "((nat \<times> nat) list, nat \<times> engine_event list, nat \<times> out_message list) engine_inner option"

definition ex_libs ::
  "(bytes \<Rightarrow> entity_trait entity_mutation option) \<Rightarrow>
     (unit, unit document list \<times> unit document list, (entity_id \<times> mutation_metadata list) list, ex_handle) entity_libs" where
  "ex_libs D = \<lparr>xl_index = ex_index_lib, xl_handle = engine_chain_handle example_codec example_ext, xl_decode = D, xl_make_dir = Ok (),
     xl_reset_dir = Ok (), xl_hash = sum_list, xl_project = (\<lambda>trt p. trt)\<rparr>"

definition ex_new_index where
  "ex_new_index = \<lparr>mi_index = tv_new ex_tantivy, mi_entity_cache = lru_new ex_lru 1\<rparr>"

definition ex_entity_index where
  "ex_entity_index st ps p c last_off = \<lparr>ei_config = entity_index_config_default\<lparr>eic_chain_index_min_depth := 0\<rparr>,
     ei_pending_index = p, ei_chain_index = c, ei_chain_index_last_block = last_off,
     ei_chain_handle = Some ((example_engine st)\<lparr>in_pending_store := ps\<rparr>),
     ei_gc = \<lparr>gc_conf = gc_config_default, gc_max_entity_deleted_duration = 0, gc_max_trait_deleted_duration = 0,
       gc_trait_versions_min_age = 0, gc_entity_ids = []\<rparr>\<rparr>"

lemma ex_new_index_reach: "index_reach ex_index_lib ex_new_index []"
  by (rule index_created [of _ 1]) (simp add: create_in_memory_def ex_index_lib_def ex_new_index_def)

lemma ex_index_at:
  assumes st: "dir_store_holds example_codec example_ext st ex_chain" and ps: "pending_reachable ps"
    and reach: "index_reach ex_index_lib p pdocs" "index_reach ex_index_lib c cdocs"
    and last_off: "last_off = None \<and> cdocs = [] \<or> last_off = Some ex_offset"
  shows "index_at (ex_libs D) example_codec example_ext ex_chain ps (ex_entity_index st ps p c last_off) last_off pdocs cdocs"
proof -
  have "cdocs = [] \<Longrightarrow> highest_indexed_block ex_index_lib c = None"
    using pending_empty [OF ex_index_lib_ok reach(2)] by simp
  then show ?thesis
    using st pending_reachable_inv [OF ps] reach last_off
    by (auto simp: index_at_def ex_libs_def ex_entity_index_def engine_at_def example_engine_def engine_new_def
        indexed_upto_def ex_views split: option.splits)
qed

lemma ex_pass_due: "pass_due ex_chain (ex_entity_index st ps p c None) None 2"
  by (simp add: pass_due_def ex_views) (simp add: ex_chain_def)

lemmas ex_op_simps = chain_ops_of_def chain_entity_of_def pending_ops_of_def view_mutation_def from_chain_mutation_def from_pending_mutation_def
  from_chain_entity_mutation_def ex_decode_def ex_trait_def

lemma ex_moved:
  "moved_views None 2 (eic_chain_index_min_depth (ei_config (ex_entity_index st ps p c None))) (committed_views ex_chain) = committed_views ex_chain"
  using ex_block_facts(9) by (simp add: moved_views_def ex_views ex_entity_index_def)

lemma ex_libs_simps [simp]: "xl_index (ex_libs D) = ex_index_lib" "xl_decode (ex_libs D) = D"
  by (simp_all add: ex_libs_def)

text \<open>Documents of puts, of the pending index and of the chain index.\<close>

definition ex_put_at :: "nat \<Rightarrow> nat option \<Rightarrow> mutation_index_operation" where
  "ex_put_at i off = IxPutTrait \<lparr>px_block_offset = off, px_operation_id = i, px_entity_id = ''a'', px_trt = ex_trait\<rparr>"

definition ex_doc :: "nat \<Rightarrow> nat option \<Rightarrow> unit document" where
  "ex_doc i off = \<lparr>doc_trait_type = Some ''m'', doc_trait_id = Some ''t'', doc_entity_id = ''a'', doc_operation_id = i,
     doc_block_offset = off, doc_creation_date = None, doc_modification_date = None, doc_document_type = trait_put_id,
     doc_has_reference = False, doc_fields = []\<rparr>"

lemma ex_put_simps [simp]:
  "operation_document (il_reflection ex_index_lib) (ex_put_at i off) = Some (ex_doc i off)"
  "documents_after (il_reflection ex_index_lib) (ex_put_at i off) docs = docs @ [ex_doc i off]"
  "operation_fits docs (ex_put_at i off)" "is_put (ex_put_at i off)"
  "operation_entity (ex_put_at i off) = ''a''" "ids_after e (ex_put_at i off) ids = (if e = ''a'' then insert i ids else ids)"
  "doc_operation_id (ex_doc i off) = i" "doc_entity_id (ex_doc i off) = ''a''"
  by (simp_all add: ex_put_at_def ex_doc_def ex_trait_def ex_index_lib_def trait_put_to_document_def is_put_def)

lemma ex_ops_of [simp]:
  "chain_ops_of ex_decode (i, EngCommitted off t, OpEntry [1]) = [ex_put_at i (Some off)]"
  "chain_ops_of ex_decode (i, EngCommitted off t, OpEntry [2]) = [IxDeleteEntityOperation ''a'' 5]"
  "chain_entity_of ex_decode (i, EngCommitted off t, OpEntry [1]) = ''a''"
  "chain_entity_of ex_decode (i, EngCommitted off t, OpEntry [2]) = ''a''"
  "pending_ops_of ex_decode (i, st, OpEntry [1]) = [ex_put_at i None]"
  by (simp_all add: ex_op_simps ex_put_at_def)

lemma ex_batch:
  assumes "index_reach ex_index_lib mi docs" "operations_fit (il_reflection ex_index_lib) docs ixs"
    and "length (fold (documents_after (il_reflection ex_index_lib)) ixs docs) \<le> entity_max_traits"
  obtains mi' where "index_reach ex_index_lib mi' (fold (documents_after (il_reflection ex_index_lib)) ixs docs)"
proof -
  have "\<forall>e. length (entity_docs e (fold (documents_after (il_reflection ex_index_lib)) ixs docs)) \<le> entity_max_traits"
    using assms(3) by (meson length_filter_le order_trans)
  from apply_fits [OF ex_index_lib_ok assms(1,2) refl this] that show thesis by blast
qed

section \<open>The properties on the example\<close>

text \<open>
  The pending index has the three operations of the block and the pending operation 8. The block moves: the puts 5
  and 6 go to the chain index, where the deletion 7 removes 5 again.
\<close>

theorem indexing_loses_nothing_witness:
  "\<exists>(st :: (nat \<times> nat) list dir_store) p ids n s' r s''.
     index_at (ex_libs ex_decode) example_codec example_ext ex_chain pending_new (ex_entity_index st pending_new p ex_new_index None) None
       [ex_doc 5 None, ex_doc 6 None, pending_deletion_marker_to_document ''a'' 7, ex_doc 8 None] [] \<and>
     handle_chain_engine_events (ex_libs ex_decode) [NewChainBlock 0] (ex_entity_index st pending_new p ex_new_index None) = (Ok (ids, n), s') \<and>
     fetch_entity_mutations_metadata (ex_libs ex_decode) ''a'' s' = (Ok r, s'') \<and> mm_operation_id ` set r = {6, 8}"
proof -
  let ?pixs = "[ex_put_at 5 None, ex_put_at 6 None, IxPendingDeletionMarker ''a'' 7, ex_put_at 8 None]"
  let ?pdocs = "[ex_doc 5 None, ex_doc 6 None, pending_deletion_marker_to_document ''a'' 7, ex_doc 8 None]"
  obtain st :: "(nat \<times> nat) list dir_store" where st: "dir_store_holds example_codec example_ext st ex_chain" by (rule ex_chain_held)
  have fold: "fold (documents_after (il_reflection ex_index_lib)) ?pixs [] = ?pdocs" by simp
  obtain p where p: "index_reach ex_index_lib p ?pdocs"
    by (rule ex_batch [OF ex_new_index_reach, of ?pixs, unfolded fold]) (simp_all add: entity_max_traits_def)
  let ?s = "ex_entity_index st pending_new p ex_new_index None"
  let ?ixs = "[ex_put_at 5 (Some ex_offset), ex_put_at 6 (Some ex_offset), IxDeleteEntityOperation ''a'' 5]"
  have lib: "index_lib_ok (xl_index (ex_libs ex_decode)) fst snd map_of" using ex_index_lib_ok by simp
  have at: "index_at (ex_libs ex_decode) example_codec example_ext ex_chain pending_new ?s None ?pdocs []"
    by (rule ex_index_at [OF st pending_reachable_new p ex_new_index_reach]) simp
  have ixs: "?ixs = concat (map (chain_ops_of (xl_decode (ex_libs ex_decode))) (committed_views ex_chain))"
    by (simp add: ex_views)
  have fit: "operations_fit (il_reflection (xl_index (ex_libs ex_decode))) [] ?ixs" by simp
  have few: "\<forall>e. length (entity_docs e (fold (documents_after (il_reflection (xl_index (ex_libs ex_decode)))) ?ixs [])) \<le> entity_max_traits"
    by (simp add: entity_max_traits_def)
  have same: "\<forall>v \<in> set (committed_views ex_chain). \<forall>d \<in> set ?pdocs. doc_operation_id d = fst v \<longrightarrow>
      doc_entity_id d = chain_entity_of (xl_decode (ex_libs ex_decode)) v"
    by (simp add: ex_views pending_deletion_marker_to_document_def)
  have "(doc_ids ''a'' ?pdocs - fst ` set (committed_views ex_chain)) \<union>
      chain_shown (xl_decode (ex_libs ex_decode)) ''a'' (committed_views ex_chain) (doc_ids ''a'' ([] :: unit document list)) = {6, 8}"
    by (auto simp: doc_ids_def chain_shown_def ex_views pending_deletion_marker_to_document_def)
  with indexing_loses_nothing [OF lib at ex_pass_due ex_moved [symmetric] ixs fit few same, of 0 "''a''"] at
  show ?thesis by (intro exI [of _ st] exI [of _ p]) auto
qed

text \<open>
  The chain index has the block, the pending store the operation 8. The events had a gap: what was put and not deleted in
  the block is shown, and so is the pending operation, which the pending index did not have.
\<close>

definition ex_pending :: "(nat \<times> bytes) list \<Rightarrow> pending_store" where
  "ex_pending es = fold (\<lambda>(i, d) ps. snd (pending_put (example_pending_op i i (OpEntry d)) ps)) es pending_new"

lemma ex_pending_reachable: "pending_reachable (ex_pending es)"
proof -
  have "pending_reachable ps \<Longrightarrow> pending_reachable (fold (\<lambda>(i, d) ps. snd (pending_put (example_pending_op i i (OpEntry d)) ps)) es ps)" for ps
    by (induction es arbitrary: ps) (auto simp: pending_reachable_put)
  then show ?thesis by (simp add: ex_pending_def pending_reachable_new)
qed

text \<open>Operations that were committed and not yet cleaned up.\<close>

definition ex_committed :: pending_store where
  "ex_committed = fold (\<lambda>i ps. snd (pending_update_status i (Committed ex_offset 2) ps)) [5, 6] (ex_pending [(5, [1]), (6, [1])])"

lemma ex_committed_reachable: "pending_reachable ex_committed"
proof -
  have "pending_reachable ps \<Longrightarrow> pending_reachable (snd (pending_update_status i status ps))" for ps i status
    unfolding pending_reachable_def by (meson rtranclp.rtrancl_into_rtrancl step_update)
  then show ?thesis by (simp add: ex_committed_def ex_pending_reachable)
qed

lemma ex_pending_views:
  "pending_views (ex_pending [(8, [1])]) = [(8, EngPending, OpEntry [1])]"
  "pending_views ex_committed = [(5, EngCommitted ex_offset 2, OpEntry [1]), (6, EngCommitted ex_offset 2, OpEntry [1])]"
  by (simp_all add: pending_views_def pending_iter_def ex_pending_def ex_committed_def pending_update_status_def
      example_pending_op_def pending_put_def pending_new_def op_get_id_def op_get_group_id_def bt_range_def get_group_operation_def stored_of_def from_pending_def view_of_def)


text \<open>
  The engine has the block and still has its operations 5 and 6 in the pending store; the index has seen nothing of them. In this
  example every entry is a put.
\<close>

definition ex_puts :: "bytes \<Rightarrow> entity_trait entity_mutation option" where
  "ex_puts d = Some \<lparr>em_entity_id = ''a'', em_mutation = Some (PutTrait (Some ex_trait))\<rparr>"

lemma ex_puts_of [simp]:
  "chain_ops_of ex_puts (i, EngCommitted off t, OpEntry d) = [ex_put_at i (Some off)]"
  "pending_ops_of ex_puts (i, st, OpEntry d) = [ex_put_at i None]"
  by (simp_all add: ex_op_simps ex_puts_def ex_put_at_def)

theorem late_events_duplicate_witness:
  "\<exists>(st :: (nat \<times> nat) list dir_store) ids n s' r s''. dir_store_holds example_codec example_ext st ex_chain \<and>
     handle_chain_engine_events (ex_libs ex_puts) [NewChainBlock 0, NewPendingOperation 5, NewPendingOperation 6]
       (ex_entity_index st ex_committed ex_new_index ex_new_index None) = (Ok (ids, n), s') \<and>
     fetch_entity_mutations_metadata (ex_libs ex_puts) ''a'' s' = (Ok r, s'') \<and> \<not> distinct (map mm_operation_id r)"
proof -
  let ?ps = "ex_committed" and ?D = "xl_decode (ex_libs ex_puts)"
  let ?v = "(5, EngCommitted ex_offset 2, OpEntry [1]) :: op_view" and ?w = "(6, EngCommitted ex_offset 2, OpEntry [1]) :: op_view"
  let ?ixs = "[ex_put_at 5 (Some ex_offset), ex_put_at 6 (Some ex_offset), ex_put_at 7 (Some ex_offset)]"
  obtain st :: "(nat \<times> nat) list dir_store" where st: "dir_store_holds example_codec example_ext st ex_chain" by (rule ex_chain_held)
  have lib: "index_lib_ok (xl_index (ex_libs ex_puts)) fst snd map_of" using ex_index_lib_ok by simp
  have at: "index_at (ex_libs ex_puts) example_codec example_ext ex_chain ?ps (ex_entity_index st ?ps ex_new_index ex_new_index None) None [] []"
    by (rule ex_index_at [OF st ex_committed_reachable ex_new_index_reach ex_new_index_reach]) simp
  have ixs: "?ixs = concat (map (chain_ops_of ?D) (committed_views ex_chain))" by (simp add: ex_views)
  have fit: "operations_fit (il_reflection (xl_index (ex_libs ex_puts))) [] ?ixs" by simp
  have few: "\<forall>e. length (entity_docs e (fold (documents_after (il_reflection (xl_index (ex_libs ex_puts)))) ?ixs [])) \<le> entity_max_traits"
    by (simp add: entity_max_traits_def)
  have same: "\<forall>v \<in> set (committed_views ex_chain). \<forall>d \<in> set ([] :: unit document list). doc_operation_id d = fst v \<longrightarrow>
      doc_entity_id d = chain_entity_of ?D v" by simp
  have block: "\<forall>v \<in> set (committed_views ex_chain). view_offset v < u64_max" using ex_block_facts(10) by (simp add: ex_views)
  have two: "set [?v, ?w] \<subseteq> set (pending_views ?ps)" "fst ?v \<noteq> fst ?w" "{fst ?v, fst ?w} \<subseteq> fst ` set (committed_views ex_chain)"
      "{fst ?v, fst ?w} \<subseteq> chain_shown ?D ''a'' (committed_views ex_chain) (doc_ids ''a'' ([] :: unit document list))"
      "{fst ?v, fst ?w} \<inter> doc_operation_id ` set ([] :: unit document list) = {}"
    by (simp_all add: ex_pending_views ex_views chain_shown_def)
  have puts: "\<forall>u \<in> set [?v, ?w]. mutates (pending_ops_of ?D) ''a'' u \<and> (\<forall>ix \<in> set (pending_ops_of ?D u). is_put ix)"
    by (simp add: mutates_def)
  have room: "\<forall>e. length (entity_docs e ([] :: unit document list)) + 2 \<le> entity_max_traits" by (simp add: entity_max_traits_def)
  from late_events_duplicate [OF lib at ex_pass_due ex_moved [symmetric] ixs fit few same block two puts room, of 0] st
  show ?thesis by (intro exI [of _ st]) auto
qed

end
