(* ===== verification/Exo_Export.thy ===== *)
theory Exo_Export
  imports Exo_Entity_Index "HOL-Library.List_Lexorder" "HOL-Library.Char_ord"
begin

text \<open>
  The entities of a chain for exports (\<open>store/src/local/entity_index/iterator.rs\<close>): all mutations of the chain
  sorted by entity, block and operation, and an iterator that aggregates the run of each entity. The sorter
  keeps its data on disk, which is not modelled.
\<close>

section \<open>Mutations of the chain\<close>

record committed_entity_mutation =
  cm_block_offset :: nat
  cm_operation_id :: nat
  cm_mutation :: "entity_trait entity_mutation"

fun entry_mutations ::
  "(bytes \<Rightarrow> entity_trait entity_mutation option) \<Rightarrow> nat \<Rightarrow> operation_frame list \<Rightarrow>
     (store_error, committed_entity_mutation list) result" where
  "entry_mutations decode offset [] = Ok []"
| "entry_mutations decode offset (operation # ops) =
     (case co_operation (tf_reader operation) of
        OpEntry data \<Rightarrow>
          and_then (ok_or StoreProto (decode data)) (\<lambda>mutation.
          and_then (entry_mutations decode offset ops) (\<lambda>rest.
            Ok (\<lparr>cm_block_offset = offset, cm_operation_id = co_operation_id (tf_reader operation), cm_mutation = mutation\<rparr> # rest)))
      | _ \<Rightarrow> entry_mutations decode offset ops)"

definition extract_block_mutations ::
  "('c) codec_scheme \<Rightarrow> (bytes \<Rightarrow> entity_trait entity_mutation option) \<Rightarrow> data_block \<Rightarrow>
     (store_error, committed_entity_mutation list) result" where
  "extract_block_mutations C decode block =
     and_then (map_err StoreChainBlock (block_operation_frames C block)) (entry_mutations decode (db_offset block))"

text \<open>Reading goes on until the first error.\<close>

function chain_mutations ::
  "('c) codec_scheme \<Rightarrow> (bytes \<Rightarrow> entity_trait entity_mutation option) \<Rightarrow> dir_iter \<Rightarrow> 'r dir_store \<Rightarrow>
     (store_error, committed_entity_mutation list) result \<times> 'r dir_store" where
  "chain_mutations C decode it st =
     (case iter_next C it st of
        (None, it', st') \<Rightarrow> (Ok [], st')
      | (Some (Ok block), it', st') \<Rightarrow>
          (case extract_block_mutations C decode block of
             Ok mutations \<Rightarrow>
               (case chain_mutations C decode it' st' of (r, st'') \<Rightarrow> (and_then r (\<lambda>rest. Ok (mutations @ rest)), st''))
           | Err e \<Rightarrow> (Err e, st')
           | Panic \<Rightarrow> (Panic, st'))
      | (Some (Err e), it', st') \<Rightarrow> (Err (StoreChain e), st')
      | (Some Panic, it', st') \<Rightarrow> (Panic, st'))"
  by pat_completeness auto
termination
  by (relation "measure (\<lambda>(C, decode, it, st). dir_end st - it_current_offset it)")
    (auto intro: iter_next_measure)

declare chain_mutations.simps [simp del]

definition sortable_key :: "committed_entity_mutation \<Rightarrow> entity_id \<times> nat \<times> nat" where
  "sortable_key m = (em_entity_id (cm_mutation m), cm_block_offset m, cm_operation_id m)"

text \<open>An error while reading the chain is found before the iteration starts.\<close>

definition chain_entity_mutations ::
  "('c) codec_scheme \<Rightarrow> (bytes \<Rightarrow> entity_trait entity_mutation option) \<Rightarrow>
     ('r dir_store, store_error, committed_entity_mutation list) sop" where
  "chain_entity_mutations C decode st =
     (case chain_mutations C decode (blocks_iter 0) st of
        (r, st1) \<Rightarrow> (and_then r (\<lambda>mutations. Ok (sort_key sortable_key mutations)), st1))"

section \<open>Metadata of a mutation\<close>

definition ordering_wrapper_default :: ordering_wrapper where
  "ordering_wrapper_default = \<lparr>ow_value = \<lparr>ov_value = None, ov_operation_id = 0\<rparr>, ow_reverse = False, ow_ignore = False\<rparr>"

definition committed_metadata :: "committed_entity_mutation \<Rightarrow> mutation_type \<Rightarrow> mutation_metadata" where
  "committed_metadata m mutation_type =
     \<lparr>mm_operation_id = cm_operation_id m, mm_block_offset = Some (cm_block_offset m),
      mm_entity_id = em_entity_id (cm_mutation m), mm_mutation_type = mutation_type, mm_sort_value = ordering_wrapper_default\<rparr>"

definition put_trait_to_metadata :: "entity_trait option \<Rightarrow> committed_entity_mutation \<Rightarrow> (store_error, mutation_metadata) result" where
  "put_trait_to_metadata put m =
     and_then (ok_or StoreOther put) (\<lambda>trt.
       Ok (committed_metadata m (TraitPut \<lparr>pt_trait_id = tr_id trt, pt_trait_type = None,
             pt_creation_date = tr_creation_date trt, pt_modification_date = tr_modification_date trt, pt_has_reference = False\<rparr>)))"

definition entity_to_mutation_metadata :: "committed_entity_mutation \<Rightarrow> (store_error, mutation_metadata option) result" where
  "entity_to_mutation_metadata m =
     and_then (ok_or StoreOther (em_mutation (cm_mutation m))) (\<lambda>mutation_type.
       case mutation_type of
         PutTrait put \<Rightarrow> and_then (put_trait_to_metadata put m) (\<lambda>md. Ok (Some md))
       | DeleteTrait trait_id \<Rightarrow> Ok (Some (committed_metadata m (TraitTombstone trait_id)))
       | DeleteEntity \<Rightarrow> Ok (Some (committed_metadata m EntityTombstone))
       | _ \<Rightarrow> Ok None)"

section \<open>Entities\<close>

record entity =
  en_id :: entity_id
  en_traits :: "entity_trait list"
  en_creation_date :: "date option"
  en_modification_date :: "date option"
  en_deletion_date :: "date option"
  en_last_operation_id :: nat

text \<open>The mutations up to the next entity, with the traits they put. An entity without identifier is none yet.\<close>

type_synonym entity_run = "entity_id \<times> mutation_metadata list \<times> (nat \<times> entity_trait) list"

definition insert_put :: "committed_entity_mutation \<Rightarrow> (nat \<times> entity_trait) list \<Rightarrow> (nat \<times> entity_trait) list" where
  "insert_put m traits =
     (case em_mutation (cm_mutation m) of
        Some (PutTrait (Some trt)) \<Rightarrow> hm_insert (cm_operation_id m) trt traits
      | _ \<Rightarrow> traits)"

fun next_run ::
  "entity_id \<Rightarrow> mutation_metadata list \<Rightarrow> (nat \<times> entity_trait) list \<Rightarrow> committed_entity_mutation list \<Rightarrow>
     (store_error, entity_run) result \<times> committed_entity_mutation list" where
  "next_run entity_id buffer traits [] = (Ok (entity_id, buffer, traits), [])"
| "next_run entity_id buffer traits (m # ms) =
     (let next_id = em_entity_id (cm_mutation m) in
      if entity_id \<noteq> [] \<and> entity_id \<noteq> next_id then (Ok (entity_id, buffer, traits), m # ms)
      else
        (case entity_to_mutation_metadata m of
           Ok None \<Rightarrow> next_run next_id buffer traits ms
         | Ok (Some metadata) \<Rightarrow> next_run next_id (buffer @ [metadata]) (insert_put m traits) ms
         | Err e \<Rightarrow> (Err e, ms)
         | Panic \<Rightarrow> (Panic, ms)))"

text \<open>The active version of each trait, taken out of the map of the traits that were put.\<close>

fun active_traits :: "traits \<Rightarrow> (nat \<times> entity_trait) list \<Rightarrow> entity_trait list" where
  "active_traits [] puts = []"
| "active_traits ((trait_id, agg) # traits) puts =
     (case last_put_mutation agg of
        None \<Rightarrow> active_traits traits puts
      | Some (mut_meta, _) \<Rightarrow>
          (case map_of puts (mm_operation_id mut_meta) of
             Some trt \<Rightarrow> dated_trait agg trt # active_traits traits (hm_remove (mm_operation_id mut_meta) puts)
           | None \<Rightarrow> active_traits traits puts))"

definition run_entity :: "(nat list \<Rightarrow> nat) \<Rightarrow> entity_run \<Rightarrow> (store_error, entity) result" where
  "run_entity hash run =
     (case run of (entity_id, buffer, puts) \<Rightarrow>
        and_then (entity_aggregator_new hash buffer) (\<lambda>aggr.
          Ok \<lparr>en_id = entity_id, en_traits = active_traits (ea_traits aggr) puts,
              en_creation_date = ea_creation_date aggr, en_modification_date = ea_modification_date aggr,
              en_deletion_date = ea_deletion_date aggr, en_last_operation_id = ea_last_operation_id aggr\<rparr>))"

definition extract_next_entity ::
  "(nat list \<Rightarrow> nat) \<Rightarrow> committed_entity_mutation list \<Rightarrow> (store_error, entity option) result \<times> committed_entity_mutation list" where
  "extract_next_entity hash mutations =
     (case next_run [] [] [] mutations of (r, rest) \<Rightarrow>
        (and_then r (\<lambda>run. if fst run = [] then Ok None else and_then (run_entity hash run) (\<lambda>en. Ok (Some en))), rest))"

lemma next_run_rest: "next_run e buffer traits ms = (r, rest) \<Longrightarrow> length rest \<le> length ms"
  by (induction e buffer traits ms rule: next_run.induct) (fastforce simp: Let_def split: if_splits result.splits option.splits)+

lemma extract_shorter:
  assumes "extract_next_entity hash ms = (Ok (Some en), rest)"
  shows "length rest < length ms"
proof (cases ms)
  case (Cons m ms')
  then show ?thesis
    using assms next_run_rest by (fastforce simp: extract_next_entity_def Let_def split: prod.splits result.splits option.splits)
qed (use assms in \<open>auto simp: extract_next_entity_def\<close>)

text \<open>All entities, until the first error.\<close>

function chain_entities :: "(nat list \<Rightarrow> nat) \<Rightarrow> committed_entity_mutation list \<Rightarrow> (store_error, entity list) result" where
  "chain_entities hash mutations =
     (case extract_next_entity hash mutations of
        (Ok None, _) \<Rightarrow> Ok []
      | (Ok (Some en), rest) \<Rightarrow> and_then (chain_entities hash rest) (\<lambda>es. Ok (en # es))
      | (Err e, _) \<Rightarrow> Err e
      | (Panic, _) \<Rightarrow> Panic)"
  by pat_completeness auto
termination
  by (relation "measure (\<lambda>(hash, ms). length ms)") (auto dest: extract_shorter [OF sym])

declare chain_entities.simps [simp del]

end
