(* ===== verification/Exo_Export_Props.thy ===== *)
theory Exo_Export_Props
  imports Exo_Export Exo_Handle_Props Exo_Aggregator_Props
begin

text \<open>
  The iterator for exports gives every entity of the chain once, in the order of the identifiers, aggregated
  from exactly the mutations of the entity: what grouping all mutations by entity would give.
\<close>

section \<open>Grouping by entity\<close>

abbreviation entity_of :: "committed_entity_mutation \<Rightarrow> entity_id" where
  "entity_of m \<equiv> em_entity_id (cm_mutation m)"

abbreviation mutations_of :: "entity_id \<Rightarrow> committed_entity_mutation list \<Rightarrow> committed_entity_mutation list" where
  "mutations_of e ms \<equiv> filter (\<lambda>m. entity_of m = e) ms"

definition metadata_list :: "committed_entity_mutation list \<Rightarrow> mutation_metadata list" where
  "metadata_list ms = List.map_filter (\<lambda>m. case entity_to_mutation_metadata m of Ok md \<Rightarrow> md | _ \<Rightarrow> None) ms"

fun traverse :: "('a \<Rightarrow> ('e, 'b) result) \<Rightarrow> 'a list \<Rightarrow> ('e, 'b list) result" where
  "traverse f [] = Ok []"
| "traverse f (x # xs) = and_then (f x) (\<lambda>y. and_then (traverse f xs) (\<lambda>ys. Ok (y # ys)))"

definition entities_by_id :: "(nat list \<Rightarrow> nat) \<Rightarrow> committed_entity_mutation list \<Rightarrow> (store_error, entity list) result" where
  "entities_by_id hash ms =
     traverse (\<lambda>e. run_entity hash (e, metadata_list (mutations_of e ms), fold insert_put (mutations_of e ms) []))
       (sorted_list_of_set (entity_of ` set ms))"

lemma traverse_cong: "(\<And>x. x \<in> set xs \<Longrightarrow> f x = g x) \<Longrightarrow> traverse f xs = traverse g xs"
  by (induction xs) auto

lemma insert_put_none: "entity_to_mutation_metadata m = Ok None \<Longrightarrow> insert_put m traits = traits"
proof (cases "em_mutation (cm_mutation m)")
  case (Some mu)
  then show "entity_to_mutation_metadata m = Ok None \<Longrightarrow> insert_put m traits = traits"
    by (cases mu) (auto simp: entity_to_mutation_metadata_def insert_put_def put_trait_to_metadata_def result_simps split: option.splits)
qed (simp add: insert_put_def)

lemma metadata_list_simps [simp]:
  "metadata_list [] = []"
  "entity_to_mutation_metadata m = Ok md \<Longrightarrow>
     metadata_list (m # ms) = (case md of Some x \<Rightarrow> x # metadata_list ms | None \<Rightarrow> metadata_list ms)"
  by (simp_all add: metadata_list_def List.map_filter_simps split: option.splits)

section \<open>A run of the iterator\<close>

lemma next_run_takes:
  assumes "e \<noteq> []" and "\<forall>m \<in> set ms. is_ok (entity_to_mutation_metadata m)"
  shows "next_run e buffer traits ms =
    (Ok (e, buffer @ metadata_list (takeWhile (\<lambda>m. entity_of m = e) ms), fold insert_put (takeWhile (\<lambda>m. entity_of m = e) ms) traits),
     dropWhile (\<lambda>m. entity_of m = e) ms)"
  using assms
proof (induction ms arbitrary: buffer traits)
  case (Cons m ms)
  obtain md where md: "entity_to_mutation_metadata m = Ok md"
    using Cons.prems(2) by (cases "entity_to_mutation_metadata m") auto
  show ?case
  proof (cases "entity_of m = e")
    case True
    then show ?thesis
      using Cons md insert_put_none [of m traits] by (cases md) auto
  qed (use Cons.prems(1) in simp)
qed simp

lemma sorted_groups:
  fixes ms :: "committed_entity_mutation list"
  assumes "sorted (map entity_of ms)" and "\<forall>m \<in> set ms. e \<le> entity_of m"
  shows "takeWhile (\<lambda>m. entity_of m = e) ms = mutations_of e ms" "dropWhile (\<lambda>m. entity_of m = e) ms = filter (\<lambda>m. entity_of m \<noteq> e) ms"
proof -
  have "takeWhile (\<lambda>m. entity_of m = e) ms = mutations_of e ms \<and> dropWhile (\<lambda>m. entity_of m = e) ms = filter (\<lambda>m. entity_of m \<noteq> e) ms"
    using assms
  proof (induction ms)
    case (Cons m ms)
    show ?case
    proof (cases "entity_of m = e")
      case False
      then have "e < entity_of m" using Cons.prems(2) by (simp add: order_less_le)
      then have "\<forall>x \<in> set ms. entity_of x \<noteq> e" using Cons.prems(1) by auto
      then show ?thesis using False by (auto simp: filter_empty_conv filter_id_conv)
    qed (use Cons in auto)
  qed simp
  then show "takeWhile (\<lambda>m. entity_of m = e) ms = mutations_of e ms" "dropWhile (\<lambda>m. entity_of m = e) ms = filter (\<lambda>m. entity_of m \<noteq> e) ms"
    by simp_all
qed

lemma sorted_list_of_set_hd:
  assumes "finite A" "x \<in> A" "\<forall>y \<in> A. x \<le> (y :: 'a :: linorder)"
  shows "sorted_list_of_set A = x # sorted_list_of_set (A - {x})"
proof -
  have "Min A = x" using assms by (intro Min_eqI) auto
  then show ?thesis using sorted_list_of_set_nonempty [OF assms(1)] assms(2) by auto
qed

lemma chain_entities_groups:
  assumes "sorted (map entity_of ms)" and "\<forall>m \<in> set ms. entity_of m \<noteq> [] \<and> is_ok (entity_to_mutation_metadata m)"
  shows "chain_entities hash ms = entities_by_id hash ms"
  using assms
proof (induction ms rule: length_induct)
  case (1 ms)
  show ?case
  proof (cases ms)
    case Nil
    then show ?thesis
      by (subst chain_entities.simps) (simp add: extract_next_entity_def entities_by_id_def)
  next
    case (Cons m ms')
    let ?e = "entity_of m" and ?rest = "filter (\<lambda>x. entity_of x \<noteq> entity_of m) ms"
    have least: "\<forall>x \<in> set ms. ?e \<le> entity_of x" and e: "?e \<noteq> []" using Cons "1.prems" by auto
    have "next_run [] [] [] ms = next_run ?e [] [] ms" using Cons by simp
    then have run: "next_run [] [] [] ms = (Ok (?e, metadata_list (mutations_of ?e ms), fold insert_put (mutations_of ?e ms) []), ?rest)"
      using next_run_takes [OF e, of ms] "1.prems"(2) sorted_groups [OF "1.prems"(1) least] by simp
    have "length ?rest < length ms" using Cons length_filter_le [of "\<lambda>x. entity_of x \<noteq> ?e" ms'] by (simp add: le_imp_less_Suc)
    moreover have "sorted (map entity_of ?rest)" using "1.prems"(1) by (simp add: sorted_filter)
    ultimately have IH: "chain_entities hash ?rest = entities_by_id hash ?rest"
      using "1.IH" "1.prems"(2) by simp
    have ids: "sorted_list_of_set (entity_of ` set ms) = ?e # sorted_list_of_set (entity_of ` set ?rest)"
    proof -
      have "entity_of ` set ms - {?e} = entity_of ` set ?rest" by auto
      then show ?thesis using sorted_list_of_set_hd [of "entity_of ` set ms" ?e] least Cons by auto
    qed
    have same: "mutations_of x ?rest = mutations_of x ms" if "x \<in> entity_of ` set ?rest" for x
      using that by (auto intro: filter_cong)
    have "entities_by_id hash ms =
        and_then (run_entity hash (?e, metadata_list (mutations_of ?e ms), fold insert_put (mutations_of ?e ms) []))
          (\<lambda>y. and_then (entities_by_id hash ?rest) (\<lambda>ys. Ok (y # ys)))"
    proof -
      have "traverse (\<lambda>x. run_entity hash (x, metadata_list (mutations_of x ms), fold insert_put (mutations_of x ms) []))
          (sorted_list_of_set (entity_of ` set ?rest)) = entities_by_id hash ?rest"
        unfolding entities_by_id_def using same by (intro traverse_cong) simp
      then show ?thesis by (simp add: entities_by_id_def [of hash ms] ids)
    qed
    then show ?thesis
      using run IH e by (subst chain_entities.simps)
        (cases "run_entity hash (?e, metadata_list (mutations_of ?e ms), fold insert_put (mutations_of ?e ms) [])",
         simp_all add: extract_next_entity_def)
  qed
qed

text \<open>
  The hypothesis on identifiers is needed: mutations without an entity identifier sort first, and the
  iterator adds them to the entity that follows.
\<close>

lemma empty_id_joins_next:
  assumes "entity_of m = []" "entity_of m' = ''a''" "entity_to_mutation_metadata m = Ok (Some md)" "entity_to_mutation_metadata m' = Ok (Some md')"
  shows "next_run [] [] [] [m, m'] = (Ok (''a'', [md, md'], insert_put m' (insert_put m [])), [])"
  using assms by simp

section \<open>The mutations of a chain\<close>

fun committed_mutation ::
  "(bytes \<Rightarrow> entity_trait entity_mutation option) \<Rightarrow> ablock \<times> chain_operation \<Rightarrow> committed_entity_mutation option" where
  "committed_mutation D (a, m) =
     (case co_operation m of
        OpEntry d \<Rightarrow> map_option (\<lambda>em. \<lparr>cm_block_offset = bh_offset (ab_header a), cm_operation_id = co_operation_id m, cm_mutation = em\<rparr>) (D d)
      | _ \<Rightarrow> None)"

definition committed_mutations :: "(bytes \<Rightarrow> entity_trait entity_mutation option) \<Rightarrow> chain \<Rightarrow> committed_entity_mutation list" where
  "committed_mutations D ch = List.map_filter (committed_mutation D) (chain_ops ch)"

definition entries_decode :: "(bytes \<Rightarrow> entity_trait entity_mutation option) \<Rightarrow> chain \<Rightarrow> bool" where
  "entries_decode D ch \<longleftrightarrow> (\<forall>(a, m) \<in> set (chain_ops ch). \<forall>d. co_operation m = OpEntry d \<longrightarrow> D d \<noteq> None)"

lemma map_filter_append [simp]: "List.map_filter f (xs @ ys) = List.map_filter f xs @ List.map_filter f ys"
  by (induction xs) (auto simp: List.map_filter_simps split: option.splits)

lemma entry_mutations_ok:
  assumes "list_all2 (op_is C) fs ms" and "\<forall>m \<in> set ms. \<forall>d. co_operation m = OpEntry d \<longrightarrow> D d \<noteq> None"
  shows "entry_mutations D (bh_offset (ab_header a)) fs = Ok (List.map_filter (committed_mutation D) (map (Pair a) ms))"
  using assms
proof (induction fs ms rule: list_all2_induct)
  case (Cons f fs m ms)
  then have "tf_reader f = m" by (simp add: op_is_def)
  then show ?case
    using Cons by (cases "co_operation m") (auto simp: List.map_filter_simps split: option.splits)
qed (simp add: List.map_filter_simps)

lemma extract_block_ok:
  assumes b: "block_is C b a" and h: "block_holds C a ms" and D: "\<forall>m \<in> set ms. \<forall>d. co_operation m = OpEntry d \<longrightarrow> D d \<noteq> None"
  shows "extract_block_mutations C D b = Ok (List.map_filter (committed_mutation D) (map (Pair a) ms))"
proof -
  obtain fs where "block_operation_frames C b = Ok fs" "list_all2 (op_is C) fs ms"
    using block_operation_frames_is [OF block_is_reader [OF b] block_is_operations_data [OF b] h] by blast
  then show ?thesis
    using entry_mutations_ok [OF _ D] by (simp add: extract_block_mutations_def block_is_offset [OF b])
qed

lemma chain_mutations_collect:
  assumes "collect_blocks C it st = (Ok bs, st')" and "\<forall>b \<in> set bs. extract_block_mutations C D b = Ok (f b)"
  shows "chain_mutations C D it st = (Ok (concat (map f bs)), st')"
  using assms
proof (induction bs arbitrary: it st)
  case Nil
  then show ?case
    by (subst chain_mutations.simps, subst (asm) collect_blocks.simps)
      (auto simp: result_simps split: prod.splits option.splits result.splits)
next
  case (Cons b bs)
  then obtain it1 st1 where nx: "iter_next C it st = (Some (Ok b), it1, st1)" "collect_blocks C it1 st1 = (Ok bs, st')"
    by (subst (asm) collect_blocks.simps) (auto simp: result_simps split: prod.splits option.splits result.splits)
  then show ?case
    using Cons.IH [OF nx(2)] Cons.prems(2) by (subst chain_mutations.simps) simp
qed

lemma chain_mutations_all:
  assumes "list_all2 (block_is C) bs (blocks_of ch)" and "\<forall>(a, ms) \<in> set ch. block_holds C a ms" and "entries_decode D ch"
  shows "\<exists>f. (\<forall>b \<in> set bs. extract_block_mutations C D b = Ok (f b)) \<and> concat (map f bs) = committed_mutations D ch"
proof -
  define f where "f b = (case extract_block_mutations C D b of Ok ms \<Rightarrow> ms | _ \<Rightarrow> [])" for b
  have "(\<forall>b \<in> set bs. extract_block_mutations C D b = Ok (f b)) \<and> concat (map f bs) = committed_mutations D ch"
    using assms
  proof (induction ch arbitrary: bs)
    case (Cons e ch)
    obtain a ms where e: "e = (a, ms)" by (cases e)
    obtain b bs' where bs: "bs = b # bs'" "block_is C b a" "list_all2 (block_is C) bs' (blocks_of ch)"
      using Cons.prems(1) e by (auto simp: list_all2_Cons2)
    have ops: "chain_ops (e # ch) = map (Pair a) ms @ chain_ops ch" by (simp add: chain_ops_def e)
    have "\<forall>m \<in> set ms. \<forall>d. co_operation m = OpEntry d \<longrightarrow> D d \<noteq> None"
      using Cons.prems(3) by (fastforce simp: entries_decode_def ops)
    then have "extract_block_mutations C D b = Ok (List.map_filter (committed_mutation D) (map (Pair a) ms))"
      using extract_block_ok [OF bs(2)] Cons.prems(2) e by auto
    moreover have "entries_decode D ch" using Cons.prems(3) by (simp add: entries_decode_def ops)
    ultimately show ?case
      using Cons.IH [OF bs(3)] Cons.prems(2) bs(1) by (simp add: f_def committed_mutations_def ops)
  qed (simp add: committed_mutations_def chain_ops_def List.map_filter_simps)
  then show ?thesis by blast
qed

text \<open>
  (C10) An export reads the mutations of the whole chain, sorts them by entity, block and operation, and then gives
  the same entities as grouping the mutations by entity: each entity once, in the order of the identifiers,
  with the traits and dates that the aggregation of exactly its own mutations gives. It needs no more than
  the mutations of one entity at a time.
\<close>

theorem export_groups_by_entity:
  assumes st: "dir_store_holds C E st ch" and D: "entries_decode D ch"
    and ok: "\<forall>m \<in> set (committed_mutations D ch). entity_of m \<noteq> [] \<and> is_ok (entity_to_mutation_metadata m)"
  shows "\<exists>ms st'. chain_entity_mutations C D st = (Ok ms, st') \<and> mset ms = mset (committed_mutations D ch) \<and>
    sorted (map sortable_key ms) \<and> chain_entities hash ms = entities_by_id hash ms"
proof -
  have "chain_ok C ch" by (rule dir.holds_ok [OF st])
  then have blocks: "\<forall>(a, ms) \<in> set ch. block_holds C a ms" by (auto simp: chain_ok_def)
  obtain bs st' where bs: "collect_blocks C (blocks_iter 0) st = (Ok bs, st')" "list_all2 (block_is C) bs (blocks_of ch)"
    using dir.blocks_from_ok [OF st, of 0] by (auto simp: chain_end_def span_of_def)
  obtain f where "\<forall>b \<in> set bs. extract_block_mutations C D b = Ok (f b)" "concat (map f bs) = committed_mutations D ch"
    using chain_mutations_all [OF bs(2) blocks D] by blast
  then have read: "chain_mutations C D (blocks_iter 0) st = (Ok (committed_mutations D ch), st')"
    using chain_mutations_collect [OF bs(1)] by metis
  let ?ms = "sort_key sortable_key (committed_mutations D ch)"
  have "sorted (map sortable_key ?ms)" by simp
  then have "sorted (map entity_of ?ms)"
    by (auto simp: sorted_wrt_map sortable_key_def less_eq_prod_def elim!: sorted_wrt_mono_rel [rotated])
  then have "chain_entities hash ?ms = entities_by_id hash ?ms"
    using ok by (intro chain_entities_groups) simp_all
  then show ?thesis
    using read by (simp add: chain_entity_mutations_def)
qed

definition ex_tombstones :: "bytes \<Rightarrow> entity_trait entity_mutation option" where
  "ex_tombstones d = Some \<lparr>em_entity_id = ''a'', em_mutation = Some DeleteEntity\<rparr>"

theorem export_groups_by_entity_witness:
  "\<exists>(st :: (nat \<times> nat) list dir_store) ms st'. dir_store_holds example_codec example_ext st [(example_genesis, example_ops)] \<and>
     chain_entity_mutations example_codec ex_tombstones st = (Ok ms, st') \<and> length ms = 2 \<and>
     chain_entities sum_list ms = entities_by_id sum_list ms"
proof -
  obtain st :: "(nat \<times> nat) list dir_store" where st: "dir_store_holds example_codec example_ext st [(example_genesis, example_ops)]"
    by (rule example_chain_held)
  have ops: "chain_ops [(example_genesis, example_ops)] = [(example_genesis, example_op 3), (example_genesis, example_op 5)]"
    by (simp add: chain_ops_def example_ops_def)
  have D: "entries_decode ex_tombstones [(example_genesis, example_ops)]"
    by (simp add: entries_decode_def ex_tombstones_def case_prod_beta)
  have ms: "committed_mutations ex_tombstones [(example_genesis, example_ops)] =
      map (\<lambda>i. \<lparr>cm_block_offset = bh_offset (ab_header example_genesis), cm_operation_id = i,
         cm_mutation = \<lparr>em_entity_id = ''a'', em_mutation = Some DeleteEntity\<rparr>\<rparr>) [3, 5]"
    by (simp add: committed_mutations_def ops ex_tombstones_def example_op_def List.map_filter_simps)
  obtain ms st' where r: "chain_entity_mutations example_codec ex_tombstones st = (Ok ms, st')"
      "mset ms = mset (committed_mutations ex_tombstones [(example_genesis, example_ops)])"
      "chain_entities sum_list ms = entities_by_id sum_list ms"
    using export_groups_by_entity [OF st D, of sum_list] unfolding ms by (auto simp: entity_to_mutation_metadata_def)
  from r(2) have "length ms = 2" unfolding ms by (metis length_map list.size(3,4) numeral_2_eq_2 size_mset One_nat_def plus_1_eq_Suc add.commute)
  with st r show ?thesis by blast
qed

end
