(* ===== verification/Spec2Isabelle.thy ===== *)
theory Spec2Isabelle
  imports Exo_Block_Props Exo_Segment_Props Exo_Index_Props Exo_Directory_Write Exo_Chain_Store
    Exo_Pending_Sync_Props Exo_Chain_Sync_Props Exo_Commit_Props Exo_Handle_Props
    Exo_Gc_Props Exo_Mutation_Tracker_Props Exo_Mutation_Index_Props Exo_Entity_Index_Props Exo_Export_Props
begin

text \<open>
  \<^bold>\<open>The program.\<close> Exocore is a framework for applications whose data is replicated between the nodes of
  a cell. Its \<open>chain\<close> crate replicates operations: an operation is first pending, the nodes agree on a
  block of pending operations by signatures, and the block is appended to the chain of every node. Its
  \<open>store\<close> crate reads the operations as mutations of entities and answers queries about them. Both rest
  on the \<open>core\<close> crate (frames, cells, time). This development models the whole chain crate, the parts of
  the core crate it uses, and the parts of the store crate that index, aggregate and collect mutations.

  \<^bold>\<open>How code is modelled.\<close> A struct is a record, an enum a datatype, a method a function with the state
  passed explicitly. A fallible call returns \<open>result\<close>: a value, an error value, or \<open>Panic\<close>, so that a
  slice out of range, an \<open>unwrap\<close>, a failed assertion and an overflow that would panic are values of the
  model. A method on a mutable state that may fail is a \<open>sop\<close>: it returns the outcome and the state after
  it, also on an error. Loops are structural recursions or functions with a termination proof, or partial
  functions into an option whose value is shown to exist; no fuel is used. Counters that wrap around (access counters, timestamps) are words; other integers are natural
  numbers, with the bounds that matter as hypotheses (sizes below \<open>2\<^sup>32\<close> where a frame stores them).
  A \<open>BTreeMap\<close> is a sorted association list, a \<open>HashMap\<close> an association list in an arbitrary order of
  iteration. Time is a parameter of a call. Code outside the repository is a parameter: the multihash and
  the Cap'n Proto encoding (\<open>codec\<close>), the sorted index files (\<open>ext_index\<close>), the bounded channels
  (\<open>channel_lib\<close>), the checksum over operations, the full-text engine and the cache of the mutation index
  (\<open>index_lib\<close>). What is assumed of them is stated where it is used
  (round trip of the encoding, a built index finds its entries, a channel keeps the order), and the
  instances of \<open>Exo_Example\<close> meet it.

  \<^bold>\<open>Theories and sources.\<close>
  \<^item> \<open>Exo_Prelude\<close>: outcomes, slices, little-endian numbers, state operations. \<open>Exo_Maps\<close>: the maps, with
    the locales \<open>key_map\<close> and \<open>ordered_key_map\<close> and their interpretations.
  \<^item> \<open>Exo_Framing\<close> (\<open>core/src/framing\<close>): readers and builders of frames as trees of the Rust types.
  \<^item> \<open>Exo_Data\<close> (\<open>chain/src/data.rs\<close>, \<open>chain/src/chain/data.rs\<close>): sources of bytes, binary search.
  \<^item> \<open>Exo_Cell\<close> (\<open>core/src/cell/cell_nodes.rs\<close>): nodes, roles and the quorum.
  \<^item> \<open>Exo_Time\<close> (\<open>core/src/time\<close>, \<open>core/src/utils/backoff.rs\<close>, \<open>chain/src/engine/request_tracker.rs\<close>): timestamps, the
    clock as a step relation of threads, back-off, and when requests are sent.
  \<^item> \<open>Exo_Block\<close>, \<open>Exo_Block_Facts\<close>, \<open>Exo_Block_Props\<close> (\<open>chain/src/operation.rs\<close>, \<open>block.rs\<close>): operations and
    blocks; \<open>Exo_Example\<close> is a concrete encoding.
  \<^item> \<open>Exo_Tracker\<close>, \<open>Exo_Segment\<close> with \<open>_Facts\<close> and \<open>_Props\<close>, \<open>Exo_Op_Index\<close>, \<open>Exo_Index_Props\<close>, \<open>Exo_Directory\<close> with
    \<open>_Facts\<close> and \<open>_Write\<close>, \<open>Exo_Chain_Store\<close> (\<open>chain/src/chain\<close>): the chain store; the trait \<open>ChainStore\<close> is
    the locale \<open>chain_store\<close>, interpreted on the directory store.
  \<^item> \<open>Exo_Pending\<close> (\<open>chain/src/pending\<close>): the trait \<open>PendingStore\<close> is the locale \<open>pending_ops\<close>, interpreted on
    the in-memory store.
  \<^item> \<open>Exo_Sync_Context\<close>, \<open>Exo_Pending_Sync\<close> with \<open>_Facts\<close> and \<open>_Props\<close>, \<open>Exo_Chain_Sync\<close> with \<open>_Props\<close>
    (\<open>chain/src/engine/pending_sync\<close>, \<open>chain_sync\<close>): the two synchronisers.
  \<^item> \<open>Exo_Pending_Blocks\<close>, \<open>Exo_Commit\<close>, \<open>Exo_Commit_Props\<close> (\<open>chain/src/engine/commit_manager\<close>).
  \<^item> \<open>Exo_Engine\<close>, \<open>Exo_Handle\<close> with \<open>_Props\<close> (\<open>chain/src/engine/mod.rs\<close>, \<open>handle.rs\<close>): the engine that calls
    the parts above, and the handle of its clients.
  \<^item> \<open>Exo_Ordering\<close> (\<open>store/src/ordering.rs\<close>, \<open>local/top_results.rs\<close>), \<open>Exo_Mutation\<close> (\<open>store/src/mutation.rs\<close>,
    \<open>local/mutation_index/results.rs\<close>), \<open>Exo_Aggregator\<close> and \<open>Exo_Gc\<close> with \<open>_Props\<close>
    (\<open>store/src/local/entity_index/aggregator.rs\<close>, \<open>gc.rs\<close>), \<open>Exo_Mutation_Tracker\<close> with \<open>_Props\<close>
    (\<open>store/src/local/mutation_tracker.rs\<close>, \<open>watched_queries.rs\<close>).
  \<^item> \<open>Exo_Mutation_Index\<close> with \<open>_Props\<close> (\<open>store/src/local/mutation_index\<close>): documents, batches and the cached
    mutations of an entity. \<open>Exo_Entity_Index\<close> with \<open>_Facts\<close> and \<open>_Props\<close> (\<open>store/src/local/entity_index/mod.rs\<close>): the chain and the
    pending index over the handle of the engine, whose contract is the locale \<open>chain_reader\<close>, interpreted on
    the model of the handle. \<open>Exo_Export\<close> with \<open>_Props\<close> (\<open>entity_index/iterator.rs\<close>): the entities of a chain for exports.

  \<^bold>\<open>What is shown.\<close>
  \<^item> Frames and blocks: building in memory and writing agree; a block is read back forwards and
    backwards; a block built on another extends it; what \<open>validate\<close> decides; bytes of another node never
    make a reader panic.
  \<^item> Chain store: it refines the list of its blocks under writing, reading, iterating in both directions and
    finding a block by operation; a segment that holds blocks is the same after it is opened again; opening a
    segment leaves as many mapped as the limit asks for. Truncation does not refine the list, see below.
  \<^item> Pending store: it refines a map from identifiers to operations; its iteration is complete and ordered.
  \<^item> Synchronisers: the ranges of a request split the operations, each into one range; equal stores that
    compare from the same height exchange nothing; a
    difference sends exactly what is missing; a download ends, after at most as many rounds as there are
    missing blocks, with the whole chain; the leader has a longest chain
    among the nodes whose last common block is known.
  \<^item> Commit manager: exactly one node has the turn, each deciding with its own copy of the cell; a node
    signs only what it checked; a block with a quorum is appended and its operations committed, and without one nothing happens; quorums intersect.
  \<^item> Engine: no event is lost without a discontinuity mark; the handle finds every operation with its
    status, reads back what was written, and iterates over the whole chain.
  \<^item> Store: mutations in any order, with the tombstones of a whole entity in their place, aggregate to the traits
    that the latest mutations make; a garbage collection pass spares active
    operations; the tracker answers a request exactly when its operations are indexed; the results chosen
    with an early exit are the best ones; the mutation index, as long as no batch fails, returns what was put
    into it and not deleted, from its cache or not; when blocks move to the chain index, only the operations that
    they delete disappear; after a gap in the events the entity index shows every operation of
    the chain and of the pending store that no indexed block deleted; an export gives what grouping the mutations by entity
    gives. The conditions on the batches are in the text of each property.
  \<^item> Where the code does not do what it means to, the counterexample is a theorem of kind error: one node
    makes a quorum, unvalidated blocks of a leader are written, a malformed range stops the engine, a write
    after a truncation is lost, late commits make the garbage collector panic, operations whose
    events come late are in both indices and returned twice. Lemmas show that a header hash is not checked, that
    timestamps are not unique, that a late put brings a deleted entity back, and that a failed batch leaves a stale result in the cache.

  \<^bold>\<open>Not modelled.\<close> The operating system is assumed not to fail; futures and tasks are modelled as turns of
  the engine's loops, not as schedulers. Queries of the mutation index and its schema are calls of tantivy;
  the search over both indices ranks their scores. The local and remote store tasks, the transport, the discovery
  service, the application host, the clients, the command line and the generated protocol code are input,
  output or glue around libraries. Floating point boosts of scores and the projection of fields of
  reflected messages are left out.
\<close>

end
